(* ===== verification/Prelude.thy ===== *)
theory Prelude
  imports Main "HOL-Library.Word" "HOL-Library.Multiset"
begin

text \<open>
  Shared vocabulary: the C integer types as machine words, byte buffers as lists with
  reads and writes at an offset (\<open>memcpy\<close> into and out of a fixed-size array), and the
  generic lemmas the component theories share.
\<close>

unbundle bit_operations_syntax

type_synonym u8 = "8 word"
type_synonym u16 = "16 word"
type_synonym u32 = "32 word"
type_synonym u64 = "64 word"
type_synonym bytes = "u8 list"

named_theorems buf_simps \<open>reads and writes at offsets of a fixed-size buffer\<close>
named_theorems wire_defs \<open>the byte-order accessors and wire offsets, unfolded\<close>

section \<open>Buffers\<close>

text \<open>\<open>put_at off bs buf\<close> is \<open>memcpy(buf + off, bs, length bs)\<close> for a write that stays
  inside \<open>buf\<close>; \<open>bytes_at off n buf\<close> reads \<open>n\<close> bytes from \<open>buf + off\<close>.\<close>

definition put_at :: "nat \<Rightarrow> 'a list \<Rightarrow> 'a list \<Rightarrow> 'a list" where
  "put_at off bs buf = take off buf @ bs @ drop (off + length bs) buf"

definition bytes_at :: "nat \<Rightarrow> nat \<Rightarrow> 'a list \<Rightarrow> 'a list" where
  "bytes_at off n buf = take n (drop off buf)"

lemma length_put_at [simp]:
  "off + length bs \<le> length buf \<Longrightarrow> length (put_at off bs buf) = length buf"
  by (simp add: put_at_def)

lemma length_bytes_at [simp]: "off + n \<le> length buf \<Longrightarrow> length (bytes_at off n buf) = n"
  by (simp add: bytes_at_def)

lemma bytes_at_put_at_same [buf_simps]:
  "off + length bs \<le> length buf \<Longrightarrow> n = length bs \<Longrightarrow> bytes_at off n (put_at off bs buf) = bs"
  by (simp add: bytes_at_def put_at_def)

lemma bytes_at_put_at_before [buf_simps]:
  "off + length bs \<le> length buf \<Longrightarrow> i + n \<le> off
   \<Longrightarrow> bytes_at i n (put_at off bs buf) = bytes_at i n buf"
  by (simp add: bytes_at_def put_at_def take_drop)

lemma bytes_at_put_at_after [buf_simps]:
  "off + length bs \<le> length buf \<Longrightarrow> off + length bs \<le> i
   \<Longrightarrow> bytes_at i n (put_at off bs buf) = bytes_at i n buf"
  by (simp add: bytes_at_def put_at_def)

lemma bytes_at_replicate [buf_simps]:
  "bytes_at i n (replicate m x) = replicate (min n (m - i)) x"
  by (simp add: bytes_at_def)

lemma bytes_at_all [simp]: "n = length xs \<Longrightarrow> bytes_at 0 n xs = xs"
  by (simp add: bytes_at_def)

lemma bytes_at_append_left:
  "off + n \<le> length xs \<Longrightarrow> bytes_at off n (xs @ ys) = bytes_at off n xs"
  by (simp add: bytes_at_def)

lemma nth_put_at:
  "off + length bs \<le> length buf \<Longrightarrow> i < length buf \<Longrightarrow>
   put_at off bs buf ! i = (if off \<le> i \<and> i < off + length bs then bs ! (i - off) else buf ! i)"
  by (auto simp: put_at_def nth_append min_def)

lemma nth_put_at_outside [buf_simps]:
  "off + length bs \<le> length buf \<Longrightarrow> i < length buf \<Longrightarrow> i < off \<or> off + length bs \<le> i \<Longrightarrow>
   put_at off bs buf ! i = buf ! i"
  by (auto simp: nth_put_at)

lemma nth_put_at_inside [buf_simps]:
  "off + length bs \<le> length buf \<Longrightarrow> off \<le> i \<Longrightarrow> i < off + length bs \<Longrightarrow>
   put_at off bs buf ! i = bs ! (i - off)"
  by (auto simp: nth_put_at)

lemma put_at_twice: "length bs = length cs \<Longrightarrow> off + length cs \<le> length buf
   \<Longrightarrow> put_at off bs (put_at off cs buf) = put_at off bs buf"
  by (simp add: put_at_def)

lemma take_put_at_before [buf_simps]:
  "n \<le> off \<Longrightarrow> off + length bs \<le> length buf \<Longrightarrow> take n (put_at off bs buf) = take n buf"
  by (simp add: put_at_def)

lemma take_put_at_end:
  "off + length bs \<le> length buf \<Longrightarrow>
   take (off + length bs) (put_at off bs buf) = take off buf @ bs"
  by (simp add: put_at_def)

section \<open>Words\<close>

text \<open>C's conversions between an \<open>int32_t\<close> or \<open>int\<close> and the unsigned wire value.\<close>

abbreviation i32 :: "u32 \<Rightarrow> int" where "i32 w \<equiv> sint w"

definition u32_of_int :: "int \<Rightarrow> u32" where
  "u32_of_int i = word_of_int i"

lemma i32_u32_of_int [simp]: "- (2 ^ 31) \<le> i \<Longrightarrow> i < 2 ^ 31 \<Longrightarrow> i32 (u32_of_int i) = i"
  by (simp add: u32_of_int_def signed_take_bit_int_eq_self sint_sbintrunc')

lemma u32_of_i32 [simp]: "u32_of_int (i32 w) = w"
  by (simp add: u32_of_int_def)

lemma not_bit_u8 [simp]: "8 \<le> i \<Longrightarrow> \<not> bit (b :: u8) i"
  using bit_imp_le_length by fastforce

lemma take_bit_word_full [simp]: "LENGTH('a) \<le> n \<Longrightarrow> take_bit n (w :: 'a::len word) = w"
  by (simp add: take_bit_word_eq_self)

section \<open>Lists\<close>

lemma replicate_mset_filter: "filter_mset P (mset xs) = mset (filter P xs)"
  by simp

lemma last_filter_last: "xs \<noteq> [] \<Longrightarrow> P (last xs) \<Longrightarrow> filter P xs \<noteq> [] \<and> last (filter P xs) = last xs"
  by (induction xs) (auto split: if_splits)

section \<open>C strings\<close>

text \<open>\<open>snprintf(field, n, "%s", s)\<close>: what is kept of \<open>s\<close>; and a fixed field read up to its NUL.\<close>

definition snprintf_s :: "nat \<Rightarrow> bytes \<Rightarrow> bytes" where
  "snprintf_s n s = take (n - 1) s"

definition c_string :: "bytes \<Rightarrow> bytes" where
  "c_string f = takeWhile (\<lambda>b. b \<noteq> 0) f"

lemma length_snprintf_s [simp]: "length (snprintf_s n s) = min (length s) (n - 1)"
  by (simp add: snprintf_s_def)

end
