(* ===== verification/Byteorder.thy ===== *)
theory Byteorder
  imports Prelude
begin

text \<open>
  The byte-order accessors of \<open>include/usbip.h\<close>. The macros \<open>USB_BYTEORDER_GET\<close> and
  \<open>USB_BYTEORDER_PUT\<close> are one pair of functions on the bytes of a word, lowest byte first
  (\<open>le_bytes\<close>, \<open>le_of\<close>); the big-endian accessors reverse them. Every accessor reads or
  writes at an offset of a buffer, as the C code does with \<open>buf + off\<close>. The locale
  \<open>field_codec\<close> states once what a fixed-width field promises, and every accessor pair
  interprets it.
\<close>

section \<open>Words as bytes\<close>

fun le_bytes :: "nat \<Rightarrow> 'a::len word \<Rightarrow> bytes" where
  "le_bytes 0 v = []"
| "le_bytes (Suc n) v = ucast v # le_bytes n (drop_bit 8 v)"

fun le_of :: "bytes \<Rightarrow> 'a::len word" where
  "le_of [] = 0"
| "le_of (b # bs) = ucast b OR push_bit 8 (le_of bs)"

lemma length_le_bytes [simp]: "length (le_bytes n v) = n"
  by (induction n arbitrary: v) auto

lemma le_of_le_bytes: "le_of (le_bytes n v) = take_bit (8 * n) (v :: 'a::len word)"
proof (induction n arbitrary: v)
  case 0
  show ?case by simp
next
  case (Suc n)
  show ?case
    unfolding le_bytes.simps le_of.simps Suc.IH
  proof (rule bit_word_eqI)
    fix i assume "i < LENGTH('a)"
    then show "bit (ucast (ucast v :: u8) OR push_bit 8 (take_bit (8 * n) (drop_bit 8 v))) i
      = bit (take_bit (8 * Suc n) v) i"
      by (cases "i < 8") (auto simp: bit_simps)
  qed
qed

lemma le_of_high_bits:
  assumes "8 * length bs \<le> i"
  shows "\<not> bit (le_of bs :: 'a::len word) i"
  using assms
proof (induction bs arbitrary: i)
  case Nil
  then show ?case by simp
next
  case (Cons b bs)
  then show ?case by (auto simp: bit_simps)
qed

lemma le_bytes_le_of:
  "8 * length bs \<le> LENGTH('a) \<Longrightarrow> le_bytes (length bs) (le_of bs :: 'a::len word) = bs"
proof (induction bs)
  case Nil
  show ?case by simp
next
  case (Cons b bs)
  let ?v = "le_of bs :: 'a word"
  have hd: "ucast (ucast b OR push_bit 8 ?v) = b"
    by (rule bit_word_eqI) (use Cons.prems in \<open>auto simp: bit_simps\<close>)
  have tl: "drop_bit 8 (ucast b OR push_bit 8 ?v) = ?v"
  proof (rule bit_word_eqI)
    fix i assume "i < LENGTH('a)"
    then show "bit (drop_bit 8 (ucast b OR push_bit 8 ?v)) i = bit ?v i"
      using le_of_high_bits [of bs i, where 'a = 'a] Cons.prems
      by (cases "i < 8 * length bs") (auto simp: bit_simps)
  qed
  show ?case unfolding list.size add_0 plus_nat.simps le_of.simps
    using Cons by (simp only: add_Suc_right add_0_right le_bytes.simps hd tl) simp
qed

lemma le_bytes_numeral:
  "le_bytes 2 v = [ucast v, ucast (drop_bit 8 v)]"
  "le_bytes 3 v = [ucast v, ucast (drop_bit 8 v), ucast (drop_bit 16 v)]"
  "le_bytes 4 v = [ucast v, ucast (drop_bit 8 v), ucast (drop_bit 16 v), ucast (drop_bit 24 v)]"
  by (simp_all add: numeral_eq_Suc [of "Num.Bit0 Num.One"] numeral_eq_Suc [of "Num.Bit1 Num.One"]
        numeral_eq_Suc [of "Num.Bit0 (Num.Bit0 Num.One)"] del: drop_bit_Suc)

section \<open>The accessors\<close>

definition usb_get_le16 :: "bytes \<Rightarrow> nat \<Rightarrow> u16" where
  "usb_get_le16 buf off = le_of (bytes_at off 2 buf)"
definition usb_get_le32 :: "bytes \<Rightarrow> nat \<Rightarrow> u32" where
  "usb_get_le32 buf off = le_of (bytes_at off 4 buf)"
definition usb_get_le64 :: "bytes \<Rightarrow> nat \<Rightarrow> u64" where
  "usb_get_le64 buf off = le_of (bytes_at off 8 buf)"
definition usb_put_le16 :: "nat \<Rightarrow> u16 \<Rightarrow> bytes \<Rightarrow> bytes" where
  "usb_put_le16 off v buf = put_at off (le_bytes 2 v) buf"
definition usb_put_le32 :: "nat \<Rightarrow> u32 \<Rightarrow> bytes \<Rightarrow> bytes" where
  "usb_put_le32 off v buf = put_at off (le_bytes 4 v) buf"
definition usb_put_le64 :: "nat \<Rightarrow> u64 \<Rightarrow> bytes \<Rightarrow> bytes" where
  "usb_put_le64 off v buf = put_at off (le_bytes 8 v) buf"

definition usb_get_be16 :: "bytes \<Rightarrow> nat \<Rightarrow> u16" where
  "usb_get_be16 buf off = le_of (rev (bytes_at off 2 buf))"
definition usb_get_be32 :: "bytes \<Rightarrow> nat \<Rightarrow> u32" where
  "usb_get_be32 buf off = le_of (rev (bytes_at off 4 buf))"
definition usb_get_be64 :: "bytes \<Rightarrow> nat \<Rightarrow> u64" where
  "usb_get_be64 buf off = le_of (rev (bytes_at off 8 buf))"
definition usb_put_be16 :: "nat \<Rightarrow> u16 \<Rightarrow> bytes \<Rightarrow> bytes" where
  "usb_put_be16 off v buf = put_at off (rev (le_bytes 2 v)) buf"
definition usb_put_be32 :: "nat \<Rightarrow> u32 \<Rightarrow> bytes \<Rightarrow> bytes" where
  "usb_put_be32 off v buf = put_at off (rev (le_bytes 4 v)) buf"
definition usb_put_be64 :: "nat \<Rightarrow> u64 \<Rightarrow> bytes \<Rightarrow> bytes" where
  "usb_put_be64 off v buf = put_at off (rev (le_bytes 8 v)) buf"

text \<open>24-bit fields are carried in a 32-bit word whose top byte is zero.\<close>

definition usb_get_le24 :: "bytes \<Rightarrow> nat \<Rightarrow> u32" where
  "usb_get_le24 buf off = ucast (buf ! off) OR push_bit 8 (ucast (buf ! (off + 1)))
     OR push_bit 16 (ucast (buf ! (off + 2)))"
definition usb_get_be24 :: "bytes \<Rightarrow> nat \<Rightarrow> u32" where
  "usb_get_be24 buf off = push_bit 16 (ucast (buf ! off)) OR push_bit 8 (ucast (buf ! (off + 1)))
     OR ucast (buf ! (off + 2))"
definition usb_put_le24 :: "nat \<Rightarrow> u32 \<Rightarrow> bytes \<Rightarrow> bytes" where
  "usb_put_le24 off v buf = buf[off := ucast v, off + 1 := ucast (drop_bit 8 v),
     off + 2 := ucast (drop_bit 16 v)]"
definition usb_put_be24 :: "nat \<Rightarrow> u32 \<Rightarrow> bytes \<Rightarrow> bytes" where
  "usb_put_be24 off v buf = buf[off := ucast (drop_bit 16 v), off + 1 := ucast (drop_bit 8 v),
     off + 2 := ucast v]"

text \<open>The literal byte pairs of descriptor initialisers, and the halves of a 16-bit field.\<close>

definition USB_U16LE :: "u16 \<Rightarrow> bytes" where
  "USB_U16LE x = [ucast (x AND 0xff), ucast ((drop_bit 8 x) AND 0xff)]"
definition USB_U16_LSB :: "u16 \<Rightarrow> u8" where
  "USB_U16_LSB x = ucast (x AND 0xff)"
definition USB_U16_MSB :: "u16 \<Rightarrow> u8" where
  "USB_U16_MSB x = ucast ((drop_bit 8 x) AND 0xff)"

lemmas [wire_defs] = usb_get_le16_def usb_get_le32_def usb_get_le64_def
  usb_put_le16_def usb_put_le32_def usb_put_le64_def
  usb_get_be16_def usb_get_be32_def usb_get_be64_def
  usb_put_be16_def usb_put_be32_def usb_put_be64_def

lemma le_of_full [simp]:
  "le_of (le_bytes 2 (v16 :: u16)) = v16"
  "le_of (le_bytes 4 (v32 :: u32)) = v32"
  "le_of (le_bytes 8 (v64 :: u64)) = v64"
  by (simp_all add: le_of_le_bytes)

lemma ff_is_mask: "(0xff :: u16) = mask 8"
  by (simp add: mask_eq_exp_minus_1)

lemma le_of_zeros [simp]: "le_of (replicate n 0) = 0"
  by (induction n) simp_all

lemma USB_U16_halves [simp]: "USB_U16_LSB x = ucast x" "USB_U16_MSB x = ucast (drop_bit 8 x)"
  by (auto intro!: bit_word_eqI simp: USB_U16_LSB_def USB_U16_MSB_def ff_is_mask bit_simps)

lemma USB_U16LE_eq: "USB_U16LE x = le_bytes 2 x"
  by (simp add: USB_U16LE_def le_bytes_numeral
        USB_U16_halves [unfolded USB_U16_LSB_def USB_U16_MSB_def])

lemma length_USB_U16LE [simp]: "length (USB_U16LE x) = 2"
  by (simp add: USB_U16LE_def)

lemma length_usb_put [simp]:
  "off + 2 \<le> length buf \<Longrightarrow> length (usb_put_le16 off v16 buf) = length buf"
  "off + 4 \<le> length buf \<Longrightarrow> length (usb_put_le32 off v32 buf) = length buf"
  "off + 8 \<le> length buf \<Longrightarrow> length (usb_put_le64 off v64 buf) = length buf"
  "off + 2 \<le> length buf \<Longrightarrow> length (usb_put_be16 off v16 buf) = length buf"
  "off + 4 \<le> length buf \<Longrightarrow> length (usb_put_be32 off v32 buf) = length buf"
  "off + 8 \<le> length buf \<Longrightarrow> length (usb_put_be64 off v64 buf) = length buf"
  "length (usb_put_le24 off v32 buf) = length buf"
  "length (usb_put_be24 off v32 buf) = length buf"
  by (simp_all add: wire_defs usb_put_le24_def usb_put_be24_def)

section \<open>What a fixed-width field promises\<close>

locale field_codec =
  fixes width :: nat and enc :: "'v \<Rightarrow> bytes" and dec :: "bytes \<Rightarrow> 'v"
  assumes enc_length: "length (enc v) = width"
    and dec_enc: "dec (enc v) = v"
begin

lemma get_put_same:
  "off + width \<le> length buf \<Longrightarrow> dec (bytes_at off width (put_at off (enc v) buf)) = v"
  by (simp add: bytes_at_put_at_same enc_length dec_enc)

lemma get_put_disjoint:
  "off + width \<le> length buf \<Longrightarrow> i + n \<le> off \<or> off + width \<le> i
   \<Longrightarrow> bytes_at i n (put_at off (enc v) buf) = bytes_at i n buf"
  by (auto simp: bytes_at_put_at_before bytes_at_put_at_after enc_length)

lemma enc_inj: "enc v = enc w \<Longrightarrow> v = w"
  by (metis dec_enc)

text \<open>A sequence of fields decodes chunk by chunk, as an array of descriptors does.\<close>

lemma decode_sequence:
  "i < length vs \<Longrightarrow> dec (bytes_at (i * width) width (concat (map enc vs) @ rest)) = vs ! i"
proof (induction vs arbitrary: i)
  case Nil
  then show ?case by simp
next
  case (Cons v vs)
  show ?case
  proof (cases i)
    case 0
    then show ?thesis by (simp add: bytes_at_def enc_length dec_enc)
  next
    case (Suc j)
    then have "bytes_at (i * width) width (concat (map enc (v # vs)) @ rest)
        = bytes_at (j * width) width (concat (map enc vs) @ rest)"
      by (simp add: bytes_at_def enc_length add.commute)
    then show ?thesis using Cons Suc by simp
  qed
qed

lemma length_concat_enc: "length (concat (map enc vs)) = width * length vs"
  by (induction vs) (simp_all add: enc_length)

end

interpretation le16: field_codec 2 "le_bytes 2 :: u16 \<Rightarrow> bytes" le_of
  by unfold_locales simp_all
interpretation le32: field_codec 4 "le_bytes 4 :: u32 \<Rightarrow> bytes" le_of
  by unfold_locales simp_all
interpretation le64: field_codec 8 "le_bytes 8 :: u64 \<Rightarrow> bytes" le_of
  by unfold_locales simp_all
interpretation be16: field_codec 2 "\<lambda>v :: u16. rev (le_bytes 2 v)" "\<lambda>bs. le_of (rev bs)"
  by unfold_locales simp_all
interpretation be32: field_codec 4 "\<lambda>v :: u32. rev (le_bytes 4 v)" "\<lambda>bs. le_of (rev bs)"
  by unfold_locales simp_all
interpretation be64: field_codec 8 "\<lambda>v :: u64. rev (le_bytes 8 v)" "\<lambda>bs. le_of (rev bs)"
  by unfold_locales simp_all

lemmas [buf_simps] = le16.enc_length le32.enc_length le64.enc_length
  be16.enc_length be32.enc_length be64.enc_length

end
