(* ===== verification/Usb_Types.thy ===== *)
theory Usb_Types
  imports Byteorder
begin

text \<open>
  The role-neutral USB vocabulary of \<open>include/usbip.h\<close> and the wire constants and records of
  \<open>src/usbip_device_internal.h\<close>: request and descriptor codes, error codes, the SETUP packet,
  the URB and the isochronous packet descriptor.
\<close>

section \<open>Constants\<close>

datatype usb_dir = USB_OUT | USB_IN
datatype usb_xfer_type = USB_CONTROL | USB_ISO | USB_BULK | USB_INTR
datatype usb_speed = USB_SPEED_LOW | USB_SPEED_FULL | USB_SPEED_HIGH | USB_SPEED_SUPER

abbreviation (input) USB_SUCCESS :: int where "USB_SUCCESS \<equiv> 0"
abbreviation (input) USB_ERROR_IO :: int where "USB_ERROR_IO \<equiv> - 1"
abbreviation (input) USB_ERROR_INVALID_PARAM :: int where "USB_ERROR_INVALID_PARAM \<equiv> - 2"
abbreviation (input) USB_ERROR_NO_DEVICE :: int where "USB_ERROR_NO_DEVICE \<equiv> - 4"
abbreviation (input) USB_ERROR_NOT_FOUND :: int where "USB_ERROR_NOT_FOUND \<equiv> - 5"
abbreviation (input) USB_ERROR_TIMEOUT :: int where "USB_ERROR_TIMEOUT \<equiv> - 7"
abbreviation (input) USB_ERROR_PIPE :: int where "USB_ERROR_PIPE \<equiv> - 9"
abbreviation (input) USB_ERROR_NO_MEM :: int where "USB_ERROR_NO_MEM \<equiv> - 11"
abbreviation (input) USB_ERROR_OTHER :: int where "USB_ERROR_OTHER \<equiv> - 99"

text \<open>The STALL status of the wire (\<open>-EPIPE\<close>), and the status of an unknown endpoint.\<close>

abbreviation (input) USBIP_STATUS_STALL :: int where "USBIP_STATUS_STALL \<equiv> - 32"
abbreviation (input) USBIP_STATUS_NODEV :: int where "USBIP_STATUS_NODEV \<equiv> - 19"

abbreviation (input) USBIP_CMD_SUBMIT :: u32 where "USBIP_CMD_SUBMIT \<equiv> 1"
abbreviation (input) USBIP_CMD_UNLINK :: u32 where "USBIP_CMD_UNLINK \<equiv> 2"
abbreviation (input) USBIP_RET_SUBMIT :: u32 where "USBIP_RET_SUBMIT \<equiv> 3"
abbreviation (input) USBIP_RET_UNLINK :: u32 where "USBIP_RET_UNLINK \<equiv> 4"

abbreviation (input) DIR_OUT :: u32 where "DIR_OUT \<equiv> 0"
abbreviation (input) DIR_IN :: u32 where "DIR_IN \<equiv> 1"

definition usb_dir_code :: "usb_dir \<Rightarrow> u32" where
  "usb_dir_code d = (case d of USB_OUT \<Rightarrow> DIR_OUT | USB_IN \<Rightarrow> DIR_IN)"

definition addr_dir :: "u8 \<Rightarrow> usb_dir" where
  "addr_dir a = (if a AND 0x80 \<noteq> 0 then USB_IN else USB_OUT)"

definition ep_addr :: "nat \<Rightarrow> usb_dir \<Rightarrow> u8" where
  "ep_addr n d = of_nat n OR (case d of USB_IN \<Rightarrow> 0x80 | USB_OUT \<Rightarrow> 0)"

fun usb_xfer_type_of :: "u8 \<Rightarrow> usb_xfer_type" where
  "usb_xfer_type_of b = (let t = b AND 0x03 in
     if t = 0 then USB_CONTROL else if t = 1 then USB_ISO else if t = 2 then USB_BULK else USB_INTR)"

fun speed_code :: "usb_speed \<Rightarrow> nat" where
  "speed_code USB_SPEED_LOW = 0"
| "speed_code USB_SPEED_FULL = 1"
| "speed_code USB_SPEED_HIGH = 2"
| "speed_code USB_SPEED_SUPER = 3"

text \<open>C string literals as the bytes before the NUL.\<close>

definition cstr :: "string \<Rightarrow> bytes" where
  "cstr s = map (\<lambda>c. of_nat (of_char c)) s"

definition usb_strerror :: "int \<Rightarrow> string" where
  "usb_strerror code =
     (if code = USB_SUCCESS then ''success''
      else if code = USB_ERROR_IO then ''I/O error''
      else if code = USB_ERROR_NO_DEVICE then ''no device''
      else if code = USB_ERROR_NOT_FOUND then ''not found''
      else if code = USB_ERROR_TIMEOUT then ''timeout''
      else if code = USB_ERROR_PIPE then ''stall''
      else if code = USB_ERROR_NO_MEM then ''out of memory''
      else ''other error'')"

section \<open>SETUP packets\<close>

record usb_setup =
  bmRequestType :: u8
  bRequest :: u8
  wValue :: u16
  wIndex :: u16
  wLength :: u16

definition USB_SETUP_BYTES :: "u8 \<Rightarrow> u8 \<Rightarrow> u16 \<Rightarrow> u16 \<Rightarrow> u16 \<Rightarrow> bytes" where
  "USB_SETUP_BYTES type request val idx len =
     [type, request] @ USB_U16LE val @ USB_U16LE idx @ USB_U16LE len"

text \<open>\<open>memcpy(&setup, urb->setup, 8)\<close> into the packed little-endian struct.\<close>

definition setup_of_bytes :: "bytes \<Rightarrow> usb_setup" where
  "setup_of_bytes b = \<lparr>bmRequestType = b ! 0, bRequest = b ! 1, wValue = usb_get_le16 b 2,
     wIndex = usb_get_le16 b 4, wLength = usb_get_le16 b 6\<rparr>"

definition USB_REQ_TYPE :: "u8 \<Rightarrow> u8" where
  "USB_REQ_TYPE t = (drop_bit 5 t) AND 3"
definition USB_REQ_RECIP :: "u8 \<Rightarrow> u8" where
  "USB_REQ_RECIP t = t AND 0x1f"
definition req_is_in :: "u8 \<Rightarrow> bool" where
  "req_is_in t \<longleftrightarrow> t AND 0x80 \<noteq> 0"

abbreviation (input) USB_STANDARD :: u8 where "USB_STANDARD \<equiv> 0"
abbreviation (input) USB_CLASS :: u8 where "USB_CLASS \<equiv> 1"
abbreviation (input) USB_VENDOR :: u8 where "USB_VENDOR \<equiv> 2"

lemma setup_of_SETUP_BYTES:
  "setup_of_bytes (USB_SETUP_BYTES t r v i l) =
     \<lparr>bmRequestType = t, bRequest = r, wValue = v, wIndex = i, wLength = l\<rparr>"
  by (simp add: setup_of_bytes_def USB_SETUP_BYTES_def USB_U16LE_eq usb_get_le16_def bytes_at_def)

lemma length_SETUP_BYTES [simp]: "length (USB_SETUP_BYTES t r v i l) = 8"
  by (simp add: USB_SETUP_BYTES_def)

section \<open>URBs\<close>

record iso_pkt =
  ip_offset :: u32
  ip_length :: u32
  ip_actual :: u32
  ip_status :: u32

record urb =
  u_command :: u32
  u_seqnum :: u32
  u_devid :: u32
  u_direction :: u32
  u_ep :: u32
  u_flags :: u32
  u_unlink_seqnum :: u32
  u_length :: int
  u_interval :: int
  u_npkts :: int
  u_iso :: "iso_pkt list"
  u_setup :: bytes
  u_data :: bytes

section \<open>What is sent back to the importer\<close>

text \<open>
  Every reply of the device side is one of three messages on one connection. The device core
  ignores the return code of the send functions, so what it does is the sequence of the
  messages it asks to send; \<open>Wire\<close> turns each into its bytes.
\<close>

record ret_submit =
  r_conn :: nat
  r_seqnum :: u32
  r_devid :: u32
  r_direction :: u32
  r_ep :: u32
  r_status :: int
  r_data :: bytes
  r_actual :: int

datatype msg =
    RetSubmit ret_submit
  | RetIso nat urb bytes
  | RetUnlink nat u32 int

fun msg_seqnum :: "msg \<Rightarrow> u32" where
  "msg_seqnum (RetSubmit r) = r_seqnum r"
| "msg_seqnum (RetIso c u d) = u_seqnum u"
| "msg_seqnum (RetUnlink c s st) = s"

fun msg_conn :: "msg \<Rightarrow> nat" where
  "msg_conn (RetSubmit r) = r_conn r"
| "msg_conn (RetIso c u d) = c"
| "msg_conn (RetUnlink c s st) = c"

end
