(* ===== verification/Device_State.thy ===== *)
theory Device_State
  imports Usb_Types
begin

text \<open>
  The state of the device core: the structs of \<open>src/usbip_device_internal.h\<close>.

  Pointers to endpoints are indices into the endpoint table \<open>eps\<close>, which only grows while a
  device is built and is cut back by \<open>usbip_device_group_abort\<close>. A callback pointer with its
  context is a \<open>handler\<close>: a number the application (or the class layer) gives meaning to
  through the record \<open>callbacks\<close>, the parameter of every definition that calls back.
  \<open>handler option\<close> is \<open>None\<close> where the C pointer is NULL.
\<close>

type_synonym handler = nat

section \<open>Queues\<close>

text \<open>A queued data chunk (\<open>struct dbuf\<close>; \<open>len\<close> is the length of the data) and a parked IN URB.\<close>

record dbuf =
  d_data :: bytes
  d_off :: int

record pending =
  p_conn :: nat
  p_seqnum :: u32
  p_devid :: u32
  p_direction :: u32
  p_ep :: u32
  p_length :: u32

text \<open>
  A singly linked list with a head and a tail pointer. \<open>q_items\<close> is the chain from the head;
  \<open>q_tail\<close> says whether the tail pointer is set. Where it is set it points at the last node
  of the chain, but the code can leave it NULL on a non-empty list (see \<open>unlink_pending\<close>),
  so it is a field of its own and not a function of the chain.
\<close>

record 'a cqueue =
  q_items :: "'a list"
  q_tail :: bool

definition q_empty :: "'a cqueue" where
  "q_empty = \<lparr>q_items = [], q_tail = False\<rparr>"

text \<open>\<open>if (tail) tail->next = n; else head = n; tail = n;\<close>\<close>

definition q_append :: "'a \<Rightarrow> 'a cqueue \<Rightarrow> 'a cqueue" where
  "q_append x q = \<lparr>q_items = (if q_tail q then q_items q @ [x] else [x]), q_tail = True\<rparr>"

text \<open>\<open>head = head->next; if (!head) tail = NULL;\<close> on a non-empty list.\<close>

definition q_pop :: "'a cqueue \<Rightarrow> 'a cqueue" where
  "q_pop q = \<lparr>q_items = tl (q_items q), q_tail = (if tl (q_items q) = [] then False else q_tail q)\<rparr>"

text \<open>Both pointers agree: the well-formed queues.\<close>

definition q_ok :: "'a cqueue \<Rightarrow> bool" where
  "q_ok q \<longleftrightarrow> q_tail q = (q_items q \<noteq> [])"

lemma q_ok_empty [simp]: "q_ok q_empty" "q_items q_empty = []"
  by (simp_all add: q_ok_def q_empty_def)

lemma q_ok_append [simp]: "q_ok (q_append x q)"
  by (simp add: q_ok_def q_append_def)

lemma q_items_append [simp]: "q_ok q \<Longrightarrow> q_items (q_append x q) = q_items q @ [x]"
  by (simp add: q_ok_def q_append_def)

lemma q_ok_pop [simp]: "q_ok q \<Longrightarrow> q_ok (q_pop q)"
  by (cases "q_items q") (auto simp: q_ok_def q_pop_def)

lemma q_items_pop [simp]: "q_items (q_pop q) = tl (q_items q)"
  by (simp add: q_pop_def)

text \<open>The FIFO contract of the two-pointer queue, and what every client of it may assume.\<close>

locale fifo =
  fixes empty :: "'q" and append :: "'a \<Rightarrow> 'q \<Rightarrow> 'q" and pop :: "'q \<Rightarrow> 'q"
    and items :: "'q \<Rightarrow> 'a list" and ok :: "'q \<Rightarrow> bool"
  assumes items_empty: "items empty = []" and ok_empty: "ok empty"
    and items_append: "ok q \<Longrightarrow> items (append x q) = items q @ [x]"
    and ok_append: "ok q \<Longrightarrow> ok (append x q)"
    and items_pop: "ok q \<Longrightarrow> items (pop q) = tl (items q)"
    and ok_pop: "ok q \<Longrightarrow> ok (pop q)"
begin

text \<open>Appending a batch and popping \<open>n\<close> times leaves the items in order.\<close>

lemma fold_append: "ok q \<Longrightarrow> items (fold append xs q) = items q @ xs \<and> ok (fold append xs q)"
  by (induction xs arbitrary: q) (simp_all add: items_append ok_append)

lemma pop_n: "ok q \<Longrightarrow> items ((pop ^^ n) q) = drop n (items q) \<and> ok ((pop ^^ n) q)"
  by (induction n) (simp_all add: items_pop ok_pop drop_Suc flip: tl_drop)

lemma fifo_order:
  "n \<le> length xs \<Longrightarrow> items ((pop ^^ n) (fold append xs empty)) = drop n xs"
  using fold_append [OF ok_empty] pop_n by (simp add: items_empty)

end

interpretation cq: fifo q_empty q_append q_pop q_items q_ok
  by unfold_locales simp_all

section \<open>Endpoints and devices\<close>

abbreviation (input) USBIP_EP_NO_IFNUM :: u8 where "USBIP_EP_NO_IFNUM \<equiv> 0xFF"

record usbip_ep =
  e_addr :: u8
  e_number :: nat
  e_dir :: usb_dir
  e_type :: usb_xfer_type
  e_mps :: u16
  e_interval :: u8
  e_ifnum :: u8
  e_on_out :: "handler option"
  e_on_iso :: "handler option"
  e_in :: "dbuf cqueue"
  e_out :: "dbuf cqueue"
  e_pend :: "pending cqueue"
  e_halted :: bool
  e_iso_deadline_us :: u64

record msos_entry =
  ms_group :: int
  ms_compatible :: bytes
  ms_guid :: "bytes option"

record ifalt =
  ia_ifnum :: u8
  ia_alt :: u8
  ia_off :: nat

record descr_group =
  g_first_ifnum :: u8
  g_n_ifs :: nat
  g_descr_off :: nat

record gmark =
  m_descr_len :: nat
  m_n_ifalts :: nat
  m_n_eps :: nat
  m_n_msos :: nat
  m_n_ifnums :: nat
  m_cur_ifnum :: int
  m_cur_alt :: int
  m_if_present :: "nat \<Rightarrow> bool"
  m_ep_reserved :: "nat \<Rightarrow> usb_dir \<Rightarrow> u8"
  m_ctrl :: "nat \<Rightarrow> handler option"
  m_ctrl_default :: "handler option"
  m_set_alt_tab :: "nat \<Rightarrow> handler option"

record usbip_device =
  vid :: u16
  pid :: u16
  bcdDevice :: u16
  bcdUSB :: u16
  speed :: usb_speed
  dev_class :: u8
  dev_sub :: u8
  dev_proto :: u8
  strings :: "nat \<Rightarrow> bytes option"
  n_strings :: nat
  i_mfr :: u8
  i_prod :: u8
  i_ser :: u8
  msos :: "msos_entry list"
  msos1_vendor :: u8
  msos2_vendor :: u8
  webusb :: bool
  webusb_vendor :: u8
  webusb_url :: bytes
  iso_paced :: bool
  composite :: bool
  descr :: bytes
  descr_len :: nat
  ifalts :: "ifalt list"
  cur_ifnum :: int
  cur_alt :: int
  if_present :: "nat \<Rightarrow> bool"
  n_ifnums :: nat
  config :: u8
  eps :: "usbip_ep list"
  ep_map :: "nat \<Rightarrow> usb_dir \<Rightarrow> nat option"
  ep_reserved :: "nat \<Rightarrow> usb_dir \<Rightarrow> u8"
  ctrl :: "nat \<Rightarrow> handler option"
  ctrl_default :: "handler option"
  set_alt_tab :: "nat \<Rightarrow> handler option"
  groups :: "descr_group list"
  mark :: gmark
  busid :: bytes
  busnum :: u32
  devnum :: u32

text \<open>The sizes of the fixed arrays.\<close>

abbreviation (input) DESCR_MAX :: nat where "DESCR_MAX \<equiv> 2048"
abbreviation (input) IFALTS_MAX :: nat where "IFALTS_MAX \<equiv> 64"
abbreviation (input) EPS_MAX :: nat where "EPS_MAX \<equiv> 128"
abbreviation (input) GROUPS_MAX :: nat where "GROUPS_MAX \<equiv> 8"
abbreviation (input) MSOS_MAX :: nat where "MSOS_MAX \<equiv> 8"
abbreviation (input) STRINGS_MAX :: nat where "STRINGS_MAX \<equiv> 16"

section \<open>Results that may be undefined\<close>

text \<open>
  A C function that returns a value, fails with a code, or reads outside an array
  (\<open>Undefined\<close>: the C standard gives no meaning to what follows).
\<close>

datatype 'a cresult = Ret 'a | Err int | Undefined

section \<open>Callbacks\<close>

text \<open>
  What a callback may do to the core while it runs: queue data on an endpoint
  (\<open>usbip_device_write\<close>) and stall one (\<open>usbip_ep_stall\<close>), in order. Each callback maps the
  application state to the new state and those actions, with its result.
\<close>

datatype ep_act = EpWrite nat bytes | EpStall nat

record 's callbacks =
  cb_control :: "handler \<Rightarrow> 's \<Rightarrow> usb_setup \<Rightarrow> bytes \<Rightarrow> u16 \<Rightarrow> 's \<times> ep_act list \<times> int \<times> bytes"
  cb_set_alt :: "handler \<Rightarrow> 's \<Rightarrow> u8 \<Rightarrow> u8 \<Rightarrow> 's \<times> ep_act list"
  cb_on_out :: "handler \<Rightarrow> 's \<Rightarrow> nat \<Rightarrow> bytes \<Rightarrow> 's \<times> ep_act list"
  cb_on_iso :: "handler \<Rightarrow> 's \<Rightarrow> nat \<Rightarrow> u32 list \<Rightarrow> bytes \<Rightarrow> 's \<times> ep_act list \<times> u32 list \<times> bytes"

section \<open>Looking an endpoint up\<close>

text \<open>\<open>(ep < 16) ? dev->ep_map[ep][direction] : NULL\<close>, with the endpoint number and the
  direction as the importer sent them: the inner array has two entries.\<close>

definition ep_map_at :: "usbip_device \<Rightarrow> u32 \<Rightarrow> u32 \<Rightarrow> nat option cresult" where
  "ep_map_at dev ep direction =
     (if unat ep < 16 then
        (if direction = DIR_OUT then Ret (ep_map dev (unat ep) USB_OUT)
         else if direction = DIR_IN then Ret (ep_map dev (unat ep) USB_IN)
         else Undefined)
      else Ret None)"

text \<open>\<open>ep_by_addr\<close>: the address form a SETUP packet's \<open>wIndex\<close> carries.\<close>

definition ep_by_addr :: "usbip_device \<Rightarrow> u8 \<Rightarrow> nat option" where
  "ep_by_addr dev a = ep_map dev (unat (a AND 0x0f)) (addr_dir a)"

definition upd_ep :: "nat \<Rightarrow> (usbip_ep \<Rightarrow> usbip_ep) \<Rightarrow> usbip_device \<Rightarrow> usbip_device" where
  "upd_ep i f dev = dev\<lparr>eps := (eps dev)[i := f (eps dev ! i)]\<rparr>"

lemma upd_ep_simps [simp]:
  "length (eps (upd_ep i f dev)) = length (eps dev)"
  "i < length (eps dev) \<Longrightarrow> eps (upd_ep i f dev) ! i = f (eps dev ! i)"
  "j \<noteq> i \<Longrightarrow> eps (upd_ep i f dev) ! j = eps dev ! j"
  "ep_map (upd_ep i f dev) = ep_map dev"
  by (simp_all add: upd_ep_def)

end
