(* ===== verification/Device_Build.thy ===== *)
theory Device_Build
  imports Device_State
begin

text \<open>
  Building a device (\<open>src/usbip_device.c\<close>, "build / configure"): identity, strings, Microsoft OS
  advertisements, the configuration blob with its interface bookkeeping, endpoint allocation and
  reservation, callback registration, and descriptor groups with their rollback.

  Allocation of the endpoint object and of copied strings is taken to succeed.
\<close>

section \<open>Identity and strings\<close>

definition empty_mark :: gmark where
  "empty_mark = \<lparr>m_descr_len = 0, m_n_ifalts = 0, m_n_eps = 0, m_n_msos = 0, m_n_ifnums = 0,
     m_cur_ifnum = 0, m_cur_alt = 0, m_if_present = (\<lambda>_. False), m_ep_reserved = (\<lambda>_ _. 0),
     m_ctrl = (\<lambda>_. None), m_ctrl_default = None, m_set_alt_tab = (\<lambda>_. None)\<rparr>"

definition usbip_device_create :: "u16 \<Rightarrow> u16 \<Rightarrow> usbip_device" where
  "usbip_device_create v p = \<lparr>vid = v, pid = p, bcdDevice = 0x0100, bcdUSB = 0x0200,
     speed = USB_SPEED_FULL, dev_class = 0, dev_sub = 0, dev_proto = 0,
     strings = (\<lambda>_. None), n_strings = 4, i_mfr = 0, i_prod = 0, i_ser = 0,
     msos = [], msos1_vendor = 0, msos2_vendor = 0,
     webusb = False, webusb_vendor = 0, webusb_url = [], iso_paced = False, composite = False,
     descr = replicate DESCR_MAX 0, descr_len = 0, ifalts = [], cur_ifnum = - 1, cur_alt = - 1,
     if_present = (\<lambda>_. False), n_ifnums = 0, config = 0, eps = [], ep_map = (\<lambda>_ _. None),
     ep_reserved = (\<lambda>_ _. 0), ctrl = (\<lambda>_. None), ctrl_default = None,
     set_alt_tab = (\<lambda>_. None), groups = [], mark = empty_mark,
     busid = [], busnum = 0, devnum = 0\<rparr>"

definition usbip_device_set_strings ::
  "bytes option \<Rightarrow> bytes option \<Rightarrow> bytes option \<Rightarrow> usbip_device \<Rightarrow> usbip_device" where
  "usbip_device_set_strings mfr product serial dev =
     (let dev = (case mfr of None \<Rightarrow> dev
            | Some s \<Rightarrow> dev\<lparr>strings := (strings dev)(1 := Some s), i_mfr := 1\<rparr>);
          dev = (case product of None \<Rightarrow> dev
            | Some s \<Rightarrow> dev\<lparr>strings := (strings dev)(2 := Some s), i_prod := 2\<rparr>)
      in case serial of None \<Rightarrow> dev
            | Some s \<Rightarrow> dev\<lparr>strings := (strings dev)(3 := Some s), i_ser := 3\<rparr>)"

definition is_iad_triple :: "u8 \<Rightarrow> u8 \<Rightarrow> u8 \<Rightarrow> bool" where
  "is_iad_triple cls sub proto \<longleftrightarrow> cls = 0xEF \<and> sub = 0x02 \<and> proto = 0x01"

definition usbip_device_set_class :: "u8 \<Rightarrow> u8 \<Rightarrow> u8 \<Rightarrow> usbip_device \<Rightarrow> usbip_device" where
  "usbip_device_set_class cls sub proto dev =
     (if composite dev \<and> \<not> is_iad_triple cls sub proto then dev
      else dev\<lparr>dev_class := cls, dev_sub := sub, dev_proto := proto\<rparr>)"

definition usbip_device_set_bcd_device :: "u16 \<Rightarrow> usbip_device \<Rightarrow> usbip_device" where
  "usbip_device_set_bcd_device bcd dev = dev\<lparr>bcdDevice := bcd\<rparr>"

definition usbip_device_set_speed :: "usb_speed \<Rightarrow> usbip_device \<Rightarrow> usbip_device" where
  "usbip_device_set_speed sp dev = dev\<lparr>speed := sp\<rparr>"

definition usbip_device_set_iso_pacing :: "bool \<Rightarrow> usbip_device \<Rightarrow> usbip_device" where
  "usbip_device_set_iso_pacing enabled dev = dev\<lparr>iso_paced := enabled\<rparr>"

text \<open>Returns the string index, or 0 when the table is full.\<close>

definition usbip_device_add_string :: "bytes \<Rightarrow> usbip_device \<Rightarrow> usbip_device \<times> nat" where
  "usbip_device_add_string str dev =
     (if n_strings dev \<ge> STRINGS_MAX then (dev, 0)
      else (dev\<lparr>strings := (strings dev)(n_strings dev := Some str),
                n_strings := n_strings dev + 1\<rparr>, n_strings dev))"

definition usbip_device_set_composite :: "usbip_device \<Rightarrow> usbip_device" where
  "usbip_device_set_composite dev = usbip_device_set_class 0xEF 0x02 0x01 (dev\<lparr>composite := True\<rparr>)"

section \<open>Microsoft OS and WebUSB advertisements\<close>

text \<open>The first entry of a scope is replaced in place, else one is added while there is room.\<close>

fun msos_replace :: "msos_entry \<Rightarrow> msos_entry list \<Rightarrow> msos_entry list option" where
  "msos_replace e [] = None"
| "msos_replace e (x # xs) =
     (if ms_group x = ms_group e then Some (e # xs) else map_option ((#) x) (msos_replace e xs))"

definition msos_add :: "int \<Rightarrow> bytes option \<Rightarrow> bytes option \<Rightarrow> usbip_device \<Rightarrow> usbip_device \<times> bool" where
  "msos_add gid compatible guid dev =
     (let e = \<lparr>ms_group = gid,
                ms_compatible = (case compatible of None \<Rightarrow> cstr ''WINUSB'' | Some c \<Rightarrow> c),
                ms_guid = guid\<rparr>;
          tbl = (case msos_replace e (msos dev) of
                   Some xs \<Rightarrow> Some xs
                 | None \<Rightarrow> (if length (msos dev) \<ge> MSOS_MAX then None else Some (msos dev @ [e])))
      in case tbl of
           None \<Rightarrow> (dev, False)
         | Some xs \<Rightarrow> (dev\<lparr>msos := xs, bcdUSB := 0x0210,
             msos1_vendor := (if msos1_vendor dev = 0 then 0x20 else msos1_vendor dev),
             msos2_vendor := (if msos2_vendor dev = 0 then 0x21 else msos2_vendor dev)\<rparr>, True))"

definition usbip_device_enable_msos_group ::
  "int \<Rightarrow> bytes option \<Rightarrow> bytes option \<Rightarrow> usbip_device \<Rightarrow> usbip_device \<times> int" where
  "usbip_device_enable_msos_group gid compatible guid dev =
     (let (dev', ok) = msos_add gid compatible guid dev
      in (dev', if ok then USB_SUCCESS else USB_ERROR_NO_MEM))"

definition usbip_device_enable_msos ::
  "bytes option \<Rightarrow> bytes option \<Rightarrow> usbip_device \<Rightarrow> usbip_device \<times> int" where
  "usbip_device_enable_msos compatible guid dev =
     usbip_device_enable_msos_group (- 1) compatible guid dev"

definition usbip_device_enable_webusb :: "u8 \<Rightarrow> bytes option \<Rightarrow> usbip_device \<Rightarrow> usbip_device" where
  "usbip_device_enable_webusb vendor_code url dev =
     dev\<lparr>webusb := True, webusb_vendor := vendor_code,
         webusb_url := (case url of None \<Rightarrow> [] | Some u \<Rightarrow> u), bcdUSB := 0x0210\<rparr>"

section \<open>Appending a descriptor\<close>

definition desc_len :: "bytes \<Rightarrow> nat" where
  "desc_len desc =
     (if desc ! 0 \<noteq> 0 then unat (desc ! 0)
      else if desc ! 1 = 1 then 18
      else if desc ! 1 = 2 then 9
      else if desc ! 1 = 4 then 9
      else if desc ! 1 = 5 then 7
      else unat (desc ! 0))"

text \<open>The index of the \<open>(ifnum, alt)\<close> record.\<close>

fun find_index :: "('a \<Rightarrow> bool) \<Rightarrow> 'a list \<Rightarrow> nat option" where
  "find_index P [] = None"
| "find_index P (x # xs) = (if P x then Some 0 else map_option Suc (find_index P xs))"

definition ifalt_for :: "usbip_device \<Rightarrow> u8 \<Rightarrow> u8 \<Rightarrow> nat option" where
  "ifalt_for dev ifnum alt = find_index (\<lambda>ia. ia_ifnum ia = ifnum \<and> ia_alt ia = alt) (ifalts dev)"

definition register_ifnum :: "u8 \<Rightarrow> usbip_device \<Rightarrow> usbip_device" where
  "register_ifnum ifnum dev =
     (let n = unat ifnum;
          dev = (if n + 1 > n_ifnums dev then dev\<lparr>n_ifnums := n + 1\<rparr> else dev)
      in if n \<ge> 16 \<or> if_present dev n then dev
         else (let dev = dev\<lparr>if_present := (if_present dev)(n := True)\<rparr>;
                   k = length (groups dev) - 1
               in if groups dev = [] then dev
                  else dev\<lparr>groups := (groups dev)[k := (let g = groups dev ! k in
                         g\<lparr>g_first_ifnum := (if g_n_ifs g = 0 then ifnum else g_first_ifnum g),
                           g_n_ifs := g_n_ifs g + 1\<rparr>)]\<rparr>))"

definition ep_reservation_allows :: "usbip_device \<Rightarrow> u8 \<Rightarrow> nat \<Rightarrow> usb_dir \<Rightarrow> bool" where
  "ep_reservation_allows dev owner ep_num dir \<longleftrightarrow>
     ep_reserved dev ep_num dir = 0 \<or> ep_reserved dev ep_num dir = owner + 1"

text \<open>The number an endpoint gets: the wanted one where it is free or already the interface's
  own, else the lowest free one; \<open>None\<close> when all fifteen are taken.\<close>

definition ep_alloc_number :: "usbip_device \<Rightarrow> u8 \<Rightarrow> nat \<Rightarrow> usb_dir \<Rightarrow> nat option" where
  "ep_alloc_number dev owner want dir =
     (if want \<noteq> 0
         \<and> (case ep_map dev want dir of None \<Rightarrow> True | Some h \<Rightarrow> e_ifnum (eps dev ! h) = owner)
         \<and> ep_reservation_allows dev owner want dir
      then Some want
      else find (\<lambda>n. ep_map dev n dir = None \<and> ep_reservation_allows dev owner n dir) [1..<16])"

definition cur_owner :: "usbip_device \<Rightarrow> u8" where
  "cur_owner dev = (if cur_ifnum dev \<ge> 0 then word_of_int (cur_ifnum dev) else USBIP_EP_NO_IFNUM)"

definition new_ep :: "nat \<Rightarrow> usb_dir \<Rightarrow> bytes \<Rightarrow> u8 \<Rightarrow> usbip_ep" where
  "new_ep number dir desc owner = \<lparr>e_addr = ep_addr number dir, e_number = number, e_dir = dir,
     e_type = usb_xfer_type_of (desc ! 3), e_mps = usb_get_le16 desc 4, e_interval = desc ! 6,
     e_ifnum = owner, e_on_out = None, e_on_iso = None, e_in = q_empty, e_out = q_empty,
     e_pend = q_empty, e_halted = False, e_iso_deadline_us = 0\<rparr>"

text \<open>The interface branch of \<open>usbip_device_add_descriptor\<close>; \<open>dst\<close> is the blob offset.\<close>

definition note_interface :: "bytes \<Rightarrow> nat \<Rightarrow> usbip_device \<Rightarrow> usbip_device" where
  "note_interface desc dst dev =
     (let dev = register_ifnum (desc ! 2) dev;
          dev = dev\<lparr>cur_ifnum := uint (desc ! 2), cur_alt := uint (desc ! 3)\<rparr>
      in case ifalt_for dev (desc ! 2) (desc ! 3) of
           Some k \<Rightarrow> dev\<lparr>ifalts := (ifalts dev)[k := (ifalts dev ! k)\<lparr>ia_off := dst\<rparr>]\<rparr>
         | None \<Rightarrow>
             (if length (ifalts dev) < IFALTS_MAX
              then dev\<lparr>ifalts := ifalts dev @
                     [\<lparr>ia_ifnum = desc ! 2, ia_alt = desc ! 3, ia_off = dst\<rparr>]\<rparr>
              else dev))"

text \<open>The endpoint branch, once a number is allocated.\<close>

definition note_endpoint :: "nat \<Rightarrow> usb_dir \<Rightarrow> bytes \<Rightarrow> nat \<Rightarrow> usbip_device \<Rightarrow> usbip_device" where
  "note_endpoint number dir desc dst dev =
     (let owner = cur_owner dev;
          ep = new_ep number dir desc owner;
          dev = dev\<lparr>descr := (descr dev)[dst + 2 := e_addr ep], eps := eps dev @ [ep],
                ep_map := (ep_map dev)(number := (ep_map dev number)(dir := Some (length (eps dev)))),
                ep_reserved := (ep_reserved dev)(number := (ep_reserved dev number)(dir := 0))\<rparr>;
          ia = (if cur_ifnum dev \<ge> 0 then ifalt_for dev owner (word_of_int (cur_alt dev)) else None)
      in case ia of
           None \<Rightarrow> dev
         | Some k \<Rightarrow> (let off = ia_off (ifalts dev ! k) + 4
                      in dev\<lparr>descr := (descr dev)[off := descr dev ! off + 1]\<rparr>))"

definition usbip_device_add_descriptor :: "bytes \<Rightarrow> usbip_device \<Rightarrow> usbip_device \<times> int" where
  "usbip_device_add_descriptor desc dev =
     (let blen = desc_len desc; dst = descr_len dev in
      if dst + blen > DESCR_MAX then (dev, USB_ERROR_NO_MEM)
      else
      let dev = dev\<lparr>descr := (put_at dst (take blen desc) (descr dev))[dst := of_nat blen],
                    descr_len := dst + blen\<rparr>
      in if desc ! 1 = 4 then (note_interface desc dst dev, USB_SUCCESS)
      else if desc ! 1 = 5 then
        (if length (eps dev) \<ge> EPS_MAX then (dev\<lparr>descr_len := dst\<rparr>, USB_ERROR_NO_MEM)
         else (let dir = addr_dir (desc ! 2)
               in case ep_alloc_number dev (cur_owner dev) (unat (desc ! 2 AND 0x0f)) dir of
                    None \<Rightarrow> (dev\<lparr>descr_len := dst\<rparr>, USB_ERROR_NO_MEM)
                  | Some number \<Rightarrow> (note_endpoint number dir desc dst dev, USB_SUCCESS)))
      else (dev, USB_SUCCESS))"

text \<open>The endpoint object just appended, or NULL.\<close>

definition usbip_device_add_endpoint :: "bytes \<Rightarrow> usbip_device \<Rightarrow> usbip_device \<times> nat option" where
  "usbip_device_add_endpoint desc dev =
     (let (dev', rc) = usbip_device_add_descriptor desc dev
      in if rc \<noteq> USB_SUCCESS then (dev', None)
         else (let i = length (eps dev') - 1
               in if eps dev' \<noteq> [] \<and> e_dir (eps dev' ! i) = addr_dir (desc ! 2)
                  then (dev', Some i) else (dev', None)))"

text \<open>Claim an endpoint number before its descriptor exists; 0 when there is none to claim.\<close>

definition usbip_device_reserve_endpoint :: "u8 \<Rightarrow> usbip_device \<Rightarrow> usbip_device \<times> u8" where
  "usbip_device_reserve_endpoint want_addr dev =
     (if cur_ifnum dev < 0 then (dev, 0)
      else (let dir = addr_dir want_addr; owner = word_of_int (cur_ifnum dev) :: u8
            in case ep_alloc_number dev owner (unat (want_addr AND 0x0f)) dir of
                 None \<Rightarrow> (dev, 0)
               | Some n \<Rightarrow> (dev\<lparr>ep_reserved := (ep_reserved dev)(n := (ep_reserved dev n)(dir := owner + 1))\<rparr>,
                            ep_addr n dir)))"

definition usbip_device_set_interface_string :: "u8 \<Rightarrow> u8 \<Rightarrow> u8 \<Rightarrow> usbip_device \<Rightarrow> usbip_device" where
  "usbip_device_set_interface_string ifnum alt istr dev =
     (case ifalt_for dev ifnum alt of
        None \<Rightarrow> dev
      | Some k \<Rightarrow> dev\<lparr>descr := (descr dev)[ia_off (ifalts dev ! k) + 8 := istr]\<rparr>)"

section \<open>Callback registration\<close>

definition usbip_device_on_control :: "int \<Rightarrow> handler option \<Rightarrow> usbip_device \<Rightarrow> usbip_device" where
  "usbip_device_on_control ifnum cb dev =
     (if ifnum < 0 then dev\<lparr>ctrl_default := cb\<rparr>
      else if ifnum < 16 then dev\<lparr>ctrl := (ctrl dev)(nat ifnum := cb)\<rparr>
      else dev)"

definition usbip_device_on_set_alt :: "int \<Rightarrow> handler option \<Rightarrow> usbip_device \<Rightarrow> usbip_device" where
  "usbip_device_on_set_alt ifnum cb dev =
     (if ifnum \<ge> 0 \<and> ifnum < 16 then dev\<lparr>set_alt_tab := (set_alt_tab dev)(nat ifnum := cb)\<rparr>
      else dev)"

definition usbip_ep_on_out :: "nat \<Rightarrow> handler option \<Rightarrow> usbip_device \<Rightarrow> usbip_device" where
  "usbip_ep_on_out i cb dev = upd_ep i (\<lambda>ep. ep\<lparr>e_on_out := cb\<rparr>) dev"

definition usbip_ep_on_iso :: "nat \<Rightarrow> handler option \<Rightarrow> usbip_device \<Rightarrow> usbip_device" where
  "usbip_ep_on_iso i cb dev = upd_ep i (\<lambda>ep. ep\<lparr>e_on_iso := cb\<rparr>) dev"

section \<open>Descriptor groups\<close>

definition usbip_device_group_begin :: "usbip_device \<Rightarrow> usbip_device \<times> int" where
  "usbip_device_group_begin dev =
     (if length (groups dev) \<ge> GROUPS_MAX then (dev, USB_ERROR_NO_MEM)
      else (dev\<lparr>mark := \<lparr>m_descr_len = descr_len dev, m_n_ifalts = length (ifalts dev),
               m_n_eps = length (eps dev), m_n_msos = length (msos dev),
               m_n_ifnums = n_ifnums dev, m_cur_ifnum = cur_ifnum dev, m_cur_alt = cur_alt dev,
               m_if_present = if_present dev, m_ep_reserved = ep_reserved dev,
               m_ctrl = ctrl dev, m_ctrl_default = ctrl_default dev,
               m_set_alt_tab = set_alt_tab dev\<rparr>,
             groups := groups dev @ [\<lparr>g_first_ifnum = 0, g_n_ifs = 0, g_descr_off = descr_len dev\<rparr>]\<rparr>,
            int (length (groups dev))))"

text \<open>Removing the aborted group's advertisements: the last entry moves into the hole.\<close>

function msos_drop :: "int \<Rightarrow> nat \<Rightarrow> msos_entry list \<Rightarrow> msos_entry list" where
  "msos_drop gid i xs =
     (if i < length xs then
        (if ms_group (xs ! i) = gid then msos_drop gid i (butlast (xs[i := last xs]))
         else msos_drop gid (Suc i) xs)
      else xs)"
  by pat_completeness auto
termination
  by (relation "measure (\<lambda>(gid, i, xs). length xs - i)") auto

declare msos_drop.simps [simp del]

definition usbip_device_group_abort :: "usbip_device \<Rightarrow> usbip_device" where
  "usbip_device_group_abort dev =
     (if groups dev = [] then dev
      else (let gid = length (groups dev) - 1; m = mark dev in
            dev\<lparr>groups := take gid (groups dev),
              ep_map := (\<lambda>n d. case ep_map dev n d of
                  None \<Rightarrow> None
                | Some h \<Rightarrow> (if m_n_eps m \<le> h \<and> h < length (eps dev)
                       \<and> e_number (eps dev ! h) = n \<and> e_dir (eps dev ! h) = d
                     then None else Some h)),
              eps := take (m_n_eps m) (eps dev),
              msos := msos_drop (int gid) 0 (msos dev),
              descr_len := m_descr_len m, ifalts := take (m_n_ifalts m) (ifalts dev),
              n_ifnums := m_n_ifnums m, cur_ifnum := m_cur_ifnum m, cur_alt := m_cur_alt m,
              if_present := m_if_present m, ep_reserved := m_ep_reserved m,
              ctrl := m_ctrl m, ctrl_default := m_ctrl_default m,
              set_alt_tab := m_set_alt_tab m\<rparr>))"

section \<open>The plug-time check\<close>

definition check_endpoint_conflicts :: "usbip_device \<Rightarrow> int" where
  "check_endpoint_conflicts dev =
     (if list_all (\<lambda>ep. case ep_map dev (e_number ep) (e_dir ep) of
            None \<Rightarrow> True | Some h \<Rightarrow> e_ifnum (eps dev ! h) = e_ifnum ep) (eps dev)
      then USB_SUCCESS else USB_ERROR_INVALID_PARAM)"

section \<open>The invariant of a device under construction\<close>

text \<open>A descriptor as callers pass it: at least as many bytes as its length says, and the two
  kinds the core looks into at least as long as the fields it reads.\<close>

definition desc_ok :: "bytes \<Rightarrow> bool" where
  "desc_ok desc \<longleftrightarrow> 2 \<le> desc_len desc \<and> desc_len desc \<le> length desc
     \<and> (desc ! 1 = 4 \<longrightarrow> desc_len desc = 9) \<and> (desc ! 1 = 5 \<longrightarrow> 7 \<le> desc_len desc)"

definition map_inv :: "usbip_device \<Rightarrow> bool" where
  "map_inv dev \<longleftrightarrow> (\<forall>n d h. ep_map dev n d = Some h \<longrightarrow>
     h < length (eps dev) \<and> e_number (eps dev ! h) = n \<and> e_dir (eps dev ! h) = d)"

definition owner_inv :: "usbip_device \<Rightarrow> bool" where
  "owner_inv dev \<longleftrightarrow> (\<forall>ep \<in> set (eps dev). 1 \<le> e_number ep \<and> e_number ep < 16
     \<and> e_addr ep = ep_addr (e_number ep) (e_dir ep) \<and> e_in ep = q_empty \<and> e_out ep = q_empty
     \<and> e_pend ep = q_empty
     \<and> (\<exists>h. ep_map dev (e_number ep) (e_dir ep) = Some h \<and> e_ifnum (eps dev ! h) = e_ifnum ep))"

definition size_inv :: "usbip_device \<Rightarrow> bool" where
  "size_inv dev \<longleftrightarrow> length (descr dev) = DESCR_MAX \<and> descr_len dev \<le> DESCR_MAX
     \<and> length (eps dev) \<le> EPS_MAX \<and> length (ifalts dev) \<le> IFALTS_MAX
     \<and> length (groups dev) \<le> GROUPS_MAX
     \<and> - 1 \<le> cur_ifnum dev \<and> cur_ifnum dev < int (n_ifnums dev) \<and> n_ifnums dev \<le> 256
     \<and> (\<forall>ep \<in> set (eps dev). e_ifnum ep = 0xFF \<or> unat (e_ifnum ep) < n_ifnums dev)
     \<and> (\<forall>ia \<in> set (ifalts dev). ia_off ia + 9 \<le> descr_len dev \<and> unat (ia_ifnum ia) < n_ifnums dev)"

definition build_inv :: "usbip_device \<Rightarrow> bool" where
  "build_inv dev \<longleftrightarrow> map_inv dev \<and> owner_inv dev \<and> size_inv dev"

text \<open>The operations that build a device, and the devices they can build.\<close>

datatype build_op = AddDescriptor bytes | ReserveEndpoint u8 | GroupBegin
  | OnControl int "handler option" | OnSetAlt int "handler option"
  | SetInterfaceString u8 u8 u8

fun build_step :: "build_op \<Rightarrow> usbip_device \<Rightarrow> usbip_device" where
  "build_step (AddDescriptor d) dev = fst (usbip_device_add_descriptor d dev)"
| "build_step (ReserveEndpoint a) dev = fst (usbip_device_reserve_endpoint a dev)"
| "build_step GroupBegin dev = fst (usbip_device_group_begin dev)"
| "build_step (OnControl i cb) dev = usbip_device_on_control i cb dev"
| "build_step (OnSetAlt i cb) dev = usbip_device_on_set_alt i cb dev"
| "build_step (SetInterfaceString i a s) dev = usbip_device_set_interface_string i a s dev"

fun op_ok :: "build_op \<Rightarrow> bool" where
  "op_ok (AddDescriptor d) = desc_ok d"
| "op_ok _ = True"

lemma build_inv_create: "build_inv (usbip_device_create v p)"
  by (simp add: build_inv_def map_inv_def owner_inv_def size_inv_def usbip_device_create_def)

lemma find_index_Some:
  "find_index P xs = Some k \<Longrightarrow> k < length xs \<and> P (xs ! k)"
  by (induction xs arbitrary: k) (auto split: if_splits)

lemma find_index_None: "find_index P xs = None \<longleftrightarrow> (\<forall>x \<in> set xs. \<not> P x)"
  by (induction xs) auto

lemma ep_alloc_number_Some:
  assumes "ep_alloc_number dev owner want dir = Some n" and "want < 16"
  shows "1 \<le> n \<and> n < 16 \<and>
     (case ep_map dev n dir of None \<Rightarrow> True | Some h \<Rightarrow> e_ifnum (eps dev ! h) = owner)"
  using assms by (auto simp: ep_alloc_number_def find_Some_iff split: if_splits)

lemma register_ifnum_frame [simp]:
  "eps (register_ifnum i dev) = eps dev" "ep_map (register_ifnum i dev) = ep_map dev"
  "ep_reserved (register_ifnum i dev) = ep_reserved dev"
  "descr (register_ifnum i dev) = descr dev" "descr_len (register_ifnum i dev) = descr_len dev"
  "ifalts (register_ifnum i dev) = ifalts dev"
  "length (groups (register_ifnum i dev)) = length (groups dev)"
  "cur_ifnum (register_ifnum i dev) = cur_ifnum dev" "mark (register_ifnum i dev) = mark dev"
  "msos (register_ifnum i dev) = msos dev"
  "n_ifnums (register_ifnum i dev) = max (n_ifnums dev) (unat i + 1)"
  by (simp_all add: register_ifnum_def Let_def)

lemma note_interface_frame [simp]:
  "eps (note_interface d k dev) = eps dev" "ep_map (note_interface d k dev) = ep_map dev"
  "ep_reserved (note_interface d k dev) = ep_reserved dev"
  "descr (note_interface d k dev) = descr dev" "descr_len (note_interface d k dev) = descr_len dev"
  "length (groups (note_interface d k dev)) = length (groups dev)"
  "cur_ifnum (note_interface d k dev) = uint (d ! 2)" "mark (note_interface d k dev) = mark dev"
  "cur_alt (note_interface d k dev) = uint (d ! 3)"
  "msos (note_interface d k dev) = msos dev"
  "n_ifnums (note_interface d k dev) = max (n_ifnums dev) (unat (d ! 2) + 1)"
  by (auto simp: note_interface_def Let_def split: option.splits)

lemma note_endpoint_frame [simp]:
  "eps (note_endpoint n dir d k dev) = eps dev @ [new_ep n dir d (cur_owner dev)]"
  "ep_map (note_endpoint n dir d k dev) = (ep_map dev)(n := (ep_map dev n)(dir := Some (length (eps dev))))"
  "length (descr (note_endpoint n dir d k dev)) = length (descr dev)"
  "descr_len (note_endpoint n dir d k dev) = descr_len dev"
  "groups (note_endpoint n dir d k dev) = groups dev"
  "ifalts (note_endpoint n dir d k dev) = ifalts dev"
  "cur_ifnum (note_endpoint n dir d k dev) = cur_ifnum dev" "mark (note_endpoint n dir d k dev) = mark dev"
  "cur_alt (note_endpoint n dir d k dev) = cur_alt dev"
  "msos (note_endpoint n dir d k dev) = msos dev"
  "n_ifnums (note_endpoint n dir d k dev) = n_ifnums dev"
  by (auto simp: note_endpoint_def Let_def split: option.splits)

lemma note_endpoint_inv:
  assumes "map_inv dev" "owner_inv dev" and n: "1 \<le> n" "n < 16"
    and free: "case ep_map dev n dir of None \<Rightarrow> True | Some h \<Rightarrow> e_ifnum (eps dev ! h) = cur_owner dev"
  shows "map_inv (note_endpoint n dir d k dev) \<and> owner_inv (note_endpoint n dir d k dev)"
proof
  let ?dev = "note_endpoint n dir d k dev" and ?new = "new_ep n dir d (cur_owner dev)"
  have new: "e_number ?new = n" "e_dir ?new = dir" "e_ifnum ?new = cur_owner dev"
    "e_addr ?new = ep_addr n dir" "e_in ?new = q_empty" "e_out ?new = q_empty" "e_pend ?new = q_empty"
    by (simp_all add: new_ep_def)
  show "map_inv ?dev"
    using assms(1) new by (auto simp: map_inv_def nth_append less_Suc_eq)
  have "\<exists>h. ep_map ?dev (e_number ep) (e_dir ep) = Some h \<and> e_ifnum (eps ?dev ! h) = e_ifnum ep"
    if ep: "ep \<in> set (eps dev)" for ep
  proof -
    from assms(2) ep obtain h where h: "ep_map dev (e_number ep) (e_dir ep) = Some h"
      "e_ifnum (eps dev ! h) = e_ifnum ep" by (auto simp: owner_inv_def)
    with assms(1) have "h < length (eps dev)" by (simp add: map_inv_def)
    with h free new show ?thesis
      by (cases "e_number ep = n \<and> e_dir ep = dir") (auto simp: nth_append)
  qed
  then show "owner_inv ?dev"
    using assms(2) n new by (auto simp: owner_inv_def)
qed

lemma unat_u8_less [simp]: "unat (b :: u8) < 256"
  using unsigned_less [of b, where ?'a=nat] by simp

lemma uint_ge_m1: "- 1 \<le> uint (b :: u8)"
  using uint_ge_0 [of b] by linarith

lemma unat_u8_of_int: "0 \<le> i \<Longrightarrow> i < 256 \<Longrightarrow> unat (word_of_int i :: u8) = nat i"
  by (simp add: unsigned_of_int take_bit_int_eq_self)

lemma low_nibble_less [simp]: "unat (b AND 0x0f :: u8) < 16"
proof -
  have "unat (b AND 0x0f) \<le> unat (0x0f :: u8)"
    by (rule word_and_le1 [THEN word_le_nat_alt [THEN iffD1]])
  then show ?thesis by simp
qed

lemma ifalts_note_interface:
  assumes "ia \<in> set (ifalts (note_interface d k dev))"
  shows "ia \<in> set (ifalts dev) \<or> (ia_off ia = k \<and> ia_ifnum ia = d ! 2 \<and> ia_alt ia = d ! 3)"
proof (cases "ifalt_for dev (d ! 2) (d ! 3)")
  case None
  then have "ifalt_for (register_ifnum (d ! 2) dev\<lparr>cur_ifnum := x, cur_alt := y\<rparr>) (d ! 2) (d ! 3) = None"
    for x y by (simp add: ifalt_for_def)
  with assms show ?thesis
    by (auto simp: note_interface_def Let_def split: if_splits)
next
  case (Some j)
  then have j: "j < length (ifalts dev)" "ia_ifnum (ifalts dev ! j) = d ! 2" "ia_alt (ifalts dev ! j) = d ! 3"
    using find_index_Some by (auto simp: ifalt_for_def)
  from Some have "ifalt_for (register_ifnum (d ! 2) dev\<lparr>cur_ifnum := x, cur_alt := y\<rparr>) (d ! 2) (d ! 3) = Some j"
    for x y by (simp add: ifalt_for_def)
  with assms j show ?thesis
    by (auto simp: note_interface_def Let_def dest!: set_update_subset_insert [THEN subsetD])
qed

lemma length_ifalts_note_interface:
  "length (ifalts dev) \<le> IFALTS_MAX \<Longrightarrow> length (ifalts (note_interface d k dev)) \<le> IFALTS_MAX"
  by (auto simp: note_interface_def Let_def split: option.splits)

lemma size_inv_grow:
  assumes "size_inv dev" "descr_len dev + n \<le> DESCR_MAX" "length b = DESCR_MAX"
  shows "size_inv (dev\<lparr>descr := b, descr_len := descr_len dev + n\<rparr>)"
  using assms by (auto simp: size_inv_def)

lemma map_owner_inv_cong:
  assumes "eps dev' = eps dev" "ep_map dev' = ep_map dev"
  shows "map_inv dev' = map_inv dev" "owner_inv dev' = owner_inv dev"
  using assms by (simp_all add: map_inv_def owner_inv_def)

text \<open>The blob after the copy and the length normalisation, before the kind is looked at.\<close>

definition appended :: "bytes \<Rightarrow> usbip_device \<Rightarrow> usbip_device" where
  "appended desc dev = dev\<lparr>descr := (put_at (descr_len dev) (take (desc_len desc) desc) (descr dev))
      [descr_len dev := of_nat (desc_len desc)], descr_len := descr_len dev + desc_len desc\<rparr>"

lemma appended_simps [simp]:
  "eps (appended d dev) = eps dev" "ep_map (appended d dev) = ep_map dev"
  "ep_reserved (appended d dev) = ep_reserved dev" "ifalts (appended d dev) = ifalts dev"
  "groups (appended d dev) = groups dev" "cur_ifnum (appended d dev) = cur_ifnum dev"
  "cur_alt (appended d dev) = cur_alt dev" "n_ifnums (appended d dev) = n_ifnums dev"
  "descr_len (appended d dev) = descr_len dev + desc_len d" "mark (appended d dev) = mark dev"
  "msos (appended d dev) = msos dev" "cur_owner (appended d dev) = cur_owner dev"
  by (simp_all add: appended_def cur_owner_def)

lemma appended_alloc [simp]: "ep_alloc_number (appended d dev) = ep_alloc_number dev"
  by (intro ext) (auto simp: ep_alloc_number_def ep_reservation_allows_def cong: option.case_cong)

lemma length_descr_appended [simp]:
  assumes "descr_len dev + desc_len d \<le> length (descr dev)" "desc_len d \<le> length d"
  shows "length (descr (appended d dev)) = length (descr dev)"
  using assms by (simp add: appended_def min_absorb2)

lemma add_descriptor_cases:
  "usbip_device_add_descriptor desc dev =
    (if descr_len dev + desc_len desc > DESCR_MAX then (dev, USB_ERROR_NO_MEM)
     else if desc ! 1 = 4 then (note_interface desc (descr_len dev) (appended desc dev), USB_SUCCESS)
     else if desc ! 1 = 5 then
       (if length (eps dev) \<ge> EPS_MAX then ((appended desc dev)\<lparr>descr_len := descr_len dev\<rparr>, USB_ERROR_NO_MEM)
        else (case ep_alloc_number dev (cur_owner dev) (unat (desc ! 2 AND 0x0f)) (addr_dir (desc ! 2)) of
            None \<Rightarrow> ((appended desc dev)\<lparr>descr_len := descr_len dev\<rparr>, USB_ERROR_NO_MEM)
          | Some n \<Rightarrow> (note_endpoint n (addr_dir (desc ! 2)) desc (descr_len dev) (appended desc dev), USB_SUCCESS)))
     else (appended desc dev, USB_SUCCESS))"
  unfolding usbip_device_add_descriptor_def Let_def appended_def [symmetric]
  by (simp only: appended_simps appended_alloc cong: if_cong option.case_cong)

lemma size_inv_note_interface:
  assumes "size_inv dev" "k + 9 \<le> descr_len dev"
  shows "size_inv (note_interface d k dev)"
proof -
  have "\<forall>ia \<in> set (ifalts (note_interface d k dev)).
      ia_off ia + 9 \<le> descr_len dev \<and> unat (ia_ifnum ia) < max (n_ifnums dev) (unat (d ! 2) + 1)"
    using assms ifalts_note_interface [of _ d k dev] by (fastforce simp: size_inv_def)
  then show ?thesis
    using assms length_ifalts_note_interface [of dev d k]
      uint_lt2p [of "d ! 2"] uint_ge_m1 [of "d ! 2"] unat_u8_less [of "d ! 2"]
      uint_nat [of "d ! 2"]
    unfolding size_inv_def note_interface_frame
    by (auto simp: Suc_le_eq less_max_iff_disj of_nat_max simp del: unat_u8_less of_nat_unat)
qed

lemma cur_owner_cases:
  assumes "- 1 \<le> cur_ifnum dev" "cur_ifnum dev < int (n_ifnums dev)" "n_ifnums dev \<le> 256"
  shows "cur_owner dev = 0xFF \<or> unat (cur_owner dev) < n_ifnums dev"
  using assms unat_u8_of_int [of "cur_ifnum dev"] by (auto simp: cur_owner_def)

lemma size_inv_note_endpoint:
  assumes "size_inv dev" "length (eps dev) < EPS_MAX"
  shows "size_inv (note_endpoint n dir d k dev)"
  using assms cur_owner_cases [of dev] by (auto simp: size_inv_def new_ep_def)

lemma build_inv_add_descriptor:
  assumes inv: "build_inv dev" and ok: "desc_ok desc"
  shows "build_inv (fst (usbip_device_add_descriptor desc dev))"
proof (cases "descr_len dev + desc_len desc > DESCR_MAX")
  case True
  with inv show ?thesis by (simp add: add_descriptor_cases)
next
  case fits: False
  let ?a = "appended desc dev"
  from inv fits ok have sz: "size_inv ?a" and sz0: "size_inv (?a\<lparr>descr_len := descr_len dev\<rparr>)"
    by (auto simp: build_inv_def size_inv_def desc_ok_def)
  have mo: "map_inv ?a" "owner_inv ?a"
    using inv map_owner_inv_cong [of ?a dev] by (simp_all add: build_inv_def)
  consider (iface) "desc ! 1 = 4" | (full) "desc ! 1 = 5" "length (eps dev) \<ge> EPS_MAX"
    | (none) "desc ! 1 = 5" "length (eps dev) < EPS_MAX"
        "ep_alloc_number dev (cur_owner dev) (unat (desc ! 2 AND 0x0f)) (addr_dir (desc ! 2)) = None"
    | (ep) n where "desc ! 1 = 5" "length (eps dev) < EPS_MAX"
        "ep_alloc_number dev (cur_owner dev) (unat (desc ! 2 AND 0x0f)) (addr_dir (desc ! 2)) = Some n"
    | (other) "desc ! 1 \<noteq> 4" "desc ! 1 \<noteq> 5"
    by (meson not_Some_eq not_less)
  then show ?thesis
  proof cases
    case iface
    have "size_inv (note_interface desc (descr_len dev) ?a)"
      using sz ok iface by (intro size_inv_note_interface) (auto simp: desc_ok_def)
    then show ?thesis
      using fits iface mo map_owner_inv_cong [of "note_interface desc (descr_len dev) ?a" ?a]
      by (simp add: add_descriptor_cases build_inv_def)
  next
    case full
    then show ?thesis
      using fits mo sz0 map_owner_inv_cong [of "?a\<lparr>descr_len := descr_len dev\<rparr>" ?a]
      by (simp add: add_descriptor_cases build_inv_def)
  next
    case none
    then show ?thesis
      using fits mo sz0 map_owner_inv_cong [of "?a\<lparr>descr_len := descr_len dev\<rparr>" ?a]
      by (simp add: add_descriptor_cases build_inv_def)
  next
    case (ep n)
    let ?n = "note_endpoint n (addr_dir (desc ! 2)) desc (descr_len dev) ?a"
    from ep_alloc_number_Some [OF ep(3)] have "map_inv ?n \<and> owner_inv ?n"
      using mo by (intro note_endpoint_inv) (auto split: option.splits)
    moreover have "size_inv ?n" using sz ep(2) by (simp add: size_inv_note_endpoint)
    ultimately show ?thesis using fits ep by (simp add: add_descriptor_cases build_inv_def)
  next
    case other
    then show ?thesis using fits mo sz by (simp add: add_descriptor_cases build_inv_def)
  qed
qed

lemma build_inv_step:
  assumes "build_inv dev" "op_ok op"
  shows "build_inv (build_step op dev)"
proof (cases op)
  case (AddDescriptor d)
  with assms show ?thesis by (simp add: build_inv_add_descriptor)
qed (use assms in \<open>auto simp: build_inv_def map_inv_def owner_inv_def size_inv_def
      usbip_device_reserve_endpoint_def usbip_device_group_begin_def usbip_device_on_control_def
      usbip_device_on_set_alt_def usbip_device_set_interface_string_def Let_def
      split: option.splits\<close>)

lemma build_inv_steps:
  "build_inv dev \<Longrightarrow> list_all op_ok ops \<Longrightarrow> build_inv (fold build_step ops dev)"
  by (induction ops arbitrary: dev) (simp_all add: build_inv_step)


text \<open>Two interfaces that both want endpoint 1 IN, the second of them moved to endpoint 2.\<close>

definition two_claims :: "build_op list" where
  "two_claims = [AddDescriptor [9, 4, 0, 0, 0, 0xFF, 0, 0, 0], AddDescriptor [7, 5, 0x81, 2, 64, 0, 0],
     AddDescriptor [9, 4, 1, 0, 0, 0xFF, 0, 0, 0], AddDescriptor [7, 5, 0x81, 2, 64, 0, 0]]"


end
