(* ===== verification/Descriptors.thy ===== *)
theory Descriptors
  imports Device_Build
begin

text \<open>
  The descriptors the device core builds itself (\<open>src/usbip_device.c\<close>): device, configuration,
  string and BOS descriptors, the WebUSB URL, and the Microsoft OS 1.0 and 2.0 sets. A builder
  that fills a buffer and returns a length is the list of the bytes it fills in; the offsets the
  C code patches afterwards are the lengths of the parts in front.
\<close>

section \<open>UTF-16 strings\<close>

definition put_utf16 :: "bytes \<Rightarrow> nat \<Rightarrow> bytes" where
  "put_utf16 str n_nul = concat (map (\<lambda>c. [c, 0]) str) @ replicate (2 * n_nul) 0"

definition utf16_len :: "bytes \<Rightarrow> nat \<Rightarrow> nat" where
  "utf16_len str n_nul = 2 * (length str + n_nul)"

lemma length_put_utf16 [simp]: "length (put_utf16 str n) = utf16_len str n"
  by (simp add: put_utf16_def utf16_len_def length_concat comp_def sum_list_triv)

abbreviation le16 :: "nat \<Rightarrow> bytes" where "le16 n \<equiv> le_bytes 2 (of_nat n :: u16)"
abbreviation le32 :: "nat \<Rightarrow> bytes" where "le32 n \<equiv> le_bytes 4 (of_nat n :: u32)"

section \<open>Microsoft OS descriptors\<close>

definition msos1_string :: "u8 \<Rightarrow> bytes" where
  "msos1_string vendor = [0x12, 3] @ put_utf16 (cstr ''MSFT100'') 0 @ [vendor, 0]"

definition msos_n_groups :: "usbip_device \<Rightarrow> nat" where
  "msos_n_groups dev = (if groups dev \<noteq> [] then length (groups dev) else 1)"

definition group_first_ifnum :: "usbip_device \<Rightarrow> nat \<Rightarrow> u8" where
  "group_first_ifnum dev k =
     (if k \<ge> length (groups dev) \<or> g_n_ifs (groups dev ! k) = 0 then 0
      else g_first_ifnum (groups dev ! k))"

definition msos_entry_for_group :: "usbip_device \<Rightarrow> nat \<Rightarrow> msos_entry option" where
  "msos_entry_for_group dev k =
     (case find (\<lambda>e. ms_group e = int k) (msos dev) of
        Some e \<Rightarrow> Some e
      | None \<Rightarrow> find (\<lambda>e. ms_group e < 0) (msos dev))"

definition msos_needs_subsets :: "usbip_device \<Rightarrow> bool" where
  "msos_needs_subsets dev \<longleftrightarrow> length (groups dev) > 1 \<and> msos dev \<noteq> []"

definition group_covers :: "usbip_device \<Rightarrow> int \<Rightarrow> u8 \<Rightarrow> bool" where
  "group_covers dev gid ifnum \<longleftrightarrow> 0 \<le> gid \<and> gid < int (length (groups dev))
     \<and> (let g = groups dev ! nat gid in
        unat (g_first_ifnum g) \<le> unat ifnum \<and> unat ifnum < unat (g_first_ifnum g) + g_n_ifs g)"

definition msos_entry_for_interface :: "usbip_device \<Rightarrow> u8 \<Rightarrow> msos_entry option" where
  "msos_entry_for_interface dev ifnum =
     (case find (\<lambda>e. group_covers dev (ms_group e) ifnum) (msos dev) of
        Some e \<Rightarrow> Some e
      | None \<Rightarrow> find (\<lambda>e. ms_group e < 0) (msos dev))"

text \<open>One section per covered group, eight at most.\<close>

definition msos1_sections :: "usbip_device \<Rightarrow> (u8 \<times> msos_entry) list" where
  "msos1_sections dev = take 8 (List.map_filter (\<lambda>k. map_option (\<lambda>e. (group_first_ifnum dev k, e))
     (msos_entry_for_group dev k)) [0..<msos_n_groups dev])"

definition compat_field :: "bytes \<Rightarrow> bytes" where
  "compat_field c = take 8 c @ replicate (8 - length c) 0"

definition msos1_compatid :: "usbip_device \<Rightarrow> bytes" where
  "msos1_compatid dev =
     (let secs = msos1_sections dev; count = length secs; total = 16 + 24 * count
      in le32 total @ le16 0x0100 @ le16 0x0004 @ [of_nat count] @ replicate 7 0
         @ concat (map (\<lambda>(first, e). [first, 1] @ compat_field (ms_compatible e) @ replicate 14 0) secs))"

definition msos1_extprops_size :: "bytes option \<Rightarrow> nat" where
  "msos1_extprops_size guid = (case guid of None \<Rightarrow> 10
     | Some g \<Rightarrow> 10 + 10 + utf16_len (cstr ''DeviceInterfaceGUID'') 1 + 4 + utf16_len g 1)"

definition msos1_extprops :: "bytes option \<Rightarrow> bytes" where
  "msos1_extprops guid = (case guid of
       None \<Rightarrow> le32 10 @ le16 0x0100 @ le16 0x0005 @ le16 0
     | Some g \<Rightarrow>
         (let name = put_utf16 (cstr ''DeviceInterfaceGUID'') 1; d = put_utf16 g 1;
              nlen = length name; dlen = length d; seclen = 10 + nlen + 4 + dlen; total = 10 + seclen
          in le32 total @ le16 0x0100 @ le16 0x0005 @ le16 1
             @ le32 seclen @ le32 1 @ le16 nlen @ name @ le32 dlen @ d))"

definition msos2_feature_size :: "bytes option \<Rightarrow> nat" where
  "msos2_feature_size guid = (case guid of None \<Rightarrow> 20
     | Some g \<Rightarrow> 20 + (8 + utf16_len (cstr ''DeviceInterfaceGUIDs'') 1 + 2 + utf16_len g 2))"

definition msos2_feature :: "bytes \<Rightarrow> bytes option \<Rightarrow> bytes" where
  "msos2_feature compatible guid =
     le16 0x0014 @ le16 0x0003 @ compat_field compatible @ replicate 8 0
     @ (case guid of None \<Rightarrow> []
        | Some g \<Rightarrow>
            (let name = put_utf16 (cstr ''DeviceInterfaceGUIDs'') 1; d = put_utf16 g 2;
                 nlen = length name; dlen = length d; reglen = 8 + nlen + 2 + dlen
             in le16 reglen @ le16 0x0004 @ le16 0x0007 @ le16 nlen @ name @ le16 dlen @ d))"

text \<open>The entry of a device that needs no subsets.\<close>

definition msos2_flat_entry :: "usbip_device \<Rightarrow> msos_entry option" where
  "msos2_flat_entry dev =
     (case msos_entry_for_group dev 0 of
        Some e \<Rightarrow> Some e
      | None \<Rightarrow> (case msos dev of [] \<Rightarrow> None | e # _ \<Rightarrow> Some e))"

definition msos2_set_size :: "usbip_device \<Rightarrow> nat" where
  "msos2_set_size dev = 10 +
     (if \<not> msos_needs_subsets dev then
        (case msos2_flat_entry dev of None \<Rightarrow> 0 | Some e \<Rightarrow> msos2_feature_size (ms_guid e))
      else fold (\<lambda>k coff. case msos_entry_for_group dev k of
               None \<Rightarrow> coff | Some e \<Rightarrow> coff + (8 + msos2_feature_size (ms_guid e)))
             [0..<msos_n_groups dev] 8)"

text \<open>A function subset: its header, written once its length is known, and the feature.\<close>

definition msos2_function_subset :: "usbip_device \<Rightarrow> nat \<Rightarrow> bytes" where
  "msos2_function_subset dev k = (case msos_entry_for_group dev k of
       None \<Rightarrow> []
     | Some e \<Rightarrow>
         (let feature = msos2_feature (ms_compatible e) (ms_guid e); foff = 8 + length feature
          in le16 8 @ le16 0x0002 @ [group_first_ifnum dev k, 0] @ le16 foff @ feature))"

definition msos2_set :: "usbip_device \<Rightarrow> bytes" where
  "msos2_set dev =
     (let body = (if \<not> msos_needs_subsets dev then
            (case msos2_flat_entry dev of None \<Rightarrow> []
             | Some e \<Rightarrow> msos2_feature (ms_compatible e) (ms_guid e))
          else (let functions = concat (map (msos2_function_subset dev) [0..<msos_n_groups dev]);
                    coff = 8 + length functions
                in le16 8 @ le16 0x0001 @ [0, 0] @ le16 coff @ functions));
          off = 10 + length body
      in le16 0x000A @ le16 0x0000 @ le32 0x06030000 @ le16 off @ body)"

section \<open>WebUSB and BOS\<close>

definition build_webusb_url :: "bytes \<Rightarrow> bytes" where
  "build_webusb_url url =
     (let (scheme, rest) = (if take 8 url = cstr ''https://'' then (1, drop 8 url)
            else if take 7 url = cstr ''http://'' then (0, drop 7 url) else (255, url))
      in [of_nat (3 + length rest), 3, scheme] @ rest)"

definition MSOS20_UUID :: bytes where
  "MSOS20_UUID = [0xDF, 0x60, 0xDD, 0xD8, 0x89, 0x45, 0xC7, 0x4C, 0x9C, 0xD2,
     0x65, 0x9D, 0x9E, 0x64, 0x8A, 0x9F]"

definition WEBUSB_UUID :: bytes where
  "WEBUSB_UUID = [0x38, 0xB6, 0x08, 0x34, 0xA9, 0x09, 0xA0, 0x47, 0x8B, 0xFD,
     0xA0, 0x76, 0x88, 0x15, 0xB6, 0x65]"

definition build_bos_desc :: "usbip_device \<Rightarrow> bytes" where
  "build_bos_desc dev =
     (let web = (if webusb dev then [24, 0x10, 5, 0] @ WEBUSB_UUID @ le16 0x0100
                   @ [webusb_vendor dev, if webusb_url dev \<noteq> [] then 1 else 0] else []);
          ms = (if msos dev \<noteq> [] then [28, 0x10, 5, 0] @ MSOS20_UUID @ le32 0x06030000
                   @ le16 (msos2_set_size dev) @ [msos2_vendor dev, 0] else []);
          ncaps = (if webusb dev then 1 else 0) + (if msos dev \<noteq> [] then 1 else 0);
          off = 5 + length web + length ms
      in [5, 0x0F] @ le16 off @ [ncaps] @ web @ ms)"

section \<open>Standard descriptors\<close>

definition build_device_desc :: "usbip_device \<Rightarrow> bytes" where
  "build_device_desc dev = [18, 1] @ USB_U16LE (bcdUSB dev)
     @ [dev_class dev, dev_sub dev, dev_proto dev, 64]
     @ USB_U16LE (vid dev) @ USB_U16LE (pid dev) @ USB_U16LE (bcdDevice dev)
     @ [i_mfr dev, i_prod dev, i_ser dev, 1]"

definition build_config_desc :: "usbip_device \<Rightarrow> nat \<Rightarrow> bytes" where
  "build_config_desc dev cap =
     (let total = min (9 + descr_len dev) cap
      in [9, 2] @ USB_U16LE (of_nat total) @ [of_nat (n_ifnums dev), 1, 0, 0x80, 50]
         @ take (total - 9) (descr dev))"

text \<open>\<open>None\<close> where the core stalls. The first byte is the low byte of the length.\<close>

definition build_string_desc :: "usbip_device \<Rightarrow> u8 \<Rightarrow> bytes option" where
  "build_string_desc dev idx =
     (if idx = 0 then Some [4, 3, 0x09, 0x04]
      else if idx = 0xEE \<and> msos dev \<noteq> [] then Some (msos1_string (msos1_vendor dev))
      else (case (if unat idx < n_strings dev then strings dev (unat idx) else None) of
              None \<Rightarrow> None
            | Some str \<Rightarrow> Some ([of_nat (2 + 2 * length str), 3] @ put_utf16 str 0)))"

section \<open>Lengths announced and lengths built\<close>

lemma length_compat_field [simp]: "length (compat_field c) = 8"
  by (simp add: compat_field_def)

lemma length_msos2_feature [simp]: "length (msos2_feature c guid) = msos2_feature_size guid"
  by (simp add: msos2_feature_def msos2_feature_size_def Let_def split: option.split)

lemma length_msos1_extprops: "length (msos1_extprops guid) = msos1_extprops_size guid"
  by (simp add: msos1_extprops_def msos1_extprops_size_def Let_def split: option.split)

lemma fold_subset_sizes:
  "fold (\<lambda>k coff. case msos_entry_for_group dev k of
       None \<Rightarrow> coff | Some e \<Rightarrow> coff + (8 + msos2_feature_size (ms_guid e))) ks n
   = n + length (concat (map (msos2_function_subset dev) ks))"
  by (induction ks arbitrary: n) (auto simp: msos2_function_subset_def Let_def split: option.split)

text \<open>C17: The size function and the builder of the Microsoft OS 2.0 set stay in lockstep for every
  device, flat or composite, with or without GUIDs, and the set's own header states that length: the BOS
  capability announces exactly the number of bytes the vendor request later returns.\<close>

theorem msos2_set_lockstep:
  "length (msos2_set dev) = msos2_set_size dev
   \<and> le_of (bytes_at 8 2 (msos2_set dev)) = (of_nat (msos2_set_size dev) :: u16)
   \<and> (msos dev \<noteq> [] \<longrightarrow> le_of (bytes_at (length (build_bos_desc dev) - 4) 2 (build_bos_desc dev))
        = (of_nat (length (msos2_set dev)) :: u16))"
proof -
  have len: "length (msos2_set dev) = msos2_set_size dev"
    by (auto simp: msos2_set_def msos2_set_size_def Let_def fold_subset_sizes split: option.split)
  moreover have "le_of (bytes_at 8 2 (msos2_set dev)) = (of_nat (length (msos2_set dev)) :: u16)"
    by (simp add: msos2_set_def Let_def bytes_at_def)
  moreover have "le_of (bytes_at (length (build_bos_desc dev) - 4) 2 (build_bos_desc dev))
        = (of_nat (msos2_set_size dev) :: u16)" if "msos dev \<noteq> []"
  proof -
    from that obtain pre where "build_bos_desc dev = pre @ le16 (msos2_set_size dev) @ [msos2_vendor dev, 0]"
      unfolding build_bos_desc_def Let_def append_assoc [symmetric] by simp
    then show ?thesis by (simp add: bytes_at_def)
  qed
  ultimately show ?thesis by simp
qed

definition demo_composite :: usbip_device where
  "demo_composite = (usbip_device_create 1 2)\<lparr>
     groups := [\<lparr>g_first_ifnum = 0, g_n_ifs = 2, g_descr_off = 0\<rparr>, \<lparr>g_first_ifnum = 2, g_n_ifs = 1, g_descr_off = 30\<rparr>],
     msos := [\<lparr>ms_group = 1, ms_compatible = cstr ''WINUSB'', ms_guid = Some (cstr ''{1}'')\<rparr>,
              \<lparr>ms_group = - 1, ms_compatible = cstr ''MTP'', ms_guid = None\<rparr>]\<rparr>"

theorem msos2_set_lockstep_witness:
  "msos demo_composite \<noteq> [] \<and> le_of (bytes_at (length (build_bos_desc demo_composite) - 4) 2 (build_bos_desc demo_composite))
     = (of_nat (length (msos2_set demo_composite)) :: u16)"
  using msos2_set_lockstep [of demo_composite] by (simp add: demo_composite_def)

section \<open>Reading the composite set back\<close>

text \<open>What a host does: it steps from function subset to function subset by \<open>wSubsetLength\<close> and notes
  each \<open>bFirstInterface\<close> with the compatible ID that follows.\<close>

function walk_subsets :: "bytes \<Rightarrow> (u8 \<times> bytes) list" where
  "walk_subsets bs =
     (let n = unat (le_of (bytes_at 6 2 bs) :: u16) in
      if n < 8 \<or> length bs < n then []
      else (bs ! 4, bytes_at 12 8 bs) # walk_subsets (drop n bs))"
  by pat_completeness auto
termination
  by (relation "measure length") auto

declare walk_subsets.simps [simp del]

lemma unat_le16 [simp]: "n < 65536 \<Longrightarrow> unat (of_nat n :: u16) = n"
  by (simp add: unat_of_nat take_bit_nat_eq_self)

lemma bytes_at_append_right:
  "length xs \<le> off \<Longrightarrow> bytes_at off n (xs @ ys) = bytes_at (off - length xs) n ys"
  by (simp add: bytes_at_def)

lemma bytes_at_Cons: "0 < off \<Longrightarrow> bytes_at off n (x # xs) = bytes_at (off - 1) n xs"
  by (cases off) (simp_all add: bytes_at_def)

lemma walk_one:
  assumes e: "msos_entry_for_group dev k = Some e"
    and small: "length (msos2_function_subset dev k) < 65536"
  shows "walk_subsets (msos2_function_subset dev k @ rest)
    = (group_first_ifnum dev k, compat_field (ms_compatible e)) # walk_subsets rest"
proof -
  define ft where "ft = msos2_feature (ms_compatible e) (ms_guid e)"
  let ?n = "8 + length ft"
  obtain tl where ft: "ft = le16 0x0014 @ le16 0x0003 @ compat_field (ms_compatible e) @ tl"
    by (simp add: ft_def msos2_feature_def)
  have s: "msos2_function_subset dev k = le16 8 @ le16 2 @ [group_first_ifnum dev k, 0] @ le16 ?n @ ft"
    using e by (simp add: msos2_function_subset_def Let_def ft_def del: length_msos2_feature)
  let ?bs = "msos2_function_subset dev k @ rest"
  have len: "length (msos2_function_subset dev k) = ?n" by (simp add: s)
  have "le_of (bytes_at 6 2 ?bs) = (of_nat ?n :: u16)"
    by (simp add: s bytes_at_append_right bytes_at_append_left bytes_at_Cons)
  then have n: "unat (le_of (bytes_at 6 2 ?bs) :: u16) = ?n" using small by (simp only: len unat_le16)
  have "?bs ! 4 = group_first_ifnum dev k" by (simp add: s nth_append)
  moreover have "bytes_at 12 8 ?bs = compat_field (ms_compatible e)"
    by (simp add: s ft bytes_at_append_right bytes_at_append_left bytes_at_Cons)
  moreover have "drop ?n ?bs = rest" by (simp flip: len)
  moreover have "?n \<le> length ?bs" by (simp flip: len)
  ultimately show ?thesis
    by (subst walk_subsets.simps) (simp add: n Let_def del: append_assoc)
qed

lemma walk_many:
  assumes "length (concat (map (msos2_function_subset dev) ks)) < 65536"
  shows "walk_subsets (concat (map (msos2_function_subset dev) ks))
    = concat (map (\<lambda>k. case msos_entry_for_group dev k of None \<Rightarrow> []
        | Some e \<Rightarrow> [(group_first_ifnum dev k, compat_field (ms_compatible e))]) ks)"
  using assms
proof (induction ks)
  case Nil
  show ?case by (simp add: walk_subsets.simps [of "[]"] bytes_at_def)
next
  case (Cons k ks)
  show ?case
  proof (cases "msos_entry_for_group dev k")
    case None
    with Cons show ?thesis by (simp add: msos2_function_subset_def)
  next
    case (Some e)
    with Cons walk_one [OF Some] show ?thesis by simp
  qed
qed

text \<open>On a composite device a host that walks the Microsoft OS 2.0 set finds one function subset for
  each descriptor group that is advertised, in order, naming that group's first interface with the
  compatible ID of the entry that covers the group, and nothing else.\<close>

theorem msos2_set_walks_to_groups:
  assumes "msos_needs_subsets dev" and "msos2_set_size dev < 65536"
  shows "walk_subsets (drop 18 (msos2_set dev))
    = concat (map (\<lambda>k. case msos_entry_for_group dev k of None \<Rightarrow> []
        | Some e \<Rightarrow> [(group_first_ifnum dev k, compat_field (ms_compatible e))]) [0..<length (groups dev)])"
proof -
  from assms(1) have n: "msos_n_groups dev = length (groups dev)"
    by (auto simp: msos_needs_subsets_def msos_n_groups_def)
  have "drop 18 (msos2_set dev) = concat (map (msos2_function_subset dev) [0..<msos_n_groups dev])"
    using assms(1) by (simp add: msos2_set_def Let_def)
  moreover have "length (concat (map (msos2_function_subset dev) [0..<msos_n_groups dev])) < 65536"
    using assms by (simp add: msos2_set_size_def fold_subset_sizes)
  ultimately show ?thesis using walk_many n by simp
qed

theorem msos2_set_walks_to_groups_witness:
  "walk_subsets (drop 18 (msos2_set demo_composite))
    = [(0, compat_field (cstr ''MTP'')), (2, compat_field (cstr ''WINUSB''))]"
proof -
  have a: "msos_needs_subsets demo_composite"
    by (simp add: msos_needs_subsets_def demo_composite_def)
  have f: "msos_entry_for_group demo_composite 0 = Some \<lparr>ms_group = - 1, ms_compatible = cstr ''MTP'', ms_guid = None\<rparr>"
    "msos_entry_for_group demo_composite (Suc 0) = Some \<lparr>ms_group = 1, ms_compatible = cstr ''WINUSB'', ms_guid = Some (cstr ''{1}'')\<rparr>"
    by (simp_all add: msos_entry_for_group_def demo_composite_def)
  have g: "group_first_ifnum demo_composite 0 = 0" "group_first_ifnum demo_composite (Suc 0) = 2"
    by (simp_all add: group_first_ifnum_def demo_composite_def)
  have l: "length (groups demo_composite) = 2" by (simp add: demo_composite_def)
  with a f have "msos2_set_size demo_composite < 65536"
    by (simp add: msos2_set_size_def msos_n_groups_def msos2_feature_size_def utf16_len_def cstr_def
        upt_rec numeral_2_eq_2 demo_composite_def)
  from msos2_set_walks_to_groups [OF a this] show ?thesis
    unfolding l by (simp add: f g upt_rec)
qed

end
