(* ===== verification/Endpoint_IO.thy ===== *)
theory Endpoint_IO
  imports Device_State
begin

text \<open>
  The data path of one endpoint (\<open>src/usbip_device.c\<close>): \<open>usbip_device_write\<close>,
  \<open>usbip_device_read\<close>, halting, serving or parking a bulk/interrupt IN URB, and what
  \<open>usbip_device_handle_unlink\<close> does to one endpoint's parked URBs. Each operation maps the
  endpoint to the new endpoint and the replies it sends, in order. \<open>Dispatch\<close> composes them
  into the device's dispatcher.

  Chunks and parked URBs are small allocations and are taken to succeed. One operation runs
  without another thread's operation on the same endpoint in between.
\<close>

section \<open>Operations\<close>

definition enq_dbuf :: "bytes \<Rightarrow> dbuf cqueue \<Rightarrow> dbuf cqueue" where
  "enq_dbuf d q = q_append \<lparr>d_data = d, d_off = 0\<rparr> q"

definition deq_dbuf :: "dbuf cqueue \<Rightarrow> (dbuf \<times> dbuf cqueue) option" where
  "deq_dbuf q = (case q_items q of [] \<Rightarrow> None | d # _ \<Rightarrow> Some (d, q_pop q))"

definition pend_ret :: "pending \<Rightarrow> int \<Rightarrow> bytes \<Rightarrow> int \<Rightarrow> msg" where
  "pend_ret p status d actual = RetSubmit \<lparr>r_conn = p_conn p, r_seqnum = p_seqnum p,
     r_devid = p_devid p, r_direction = p_direction p, r_ep = p_ep p, r_status = status,
     r_data = d, r_actual = actual\<rparr>"

text \<open>
  The loop that feeds parked URBs. \<open>(int)pend->length\<close> is negative for a request of \<open>2^31\<close> bytes
  or more; the chunk is then negative and \<open>src\<close> leaves the caller's buffer.
\<close>

function feed_parked :: "bytes \<Rightarrow> usbip_ep \<Rightarrow> msg list \<Rightarrow> (bytes \<times> usbip_ep \<times> msg list) cresult" where
  "feed_parked src ep out =
     (if src \<noteq> [] \<and> q_items (e_pend ep) \<noteq> [] then
        (let pend = hd (q_items (e_pend ep));
             ep = ep\<lparr>e_pend := q_pop (e_pend ep)\<rparr>;
             chunk = (if p_length pend \<noteq> 0 \<and> int (length src) > i32 (p_length pend)
                      then i32 (p_length pend) else int (length src))
         in if chunk < 0 then Undefined
            else feed_parked (drop (nat chunk) src) ep
                   (out @ [pend_ret pend 0 (take (nat chunk) src) chunk]))
      else Ret (src, ep, out))"
  by pat_completeness auto
termination
proof (relation "measure (\<lambda>(src, ep, out). length (q_items (e_pend ep)))", goal_cases)
  case (2 src ep out x xa xb)
  then show ?case by (cases "q_items (e_pend ep)") auto
qed simp

declare feed_parked.simps [simp del]

definition usbip_device_write :: "bytes \<Rightarrow> usbip_ep \<Rightarrow> (usbip_ep \<times> msg list) cresult" where
  "usbip_device_write buf ep =
     (case feed_parked buf ep [] of
        Ret (rest, ep, out) \<Rightarrow>
          Ret (if rest \<noteq> [] then ep\<lparr>e_in := enq_dbuf rest (e_in ep)\<rparr> else ep, out)
      | Err e \<Rightarrow> Err e
      | Undefined \<Rightarrow> Undefined)"

text \<open>\<open>None\<close>: the caller goes on waiting for a chunk. The rest of a longer chunk is dropped.\<close>

definition usbip_device_read :: "nat \<Rightarrow> usbip_ep \<Rightarrow> (bytes \<times> usbip_ep) option" where
  "usbip_device_read len ep =
     (case deq_dbuf (e_out ep) of
        None \<Rightarrow> None
      | Some (d, q) \<Rightarrow> Some (take len (d_data d), ep\<lparr>e_out := q\<rparr>))"

definition usbip_ep_stall :: "usbip_ep \<Rightarrow> usbip_ep \<times> msg list" where
  "usbip_ep_stall ep =
     (ep\<lparr>e_halted := True, e_pend := q_empty\<rparr>,
      map (\<lambda>p. pend_ret p USBIP_STATUS_STALL [] 0) (q_items (e_pend ep)))"

definition usbip_ep_clear_halt :: "usbip_ep \<Rightarrow> usbip_ep" where
  "usbip_ep_clear_halt ep = ep\<lparr>e_halted := False\<rparr>"

definition usbip_ep_is_halted :: "usbip_ep \<Rightarrow> bool" where
  "usbip_ep_is_halted ep = e_halted ep"

text \<open>\<open>usbip_send_ret(conn, urb->seqnum, ...)\<close> for the URB in hand.\<close>

definition urb_ret :: "nat \<Rightarrow> urb \<Rightarrow> int \<Rightarrow> bytes \<Rightarrow> int \<Rightarrow> msg" where
  "urb_ret conn u status d actual = RetSubmit \<lparr>r_conn = conn, r_seqnum = u_seqnum u,
     r_devid = u_devid u, r_direction = u_direction u, r_ep = u_ep u, r_status = status,
     r_data = d, r_actual = actual\<rparr>"

definition park :: "nat \<Rightarrow> urb \<Rightarrow> usbip_ep \<Rightarrow> usbip_ep" where
  "park conn u ep = ep\<lparr>e_pend := q_append \<lparr>p_conn = conn, p_seqnum = u_seqnum u,
     p_devid = u_devid u, p_direction = u_direction u, p_ep = u_ep u,
     p_length = u32_of_int (u_length u)\<rparr> (e_pend ep)\<rparr>"

text \<open>
  The bulk and interrupt IN branch of the dispatcher. A negative transfer length gives a
  negative chunk: nothing is sent but the chunk's offset moves back, and the next read from
  before the chunk's data has no defined result.
\<close>

definition serve_in :: "nat \<Rightarrow> urb \<Rightarrow> usbip_ep \<Rightarrow> (usbip_ep \<times> msg list) cresult" where
  "serve_in conn u ep =
     (case q_items (e_in ep) of
        [] \<Rightarrow> Ret (park conn u ep, [])
      | d # ds \<Rightarrow>
          (let len = int (length (d_data d));
               avail = len - d_off d;
               chunk = (if u_length u \<noteq> 0 \<and> avail > u_length u then u_length u else avail);
               slice = take (nat chunk) (drop (nat (d_off d)) (d_data d));
               drained = (d_off d + chunk \<ge> len)
           in if chunk > 0 \<and> d_off d < 0 \<or> d_off d + chunk < - (2 ^ 31) then Undefined
              else Ret (if drained then ep\<lparr>e_in := q_pop (e_in ep)\<rparr>
                        else ep\<lparr>e_in := (e_in ep)\<lparr>q_items := d\<lparr>d_off := d_off d + chunk\<rparr> # ds\<rparr>\<rparr>,
                        [urb_ret conn u 0 slice chunk])))"

text \<open>
  Dropping the parked URBs with an unlinked sequence number. The tail pointer is cleared when
  the dropped node was the last one, whatever is left in front of it.
\<close>

definition unlink_pending :: "u32 \<Rightarrow> usbip_ep \<Rightarrow> usbip_ep" where
  "unlink_pending seqnum ep =
     (let q = e_pend ep in
      ep\<lparr>e_pend := \<lparr>q_items = filter (\<lambda>p. p_seqnum p \<noteq> seqnum) (q_items q),
        q_tail = (q_tail q \<and> (q_items q = [] \<or> p_seqnum (last (q_items q)) \<noteq> seqnum))\<rparr>\<rparr>)"

end
