(* ===== verification/Endpoint_Props.thy ===== *)
theory Endpoint_Props
  imports Endpoint_IO Device_Build
begin

text \<open>
  What the data path of an endpoint guarantees over any sequence of operations: the byte stream
  the class writes reaches the host whole and in order, every IN URB is answered once and in
  order, a halted endpoint answers STALL, and no reply is longer than was asked for.
\<close>

section \<open>Runs of one endpoint\<close>

datatype ep_event =
    EvWrite bytes
  | EvIn nat urb
  | EvUnlink u32
  | EvStall
  | EvClearHalt

text \<open>One event, as the dispatcher and the public calls handle it.\<close>

fun ep_do :: "ep_event \<Rightarrow> usbip_ep \<Rightarrow> (usbip_ep \<times> msg list) cresult" where
  "ep_do (EvWrite bs) ep = usbip_device_write bs ep"
| "ep_do (EvIn c u) ep =
     (if usbip_ep_is_halted ep then Ret (ep, [urb_ret c u USBIP_STATUS_STALL [] 0])
      else serve_in c u ep)"
| "ep_do (EvUnlink s) ep = Ret (unlink_pending s ep, [])"
| "ep_do EvStall ep = Ret (usbip_ep_stall ep)"
| "ep_do EvClearHalt ep = Ret (usbip_ep_clear_halt ep, [])"

fun ep_run :: "ep_event list \<Rightarrow> usbip_ep \<Rightarrow> (usbip_ep \<times> msg list) cresult" where
  "ep_run [] ep = Ret (ep, [])"
| "ep_run (e # es) ep = (case ep_do e ep of
       Ret (ep, out) \<Rightarrow> (case ep_run es ep of
           Ret (ep, out') \<Rightarrow> Ret (ep, out @ out')
         | Err x \<Rightarrow> Err x | Undefined \<Rightarrow> Undefined)
     | Err x \<Rightarrow> Err x | Undefined \<Rightarrow> Undefined)"

text \<open>A transfer length a host controller uses: not negative.\<close>

definition urb_len_ok :: "urb \<Rightarrow> bool" where
  "urb_len_ok u \<longleftrightarrow> 0 \<le> u_length u \<and> u_length u < 2 ^ 31"

fun event_ok :: "ep_event \<Rightarrow> bool" where
  "event_ok (EvIn c u) = urb_len_ok u"
| "event_ok _ = True"

fun no_unlink :: "ep_event \<Rightarrow> bool" where
  "no_unlink (EvUnlink s) = False"
| "no_unlink _ = True"

section \<open>The invariant\<close>

definition chunk_ok :: "dbuf \<Rightarrow> bool" where
  "chunk_ok d \<longleftrightarrow> 0 \<le> d_off d \<and> d_off d < int (length (d_data d))"

definition parked :: "usbip_ep \<Rightarrow> pending list" where
  "parked ep = q_items (e_pend ep)"

definition ep_ok :: "usbip_ep \<Rightarrow> bool" where
  "ep_ok ep \<longleftrightarrow> q_ok (e_in ep) \<and> list_all chunk_ok (q_items (e_in ep))
     \<and> (parked ep = [] \<or> q_items (e_in ep) = [] \<and> \<not> e_halted ep)
     \<and> (\<forall>p \<in> set (parked ep). 0 \<le> i32 (p_length p))"

definition queued :: "usbip_ep \<Rightarrow> bytes" where
  "queued ep = concat (map (\<lambda>d. drop (nat (d_off d)) (d_data d)) (q_items (e_in ep)))"

fun ret_data :: "msg \<Rightarrow> bytes" where
  "ret_data (RetSubmit r) = r_data r"
| "ret_data (RetIso c u d) = d"
| "ret_data (RetUnlink c s st) = []"

definition sent_data :: "msg list \<Rightarrow> bytes" where
  "sent_data out = concat (map ret_data out)"

lemma sent_data_simps [simp]:
  "sent_data [] = []" "sent_data (m # ms) = ret_data m @ sent_data ms"
  "sent_data (xs @ ys) = sent_data xs @ sent_data ys"
  by (simp_all add: sent_data_def)

lemma pend_ret_simps [simp]:
  "ret_data (pend_ret p st d n) = d" "msg_seqnum (pend_ret p st d n) = p_seqnum p"
  "ret_data (urb_ret c u st d n) = d" "msg_seqnum (urb_ret c u st d n) = u_seqnum u"
  by (simp_all add: pend_ret_def urb_ret_def)

section \<open>Feeding parked URBs\<close>

text \<open>What one reply promises of the request it answers.\<close>

definition fits :: "u32 \<times> int \<Rightarrow> msg \<Rightarrow> bool" where
  "fits rq m = (case m of
      RetSubmit r \<Rightarrow> r_seqnum r = fst rq \<and> int (length (r_data r)) = r_actual r
        \<and> (snd rq = 0 \<or> r_actual r \<le> snd rq)
    | _ \<Rightarrow> False)"

definition req_of_pending :: "pending \<Rightarrow> u32 \<times> int" where
  "req_of_pending p = (p_seqnum p, i32 (p_length p))"

definition req_of_urb :: "urb \<Rightarrow> u32 \<times> int" where
  "req_of_urb u = (u_seqnum u, u_length u)"

text \<open>Each of the parked URBs fed is answered in turn; the stream is cut where they end.\<close>

lemma feed_parked_spec:
  assumes "\<forall>p \<in> set (parked ep). 0 \<le> i32 (p_length p)"
  shows "\<exists>k q out' rest. feed_parked src ep out = Ret (rest, ep\<lparr>e_pend := q\<rparr>, out @ out')
     \<and> q_items q = drop k (parked ep) \<and> (rest = [] \<or> drop k (parked ep) = [])
     \<and> src = sent_data out' @ rest
     \<and> list_all2 fits (map req_of_pending (take k (parked ep))) out'
     \<and> (q_ok (e_pend ep) \<longrightarrow> q_ok q)"
  using assms
proof (induction "length (parked ep)" arbitrary: src ep out rule: less_induct)
  case less
  show ?case
  proof (cases "src \<noteq> [] \<and> parked ep \<noteq> []")
    case False
    then show ?thesis
      by (intro exI [of _ 0] exI [of _ "e_pend ep"] exI [of _ "[]"] exI [of _ src])
        (auto simp: feed_parked.simps [of src ep out] parked_def)
  next
    case True
    then obtain p ps where ps: "parked ep = p # ps" by (cases "parked ep") auto
    define c where "c = (if p_length p \<noteq> 0 \<and> int (length src) > i32 (p_length p)
      then i32 (p_length p) else int (length src))"
    let ?ep = "ep\<lparr>e_pend := q_pop (e_pend ep)\<rparr>"
    define m where "m = pend_ret p 0 (take (nat c) src) c"
    from ps less.prems have c: "0 \<le> c" "c \<le> int (length src)" "p_length p \<noteq> 0 \<longrightarrow> c \<le> i32 (p_length p)"
      by (auto simp: c_def)
    have pp: "parked ?ep = ps" using ps by (simp add: parked_def)
    have "length (parked ?ep) < length (parked ep)" "\<forall>p \<in> set (parked ?ep). 0 \<le> i32 (p_length p)"
      using ps pp less.prems by simp_all
    from less.hyps [OF this, of "drop (nat c) src" "out @ [m]"]
    obtain k q out' rest where ih: "feed_parked (drop (nat c) src) ?ep (out @ [m])
          = Ret (rest, ?ep\<lparr>e_pend := q\<rparr>, (out @ [m]) @ out')"
      "q_items q = drop k ps" "rest = [] \<or> drop k ps = []" "drop (nat c) src = sent_data out' @ rest"
      "list_all2 fits (map req_of_pending (take k ps)) out'" "q_ok (e_pend ?ep) \<longrightarrow> q_ok q"
      unfolding pp by (elim exE conjE) (rule that; assumption)
    have m: "fits (req_of_pending p) m" "ret_data m = take (nat c) src"
      using c by (auto simp: fits_def m_def pend_ret_def req_of_pending_def)
    have "feed_parked src ep out = feed_parked (drop (nat c) src) ?ep (out @ [m])"
      using True ps c(1) feed_parked.simps [of src ep out] by (simp add: parked_def Let_def c_def m_def)
    moreover have "src = take (nat c) src @ sent_data out' @ rest"
      using ih(4) by (metis append_take_drop_id)
    ultimately show ?thesis
      using ps ih m by (intro exI [of _ "Suc k"] exI [of _ q] exI [of _ "m # out'"] exI [of _ rest]) auto
  qed
qed

section \<open>One event\<close>

fun written :: "ep_event \<Rightarrow> bytes" where
  "written (EvWrite bs) = bs"
| "written _ = []"

fun submitted :: "ep_event \<Rightarrow> (u32 \<times> int) list" where
  "submitted (EvIn c u) = [req_of_urb u]"
| "submitted _ = []"

definition waiting :: "usbip_ep \<Rightarrow> (u32 \<times> int) list" where
  "waiting ep = map req_of_pending (parked ep)"

text \<open>The bytes written come out as sent or queued, in order.\<close>

definition keeps_stream :: "usbip_ep \<Rightarrow> bytes \<Rightarrow> msg list \<Rightarrow> usbip_ep \<Rightarrow> bool" where
  "keeps_stream ep bs out ep' \<longleftrightarrow> queued ep @ bs = sent_data out @ queued ep'"

text \<open>The requests are answered from the oldest on, each once, by a reply that fits it.\<close>

definition answers_in_order :: "usbip_ep \<Rightarrow> (u32 \<times> int) list \<Rightarrow> msg list \<Rightarrow> usbip_ep \<Rightarrow> bool" where
  "answers_in_order ep rqs out ep' \<longleftrightarrow>
     (\<exists>done. waiting ep @ rqs = done @ waiting ep' \<and> list_all2 fits done out)"

lemma write_spec:
  assumes ok: "ep_ok ep"
  shows "\<exists>ep' out. usbip_device_write bs ep = Ret (ep', out) \<and> ep_ok ep' \<and> keeps_stream ep bs out ep'
     \<and> (q_ok (e_pend ep) \<longrightarrow> q_ok (e_pend ep')) \<and> answers_in_order ep [] out ep'
     \<and> e_halted ep' = e_halted ep"
proof -
  from ok have "\<forall>p \<in> set (parked ep). 0 \<le> i32 (p_length p)" by (simp add: ep_ok_def)
  from feed_parked_spec [OF this, of bs "[]"] obtain k q out rest where
    f: "feed_parked bs ep [] = Ret (rest, ep\<lparr>e_pend := q\<rparr>, out)"
    and q: "q_items q = drop k (parked ep)" "q_ok (e_pend ep) \<longrightarrow> q_ok q"
    and rest: "rest = [] \<or> drop k (parked ep) = []" and bs: "bs = sent_data out @ rest"
    and fit: "list_all2 fits (map req_of_pending (take k (parked ep))) out" by auto
  let ?ep = "ep\<lparr>e_pend := q\<rparr>"
  let ?ep' = "if rest \<noteq> [] then ?ep\<lparr>e_in := enq_dbuf rest (e_in ?ep)\<rparr> else ?ep"
  have w: "usbip_device_write bs ep = Ret (?ep', out)" by (simp add: usbip_device_write_def f)
  have inq: "q_items (e_in ep) = []" if "out \<noteq> []"
    using that fit ok by (cases "parked ep") (auto simp: ep_ok_def)
  have p': "parked ?ep' = drop k (parked ep)" by (simp add: parked_def q)
  have "ep_ok ?ep'"
    using ok rest p' set_drop_subset [of k "parked ep"]
    by (auto simp: ep_ok_def enq_dbuf_def chunk_ok_def simp del: set_drop_subset)
  moreover have "keeps_stream ep bs out ?ep'"
    using ok inq bs by (cases "out = []") (auto simp: keeps_stream_def queued_def enq_dbuf_def ep_ok_def)
  moreover have "answers_in_order ep [] out ?ep'"
    using fit p' unfolding answers_in_order_def waiting_def
    by (intro exI [of _ "map req_of_pending (take k (parked ep))"]) (simp flip: map_append)
  ultimately show ?thesis using w q by (intro exI [of _ ?ep'] exI [of _ out]) auto
qed

lemma serve_in_spec:
  assumes ok: "ep_ok ep" and u: "urb_len_ok u" and h: "\<not> e_halted ep"
  shows "\<exists>ep' out. serve_in c u ep = Ret (ep', out) \<and> ep_ok ep' \<and> keeps_stream ep [] out ep'
     \<and> (q_ok (e_pend ep) \<longrightarrow> q_ok (e_pend ep') \<and> answers_in_order ep [req_of_urb u] out ep')
     \<and> e_halted ep' = e_halted ep"
proof (cases "q_items (e_in ep)")
  case Nil
  have "i32 (u32_of_int (u_length u)) = u_length u" using u by (simp add: urb_len_ok_def)
  with Nil ok h u show ?thesis
    by (auto simp: serve_in_def park_def ep_ok_def parked_def keeps_stream_def queued_def
        answers_in_order_def waiting_def req_of_pending_def req_of_urb_def urb_len_ok_def q_append_def q_ok_def)
next
  case (Cons d ds)
  from ok Cons have d: "0 \<le> d_off d" "d_off d < int (length (d_data d))" and np: "parked ep = []"
    by (auto simp: ep_ok_def chunk_ok_def)
  define avail where "avail = int (length (d_data d)) - d_off d"
  define n where "n = (if u_length u \<noteq> 0 \<and> avail > u_length u then u_length u else avail)"
  define slice where "slice = take (nat n) (drop (nat (d_off d)) (d_data d))"
  have n: "0 < n" "n \<le> avail" "u_length u \<noteq> 0 \<longrightarrow> n \<le> u_length u"
    using u d by (auto simp: n_def avail_def urb_len_ok_def)
  let ?m = "urb_ret c u 0 slice n"
  let ?ep' = "if d_off d + n \<ge> int (length (d_data d)) then ep\<lparr>e_in := q_pop (e_in ep)\<rparr>
              else ep\<lparr>e_in := (e_in ep)\<lparr>q_items := d\<lparr>d_off := d_off d + n\<rparr> # ds\<rparr>\<rparr>"
  have "serve_in c u ep = (if n > 0 \<and> d_off d < 0 \<or> d_off d + n < - (2 ^ 31) then Undefined
      else Ret (?ep', [?m]))"
    unfolding serve_in_def Cons Let_def list.case slice_def n_def avail_def by (rule refl)
  with n d have s: "serve_in c u ep = Ret (?ep', [?m])" by simp
  have len: "int (length slice) = n"
    using n d by (simp add: slice_def avail_def)
  have "queued ep = slice @ queued ?ep'"
  proof (cases "d_off d + n \<ge> int (length (d_data d))")
    case True
    then have "n = avail" using n(2) by (simp add: avail_def)
    then have "slice = drop (nat (d_off d)) (d_data d)" by (simp add: slice_def avail_def)
    with True Cons show ?thesis by (simp add: queued_def)
  next
    case False
    then show ?thesis using Cons n d
      by (simp add: queued_def slice_def nat_add_distrib flip: drop_drop append_assoc)
         (metis append_take_drop_id add.commute drop_drop)
  qed
  then have "keeps_stream ep [] [?m] ?ep'" by (simp add: keeps_stream_def)
  moreover have "ep_ok ?ep'"
    using ok Cons n d np by (auto simp: ep_ok_def parked_def chunk_ok_def q_ok_def q_pop_def)
  moreover have "answers_in_order ep [req_of_urb u] [?m] ?ep'"
    using np n len by (auto simp: answers_in_order_def waiting_def parked_def fits_def urb_ret_def req_of_urb_def)
  ultimately show ?thesis using s by (intro exI [of _ ?ep'] exI [of _ "[?m]"]) auto
qed

lemma stall_spec:
  assumes ok: "ep_ok ep" and s: "usbip_ep_stall ep = (ep', out)"
  shows "ep_ok ep' \<and> keeps_stream ep [] out ep' \<and> q_ok (e_pend ep') \<and> answers_in_order ep [] out ep'"
proof -
  have e: "ep' = ep\<lparr>e_halted := True, e_pend := q_empty\<rparr>"
    and o: "out = map (\<lambda>p. pend_ret p USBIP_STATUS_STALL [] 0) (parked ep)"
    using s by (auto simp: usbip_ep_stall_def parked_def)
  have "sent_data out = []" by (simp add: o sent_data_def comp_def)
  moreover have "list_all2 fits (waiting ep) out"
    using ok by (auto simp: o waiting_def list_all2_map1 list_all2_map2 list_all2_same ep_ok_def
        fits_def pend_ret_def req_of_pending_def)
  ultimately show ?thesis
    using ok by (auto simp: e ep_ok_def parked_def keeps_stream_def queued_def answers_in_order_def waiting_def)
qed

lemma ep_do_spec:
  assumes ok: "ep_ok ep" and e: "event_ok e"
  shows "\<exists>ep' out. ep_do e ep = Ret (ep', out) \<and> ep_ok ep' \<and> keeps_stream ep (written e) out ep'
     \<and> (no_unlink e \<longrightarrow> q_ok (e_pend ep) \<longrightarrow> q_ok (e_pend ep') \<and> answers_in_order ep (submitted e) out ep')"
proof (cases e)
  case (EvWrite bs)
  with write_spec [OF ok, of bs] show ?thesis by auto
next
  case (EvIn c u)
  with e have u: "urb_len_ok u" by simp
  show ?thesis
  proof (cases "e_halted ep")
    case True
    with ok have "parked ep = []" by (auto simp: ep_ok_def)
    with True EvIn ok u show ?thesis
      by (auto simp: usbip_ep_is_halted_def keeps_stream_def answers_in_order_def waiting_def fits_def
          urb_ret_def req_of_urb_def urb_len_ok_def)
  next
    case False
    with serve_in_spec [OF ok u False, of c] EvIn show ?thesis by (auto simp: usbip_ep_is_halted_def)
  qed
next
  case (EvUnlink s)
  with ok show ?thesis
    by (auto simp: unlink_pending_def Let_def ep_ok_def parked_def keeps_stream_def queued_def)
next
  case EvStall
  with stall_spec [OF ok] show ?thesis by (cases "usbip_ep_stall ep") auto
next
  case EvClearHalt
  with ok show ?thesis
    by (auto simp: usbip_ep_clear_halt_def ep_ok_def parked_def keeps_stream_def queued_def
        answers_in_order_def waiting_def)
qed

section \<open>Runs\<close>

lemma ep_run_spec:
  assumes "ep_ok ep" "list_all event_ok es"
  shows "\<exists>ep' out. ep_run es ep = Ret (ep', out) \<and> ep_ok ep' \<and> keeps_stream ep (concat (map written es)) out ep'
     \<and> (list_all no_unlink es \<longrightarrow> q_ok (e_pend ep) \<longrightarrow>
          q_ok (e_pend ep') \<and> answers_in_order ep (concat (map submitted es)) out ep')"
  using assms
proof (induction es arbitrary: ep)
  case Nil
  then show ?case by (auto simp: keeps_stream_def answers_in_order_def)
next
  case (Cons e es)
  from ep_do_spec [of ep e] Cons.prems obtain ep1 out1 where
    1: "ep_do e ep = Ret (ep1, out1)" "ep_ok ep1" "keeps_stream ep (written e) out1 ep1"
    and a1: "no_unlink e \<longrightarrow> q_ok (e_pend ep) \<longrightarrow> q_ok (e_pend ep1) \<and> answers_in_order ep (submitted e) out1 ep1"
    by auto
  from Cons.IH [OF 1(2)] Cons.prems obtain ep2 out2 where
    2: "ep_run es ep1 = Ret (ep2, out2)" "ep_ok ep2" "keeps_stream ep1 (concat (map written es)) out2 ep2"
    and a2: "list_all no_unlink es \<longrightarrow> q_ok (e_pend ep1) \<longrightarrow>
          q_ok (e_pend ep2) \<and> answers_in_order ep1 (concat (map submitted es)) out2 ep2"
    by auto
  have "answers_in_order ep (r1 @ r2) (out1 @ out2) ep2"
    if "answers_in_order ep r1 out1 ep1" "answers_in_order ep1 r2 out2 ep2" for r1 r2
  proof -
    from that obtain d1 d2 where "waiting ep @ r1 = d1 @ waiting ep1" "list_all2 fits d1 out1"
      "waiting ep1 @ r2 = d2 @ waiting ep2" "list_all2 fits d2 out2"
      by (auto simp: answers_in_order_def)
    then have "waiting ep @ r1 @ r2 = (d1 @ d2) @ waiting ep2" "list_all2 fits (d1 @ d2) (out1 @ out2)"
      by (metis append_assoc, simp add: list_all2_appendI)
    then show ?thesis by (auto simp: answers_in_order_def)
  qed
  moreover have "keeps_stream ep (concat (map written (e # es))) (out1 @ out2) ep2"
    using 1(3) 2(3) unfolding keeps_stream_def by simp (metis append_assoc)
  ultimately show ?case using 1 2 a1 a2 by auto
qed

lemma ep_ok_new [simp]: "ep_ok (new_ep n dir d owner)"
  by (simp add: ep_ok_def new_ep_def parked_def)

text \<open>C1: Whatever a class writes to an IN endpoint reaches the host whole, in order and once: over
  any interleaving of writes, IN URBs, unlinks, stalls and clears (each returns, none is undefined),
  the data of the replies followed by what is still queued is the concatenation of what was
  queued before and what was written. Splits across short reads lose nothing, and neither does
  a stall.\<close>

theorem in_stream_is_conserved:
  assumes "ep_ok ep" and "list_all event_ok es"
  shows "\<exists>ep' out. ep_run es ep = Ret (ep', out)
     \<and> queued ep @ concat (map written es) = sent_data out @ queued ep'"
  using ep_run_spec [OF assms] by (auto simp: keeps_stream_def)

definition demo_ep :: usbip_ep where
  "demo_ep = new_ep 1 USB_IN [7, 5, 0x81, 2, 64, 0, 0] 0"

definition demo_in :: "u32 \<Rightarrow> int \<Rightarrow> urb" where
  "demo_in s n = \<lparr>u_command = 1, u_seqnum = s, u_devid = 0, u_direction = 1, u_ep = 1, u_flags = 0,
     u_unlink_seqnum = 0, u_length = n, u_interval = 0, u_npkts = 0, u_iso = [],
     u_setup = replicate 8 0, u_data = []\<rparr>"

definition demo_events :: "ep_event list" where
  "demo_events = [EvIn 0 (demo_in 1 2), EvIn 0 (demo_in 2 0), EvWrite [1, 2, 3], EvWrite [4, 5, 6],
     EvIn 0 (demo_in 3 2), EvStall, EvIn 0 (demo_in 4 8), EvClearHalt, EvIn 0 (demo_in 5 8),
     EvIn 0 (demo_in 6 8)]"

lemma demo_ok: "ep_ok demo_ep" "list_all event_ok demo_events" "list_all no_unlink demo_events"
  by (simp_all add: demo_ep_def demo_events_def demo_in_def urb_len_ok_def)

theorem in_stream_is_conserved_witness:
  "\<exists>ep' out. ep_run demo_events demo_ep = Ret (ep', out)
     \<and> queued demo_ep @ concat (map written demo_events) = sent_data out @ queued ep'"
  by (rule in_stream_is_conserved [OF demo_ok(1,2)])

text \<open>C2: Without unlinks, IN URBs are answered exactly once and in the order they were submitted:
  the requests waiting before, followed by those submitted, are the requests answered followed by
  those still parked, and the \<open>i\<close>-th reply carries the \<open>i\<close>-th request's sequence number and at most
  the length it asked for (0 stands for no limit).\<close>

theorem in_urbs_answered_in_order:
  assumes "ep_ok ep" and "q_ok (e_pend ep)" and "list_all event_ok es" and "list_all no_unlink es"
  shows "\<exists>ep' out answered. ep_run es ep = Ret (ep', out)
     \<and> waiting ep @ concat (map submitted es) = answered @ waiting ep' \<and> list_all2 fits answered out"
  using ep_run_spec [OF assms(1,3)] assms(2,4) by (auto simp: answers_in_order_def)

theorem in_urbs_answered_in_order_witness:
  "\<exists>ep' out answered. ep_run demo_events demo_ep = Ret (ep', out)
     \<and> waiting demo_ep @ concat (map submitted demo_events) = answered @ waiting ep'
     \<and> list_all2 fits answered out"
proof (rule in_urbs_answered_in_order [OF demo_ok(1) _ demo_ok(2,3)])
  show "q_ok (e_pend demo_ep)" by (simp add: demo_ep_def new_ep_def)
qed

section \<open>Halting\<close>

fun is_stall :: "msg \<Rightarrow> bool" where
  "is_stall (RetSubmit r) = (r_status r = USBIP_STATUS_STALL \<and> r_data r = [] \<and> r_actual r = 0)"
| "is_stall _ = False"

lemma halted_step:
  assumes "ep_ok ep" "e_halted ep" "e \<noteq> EvClearHalt"
  shows "\<exists>ep' out. ep_do e ep = Ret (ep', out) \<and> ep_ok ep' \<and> e_halted ep' \<and> list_all is_stall out
     \<and> map msg_seqnum out = map fst (submitted e) \<and> queued ep' = queued ep @ written e"
proof -
  from assms have np: "q_items (e_pend ep) = []" by (auto simp: ep_ok_def parked_def)
  show ?thesis
  proof (cases e)
    case (EvWrite bs)
    with assms(1,2) np show ?thesis
      by (auto simp: usbip_device_write_def feed_parked.simps [of bs ep "[]"] ep_ok_def parked_def
          enq_dbuf_def chunk_ok_def queued_def)
  next
    case (EvIn c u)
    with assms show ?thesis
      by (simp add: usbip_ep_is_halted_def urb_ret_def req_of_urb_def)
  next
    case (EvUnlink s)
    with assms np show ?thesis
      by (simp add: unlink_pending_def Let_def ep_ok_def parked_def queued_def)
  next
    case EvStall
    with assms np show ?thesis
      by (simp add: usbip_ep_stall_def ep_ok_def parked_def queued_def)
  qed (use assms in simp)
qed

text \<open>Once an endpoint is halted, and until its halt is cleared, every IN URB is answered STALL at
  once and with no data, whatever else happens; what the class writes meanwhile is kept, so that
  it is there when the halt is cleared (a mass-storage failure queues its status word so).\<close>

theorem halted_until_cleared:
  assumes "ep_ok ep" and "list_all (\<lambda>e. e \<noteq> EvClearHalt) es"
  shows "\<exists>ep1 out1 ep' out. ep_do EvStall ep = Ret (ep1, out1) \<and> list_all is_stall out1
     \<and> map msg_seqnum out1 = map fst (waiting ep)
     \<and> ep_run es ep1 = Ret (ep', out) \<and> list_all is_stall out
     \<and> map msg_seqnum out = map fst (concat (map submitted es))
     \<and> queued ep' = queued ep @ concat (map written es) \<and> usbip_ep_is_halted ep'"
proof -
  let ?ep = "fst (usbip_ep_stall ep)"
  have "\<exists>ep' out. ep_run es ep = Ret (ep', out) \<and> list_all is_stall out
     \<and> map msg_seqnum out = map fst (concat (map submitted es))
     \<and> queued ep' = queued ep @ concat (map written es) \<and> e_halted ep'"
    if "ep_ok ep" "e_halted ep" for ep
    using that assms(2)
  proof (induction es arbitrary: ep)
    case (Cons e es)
    from halted_step [of ep e] Cons.prems obtain ep1 out1 where 1: "ep_do e ep = Ret (ep1, out1)"
      "ep_ok ep1" "e_halted ep1" "list_all is_stall out1" "map msg_seqnum out1 = map fst (submitted e)"
      "queued ep1 = queued ep @ written e" by auto
    from Cons.IH [of ep1] 1 Cons.prems show ?case by auto
  qed simp
  moreover have "ep_ok ?ep" "e_halted ?ep" "queued ?ep = queued ep"
    using assms(1) by (auto simp: usbip_ep_stall_def ep_ok_def parked_def queued_def)
  moreover have "list_all is_stall (snd (usbip_ep_stall ep))"
    "map msg_seqnum (snd (usbip_ep_stall ep)) = map fst (waiting ep)"
    by (simp_all add: usbip_ep_stall_def pend_ret_def list_all_iff waiting_def parked_def
        req_of_pending_def comp_def)
  ultimately show ?thesis
    by (cases "usbip_ep_stall ep") (fastforce simp: usbip_ep_is_halted_def)
qed

theorem halted_until_cleared_witness:
  "\<exists>ep1 out1 ep' out. ep_do EvStall demo_ep = Ret (ep1, out1) \<and> list_all is_stall out1
     \<and> map msg_seqnum out1 = map fst (waiting demo_ep)
     \<and> ep_run [EvWrite [1, 2], EvIn 0 (demo_in 9 4)] ep1 = Ret (ep', out) \<and> list_all is_stall out
     \<and> map msg_seqnum out = map fst (concat (map submitted [EvWrite [1, 2], EvIn 0 (demo_in 9 4)]))
     \<and> queued ep' = queued demo_ep @ concat (map written [EvWrite [1, 2], EvIn 0 (demo_in 9 4)])
     \<and> usbip_ep_is_halted ep'"
  by (rule halted_until_cleared [OF demo_ok(1)]) simp

section \<open>Unlinking\<close>

text \<open>Unlinking a parked URB that is not the last one parked takes exactly it out, and the
  requests that arrive afterwards queue up behind the others.\<close>

theorem unlink_keeps_the_others:
  assumes "q_ok (e_pend ep)" and "parked ep \<noteq> [] \<longrightarrow> p_seqnum (last (parked ep)) \<noteq> s"
    and "q_items (e_in ep) = []" and "\<not> e_halted ep"
  shows "\<exists>ep' new. ep_run [EvUnlink s, EvIn c u] ep = Ret (ep', []) \<and> q_ok (e_pend ep')
     \<and> parked ep' = filter (\<lambda>p. p_seqnum p \<noteq> s) (parked ep) @ [new] \<and> p_seqnum new = u_seqnum u"
proof -
  have "q_tail (e_pend ep) = (filter (\<lambda>p. p_seqnum p \<noteq> s) (q_items (e_pend ep)) \<noteq> [])"
    using assms(1,2) last_filter_last [of "q_items (e_pend ep)" "\<lambda>p. p_seqnum p \<noteq> s"]
    by (cases "q_items (e_pend ep) = []") (auto simp: q_ok_def parked_def)
  with assms show ?thesis
    by (auto simp: unlink_pending_def Let_def serve_in_def park_def usbip_ep_is_halted_def parked_def
        q_append_def q_ok_def)
qed

text \<open>C15: Unlinking the last of several parked URBs breaks the list: the tail pointer is
  cleared while the head is not, so the next URB to be parked replaces all those still waiting, which
  are then never answered.\<close>

theorem unlink_of_last_loses_the_others:
  assumes "parked ep = ps @ [p]" and "p_seqnum p = s" and "\<forall>p \<in> set ps. p_seqnum p \<noteq> s"
    and "q_items (e_in ep) = []" and "\<not> e_halted ep"
  shows "\<exists>ep' new. ep_run [EvUnlink s, EvIn c u] ep = Ret (ep', [])
     \<and> parked (unlink_pending s ep) = ps \<and> parked ep' = [new] \<and> p_seqnum new = u_seqnum u"
  using assms
  by (auto simp: unlink_pending_def Let_def serve_in_def park_def usbip_ep_is_halted_def parked_def
      q_append_def filter_id_conv)

text \<open>Two parked URBs, 1 and 2; unlinking 1 is the first theorem's case, unlinking 2 the second's.\<close>

definition two_parked :: usbip_ep where
  "two_parked = park 0 (demo_in 2 0) (park 0 (demo_in 1 0) demo_ep)"

lemma two_parked_simps:
  "q_ok (e_pend two_parked)" "map p_seqnum (parked two_parked) = [1, 2]" "\<not> e_halted two_parked"
  "q_items (e_in two_parked) = []"
  by (simp_all add: two_parked_def park_def demo_ep_def new_ep_def demo_in_def parked_def q_append_def
      q_empty_def q_ok_def)

theorem unlink_keeps_the_others_witness:
  "\<exists>ep' new. ep_run [EvUnlink 1, EvIn 0 (demo_in 3 0)] two_parked = Ret (ep', []) \<and> q_ok (e_pend ep')
     \<and> parked ep' = filter (\<lambda>p. p_seqnum p \<noteq> 1) (parked two_parked) @ [new]
     \<and> p_seqnum new = u_seqnum (demo_in 3 0)"
proof (rule unlink_keeps_the_others)
  show "parked two_parked \<noteq> [] \<longrightarrow> p_seqnum (last (parked two_parked)) \<noteq> 1"
    by (simp add: two_parked_def park_def demo_ep_def new_ep_def demo_in_def parked_def q_append_def q_empty_def)
qed (simp_all add: two_parked_simps)

theorem unlink_of_last_loses_the_others_witness:
  "\<exists>ep' new. ep_run [EvUnlink 2, EvIn 0 (demo_in 3 0)] two_parked = Ret (ep', [])
     \<and> parked (unlink_pending 2 two_parked) = butlast (parked two_parked)
     \<and> parked ep' = [new] \<and> p_seqnum new = u_seqnum (demo_in 3 0)"
  by (rule unlink_of_last_loses_the_others [where p = "last (parked two_parked)"])
    (simp_all add: two_parked_def park_def demo_ep_def new_ep_def demo_in_def parked_def q_append_def q_empty_def)

end
