(* ===== verification/Control.thy ===== *)
theory Control
  imports Descriptors Endpoint_Props
begin

text \<open>
  Control transfers (\<open>handle_control\<close> and \<open>route\<close> in \<open>src/usbip_device.c\<close>), and the world the
  device side of one connection runs in: the application's state, the device, the
  isochronous completions waiting for their deadline, and the replies sent so far.
\<close>

section \<open>The world\<close>

record paced_ret =
  pr_deadline_us :: u64
  pr_seqnum :: u32
  pr_devid :: u32
  pr_direction :: u32
  pr_ep :: u32
  pr_npkts :: int
  pr_iso :: "iso_pkt list"
  pr_data :: bytes

record 's world =
  w_app :: 's
  w_dev :: usbip_device
  w_pace_started :: bool
  w_paced :: "paced_ret list"
  w_out :: "msg list"

definition emit :: "msg list \<Rightarrow> 's world \<Rightarrow> 's world" where
  "emit ms w = w\<lparr>w_out := w_out w @ ms\<rparr>"

definition set_ep :: "nat \<Rightarrow> usbip_ep \<Rightarrow> 's world \<Rightarrow> 's world" where
  "set_ep i ep w = w\<lparr>w_dev := upd_ep i (\<lambda>_. ep) (w_dev w)\<rparr>"

text \<open>What a callback asks of the core; a NULL endpoint is ignored.\<close>

fun do_act :: "ep_act \<Rightarrow> 's world \<Rightarrow> 's world cresult" where
  "do_act (EpWrite i bs) w =
     (if i < length (eps (w_dev w)) then
        (case usbip_device_write bs (eps (w_dev w) ! i) of
           Ret (ep, out) \<Rightarrow> Ret (emit out (set_ep i ep w))
         | Err e \<Rightarrow> Err e | Undefined \<Rightarrow> Undefined)
      else Ret w)"
| "do_act (EpStall i) w =
     (if i < length (eps (w_dev w)) then
        (let (ep, out) = usbip_ep_stall (eps (w_dev w) ! i) in Ret (emit out (set_ep i ep w)))
      else Ret w)"

fun do_acts :: "ep_act list \<Rightarrow> 's world \<Rightarrow> 's world cresult" where
  "do_acts [] w = Ret w"
| "do_acts (a # as) w = (case do_act a w of
     Ret w \<Rightarrow> do_acts as w | Err e \<Rightarrow> Err e | Undefined \<Rightarrow> Undefined)"

section \<open>Requests the core answers\<close>

text \<open>What the core makes of a request: \<open>core_handled\<close> with a reply or a STALL, or not handled.\<close>

datatype core_reply = Reply bytes | Stall | Delegate

definition get_descriptor :: "usbip_device \<Rightarrow> usb_setup \<Rightarrow> core_reply" where
  "get_descriptor dev stp =
     (let dt = USB_U16_MSB (wValue stp) in
      if dt = 1 then Reply (build_device_desc dev)
      else if dt = 2 then Reply (build_config_desc dev 4096)
      else if dt = 3 then (case build_string_desc dev (USB_U16_LSB (wValue stp)) of
             None \<Rightarrow> Stall | Some d \<Rightarrow> Reply d)
      else if dt = 0x0F \<and> (msos dev \<noteq> [] \<or> webusb dev) then Reply (build_bos_desc dev)
      else if dt < 0x21 then Stall
      else Delegate)"

definition get_status :: "usbip_device \<Rightarrow> usb_setup \<Rightarrow> core_reply" where
  "get_status dev stp =
     (if USB_REQ_RECIP (bmRequestType stp) = 2
         \<and> (case ep_by_addr dev (USB_U16_LSB (wIndex stp)) of
              None \<Rightarrow> False | Some i \<Rightarrow> usbip_ep_is_halted (eps dev ! i))
      then Reply [1, 0] else Reply [0, 0])"

text \<open>\<open>CLEAR_FEATURE\<close> and \<open>SET_FEATURE\<close>: only an endpoint's halt is tracked.\<close>

definition set_halt :: "usb_setup \<Rightarrow> 's world \<Rightarrow> 's world" where
  "set_halt stp w =
     (if USB_REQ_RECIP (bmRequestType stp) = 2 \<and> wValue stp = 0 then
        (case ep_by_addr (w_dev w) (USB_U16_LSB (wIndex stp)) of
           None \<Rightarrow> w
         | Some i \<Rightarrow>
             (if bRequest stp = 1 then set_ep i (usbip_ep_clear_halt (eps (w_dev w) ! i)) w
              else (let (ep, out) = usbip_ep_stall (eps (w_dev w) ! i) in emit out (set_ep i ep w))))
      else w)"

definition set_configuration :: "usb_setup \<Rightarrow> 's world \<Rightarrow> 's world" where
  "set_configuration stp w = w\<lparr>w_dev := (w_dev w)\<lparr>config := USB_U16_LSB (wValue stp),
     eps := map usbip_ep_clear_halt (eps (w_dev w))\<rparr>\<rparr>"

definition set_interface :: "'s callbacks \<Rightarrow> usb_setup \<Rightarrow> 's world \<Rightarrow> 's world cresult" where
  "set_interface cb stp w =
     (let ifnum = USB_U16_LSB (wIndex stp); alt = USB_U16_LSB (wValue stp)
      in case (if unat ifnum < 16 then set_alt_tab (w_dev w) (unat ifnum) else None) of
           None \<Rightarrow> Ret w
         | Some h \<Rightarrow> (let (s, acts) = cb_set_alt cb h (w_app w) ifnum alt in do_acts acts (w\<lparr>w_app := s\<rparr>)))"

definition standard_request :: "'s callbacks \<Rightarrow> usb_setup \<Rightarrow> 's world \<Rightarrow> ('s world \<times> core_reply) cresult" where
  "standard_request cb stp w =
     (let r = bRequest stp in
      if r = 6 then Ret (w, get_descriptor (w_dev w) stp)
      else if r = 9 then Ret (set_configuration stp w, Reply [])
      else if r = 8 then Ret (w, Reply [config (w_dev w)])
      else if r = 10 then Ret (w, Reply [0])
      else if r = 11 then (case set_interface cb stp w of
             Ret w \<Rightarrow> Ret (w, Reply []) | Err e \<Rightarrow> Err e | Undefined \<Rightarrow> Undefined)
      else if r = 0 then Ret (w, get_status (w_dev w) stp)
      else if r = 1 \<or> r = 3 then Ret (set_halt stp w, Reply [])
      else if r = 5 then Ret (w, Reply [])
      else Ret (w, Delegate))"

definition vendor_request :: "usbip_device \<Rightarrow> usb_setup \<Rightarrow> core_reply" where
  "vendor_request dev stp =
     (if msos dev \<noteq> [] \<and> bRequest stp = msos1_vendor dev \<and> wIndex stp = 0x0004
      then Reply (msos1_compatid dev)
      else if msos dev \<noteq> [] \<and> bRequest stp = msos1_vendor dev \<and> wIndex stp = 0x0005 then
        (let guid = (case msos_entry_for_interface dev (USB_U16_MSB (wValue stp)) of
               None \<Rightarrow> None | Some e \<Rightarrow> ms_guid e)
         in if msos1_extprops_size guid \<le> 4096 then Reply (msos1_extprops guid) else Stall)
      else if msos dev \<noteq> [] \<and> bRequest stp = msos2_vendor dev \<and> wIndex stp = 0x0007 then
        (if msos2_set_size dev \<le> 4096 then Reply (msos2_set dev) else Stall)
      else if webusb dev \<and> bRequest stp = webusb_vendor dev \<and> wIndex stp = 0x0002
      then Reply (build_webusb_url (webusb_url dev))
      else Delegate)"

section \<open>Delegation\<close>

definition route :: "usbip_device \<Rightarrow> usb_setup \<Rightarrow> handler option" where
  "route dev stp =
     (let ifnum = USB_U16_LSB (wIndex stp) in
      if bmRequestType stp AND 0x1f = 1 \<and> unat ifnum < 16 \<and> ctrl dev (unat ifnum) \<noteq> None
      then ctrl dev (unat ifnum)
      else ctrl_default dev)"

text \<open>
  The handler of an IN request fills the core's 4096-byte buffer and returns how much of it is
  the reply. \<open>cb_control\<close> gives the bytes it has written: more than the buffer holds, or
  a reply longer than what was written, has no defined result.
\<close>

definition delegate :: "'s callbacks \<Rightarrow> urb \<Rightarrow> usb_setup \<Rightarrow> 's world \<Rightarrow> ('s world \<times> core_reply) cresult" where
  "delegate cb u stp w =
     (case route (w_dev w) stp of
        None \<Rightarrow> Ret (w, Stall)
      | Some h \<Rightarrow>
          (let is_in = req_is_in (bmRequestType stp);
               (s, acts, rc, d) = (if is_in then cb_control cb h (w_app w) stp [] (wLength stp)
                 else cb_control cb h (w_app w) stp (u_data u) (of_nat (length (u_data u))))
           in case do_acts acts (w\<lparr>w_app := s\<rparr>) of
                Err e \<Rightarrow> Err e
              | Undefined \<Rightarrow> Undefined
              | Ret w \<Rightarrow>
                  (if rc < 0 then Ret (w, Stall)
                   else if \<not> is_in then Ret (w, Reply [])
                   else if length d > 4096 \<or> min (nat rc) (unat (wLength stp)) > length d then Undefined
                   else Ret (w, Reply (take (nat rc) d)))))"

section \<open>The control handler\<close>

definition handle_control :: "'s callbacks \<Rightarrow> nat \<Rightarrow> urb \<Rightarrow> 's world \<Rightarrow> 's world cresult" where
  "handle_control cb conn u w =
     (let stp = setup_of_bytes (u_setup u);
          is_in = req_is_in (bmRequestType stp);
          ty = USB_REQ_TYPE (bmRequestType stp);
          core = (if ty = USB_STANDARD then standard_request cb stp w
                  else if is_in \<and> ty = USB_VENDOR then Ret (w, vendor_request (w_dev w) stp)
                  else Ret (w, Delegate))
      in case (case core of Ret (w, Delegate) \<Rightarrow> delegate cb u stp w | _ \<Rightarrow> core) of
           Err e \<Rightarrow> Err e
         | Undefined \<Rightarrow> Undefined
         | Ret (w, Reply d) \<Rightarrow>
             (if length d > 4096 then Undefined
              else if is_in then
                (let d = take (unat (wLength stp)) d
                 in Ret (emit [urb_ret conn u 0 d (int (length d))] w))
              else Ret (emit [urb_ret conn u 0 [] (int (length (u_data u)))] w))
         | Ret (w, _) \<Rightarrow> Ret (emit [urb_ret conn u USBIP_STATUS_STALL [] 0] w))"

section \<open>Every control transfer is answered\<close>

text \<open>The device the theorems speak of: endpoints in order, and strings and URL that fit the
  core's buffer.\<close>

definition strings_fit :: "usbip_device \<Rightarrow> bool" where
  "strings_fit dev \<longleftrightarrow> (\<forall>i < n_strings dev. case strings dev i of None \<Rightarrow> True | Some s \<Rightarrow> length s \<le> 2047)
     \<and> length (webusb_url dev) \<le> 4093"

definition dev_ok :: "usbip_device \<Rightarrow> bool" where
  "dev_ok dev \<longleftrightarrow> list_all ep_ok (eps dev) \<and> map_inv dev \<and> strings_fit dev \<and> descr_len dev \<le> DESCR_MAX"

definition handlers_ok :: "'s callbacks \<Rightarrow> bool" where
  "handlers_ok cb \<longleftrightarrow> (\<forall>h s stp d len. case cb_control cb h s stp d len of
     (s', acts, rc, reply) \<Rightarrow> length reply \<le> 4096 \<and> nat rc \<le> length reply)"

text \<open>The parts of a device that no request changes.\<close>

definition same_shape :: "usbip_device \<Rightarrow> usbip_device \<Rightarrow> bool" where
  "same_shape d d' \<longleftrightarrow> length (eps d') = length (eps d) \<and> ep_map d' = ep_map d \<and> strings d' = strings d
     \<and> n_strings d' = n_strings d \<and> webusb_url d' = webusb_url d \<and> descr_len d' = descr_len d
     \<and> map (\<lambda>ep. (e_number ep, e_dir ep)) (eps d') = map (\<lambda>ep. (e_number ep, e_dir ep)) (eps d)"

lemma same_shape_refl [simp]: "same_shape d d"
  by (simp add: same_shape_def)

lemma same_shape_trans: "same_shape a b \<Longrightarrow> same_shape b c \<Longrightarrow> same_shape a c"
  by (simp add: same_shape_def)

lemma same_shape_ok:
  assumes "same_shape d d'" "dev_ok d" "list_all ep_ok (eps d')"
  shows "dev_ok d'"
proof -
  have "e_number (eps d' ! h) = e_number (eps d ! h) \<and> e_dir (eps d' ! h) = e_dir (eps d ! h)"
    if "h < length (eps d)" for h
    using assms(1) that arg_cong [of _ _ "\<lambda>xs. xs ! h"] by (fastforce simp: same_shape_def list_eq_iff_nth_eq)
  with assms show ?thesis by (auto simp: dev_ok_def same_shape_def map_inv_def strings_fit_def)
qed

text \<open>A step that keeps the shape and the endpoints in order, and only adds replies.\<close>

definition extends :: "'s world \<Rightarrow> 's world \<Rightarrow> bool" where
  "extends w w' \<longleftrightarrow> same_shape (w_dev w) (w_dev w') \<and> dev_ok (w_dev w') \<and> (\<exists>ms. w_out w' = w_out w @ ms)"

lemma extends_refl [simp]: "dev_ok (w_dev w) \<Longrightarrow> extends w w"
  by (simp add: extends_def)

lemma extends_trans: "extends a b \<Longrightarrow> extends b c \<Longrightarrow> extends a c"
  using same_shape_trans by (fastforce simp: extends_def)

lemma extends_app: "extends (w\<lparr>w_app := s\<rparr>) w' \<longleftrightarrow> extends w w'"
  by (simp add: extends_def)

lemma extends_set_ep:
  assumes "dev_ok (w_dev w)" "i < length (eps (w_dev w))" "ep_ok ep"
    and "e_number ep = e_number (eps (w_dev w) ! i)" "e_dir ep = e_dir (eps (w_dev w) ! i)"
  shows "extends w (emit ms (set_ep i ep w))" "extends w (set_ep i ep w)"
proof -
  have s: "same_shape (w_dev w) (upd_ep i (\<lambda>_. ep) (w_dev w))"
    using assms(2,4,5) by (auto simp: same_shape_def upd_ep_def map_update intro!: list_update_same_conv [THEN iffD2])
  moreover have "list_all ep_ok (eps (upd_ep i (\<lambda>_. ep) (w_dev w)))"
    using assms(1,3) by (auto simp: dev_ok_def upd_ep_def list_all_iff dest!: set_update_subset_insert [THEN subsetD])
  ultimately have "dev_ok (upd_ep i (\<lambda>_. ep) (w_dev w))" using assms(1) same_shape_ok by blast
  with s show "extends w (emit ms (set_ep i ep w))" "extends w (set_ep i ep w)"
    by (simp_all add: extends_def emit_def set_ep_def)
qed

lemma feed_parked_frame:
  "feed_parked src ep out = Ret (rest, ep', out') \<Longrightarrow> \<exists>q. ep' = ep\<lparr>e_pend := q\<rparr>"
proof (induction src ep out rule: feed_parked.induct)
  case (1 src ep out)
  show ?case
  proof (cases "src \<noteq> [] \<and> q_items (e_pend ep) \<noteq> []")
    case False
    with "1.prems" have "ep' = ep\<lparr>e_pend := e_pend ep\<rparr>" by (auto simp: feed_parked.simps [of src ep out])
    then show ?thesis ..
  next
    case True
    from "1.prems" "1.IH" [OF True refl refl refl] True show ?thesis
      by (subst (asm) feed_parked.simps) (auto simp: Let_def split: if_splits)
  qed
qed

lemma write_frame:
  assumes "usbip_device_write bs ep = Ret (ep', out)"
  shows "e_number ep' = e_number ep \<and> e_dir ep' = e_dir ep"
  using assms by (auto simp: usbip_device_write_def split: cresult.splits prod.splits if_splits dest!: feed_parked_frame)

lemma nth_ep_ok: "dev_ok dev \<Longrightarrow> i < length (eps dev) \<Longrightarrow> ep_ok (eps dev ! i)"
  by (simp add: dev_ok_def list_all_length)

lemma do_act_extends:
  assumes "dev_ok (w_dev w)"
  shows "\<exists>w'. do_act a w = Ret w' \<and> extends w w'"
proof (cases a)
  case (EpWrite i bs)
  show ?thesis
  proof (cases "i < length (eps (w_dev w))")
    case True
    from write_spec [OF nth_ep_ok [OF assms True], of bs] obtain ep out
      where "usbip_device_write bs (eps (w_dev w) ! i) = Ret (ep, out)" "ep_ok ep" by auto
    with True EpWrite assms write_frame [OF this(1)] show ?thesis
      by (auto intro: extends_set_ep(1))
  qed (use EpWrite assms in auto)
next
  case (EpStall i)
  show ?thesis
  proof (cases "i < length (eps (w_dev w))")
    case True
    obtain ep out where s: "usbip_ep_stall (eps (w_dev w) ! i) = (ep, out)" by fastforce
    then have "e_number ep = e_number (eps (w_dev w) ! i)" "e_dir ep = e_dir (eps (w_dev w) ! i)"
      by (auto simp: usbip_ep_stall_def)
    with True EpStall assms stall_spec [OF nth_ep_ok [OF assms True] s] s show ?thesis
      by (auto intro: extends_set_ep(1))
  qed (use EpStall assms in auto)
qed

lemma do_acts_extends:
  "dev_ok (w_dev w) \<Longrightarrow> \<exists>w'. do_acts as w = Ret w' \<and> extends w w'"
proof (induction as arbitrary: w)
  case (Cons a as)
  from do_act_extends [OF Cons.prems] obtain w1 where 1: "do_act a w = Ret w1" "extends w w1" by blast
  with Cons.IH [of w1] obtain w2 where "do_acts as w1 = Ret w2" "extends w1 w2" by (auto simp: extends_def)
  with 1 extends_trans show ?case by auto
qed simp

lemma set_halt_extends: "dev_ok (w_dev w) \<Longrightarrow> extends w (set_halt stp w)"
proof -
  assume ok: "dev_ok (w_dev w)"
  have "extends w (set_ep i (usbip_ep_clear_halt (eps (w_dev w) ! i)) w)"
    "extends w (let (ep, out) = usbip_ep_stall (eps (w_dev w) ! i) in emit out (set_ep i ep w))"
    if "ep_by_addr (w_dev w) a = Some i" for i a
  proof -
    from ok that have i: "i < length (eps (w_dev w))" by (auto simp: dev_ok_def map_inv_def ep_by_addr_def)
    let ?ep = "eps (w_dev w) ! i"
    show "extends w (set_ep i (usbip_ep_clear_halt ?ep) w)"
      using nth_ep_ok [OF ok i] by (intro extends_set_ep(2) ok i) (auto simp: usbip_ep_clear_halt_def ep_ok_def parked_def)
    obtain ep out where s: "usbip_ep_stall ?ep = (ep, out)" by fastforce
    from stall_spec [OF nth_ep_ok [OF ok i] s] s
    have "extends w (emit out (set_ep i ep w))"
      by (intro extends_set_ep(1) ok i) (auto simp: usbip_ep_stall_def)
    with s show "extends w (let (ep, out) = usbip_ep_stall ?ep in emit out (set_ep i ep w))" by simp
  qed
  with ok show ?thesis by (auto simp: set_halt_def split: option.split)
qed

lemma set_configuration_extends:
  assumes "dev_ok (w_dev w)" shows "extends w (set_configuration stp w)"
proof -
  have s: "same_shape (w_dev w) (w_dev (set_configuration stp w))"
    by (simp add: set_configuration_def same_shape_def usbip_ep_clear_halt_def)
  moreover have "list_all ep_ok (eps (w_dev (set_configuration stp w)))"
    using assms by (auto simp: set_configuration_def dev_ok_def list_all_iff usbip_ep_clear_halt_def ep_ok_def parked_def)
  ultimately have "dev_ok (w_dev (set_configuration stp w))" using assms same_shape_ok by blast
  with s show ?thesis by (simp add: extends_def) (simp add: set_configuration_def)
qed

lemma set_interface_extends:
  "dev_ok (w_dev w) \<Longrightarrow> \<exists>w'. set_interface cb stp w = Ret w' \<and> extends w w'"
  using do_acts_extends [of "w\<lparr>w_app := s\<rparr>" for s]
  by (auto simp: set_interface_def Let_def extends_app split: option.split prod.split)

text \<open>The core's own replies fit its buffer.\<close>

fun reply_fits :: "core_reply \<Rightarrow> bool" where
  "reply_fits (Reply d) = (length d \<le> 4096)"
| "reply_fits _ = True"

lemma length_msos1_compatid: "length (msos1_compatid dev) = 16 + 24 * length (msos1_sections dev)"
proof -
  have "length (concat (map (\<lambda>(first, e). [first, 1] @ compat_field (ms_compatible e) @ replicate 14 0) secs))
      = 24 * length secs" for secs :: "(u8 \<times> msos_entry) list"
    by (induction secs) auto
  then show ?thesis by (simp add: msos1_compatid_def Let_def)
qed

lemma get_descriptor_fits:
  assumes "dev_ok dev" shows "reply_fits (get_descriptor dev stp)"
proof -
  have "length (build_bos_desc dev) \<le> 4096"
    by (simp add: build_bos_desc_def Let_def WEBUSB_UUID_def MSOS20_UUID_def)
  moreover have "length d \<le> 4096" if "build_string_desc dev i = Some d" for i d
    using that assms by (fastforce simp: build_string_desc_def msos1_string_def utf16_len_def cstr_def
        dev_ok_def strings_fit_def split: if_splits option.splits)
  moreover have "length (build_config_desc dev 4096) \<le> 4096"
    by (simp add: build_config_desc_def Let_def)
  moreover have "length (build_device_desc dev) \<le> 4096" by (simp add: build_device_desc_def)
  ultimately show ?thesis by (simp add: get_descriptor_def Let_def split: option.split)
qed

lemma vendor_request_fits:
  assumes "dev_ok dev" shows "reply_fits (vendor_request dev stp)"
proof -
  have "length (msos1_sections dev) \<le> 8" by (simp add: msos1_sections_def)
  moreover have "length (build_webusb_url (webusb_url dev)) \<le> 4096"
    using assms by (auto simp: build_webusb_url_def dev_ok_def strings_fit_def Let_def)
  ultimately show ?thesis
    using msos2_set_lockstep [of dev]
    by (simp add: vendor_request_def Let_def length_msos1_compatid length_msos1_extprops)
qed

lemma standard_request_extends:
  assumes ok: "dev_ok (w_dev w)"
  shows "\<exists>w' r. standard_request cb stp w = Ret (w', r) \<and> extends w w' \<and> reply_fits r"
  using set_interface_extends [OF ok, of cb stp] ok get_descriptor_fits [OF ok, of stp]
    set_halt_extends [OF ok] set_configuration_extends [OF ok]
  by (auto simp: standard_request_def Let_def get_status_def)

lemma handlers_okD:
  "handlers_ok cb \<Longrightarrow> cb_control cb h s stp x len = (s', acts, rc, d) \<Longrightarrow> length d \<le> 4096 \<and> nat rc \<le> length d"
  unfolding handlers_ok_def by (metis (mono_tags, lifting) case_prod_conv)

lemma delegate_extends:
  assumes ok: "dev_ok (w_dev w)" and cb: "handlers_ok cb"
  shows "\<exists>w' r. delegate cb u stp w = Ret (w', r) \<and> extends w w' \<and> reply_fits r \<and> r \<noteq> Delegate"
proof (cases "route (w_dev w) stp")
  case None
  with ok show ?thesis by (simp add: delegate_def)
next
  case (Some h)
  obtain s acts rc d where c: "(if req_is_in (bmRequestType stp)
      then cb_control cb h (w_app w) stp [] (wLength stp)
      else cb_control cb h (w_app w) stp (u_data u) (of_nat (length (u_data u)))) = (s, acts, rc, d)"
    by (metis prod_cases4)
  with cb have d: "length d \<le> 4096" "nat rc \<le> length d"
    using handlers_okD [OF cb] by (auto split: if_splits)
  from do_acts_extends [of "w\<lparr>w_app := s\<rparr>" acts] ok obtain w'
    where "do_acts acts (w\<lparr>w_app := s\<rparr>) = Ret w'" "extends w w'" by (auto simp: extends_app)
  with Some c d show ?thesis by (auto simp: delegate_def Let_def)
qed

text \<open>What the control handler answers with.\<close>

definition control_answer :: "nat \<Rightarrow> urb \<Rightarrow> msg \<Rightarrow> bool" where
  "control_answer conn u m \<longleftrightarrow> (let stp = setup_of_bytes (u_setup u) in
     m = urb_ret conn u USBIP_STATUS_STALL [] 0
     \<or> (if req_is_in (bmRequestType stp)
         then \<exists>d. m = urb_ret conn u 0 d (int (length d)) \<and> length d \<le> unat (wLength stp)
         else m = urb_ret conn u 0 [] (int (length (u_data u)))))"

lemma handle_control_answers:
  assumes ok: "dev_ok (w_dev w)" and cb: "handlers_ok cb"
  shows "\<exists>w' ms m. handle_control cb conn u w = Ret w' \<and> same_shape (w_dev w) (w_dev w') \<and> dev_ok (w_dev w')
     \<and> w_out w' = w_out w @ ms @ [m] \<and> control_answer conn u m"
proof -
  define stp where "stp = setup_of_bytes (u_setup u)"
  define core where "core = (if USB_REQ_TYPE (bmRequestType stp) = USB_STANDARD then standard_request cb stp w
      else if req_is_in (bmRequestType stp) \<and> USB_REQ_TYPE (bmRequestType stp) = USB_VENDOR
      then Ret (w, vendor_request (w_dev w) stp) else Ret (w, Delegate))"
  have "\<exists>w1 r1. core = Ret (w1, r1) \<and> extends w w1 \<and> reply_fits r1"
    using standard_request_extends [OF ok, of cb stp] vendor_request_fits [OF ok, of stp] ok
    by (auto simp: core_def)
  then obtain w1 r1 where 1: "core = Ret (w1, r1)" "extends w w1" "reply_fits r1" by blast
  then have ok1: "dev_ok (w_dev w1)" by (simp add: extends_def)
  from delegate_extends [OF ok1 cb, of u stp] obtain w2 r2 where
    2: "delegate cb u stp w1 = Ret (w2, r2)" "extends w1 w2" "reply_fits r2" "r2 \<noteq> Delegate" by blast
  define out where "out = (if r1 = Delegate then (w2, r2) else (w1, r1))"
  have o: "(case core of Ret (w, Delegate) \<Rightarrow> delegate cb u stp w | _ \<Rightarrow> core) = Ret out"
    using 1(1) 2(1) by (cases r1) (simp_all add: out_def)
  obtain w3 r3 where 3: "out = (w3, r3)" "extends w w3" "reply_fits r3" "r3 \<noteq> Delegate"
    using 1 2 extends_trans [OF 1(2) 2(2)] by (cases "r1 = Delegate") (auto simp: out_def)
  then obtain ms where ms: "w_out w3 = w_out w @ ms" "same_shape (w_dev w) (w_dev w3)" "dev_ok (w_dev w3)"
    by (auto simp: extends_def)
  have h: "handle_control cb conn u w = (case r3 of
      Reply d \<Rightarrow> if length d > 4096 then Undefined
        else if req_is_in (bmRequestType stp) then
          Ret (emit [urb_ret conn u 0 (take (unat (wLength stp)) d) (int (length (take (unat (wLength stp)) d)))] w3)
        else Ret (emit [urb_ret conn u 0 [] (int (length (u_data u)))] w3)
    | _ \<Rightarrow> Ret (emit [urb_ret conn u USBIP_STATUS_STALL [] 0] w3))"
    unfolding handle_control_def Let_def stp_def [symmetric] core_def [symmetric] o 3(1)
    by (cases r3) simp_all
  obtain m where m: "handle_control cb conn u w = Ret (emit [m] w3)" "control_answer conn u m"
  proof (cases r3)
    case (Reply d)
    show ?thesis
    proof (cases "req_is_in (bmRequestType stp)")
      case True
      with Reply 3(3) show ?thesis
        by (intro that [of "urb_ret conn u 0 (take (unat (wLength stp)) d) (int (length (take (unat (wLength stp)) d)))"])
          (auto simp: h control_answer_def stp_def Let_def intro!: exI [of _ "take (unat (wLength (setup_of_bytes (u_setup u)))) d"])
    next
      case False
      with Reply 3(3) show ?thesis
        by (intro that [of "urb_ret conn u 0 [] (int (length (u_data u)))"]) (auto simp: h control_answer_def stp_def)
    qed
  next
    case Stall
    then show ?thesis
      by (intro that [of "urb_ret conn u USBIP_STATUS_STALL [] 0"]) (auto simp: h control_answer_def)
  qed (use 3 in simp)
  with ms show ?thesis by (auto simp: emit_def)
qed


definition demo_world :: "nat world" where
  "demo_world = \<lparr>w_app = 0, w_dev = fold build_step two_claims (usbip_device_create 1 2),
     w_pace_started = False, w_paced = [], w_out = []\<rparr>"

text \<open>Handlers that answer IN requests with one byte and STALL the others.\<close>

definition demo_callbacks :: "nat callbacks" where
  "demo_callbacks = \<lparr>cb_control = (\<lambda>h s stp d len. if req_is_in (bmRequestType stp) then (s, [], 1, [42]) else (s, [], - 1, [])),
     cb_set_alt = (\<lambda>h s i a. (s, [])), cb_on_out = (\<lambda>h s i d. (s + length d, [EpWrite 0 d])),
     cb_on_iso = (\<lambda>h s i lens b. (s, [], lens, b))\<rparr>"

definition ctrl_urb :: "u32 \<Rightarrow> bytes \<Rightarrow> urb" where
  "ctrl_urb s stp = (demo_in s 0)\<lparr>u_ep := 0, u_setup := stp\<rparr>"

lemma register_ifnum_strings:
  "strings (register_ifnum i dev) = strings dev" "n_strings (register_ifnum i dev) = n_strings dev"
  "webusb_url (register_ifnum i dev) = webusb_url dev"
  by (simp_all add: register_ifnum_def Let_def)

lemma note_interface_strings:
  "strings (note_interface d k dev) = strings dev" "n_strings (note_interface d k dev) = n_strings dev"
  "webusb_url (note_interface d k dev) = webusb_url dev"
  by (simp_all add: note_interface_def register_ifnum_strings Let_def split: option.split)

lemma note_endpoint_strings:
  "strings (note_endpoint n dir d k dev) = strings dev" "n_strings (note_endpoint n dir d k dev) = n_strings dev"
  "webusb_url (note_endpoint n dir d k dev) = webusb_url dev"
  by (simp_all add: note_endpoint_def Let_def split: option.split)

lemma appended_strings:
  "strings (appended x d) = strings d" "n_strings (appended x d) = n_strings d"
  "webusb_url (appended x d) = webusb_url d"
  by (simp_all add: appended_def)

lemma add_descriptor_strings:
  "strings (fst (usbip_device_add_descriptor x d)) = strings d"
  "n_strings (fst (usbip_device_add_descriptor x d)) = n_strings d"
  "webusb_url (fst (usbip_device_add_descriptor x d)) = webusb_url d"
  unfolding add_descriptor_cases
  by (auto simp: note_interface_strings note_endpoint_strings appended_strings split: option.split)

lemma build_step_strings:
  "strings (build_step op d) = strings d" "n_strings (build_step op d) = n_strings d"
  "webusb_url (build_step op d) = webusb_url d"
  by (cases op; simp add: add_descriptor_strings usbip_device_reserve_endpoint_def
      usbip_device_group_begin_def usbip_device_on_control_def usbip_device_on_set_alt_def
      usbip_device_set_interface_string_def Let_def split: option.split)+

lemma strings_fit_build_step: "strings_fit (build_step op d) = strings_fit d"
  by (simp only: strings_fit_def build_step_strings)

lemma strings_fit_build_steps: "strings_fit d \<Longrightarrow> strings_fit (fold build_step ops d)"
  by (induction ops arbitrary: d) (simp_all add: strings_fit_build_step)

lemma demo_handlers: "handlers_ok demo_callbacks"
  by (simp add: handlers_ok_def demo_callbacks_def)

lemma demo_build_inv: "build_inv (fold build_step two_claims (usbip_device_create v p))"
  by (intro build_inv_steps build_inv_create) (simp add: two_claims_def desc_ok_def desc_len_def)

lemma demo_world_ok: "dev_ok (w_dev demo_world)"
proof -
  have "list_all ep_ok (eps (fold build_step two_claims (usbip_device_create 1 2)))"
    using demo_build_inv [of 1 2] by (auto simp: build_inv_def owner_inv_def list_all_iff ep_ok_def parked_def)
  moreover have "strings_fit (fold build_step two_claims (usbip_device_create 1 2))"
    by (intro strings_fit_build_steps) (simp add: strings_fit_def usbip_device_create_def)
  ultimately show ?thesis
    using demo_build_inv [of 1 2] by (simp add: dev_ok_def demo_world_def build_inv_def size_inv_def)
qed


section \<open>The endpoint halt as the host sees it\<close>

lemma standard_setup [simp]:
  "USB_REQ_TYPE 0x02 = 0" "USB_REQ_TYPE 0x82 = 0" "USB_REQ_TYPE 0x80 = 0" "USB_REQ_TYPE 0 = 0"
  "USB_REQ_RECIP 0x02 = 2" "USB_REQ_RECIP 0x82 = 2" "\<not> req_is_in 0x02" "req_is_in 0x82" "req_is_in 0x80"
  "\<not> req_is_in 0"
  by (simp_all add: USB_REQ_TYPE_def USB_REQ_RECIP_def req_is_in_def)

lemma ucast_u8_u16 [simp]: "ucast (ucast (a :: u8) :: u16) = a"
  by (rule bit_word_eqI) (auto simp: bit_simps)

lemma ep_by_addr_set_ep [simp]: "ep_by_addr (w_dev (set_ep i ep w)) a = ep_by_addr (w_dev w) a"
  "ep_by_addr (w_dev (emit ms w)) a = ep_by_addr (w_dev w) a"
  by (simp_all add: ep_by_addr_def set_ep_def emit_def)

lemma eps_set_ep [simp]: "i < length (eps (w_dev w)) \<Longrightarrow> eps (w_dev (set_ep i ep w)) ! i = ep"
  "length (eps (w_dev (set_ep i ep w))) = length (eps (w_dev w))"
  "w_dev (emit ms w) = w_dev w" "w_out (emit ms w) = w_out w @ ms" "w_out (set_ep i ep w) = w_out w"
  by (simp_all add: set_ep_def emit_def)

text \<open>The halt the host sets, reads and clears is the endpoint's own. After
  \<open>SET_FEATURE(ENDPOINT_HALT)\<close> for an endpoint address \<open>GET_STATUS\<close> of that address reads halted,
  after \<open>CLEAR_FEATURE\<close> it reads running, and each of the four requests succeeds.\<close>

theorem endpoint_halt_roundtrip:
  assumes "ep_by_addr (w_dev w) a = Some i" and "i < length (eps (w_dev w))"
    and "u_setup uset = USB_SETUP_BYTES 0x02 3 0 (ucast a) 0"
    and "u_setup uclr = USB_SETUP_BYTES 0x02 1 0 (ucast a) 0"
    and "u_setup uget = USB_SETUP_BYTES 0x82 0 0 (ucast a) 2"
  shows "\<exists>w1 w2 w3 w4. handle_control cb c uset w = Ret w1 \<and> handle_control cb c uget w1 = Ret w2
     \<and> handle_control cb c uclr w2 = Ret w3 \<and> handle_control cb c uget w3 = Ret w4
     \<and> last (w_out w1) = urb_ret c uset 0 [] (int (length (u_data uset)))
     \<and> last (w_out w2) = urb_ret c uget 0 [1, 0] 2
     \<and> last (w_out w3) = urb_ret c uclr 0 [] (int (length (u_data uclr)))
     \<and> last (w_out w4) = urb_ret c uget 0 [0, 0] 2"
  using assms
  by (simp add: handle_control_def setup_of_SETUP_BYTES standard_request_def set_halt_def get_status_def
      usbip_ep_stall_def usbip_ep_clear_halt_def usbip_ep_is_halted_def Let_def)

theorem endpoint_halt_roundtrip_witness:
  "\<exists>w1 w2 w3 w4. handle_control demo_callbacks 0 (ctrl_urb 1 (USB_SETUP_BYTES 0x02 3 0 (ucast (0x81 :: u8)) 0)) demo_world = Ret w1
     \<and> handle_control demo_callbacks 0 (ctrl_urb 2 (USB_SETUP_BYTES 0x82 0 0 (ucast (0x81 :: u8)) 2)) w1 = Ret w2
     \<and> handle_control demo_callbacks 0 (ctrl_urb 3 (USB_SETUP_BYTES 0x02 1 0 (ucast (0x81 :: u8)) 0)) w2 = Ret w3
     \<and> handle_control demo_callbacks 0 (ctrl_urb 2 (USB_SETUP_BYTES 0x82 0 0 (ucast (0x81 :: u8)) 2)) w3 = Ret w4
     \<and> last (w_out w2) = urb_ret 0 (ctrl_urb 2 (USB_SETUP_BYTES 0x82 0 0 (ucast (0x81 :: u8)) 2)) 0 [1, 0] 2
     \<and> last (w_out w4) = urb_ret 0 (ctrl_urb 2 (USB_SETUP_BYTES 0x82 0 0 (ucast (0x81 :: u8)) 2)) 0 [0, 0] 2"
proof -
  have "ep_by_addr (w_dev demo_world) 0x81 = Some 0" "length (eps (w_dev demo_world)) = 2"
    unfolding demo_world_def two_claims_def by code_simp+
  then show ?thesis
    using endpoint_halt_roundtrip [of demo_world "0x81" 0
        "ctrl_urb 1 (USB_SETUP_BYTES 0x02 3 0 (ucast (0x81 :: u8)) 0)"
        "ctrl_urb 3 (USB_SETUP_BYTES 0x02 1 0 (ucast (0x81 :: u8)) 0)"
        "ctrl_urb 2 (USB_SETUP_BYTES 0x82 0 0 (ucast (0x81 :: u8)) 2)" demo_callbacks 0]
    by (simp only: ctrl_urb_def) auto
qed

text \<open>Selecting a configuration clears the halt of every endpoint and of no other state of it, and
  the value selected is the one \<open>GET_CONFIGURATION\<close> then reads.\<close>

theorem set_configuration_resets_halts:
  assumes "u_setup uset = USB_SETUP_BYTES 0 9 (ucast v) 0 0" and "u_setup uget = USB_SETUP_BYTES 0x80 8 0 0 1"
  shows "\<exists>w1 w2. handle_control cb c uset w = Ret w1 \<and> handle_control cb c uget w1 = Ret w2
     \<and> eps (w_dev w1) = map (\<lambda>ep. ep\<lparr>e_halted := False\<rparr>) (eps (w_dev w))
     \<and> last (w_out w2) = urb_ret c uget 0 [v :: u8] 1"
  using assms
  by (simp add: handle_control_def setup_of_SETUP_BYTES standard_request_def set_configuration_def
      usbip_ep_clear_halt_def Let_def emit_def)

theorem set_configuration_resets_halts_witness:
  "\<exists>w1 w2. handle_control demo_callbacks 0 (ctrl_urb 1 (USB_SETUP_BYTES 0 9 (ucast (1 :: u8)) 0 0)) demo_world = Ret w1
     \<and> handle_control demo_callbacks 0 (ctrl_urb 2 (USB_SETUP_BYTES 0x80 8 0 0 1)) w1 = Ret w2
     \<and> eps (w_dev w1) = map (\<lambda>ep. ep\<lparr>e_halted := False\<rparr>) (eps (w_dev demo_world))
     \<and> last (w_out w2) = urb_ret 0 (ctrl_urb 2 (USB_SETUP_BYTES 0x80 8 0 0 1)) 0 [1 :: u8] 1"
  by (rule set_configuration_resets_halts) (simp_all add: ctrl_urb_def)

section \<open>Enumeration\<close>

text \<open>The two-step read of the configuration descriptor works: the first nine bytes announce
  \<open>wTotalLength\<close>, and a second request for that many bytes returns exactly that many, the same nine
  followed by the whole configuration blob.\<close>

theorem config_descriptor_two_step_read:
  assumes "length (descr (w_dev w)) = DESCR_MAX" and "descr_len (w_dev w) \<le> DESCR_MAX"
    and "u_setup u1 = USB_SETUP_BYTES 0x80 6 0x0200 0 9"
    and "u_setup u2 = USB_SETUP_BYTES 0x80 6 0x0200 0 (of_nat full)"
    and "full = 9 + descr_len (w_dev w)"
  shows "\<exists>w1 w2 hdr. handle_control cb c u1 w = Ret w1 \<and> last (w_out w1) = urb_ret c u1 0 hdr 9
     \<and> length hdr = 9 \<and> unat (usb_get_le16 hdr 2) = full
     \<and> handle_control cb c u2 w1 = Ret w2
     \<and> last (w_out w2) = urb_ret c u2 0 (hdr @ take (descr_len (w_dev w)) (descr (w_dev w))) (int full)"
proof -
  let ?dev = "w_dev w"
  define hdr where "hdr = [9, 2] @ USB_U16LE (of_nat full) @ [of_nat (n_ifnums ?dev), 1, 0, 0x80, 50]"
  have len: "length hdr = 9" by (simp add: hdr_def)
  have c: "build_config_desc ?dev 4096 = hdr @ take (descr_len ?dev) (descr ?dev)"
    using assms(1,2) by (simp add: build_config_desc_def Let_def hdr_def assms(5) min_absorb1)
  have blob: "length (take (descr_len ?dev) (descr ?dev)) = descr_len ?dev"
    using assms(1,2) by simp
  have t: "unat (of_nat full :: u16) = full" using assms(2) by (intro unat_le16) (simp add: assms(5))
  have "usb_get_le16 hdr 2 = of_nat full"
    by (simp add: hdr_def usb_get_le16_def bytes_at_def USB_U16LE_eq)
  then have get: "unat (usb_get_le16 hdr 2) = full" using t by simp
  have dt: "ucast (drop_bit 8 (0x0200 :: u16)) = (2 :: u8)" by simp
  have 1: "handle_control cb c u1 w = Ret (emit [urb_ret c u1 0 hdr 9] w)"
    using assms(2,3) blob len
    by (simp add: handle_control_def setup_of_SETUP_BYTES standard_request_def get_descriptor_def Let_def c)
  have 2: "handle_control cb c u2 (emit [urb_ret c u1 0 hdr 9] w)
      = Ret (emit [urb_ret c u2 0 (hdr @ take (descr_len ?dev) (descr ?dev)) (int full)] (emit [urb_ret c u1 0 hdr 9] w))"
    using assms(2,4) blob len t
    by (simp add: handle_control_def setup_of_SETUP_BYTES standard_request_def get_descriptor_def Let_def c assms(5))
  show ?thesis using 1 2 len get by auto
qed

theorem config_descriptor_two_step_read_witness:
  "\<exists>w1 w2 hdr. handle_control demo_callbacks 0 (ctrl_urb 1 (USB_SETUP_BYTES 0x80 6 0x0200 0 9)) demo_world = Ret w1
     \<and> last (w_out w1) = urb_ret 0 (ctrl_urb 1 (USB_SETUP_BYTES 0x80 6 0x0200 0 9)) 0 hdr 9
     \<and> length hdr = 9 \<and> unat (usb_get_le16 hdr 2) = 41
     \<and> handle_control demo_callbacks 0 (ctrl_urb 2 (USB_SETUP_BYTES 0x80 6 0x0200 0 (of_nat 41))) w1 = Ret w2
     \<and> last (w_out w2) = urb_ret 0 (ctrl_urb 2 (USB_SETUP_BYTES 0x80 6 0x0200 0 (of_nat 41))) 0
         (hdr @ take (descr_len (w_dev demo_world)) (descr (w_dev demo_world))) (int 41)"
proof (rule config_descriptor_two_step_read)
  show "41 = 9 + descr_len (w_dev demo_world)"
    unfolding demo_world_def two_claims_def by code_simp
  show "length (descr (w_dev demo_world)) = DESCR_MAX" "descr_len (w_dev demo_world) \<le> DESCR_MAX"
    using demo_build_inv [of 1 2] by (simp_all add: demo_world_def build_inv_def size_inv_def)
qed (simp_all add: ctrl_urb_def)

end
