(* ===== verification/Wire.thy ===== *)
theory Wire
  imports Device_State
begin

text \<open>
  The framing half of \<open>src/usbip.c\<close>: reading and writing exact byte counts over a stream socket,
  the 48-byte header, the isochronous packet descriptors, \<open>usbip_read_cmd\<close> and the bytes of
  the three replies.
\<close>

section \<open>Sockets\<close>

text \<open>
  What \<open>recv\<close> and \<open>send\<close> promise on a stream socket. The peer's bytes arrive in segments whose
  boundaries mean nothing; a \<open>recv\<close> returns part of what is there, and nothing only when
  the stream has ended. A \<open>send\<close> accepts a prefix, and nothing only when it fails.
\<close>

record sock =
  segs :: "bytes list"
  sent :: bytes
  caps :: "nat list"

fun seg_recv :: "bytes list \<Rightarrow> nat \<Rightarrow> bytes \<times> bytes list" where
  "seg_recv [] n = ([], [])"
| "seg_recv ([] # ss) n = seg_recv ss n"
| "seg_recv (s # ss) n = (take n s, if length s \<le> n then ss else drop n s # ss)"

definition sock_recv :: "sock \<Rightarrow> nat \<Rightarrow> bytes \<times> sock" where
  "sock_recv s n = (let (c, ss) = seg_recv (segs s) n in (c, s\<lparr>segs := ss\<rparr>))"

definition sock_send :: "sock \<Rightarrow> bytes \<Rightarrow> nat \<times> sock" where
  "sock_send s bs = (case caps s of
       [] \<Rightarrow> (length bs, s\<lparr>sent := sent s @ bs\<rparr>)
     | c # cs \<Rightarrow> (min c (length bs), s\<lparr>sent := sent s @ take c bs, caps := cs\<rparr>))"

definition avail :: "sock \<Rightarrow> bytes" where
  "avail s = concat (segs s)"

text \<open>\<open>readn\<close> and \<open>writen\<close>: the loops, over any such \<open>recv\<close> and \<open>send\<close>.\<close>

function readn_loop :: "('s \<Rightarrow> nat \<Rightarrow> bytes \<times> 's) \<Rightarrow> 's \<Rightarrow> nat \<Rightarrow> bytes \<Rightarrow> (bytes \<times> 's) option" where
  "readn_loop rcv s len acc =
     (if length acc < len then
        (let (chunk, s') = rcv s (len - length acc) in
         if chunk = [] then None else readn_loop rcv s' len (acc @ chunk))
      else Some (acc, s))"
  by pat_completeness auto
termination
proof (relation "measure (\<lambda>(rcv, s, len, acc). len - length acc)", goal_cases)
  case 1
  then show ?case by simp
next
  case (2 rcv s len acc x chunk s')
  then show ?case by (cases chunk) auto
qed

declare readn_loop.simps [simp del]

function writen_loop :: "('s \<Rightarrow> bytes \<Rightarrow> nat \<times> 's) \<Rightarrow> 's \<Rightarrow> bytes \<Rightarrow> bool \<times> 's" where
  "writen_loop sender s bs =
     (if bs = [] then (True, s)
      else (let (k, s') = sender s bs in
            if k = 0 then (False, s') else writen_loop sender s' (drop k bs)))"
  by pat_completeness auto
termination
  by (relation "measure (\<lambda>(sender, s, bs). length bs)") auto

declare writen_loop.simps [simp del]

definition readn :: "sock \<Rightarrow> nat \<Rightarrow> (bytes \<times> sock) option" where
  "readn s len = readn_loop sock_recv s len []"

definition writen :: "sock \<Rightarrow> bytes \<Rightarrow> bool \<times> sock" where
  "writen s bs = writen_loop sock_send s bs"

locale byte_source =
  fixes recv :: "'s \<Rightarrow> nat \<Rightarrow> bytes \<times> 's" and pending_bytes :: "'s \<Rightarrow> bytes"
  assumes recv_prefix: "0 < n \<Longrightarrow> recv s n = (c, s') \<Longrightarrow>
      length c \<le> n \<and> pending_bytes s = c @ pending_bytes s'"
    and recv_nonempty: "0 < n \<Longrightarrow> pending_bytes s \<noteq> [] \<Longrightarrow> fst (recv s n) \<noteq> []"
begin

lemma readn_loop_ok:
  "length acc \<le> len \<Longrightarrow> len \<le> length acc + length (pending_bytes s) \<Longrightarrow>
   \<exists>s'. readn_loop recv s len acc = Some (acc @ take (len - length acc) (pending_bytes s), s')
      \<and> pending_bytes s' = drop (len - length acc) (pending_bytes s)"
proof (induction "len - length acc" arbitrary: s acc rule: less_induct)
  case less
  show ?case
  proof (cases "length acc < len")
    case False
    with less.prems show ?thesis by (simp add: readn_loop.simps [of recv s len acc])
  next
    case True
    obtain c s1 where r: "recv s (len - length acc) = (c, s1)" by fastforce
    from True r have p: "length c \<le> len - length acc" "pending_bytes s = c @ pending_bytes s1"
      using recv_prefix [of "len - length acc" s c s1] by auto
    have "c \<noteq> []" using True r less.prems recv_nonempty [of "len - length acc" s] by force
    moreover from this True have "len - length (acc @ c) < len - length acc" by (cases c) auto
    ultimately show ?thesis
      using True p less.prems less.hyps [of "acc @ c" s1]
      by (simp add: readn_loop.simps [of recv s len acc] r)
  qed
qed

lemma readn_loop_short:
  "length acc \<le> len \<Longrightarrow> length acc + length (pending_bytes s) < len \<Longrightarrow>
   readn_loop recv s len acc = None"
proof (induction "len - length acc" arbitrary: s acc rule: less_induct)
  case less
  obtain c s1 where r: "recv s (len - length acc) = (c, s1)" by fastforce
  from less.prems r have p: "length c \<le> len - length acc" "pending_bytes s = c @ pending_bytes s1"
    using recv_prefix [of "len - length acc" s c s1] by auto
  show ?case
  proof (cases "c = []")
    case True
    with less.prems r show ?thesis by (simp add: readn_loop.simps [of recv s len acc])
  next
    case False
    moreover from this less.prems have "len - length (acc @ c) < len - length acc"
      by (cases c) auto
    ultimately show ?thesis
      using less.prems p less.hyps [of "acc @ c" s1]
      by (simp add: readn_loop.simps [of recv s len acc] r)
  qed
qed

end

locale byte_sink =
  fixes send :: "'s \<Rightarrow> bytes \<Rightarrow> nat \<times> 's" and out_bytes :: "'s \<Rightarrow> bytes"
  assumes send_prefix: "send s bs = (k, s') \<Longrightarrow>
      k \<le> length bs \<and> out_bytes s' = out_bytes s @ take k bs"
begin

lemma writen_loop_prefix:
  "writen_loop send s bs = (ok, s') \<Longrightarrow>
   \<exists>k \<le> length bs. out_bytes s' = out_bytes s @ take k bs \<and> (ok \<longleftrightarrow> k = length bs)"
proof (induction "length bs" arbitrary: s bs rule: less_induct)
  case less
  obtain k s1 where sd: "send s bs = (k, s1)" by fastforce
  from sd have k: "k \<le> length bs" "out_bytes s1 = out_bytes s @ take k bs"
    using send_prefix by blast+
  show ?case
  proof (cases "bs = [] \<or> k = 0")
    case True
    with less.prems sd k show ?thesis
      by (auto simp: writen_loop.simps [of send s bs] split: if_splits)
  next
    case False
    with less.prems sd have w: "writen_loop send s1 (drop k bs) = (ok, s')"
      by (auto simp: writen_loop.simps [of send s bs])
    from False k have "length (drop k bs) < length bs" by simp
    from less.hyps [OF this w] obtain j where j: "j \<le> length bs - k"
      "out_bytes s' = out_bytes s1 @ take j (drop k bs)" "ok \<longleftrightarrow> j = length bs - k" by auto
    then have "out_bytes s' = out_bytes s @ take (k + j) bs" using k by (simp add: take_add)
    moreover have "ok \<longleftrightarrow> k + j = length bs" using j k by auto
    ultimately show ?thesis using j k by (intro exI [of _ "k + j"]) auto
  qed
qed

end

lemma seg_recv_prefix:
  "seg_recv ss n = (c, ss') \<Longrightarrow> length c \<le> n \<and> concat ss = c @ concat ss'"
  by (induction ss n arbitrary: c ss' rule: seg_recv.induct) (auto split: if_splits)

lemma seg_recv_nothing: "seg_recv ss n = ([], ss') \<Longrightarrow> 0 < n \<Longrightarrow> concat ss = []"
  by (induction ss n rule: seg_recv.induct) auto

interpretation sock_in: byte_source sock_recv avail
  by unfold_locales
    (auto simp: sock_recv_def avail_def Let_def dest: seg_recv_prefix seg_recv_nothing
       split: prod.splits simp del: concat_eq_Nil_conv)

interpretation sock_out: byte_sink sock_send sent
  by unfold_locales (auto simp: sock_send_def min_def split: list.splits if_splits)

lemma readn_ok:
  assumes "len \<le> length (avail s)"
  obtains s' where "readn s len = Some (take len (avail s), s')" "avail s' = drop len (avail s)"
  using sock_in.readn_loop_ok [of "[]" len s] assms by (auto simp: readn_def)

lemma readn_exact:
  assumes "avail s = bs @ rest" and "n = length bs"
  obtains s' where "readn s n = Some (bs, s')" "avail s' = rest"
  using readn_ok [of n s] assms by (metis append_eq_conv_conj le_add1 length_append)

lemma readn_short: "length (avail s) < len \<Longrightarrow> readn s len = None"
  using sock_in.readn_loop_short [of "[]" len s] by (simp add: readn_def)

lemma readn_SomeD: "readn s len = Some (bs, s') \<Longrightarrow>
    len \<le> length (avail s) \<and> bs = take len (avail s) \<and> avail s' = drop len (avail s)"
  by (cases "len \<le> length (avail s)") (auto elim: readn_ok simp: readn_short)

lemma readn_loop_frame:
  "readn_loop rcv s len acc = Some (bs, s') \<Longrightarrow> rcv = sock_recv \<Longrightarrow>
   sent s' = sent s \<and> caps s' = caps s"
proof (induction rcv s len acc rule: readn_loop.induct)
  case (1 rcv s len acc)
  obtain c s1 where r: "rcv s (len - length acc) = (c, s1)" by fastforce
  then have "sent s1 = sent s \<and> caps s1 = caps s"
    using "1.prems"(2) by (auto simp: sock_recv_def Let_def split: prod.splits)
  with "1.IH" [of "(c, s1)" c s1] "1.prems" r show ?case
    by (auto simp: readn_loop.simps [of sock_recv s len acc] split: if_splits)
qed

lemma readn_frame: "readn s len = Some (bs, s') \<Longrightarrow> sent s' = sent s \<and> caps s' = caps s"
  using readn_loop_frame by (simp add: readn_def)

lemma writen_result: "writen s bs = (ok, s') \<Longrightarrow>
    \<exists>k \<le> length bs. sent s' = sent s @ take k bs \<and> (ok \<longleftrightarrow> k = length bs)"
  using sock_out.writen_loop_prefix by (simp add: writen_def)

section \<open>Headers and packet descriptors\<close>

definition put_basic_hdr :: "u32 \<Rightarrow> u32 \<Rightarrow> u32 \<Rightarrow> u32 \<Rightarrow> u32 \<Rightarrow> bytes" where
  "put_basic_hdr command seqnum devid direction ep =
     usb_put_be32 16 ep (usb_put_be32 12 direction (usb_put_be32 8 devid
       (usb_put_be32 4 seqnum (usb_put_be32 0 command (replicate 48 0)))))"

definition iso_desc_pack :: "iso_pkt \<Rightarrow> bytes" where
  "iso_desc_pack p = usb_put_be32 12 (ip_status p) (usb_put_be32 8 (ip_actual p)
     (usb_put_be32 4 (ip_length p) (usb_put_be32 0 (ip_offset p) (replicate 16 0))))"

definition iso_desc_parse :: "bytes \<Rightarrow> iso_pkt" where
  "iso_desc_parse raw = \<lparr>ip_offset = usb_get_be32 raw 0, ip_length = usb_get_be32 raw 4,
     ip_actual = usb_get_be32 raw 8, ip_status = usb_get_be32 raw 12\<rparr>"

text \<open>\<open>for (i = 0; i < np; i++) iso_desc_parse(raw + 16 * i, &iso[i])\<close>.\<close>

definition iso_descs_parse :: "nat \<Rightarrow> bytes \<Rightarrow> iso_pkt list" where
  "iso_descs_parse np raw = map (\<lambda>i. iso_desc_parse (bytes_at (i * 16) 16 raw)) [0..<np]"

definition iso_descs_pack :: "iso_pkt list \<Rightarrow> bytes" where
  "iso_descs_pack ps = concat (map iso_desc_pack ps)"

lemma length_put_basic_hdr [simp]: "length (put_basic_hdr c s d r e) = 48"
  by (simp add: put_basic_hdr_def)

lemma length_iso_desc_pack [simp]: "length (iso_desc_pack p) = 16"
  by (simp add: iso_desc_pack_def)

interpretation iso_desc: field_codec 16 iso_desc_pack iso_desc_parse
  by unfold_locales
    (simp_all add: iso_desc_pack_def iso_desc_parse_def wire_defs buf_simps)

lemma iso_descs_roundtrip:
  "iso_descs_parse (length ps) (iso_descs_pack ps @ rest) = ps"
  by (rule nth_equalityI)
    (simp_all add: iso_descs_parse_def iso_descs_pack_def iso_desc.decode_sequence)

lemma length_iso_descs_pack [simp]: "length (iso_descs_pack ps) = 16 * length ps"
  using iso_desc.length_concat_enc [of ps] by (simp add: iso_descs_pack_def)

section \<open>Reading a command\<close>

definition ep_is_iso :: "usbip_device \<Rightarrow> nat option \<Rightarrow> bool" where
  "ep_is_iso dev i = (case i of None \<Rightarrow> False | Some k \<Rightarrow> e_type (eps dev ! k) = USB_ISO)"

text \<open>The transfer buffer of an OUT submit: \<open>malloc\<close> then \<open>readn\<close>. \<open>mem n\<close> says that an
  allocation of \<open>n\<close> bytes succeeds.\<close>

definition read_transfer_buffer :: "(nat \<Rightarrow> bool) \<Rightarrow> urb \<Rightarrow> sock \<Rightarrow> (urb \<times> sock) option" where
  "read_transfer_buffer mem u s =
     (if u_direction u = DIR_OUT \<and> u_length u > 0 then
        (if \<not> mem (nat (u_length u)) then None
         else (case readn s (nat (u_length u)) of
             None \<Rightarrow> None
           | Some (d, s') \<Rightarrow> Some (u\<lparr>u_data := d\<rparr>, s')))
      else Some (u, s))"

text \<open>The packet descriptors, which follow only when the endpoint is isochronous.\<close>

definition read_iso_descs :: "(nat \<Rightarrow> bool) \<Rightarrow> usbip_device \<Rightarrow> urb \<Rightarrow> sock \<Rightarrow> (urb \<times> sock) cresult" where
  "read_iso_descs mem dev u s =
     (case ep_map_at dev (u_ep u) (u_direction u) of
        Undefined \<Rightarrow> Undefined
      | Err e \<Rightarrow> Err e
      | Ret ep \<Rightarrow>
          (if ep_is_iso dev ep \<and> u_npkts u > 0 then
             (let np = nat (u_npkts u) in
              if \<not> mem (np * 16) then Err (- 1)
              else (case readn s (np * 16) of
                  None \<Rightarrow> Err (- 1)
                | Some (raw, s') \<Rightarrow> Ret (u\<lparr>u_iso := iso_descs_parse np raw\<rparr>, s')))
           else Ret (u, s)))"

definition usbip_read_cmd :: "(nat \<Rightarrow> bool) \<Rightarrow> usbip_device \<Rightarrow> sock \<Rightarrow> (urb \<times> sock) cresult" where
  "usbip_read_cmd mem dev s =
     (case readn s 48 of
        None \<Rightarrow> Err (- 1)
      | Some (hdr, s1) \<Rightarrow>
          (let u = \<lparr>u_command = usb_get_be32 hdr 0, u_seqnum = usb_get_be32 hdr 4,
                 u_devid = usb_get_be32 hdr 8, u_direction = usb_get_be32 hdr 12,
                 u_ep = usb_get_be32 hdr 16, u_flags = 0, u_unlink_seqnum = 0, u_length = 0,
                 u_interval = 0, u_npkts = 0, u_iso = [], u_setup = replicate 8 0, u_data = []\<rparr>
           in
           if u_command u = USBIP_CMD_SUBMIT then
             (let u = u\<lparr>u_flags := usb_get_be32 hdr 20, u_length := i32 (usb_get_be32 hdr 24),
                    u_npkts := i32 (usb_get_be32 hdr 32), u_interval := i32 (usb_get_be32 hdr 36),
                    u_setup := bytes_at 40 8 hdr\<rparr>
              in case read_transfer_buffer mem u s1 of
                   None \<Rightarrow> Err (- 1)
                 | Some (u, s2) \<Rightarrow> read_iso_descs mem dev u s2)
           else if u_command u = USBIP_CMD_UNLINK then
             Ret (u\<lparr>u_unlink_seqnum := usb_get_be32 hdr 20\<rparr>, s1)
           else Ret (u, s1)))"

section \<open>The replies\<close>

text \<open>The bytes \<open>usbip_send_ret\<close> writes: the header, and the data of an IN transfer.\<close>

definition ret_submit_bytes :: "ret_submit \<Rightarrow> bytes" where
  "ret_submit_bytes r =
     usb_put_be32 24 (u32_of_int (r_actual r)) (usb_put_be32 20 (u32_of_int (r_status r))
       (put_basic_hdr USBIP_RET_SUBMIT (r_seqnum r) (r_devid r) (r_direction r) (r_ep r)))
     @ (if r_direction r = DIR_IN \<and> r_actual r > 0 then take (nat (r_actual r)) (r_data r) else [])"

definition usbip_send_ret :: "ret_submit \<Rightarrow> sock \<Rightarrow> bool \<times> sock" where
  "usbip_send_ret r s =
     (let hdr = usb_put_be32 24 (u32_of_int (r_actual r)) (usb_put_be32 20 (u32_of_int (r_status r))
            (put_basic_hdr USBIP_RET_SUBMIT (r_seqnum r) (r_devid r) (r_direction r) (r_ep r)));
          (rc, s1) = writen s hdr
      in if rc \<and> r_direction r = DIR_IN \<and> r_actual r > 0
         then writen s1 (take (nat (r_actual r)) (r_data r)) else (rc, s1))"

definition iso_total_actual :: "iso_pkt list \<Rightarrow> u32" where
  "iso_total_actual ps = fold (\<lambda>p t. t + ip_actual p) ps 0"

definition usbip_send_ret_iso :: "(nat \<Rightarrow> bool) \<Rightarrow> urb \<Rightarrow> bytes \<Rightarrow> sock \<Rightarrow> int \<times> sock" where
  "usbip_send_ret_iso mem u d s =
     (let np = nat (u_npkts u);
          total = iso_total_actual (take np (u_iso u));
          hdr = usb_put_be32 32 (u32_of_int (u_npkts u)) (usb_put_be32 24 total (usb_put_be32 20 0
            (put_basic_hdr USBIP_RET_SUBMIT (u_seqnum u) (u_devid u) (u_direction u) (u_ep u))))
      in if \<not> mem (np * 16) then (USB_ERROR_NO_MEM, s)
         else (let desc = iso_descs_pack (take np (u_iso u));
                   (rc, s1) = writen s hdr;
                   (rc, s2) = (if rc \<and> u_direction u = DIR_IN \<and> unat total > 0
                               then writen s1 (take (unat total) d) else (rc, s1));
                   (rc, s3) = (if rc then writen s2 desc else (rc, s2))
               in (if rc then 0 else - 1, s3)))"

definition usbip_send_ret_unlink :: "u32 \<Rightarrow> int \<Rightarrow> sock \<Rightarrow> bool \<times> sock" where
  "usbip_send_ret_unlink seqnum status s =
     writen s (usb_put_be32 20 (u32_of_int status) (put_basic_hdr USBIP_RET_UNLINK seqnum 0 0 0))"

lemma writen_ok: "writen s bs = (True, s') \<Longrightarrow> sent s' = sent s @ bs"
  using writen_result by fastforce

lemma writen_caps_nil: "caps s = [] \<Longrightarrow> writen s bs = (True, s\<lparr>sent := sent s @ bs\<rparr>)"
  by (cases "bs = []")
    (simp_all add: writen_def sock_send_def writen_loop.simps [of sock_send s bs]
       writen_loop.simps [of sock_send s "[]"]
       writen_loop.simps [of sock_send "s\<lparr>sent := sent s @ bs\<rparr>" "[]"])

lemma send_ret_bytes:
  "usbip_send_ret r s = (True, s') \<Longrightarrow> sent s' = sent s @ ret_submit_bytes r"
  by (auto simp: usbip_send_ret_def ret_submit_bytes_def Let_def split: prod.splits if_splits
      dest!: writen_ok)

end
