(* ===== verification/Dispatch.thy ===== *)
theory Dispatch
  imports Control Wire
begin

text \<open>
  The dispatcher of the device core (\<open>usbip_device_dispatch\<close>, \<open>usbip_device_handle_unlink\<close> in
  \<open>src/usbip_device.c\<close>) with its isochronous branches, and the pacer that delivers isochronous
  completions at their deadline. What the machine decides is in \<open>env\<close>: whether an allocation
  of so many bytes succeeds, what fresh memory holds, and the monotonic clock.
\<close>

record env =
  ev_mem :: "nat \<Rightarrow> bool"
  ev_garbage :: "nat \<Rightarrow> u8"
  ev_now :: u64

section \<open>Deadlines\<close>

text \<open>A shift by the width of \<open>unsigned\<close> or more has no defined result.\<close>

definition iso_frame_us :: "usb_speed \<Rightarrow> u8 \<Rightarrow> u64 cresult" where
  "iso_frame_us sp interval =
     (let bint = (if interval \<noteq> 0 then interval else 1) in
      if speed_code sp \<ge> speed_code USB_SPEED_HIGH then
        (if unat bint - 1 \<ge> 32 then Undefined
         else Ret (ucast (push_bit (unat bint - 1) (125 :: u32))))
      else Ret (ucast bint * 1000))"

definition iso_deadline :: "usb_speed \<Rightarrow> u64 \<Rightarrow> int \<Rightarrow> usbip_ep \<Rightarrow> (usbip_ep \<times> u64) cresult" where
  "iso_deadline sp now npkts ep =
     (case iso_frame_us sp (e_interval ep) of
        Ret frame_us \<Rightarrow>
          (let start = (if e_iso_deadline_us ep < now then now else e_iso_deadline_us ep);
               d = start + frame_us * word_of_int npkts
           in Ret (ep\<lparr>e_iso_deadline_us := d\<rparr>, d))
      | Err e \<Rightarrow> Err e | Undefined \<Rightarrow> Undefined)"

section \<open>The pacer\<close>

text \<open>Out of memory: the completion is sent at once.\<close>

definition pace_submit :: "env \<Rightarrow> nat \<Rightarrow> urb \<Rightarrow> u64 \<Rightarrow> bytes \<Rightarrow> 's world \<Rightarrow> 's world" where
  "pace_submit e conn u deadline d w =
     (let w = w\<lparr>w_pace_started := True\<rparr>; np = nat (u_npkts u) in
      if \<not> ev_mem e (16 * np) \<or> (d \<noteq> [] \<and> \<not> ev_mem e (length d))
      then emit [RetIso conn u d] w
      else w\<lparr>w_paced := \<lparr>pr_deadline_us = deadline, pr_seqnum = u_seqnum u, pr_devid = u_devid u,
               pr_direction = u_direction u, pr_ep = u_ep u, pr_npkts = u_npkts u,
               pr_iso = take np (u_iso u), pr_data = d\<rparr> # w_paced w\<rparr>)"

text \<open>The index of the earliest entry: the first one a strictly earlier one does not displace.\<close>

fun earliest :: "paced_ret list \<Rightarrow> nat \<Rightarrow> nat \<Rightarrow> paced_ret \<Rightarrow> nat" where
  "earliest [] i k best = k"
| "earliest (p # ps) i k best =
     (if pr_deadline_us p < pr_deadline_us best then earliest ps (Suc i) i p
      else earliest ps (Suc i) k best)"

definition paced_urb :: "paced_ret \<Rightarrow> urb" where
  "paced_urb p = \<lparr>u_command = 0, u_seqnum = pr_seqnum p, u_devid = pr_devid p,
     u_direction = pr_direction p, u_ep = pr_ep p, u_flags = 0, u_unlink_seqnum = 0, u_length = 0,
     u_interval = 0, u_npkts = pr_npkts p, u_iso = pr_iso p, u_setup = replicate 8 0, u_data = []\<rparr>"

text \<open>One round of \<open>pacer_run\<close> that sends: \<open>None\<close> while nothing is queued or due. When the
  connection closes (\<open>stopping\<close>) what is left is drained without waiting.\<close>

definition pacer_step :: "env \<Rightarrow> bool \<Rightarrow> nat \<Rightarrow> 's world \<Rightarrow> 's world option" where
  "pacer_step e stopping conn w =
     (case w_paced w of
        [] \<Rightarrow> None
      | p # ps \<Rightarrow>
          (let k = earliest (p # ps) 0 0 p; entry = w_paced w ! k
           in if \<not> stopping \<and> pr_deadline_us entry > ev_now e then None
              else Some (emit [RetIso conn (paced_urb entry) (pr_data entry)]
                     (w\<lparr>w_paced := take k (w_paced w) @ drop (Suc k) (w_paced w)\<rparr>))))"

section \<open>Isochronous transfers\<close>

definition garbage :: "env \<Rightarrow> nat \<Rightarrow> bytes" where
  "garbage e n = map (ev_garbage e) [0..<n]"

definition iso_lengths :: "urb \<Rightarrow> u32 list" where
  "iso_lengths u = map ip_length (take (nat (u_npkts u)) (u_iso u))"

definition with_actuals :: "u32 list \<Rightarrow> urb \<Rightarrow> urb" where
  "with_actuals lens u = u\<lparr>u_iso := map2 (\<lambda>p n. p\<lparr>ip_actual := n, ip_status := 0\<rparr>) (u_iso u) lens\<rparr>"

text \<open>Sending a completion, paced or not.\<close>

definition iso_complete :: "env \<Rightarrow> nat \<Rightarrow> nat \<Rightarrow> urb \<Rightarrow> bytes \<Rightarrow> 's world \<Rightarrow> 's world cresult" where
  "iso_complete e conn i u d w =
     (if iso_paced (w_dev w) then
        (case iso_deadline (speed (w_dev w)) (ev_now e) (u_npkts u) (eps (w_dev w) ! i) of
           Ret (ep, deadline) \<Rightarrow> Ret (pace_submit e conn u deadline d (set_ep i ep w))
         | Err x \<Rightarrow> Err x | Undefined \<Rightarrow> Undefined)
      else Ret (emit [RetIso conn u d] w))"

text \<open>
  IN: the class fills the packets and says how much each holds. The total is a 32-bit sum; a
  class that claims more than the buffer holds has the core read past it.
\<close>

definition iso_in :: "'s callbacks \<Rightarrow> env \<Rightarrow> nat \<Rightarrow> nat \<Rightarrow> urb \<Rightarrow> 's world \<Rightarrow> 's world cresult" where
  "iso_in cb e conn i u w =
     (let lens = iso_lengths u; total_req = sum_list lens; size = max 1 (unat total_req) in
      if \<not> ev_mem e size \<or> \<not> ev_mem e (4 * nat (u_npkts u)) then Ret w
      else
        (let (s, acts, lens, buf) =
           (case e_on_iso (eps (w_dev w) ! i) of
              None \<Rightarrow> (w_app w, [], map (\<lambda>_. 0) lens, garbage e size)
            | Some h \<Rightarrow> cb_on_iso cb h (w_app w) i lens (garbage e size))
         in case do_acts acts (w\<lparr>w_app := s\<rparr>) of
              Ret w \<Rightarrow>
                (let actual = sum_list lens in
                 if unat actual > size then Undefined
                 else iso_complete e conn i (with_actuals lens u) (take (unat actual) buf) w)
            | Err x \<Rightarrow> Err x | Undefined \<Rightarrow> Undefined))"

text \<open>
  OUT: the packets are packed back to back. The check that a packet lies inside the data and the
  running offset are 32-bit sums that can wrap; a copy from outside the data, or past the end of
  the buffer, has no defined result.
\<close>

fun depad :: "bytes \<Rightarrow> iso_pkt list \<Rightarrow> u32 \<Rightarrow> bytes \<Rightarrow> bytes cresult" where
  "depad d [] off buf = Ret buf"
| "depad d (p # ps) off buf =
     (let len = ip_length p in
      if d \<noteq> [] \<and> ip_offset p + len \<le> of_nat (length d) then
        (if unat (ip_offset p) + unat len > length d \<or> unat off + unat len > length buf then Undefined
         else depad d ps (off + len) (put_at (unat off) (bytes_at (unat (ip_offset p)) (unat len) d) buf))
      else depad d ps (off + len) buf)"

definition iso_out :: "'s callbacks \<Rightarrow> env \<Rightarrow> nat \<Rightarrow> nat \<Rightarrow> urb \<Rightarrow> 's world \<Rightarrow> 's world cresult" where
  "iso_out cb e conn i u w =
     (let lens = iso_lengths u; size = max 1 (unat (sum_list lens)) in
      if \<not> ev_mem e size \<or> \<not> ev_mem e (4 * nat (u_npkts u)) then Ret w
      else
        (case depad (u_data u) (take (nat (u_npkts u)) (u_iso u)) 0 (garbage e size) of
           Err x \<Rightarrow> Err x
         | Undefined \<Rightarrow> Undefined
         | Ret buf \<Rightarrow>
             (let (s, acts) = (case e_on_iso (eps (w_dev w) ! i) of
                    None \<Rightarrow> (w_app w, [])
                  | Some h \<Rightarrow> (case cb_on_iso cb h (w_app w) i lens buf of (s, acts, _, _) \<Rightarrow> (s, acts)))
              in case do_acts acts (w\<lparr>w_app := s\<rparr>) of
                   Ret w \<Rightarrow> iso_complete e conn i (with_actuals lens u) [] w
                 | Err x \<Rightarrow> Err x | Undefined \<Rightarrow> Undefined)))"

section \<open>The dispatcher\<close>

text \<open>Bulk and interrupt OUT: the callback, or the endpoint's own queue.\<close>

definition bulk_out :: "'s callbacks \<Rightarrow> nat \<Rightarrow> nat \<Rightarrow> urb \<Rightarrow> 's world \<Rightarrow> 's world cresult" where
  "bulk_out cb conn i u w =
     (case (case e_on_out (eps (w_dev w) ! i) of
              Some h \<Rightarrow> (let (s, acts) = cb_on_out cb h (w_app w) i (u_data u)
                         in do_acts acts (w\<lparr>w_app := s\<rparr>))
            | None \<Rightarrow> (let ep = eps (w_dev w) ! i
                       in Ret (set_ep i (ep\<lparr>e_out := enq_dbuf (u_data u) (e_out ep)\<rparr>) w))) of
        Ret w \<Rightarrow> Ret (emit [urb_ret conn u 0 [] (int (length (u_data u)))] w)
      | Err x \<Rightarrow> Err x | Undefined \<Rightarrow> Undefined)"

definition bulk_in :: "nat \<Rightarrow> nat \<Rightarrow> urb \<Rightarrow> 's world \<Rightarrow> 's world cresult" where
  "bulk_in conn i u w =
     (case serve_in conn u (eps (w_dev w) ! i) of
        Ret (ep, out) \<Rightarrow> Ret (emit out (set_ep i ep w))
      | Err x \<Rightarrow> Err x | Undefined \<Rightarrow> Undefined)"

definition usbip_device_dispatch :: "'s callbacks \<Rightarrow> env \<Rightarrow> nat \<Rightarrow> urb \<Rightarrow> 's world \<Rightarrow> 's world cresult" where
  "usbip_device_dispatch cb e conn u w =
     (if u_ep u = 0 then handle_control cb conn u w
      else case ep_map_at (w_dev w) (u_ep u) (u_direction u) of
        Err x \<Rightarrow> Err x
      | Undefined \<Rightarrow> Undefined
      | Ret None \<Rightarrow> Ret (emit [urb_ret conn u USBIP_STATUS_NODEV [] 0] w)
      | Ret (Some i) \<Rightarrow>
          (let ep = eps (w_dev w) ! i in
           if usbip_ep_is_halted ep then Ret (emit [urb_ret conn u USBIP_STATUS_STALL [] 0] w)
           else if e_type ep = USB_ISO \<and> u_direction u = DIR_IN \<and> u_npkts u > 0 then iso_in cb e conn i u w
           else if e_type ep = USB_ISO \<and> u_direction u = DIR_OUT \<and> u_npkts u > 0 then iso_out cb e conn i u w
           else if u_direction u = DIR_IN then bulk_in conn i u w
           else bulk_out cb conn i u w))"

text \<open>The parked URB and the paced completion with the unlinked number are dropped; the endpoints
  looked at are those of the sixteen by two map.\<close>

definition is_mapped :: "usbip_device \<Rightarrow> nat \<Rightarrow> bool" where
  "is_mapped dev h \<longleftrightarrow> list_ex (\<lambda>n. ep_map dev n USB_OUT = Some h \<or> ep_map dev n USB_IN = Some h) [0..<16]"

definition usbip_device_handle_unlink :: "nat \<Rightarrow> urb \<Rightarrow> 's world \<Rightarrow> 's world" where
  "usbip_device_handle_unlink conn u w =
     (let dev = w_dev w; s = u_unlink_seqnum u;
          dev' = dev\<lparr>eps := map (\<lambda>h. if is_mapped dev h then unlink_pending s (eps dev ! h) else eps dev ! h)
                      [0..<length (eps dev)]\<rparr>;
          paced = (if w_pace_started w then filter (\<lambda>p. pr_seqnum p \<noteq> s) (w_paced w) else w_paced w)
      in emit [RetUnlink conn (u_seqnum u) 0] (w\<lparr>w_dev := dev', w_paced := paced\<rparr>))"

end
