(* ===== verification/Client.thy ===== *)
theory Client
  imports Wire
begin

text \<open>
  The importer half of \<open>src/usbip.c\<close>: submitting a transfer and reading its reply
  (\<open>usbip_client_submit\<close>, \<open>usbip_client_submit_iso\<close>). The capture hooks
  (\<open>usbip_pcap_packet\<close>) only observe; they are in \<open>Pcap\<close>. After a read that failed half-way the
  C buffer holds part of the data and the caller is told \<open>USB_ERROR_IO\<close>; the model returns the
  buffer as it was.
\<close>

section \<open>Submitting a transfer\<close>

definition client_status_error :: "int \<Rightarrow> int" where
  "client_status_error status =
     (if status = USBIP_STATUS_STALL \<or> status = USB_ERROR_PIPE then USB_ERROR_PIPE
      else USB_ERROR_IO)"

definition client_submit_hdr ::
  "u32 \<Rightarrow> u32 \<Rightarrow> usb_dir \<Rightarrow> u32 \<Rightarrow> bytes option \<Rightarrow> int \<Rightarrow> int \<Rightarrow> bytes" where
  "client_submit_hdr seq devid dir ep stp interval len =
     (let hdr = usb_put_be32 36 (u32_of_int interval) (usb_put_be32 24 (u32_of_int len)
            (put_basic_hdr USBIP_CMD_SUBMIT seq devid (usb_dir_code dir) ep))
      in case stp of None \<Rightarrow> hdr | Some b \<Rightarrow> put_at 40 (take 8 b) hdr)"

text \<open>The data an IN reply carries beyond the caller's buffer is read and thrown away.\<close>

function drain :: "sock \<Rightarrow> nat \<Rightarrow> sock option" where
  "drain s n =
     (if n = 0 then Some s
      else (case readn s (min n 256) of
          None \<Rightarrow> None
        | Some (tmp, s') \<Rightarrow> drain s' (n - min n 256)))"
  by pat_completeness auto
termination
  by (relation "measure (\<lambda>(s, n). n)") auto

declare drain.simps [simp del]

record submit_result =
  sr_rc :: int
  sr_actual :: "int option"
  sr_buf :: bytes
  sr_seq :: u32
  sr_sock :: sock

definition io_error :: "bytes \<Rightarrow> u32 \<Rightarrow> sock \<Rightarrow> submit_result" where
  "io_error buf seq s = \<lparr>sr_rc = USB_ERROR_IO, sr_actual = None, sr_buf = buf, sr_seq = seq,
     sr_sock = s\<rparr>"

definition client_send ::
  "u32 \<Rightarrow> u32 \<Rightarrow> usb_dir \<Rightarrow> u32 \<Rightarrow> bytes option \<Rightarrow> int \<Rightarrow> bytes \<Rightarrow> int \<Rightarrow> sock \<Rightarrow> bool \<times> sock" where
  "client_send seq devid dir ep stp interval buf len s =
     (let (ok, s1) = writen s (client_submit_hdr seq devid dir ep stp interval len)
      in if ok \<and> dir = USB_OUT \<and> len > 0 then writen s1 (take (nat len) buf) else (ok, s1))"

definition client_read_reply :: "u32 \<Rightarrow> usb_dir \<Rightarrow> bytes \<Rightarrow> int \<Rightarrow> sock \<Rightarrow> submit_result" where
  "client_read_reply seq dir buf len s2 =
     (case readn s2 48 of
         None \<Rightarrow> io_error buf seq s2
       | Some (ret, s3) \<Rightarrow>
           (let status = i32 (usb_get_be32 ret 20);
                act = i32 (usb_get_be32 ret 24);
                rc = (if status \<noteq> 0 then client_status_error status else USB_SUCCESS)
            in if dir = USB_IN \<and> act > 0 then
                 (let into = (if act < len then act else len)
                  in case (if into > 0 then readn s3 (nat into) else Some ([], s3)) of
                       None \<Rightarrow> io_error buf seq s3
                     | Some (d, s4) \<Rightarrow>
                         (case drain s4 (nat (act - into)) of
                            None \<Rightarrow> io_error buf seq s4
                          | Some s5 \<Rightarrow> \<lparr>sr_rc = rc, sr_actual = Some into,
                              sr_buf = put_at 0 d buf, sr_seq = seq, sr_sock = s5\<rparr>))
               else \<lparr>sr_rc = rc, sr_actual = Some act, sr_buf = buf, sr_seq = seq, sr_sock = s3\<rparr>))"

definition usbip_client_submit ::
  "u32 \<Rightarrow> u32 \<Rightarrow> usb_dir \<Rightarrow> u32 \<Rightarrow> bytes option \<Rightarrow> int \<Rightarrow> bytes \<Rightarrow> int \<Rightarrow> sock \<Rightarrow> submit_result" where
  "usbip_client_submit devid seqctr dir ep stp interval buf len s =
     (let seq = seqctr + 1;
          (ok, s2) = client_send seq devid dir ep stp interval buf len s
      in if ok then client_read_reply seq dir buf len s2 else io_error buf seq s2)"

section \<open>Isochronous submission\<close>

record iso_result =
  ir_rc :: int
  ir_total :: "int option"
  ir_pkts :: "iso_pkt list"
  ir_buf :: bytes
  ir_seq :: u32
  ir_sock :: sock

text \<open>The slots of an OUT transfer, gathered in order.\<close>

fun gather_out :: "bytes \<Rightarrow> iso_pkt list \<Rightarrow> sock \<Rightarrow> bool \<times> sock" where
  "gather_out buf [] s = (True, s)"
| "gather_out buf (p # ps) s =
     (let (ok, s') = (if ip_length p \<noteq> 0
            then writen s (bytes_at (unat (ip_offset p)) (unat (ip_length p)) buf) else (True, s))
      in if ok then gather_out buf ps s' else (False, s'))"

text \<open>
  The scatter loop of the reply: packet \<open>i\<close> is overwritten with what the server sent, its
  offset included, and the IN data is copied to that offset. \<open>None\<close> is a copy that leaves the
  caller's buffer or the received data: the code does not check either.
\<close>

fun scatter_in :: "bool \<Rightarrow> bytes \<Rightarrow> iso_pkt list \<Rightarrow> u32 \<Rightarrow> bytes \<Rightarrow> bytes option" where
  "scatter_in has_tmp tmp [] cum buf = Some buf"
| "scatter_in has_tmp tmp (p # ps) cum buf =
     (if has_tmp \<and> ip_actual p \<noteq> 0 then
        (if unat (ip_offset p) + unat (ip_actual p) \<le> length buf
            \<and> unat cum + unat (ip_actual p) \<le> length tmp
         then scatter_in has_tmp tmp ps (cum + ip_actual p)
                (put_at (unat (ip_offset p)) (bytes_at (unat cum) (unat (ip_actual p)) tmp) buf)
         else None)
      else scatter_in has_tmp tmp ps cum buf)"

definition client_iso_hdr :: "u32 \<Rightarrow> u32 \<Rightarrow> usb_dir \<Rightarrow> u32 \<Rightarrow> u32 \<Rightarrow> nat \<Rightarrow> int \<Rightarrow> bytes" where
  "client_iso_hdr seq devid dir ep total_len npkts interval =
     usb_put_be32 36 (u32_of_int interval) (usb_put_be32 32 (of_nat npkts)
       (usb_put_be32 24 total_len
         (put_basic_hdr USBIP_CMD_SUBMIT seq devid (usb_dir_code dir) ep)))"

definition usbip_client_submit_iso ::
  "(nat \<Rightarrow> bool) \<Rightarrow> u32 \<Rightarrow> u32 \<Rightarrow> usb_dir \<Rightarrow> u32 \<Rightarrow> int \<Rightarrow> bytes \<Rightarrow> iso_pkt list \<Rightarrow> sock
   \<Rightarrow> iso_result cresult" where
  "usbip_client_submit_iso mem devid seqctr dir ep interval buf pkts s =
     (let npkts = length pkts;
          total_len = fold (\<lambda>p t. t + ip_length p) pkts 0;
          seq = seqctr + 1;
          fail = (\<lambda>rc s'. Ret \<lparr>ir_rc = rc, ir_total = None, ir_pkts = pkts, ir_buf = buf,
                    ir_seq = seq, ir_sock = s'\<rparr>);
          (ok, s1) = writen s (client_iso_hdr seq devid dir ep total_len npkts interval)
      in if \<not> ok then fail USB_ERROR_IO s1 else
      let (ok, s2) = (if dir = USB_OUT then gather_out buf pkts s1 else (True, s1))
      in if \<not> ok then fail USB_ERROR_IO s2 else
      if \<not> mem (npkts * 16) then fail USB_ERROR_NO_MEM s2 else
      let (ok, s3) = writen s2 (iso_descs_pack (map (\<lambda>p. p\<lparr>ip_actual := 0, ip_status := 0\<rparr>) pkts))
      in if \<not> ok then fail USB_ERROR_IO s3 else
      (case readn s3 48 of
         None \<Rightarrow> fail USB_ERROR_IO s3
       | Some (ret, s4) \<Rightarrow>
          (let status = i32 (usb_get_be32 ret 20);
               actual = usb_get_be32 ret 24;
               rnp = i32 (usb_get_be32 ret 32);
               has_tmp = (dir = USB_IN \<and> actual > 0)
           in if has_tmp \<and> \<not> mem (unat actual) then fail USB_ERROR_IO s4 else
           (case (if has_tmp then readn s4 (unat actual) else Some ([], s4)) of
              None \<Rightarrow> fail USB_ERROR_IO s4
            | Some (tmp, s5) \<Rightarrow>
              (if rnp > 0 \<and> \<not> mem (nat rnp * 16) then fail USB_ERROR_IO s5 else
               case (if rnp > 0 then readn s5 (nat rnp * 16) else Some ([], s5)) of
                 None \<Rightarrow> fail USB_ERROR_IO s5
               | Some (rd, s6) \<Rightarrow>
                 (let n = (if rnp > 0 then min (nat rnp) npkts else 0);
                      got = iso_descs_parse n rd
                  in case scatter_in has_tmp tmp got 0 buf of
                       None \<Rightarrow> Undefined
                     | Some buf' \<Rightarrow> Ret \<lparr>
                         ir_rc = (if status \<noteq> 0 then client_status_error status else USB_SUCCESS),
                         ir_total = Some (sint actual), ir_pkts = got @ drop n pkts,
                         ir_buf = buf', ir_seq = seq, ir_sock = s6\<rparr>))))))"

section \<open>What the peer sees of a submission\<close>

text \<open>The bytes of a submission: the header, and the payload of an OUT transfer.\<close>

definition client_cmd_bytes ::
  "u32 \<Rightarrow> u32 \<Rightarrow> usb_dir \<Rightarrow> u32 \<Rightarrow> bytes option \<Rightarrow> int \<Rightarrow> bytes \<Rightarrow> int \<Rightarrow> bytes" where
  "client_cmd_bytes seq devid dir ep stp interval buf len =
     client_submit_hdr seq devid dir ep stp interval len
     @ (if dir = USB_OUT \<and> len > 0 then take (nat len) buf else [])"

lemma length_client_submit_hdr [simp]:
  "(\<And>b. stp = Some b \<Longrightarrow> length b = 8) \<Longrightarrow>
   length (client_submit_hdr seq devid dir ep stp interval len) = 48"
  by (auto simp: client_submit_hdr_def Let_def split: option.splits)

lemma client_submit_hdr_fields:
  fixes seq devid ep :: u32 and dir :: usb_dir and stp :: "bytes option" and interval len :: int
  assumes "\<And>b. stp = Some b \<Longrightarrow> length b = 8"
  defines "h \<equiv> client_submit_hdr seq devid dir ep stp interval len"
  shows "usb_get_be32 h 0 = USBIP_CMD_SUBMIT" "usb_get_be32 h 4 = seq"
    "usb_get_be32 h 8 = devid" "usb_get_be32 h 12 = usb_dir_code dir" "usb_get_be32 h 16 = ep"
    "usb_get_be32 h 20 = 0" "usb_get_be32 h 24 = u32_of_int len" "usb_get_be32 h 32 = 0"
    "usb_get_be32 h 36 = u32_of_int interval"
    "bytes_at 40 8 h = (case stp of None \<Rightarrow> replicate 8 0 | Some b \<Rightarrow> b)"
  using assms(1)
  by (auto simp: h_def client_submit_hdr_def Let_def put_basic_hdr_def wire_defs buf_simps
      split: option.splits)

lemma drain_0 [simp]: "drain s 0 = Some s"
  by (simp add: drain.simps [of s 0])

lemma drain_frame:
  "drain s n = Some s' \<Longrightarrow> sent s' = sent s \<and> caps s' = caps s \<and> avail s' = drop n (avail s)
     \<and> n \<le> length (avail s)"
proof (induction s n arbitrary: s' rule: drain.induct)
  case (1 s n)
  show ?case
  proof (cases "n = 0")
    case True
    with "1.prems" show ?thesis by (simp add: drain.simps [of s n])
  next
    case False
    with "1.prems" obtain tmp s1 where r: "readn s (min n 256) = Some (tmp, s1)"
      and d: "drain s1 (n - min n 256) = Some s'"
      by (auto simp: drain.simps [of s n] split: option.splits)
    from "1.IH" [OF False r refl d] readn_SomeD [OF r] readn_frame [OF r] show ?thesis by auto
  qed
qed

lemma drain_ok: "n \<le> length (avail s) \<Longrightarrow> \<exists>s'. drain s n = Some s'"
proof (induction s n rule: drain.induct)
  case (1 s n)
  show ?case
  proof (cases "n = 0")
    case True
    then show ?thesis by (simp add: drain.simps [of s n])
  next
    case False
    have "min n 256 \<le> length (avail s)" using "1.prems" by simp
    then obtain s1 where r: "readn s (min n 256) = Some (take (min n 256) (avail s), s1)"
      and a: "avail s1 = drop (min n 256) (avail s)" by (rule readn_ok)
    from "1.IH" [OF False r refl] "1.prems" a False r show ?thesis
      by (auto simp: drain.simps [of s n])
  qed
qed

lemma client_send_all:
  "caps s = [] \<Longrightarrow> client_send seq devid dir ep stp interval buf len s =
     (True, s\<lparr>sent := sent s @ client_cmd_bytes seq devid dir ep stp interval buf len\<rparr>)"
  by (simp add: client_send_def client_cmd_bytes_def Let_def writen_caps_nil)

lemma client_read_reply_frame:
  "sent (sr_sock (client_read_reply seq dir buf len s)) = sent s"
  by (auto simp: client_read_reply_def io_error_def Let_def
      dest!: readn_frame drain_frame split: option.splits if_splits)

lemma client_submit_sent:
  assumes "caps s = []"
  shows "sent (sr_sock (usbip_client_submit devid seqctr dir ep stp interval buf len s))
     = sent s @ client_cmd_bytes (seqctr + 1) devid dir ep stp interval buf len"
  by (simp add: usbip_client_submit_def Let_def client_send_all [OF assms] client_read_reply_frame)

section \<open>The device reads what the importer submits\<close>

lemma read_cmd_of_client_bytes:
  fixes t :: sock
  assumes setup8: "\<And>b. stp = Some b \<Longrightarrow> length b = 8"
    and len: "0 \<le> len" "len < 2 ^ 31" "length buf = nat len"
    and ival: "- (2 ^ 31) \<le> interval" "interval < 2 ^ 31"
    and bytes: "avail t = client_cmd_bytes seq devid dir ep stp interval buf len @ rest"
  shows "\<exists>t'. usbip_read_cmd (\<lambda>_. True) dev t = Ret (\<lparr>u_command = USBIP_CMD_SUBMIT,
       u_seqnum = seq, u_devid = devid, u_direction = usb_dir_code dir, u_ep = ep,
       u_flags = 0, u_unlink_seqnum = 0, u_length = len, u_interval = interval, u_npkts = 0,
       u_iso = [], u_setup = (case stp of None \<Rightarrow> replicate 8 0 | Some b \<Rightarrow> b),
       u_data = (if dir = USB_OUT then buf else [])\<rparr>, t') \<and> avail t' = rest"
proof -
  let ?h = "client_submit_hdr seq devid dir ep stp interval len"
  let ?pay = "if dir = USB_OUT \<and> len > 0 then buf else []"
  note h = client_submit_hdr_fields [of stp, OF setup8]
  have lh: "length ?h = 48" using setup8 by simp
  have av: "avail t = ?h @ ?pay @ rest"
    using bytes len by (simp add: client_cmd_bytes_def)
  then obtain t1 where r1: "readn t 48 = Some (?h, t1)" and a1: "avail t1 = ?pay @ rest"
    using lh by (auto elim: readn_exact [of t ?h "?pay @ rest" 48])
  have em: "ep_map_at dev ep (usb_dir_code dir) = Ret (if unat ep < 16 then ep_map dev (unat ep) dir else None)"
    by (cases dir) (simp_all add: ep_map_at_def usb_dir_code_def)
  show ?thesis
  proof (cases "dir = USB_OUT \<and> len > 0")
    case True
    then obtain t2 where r2: "readn t1 (nat len) = Some (buf, t2)" and a2: "avail t2 = rest"
      using a1 len by (auto elim: readn_exact [of t1 buf rest "nat len"])
    show ?thesis
      using True len ival em a2
      by (simp add: usbip_read_cmd_def r1 h read_transfer_buffer_def read_iso_descs_def r2
          usb_dir_code_def)
  next
    case False
    then have "a1": "avail t1 = rest" and "dir = USB_OUT \<Longrightarrow> buf = []" using a1 len by auto
    then show ?thesis
      using False len ival em
      by (cases dir) (auto simp: usbip_read_cmd_def r1 h read_transfer_buffer_def
          read_iso_descs_def usb_dir_code_def)
  qed
qed

text \<open>C4: A transfer submitted by the host library is read back by the device library field for
  field. Whatever the segmentation of the stream and whatever follows on it, the device side of a
  connection that carries what \<open>usbip_client_submit\<close> wrote decodes exactly one URB with the
  submitted sequence number, device, direction, endpoint, length, interval, SETUP packet and OUT
  payload, and leaves exactly the bytes that follow.\<close>

theorem submit_read_cmd_roundtrip:
  assumes "caps s = []"
    and "\<And>b. stp = Some b \<Longrightarrow> length b = 8"
    and "0 \<le> len" "len < 2 ^ 31" "length buf = nat len"
    and "- (2 ^ 31) \<le> interval" "interval < 2 ^ 31"
    and "sent (sr_sock (usbip_client_submit devid seqctr dir ep stp interval buf len s))
         = sent s @ wire"
    and "avail t = wire @ rest"
  shows "\<exists>t'. usbip_read_cmd (\<lambda>_. True) dev t = Ret (\<lparr>u_command = USBIP_CMD_SUBMIT,
       u_seqnum = seqctr + 1, u_devid = devid, u_direction = usb_dir_code dir, u_ep = ep,
       u_flags = 0, u_unlink_seqnum = 0, u_length = len, u_interval = interval, u_npkts = 0,
       u_iso = [], u_setup = (case stp of None \<Rightarrow> replicate 8 0 | Some b \<Rightarrow> b),
       u_data = (if dir = USB_OUT then buf else [])\<rparr>, t') \<and> avail t' = rest"
  using assms(2-7,9) assms(8) client_submit_sent [OF assms(1)]
  by (intro read_cmd_of_client_bytes) auto

lemma submit_read_cmd_roundtrip_witness:
  defines "s \<equiv> \<lparr>segs = [], sent = [], caps = []\<rparr>"
  defines "w \<equiv> client_cmd_bytes 1 0x10002 USB_OUT 1 None 0 [7, 8, 9] 3"
  shows "\<forall>dev. \<exists>u t'. usbip_read_cmd (\<lambda>_. True) dev \<lparr>segs = [take 20 w, drop 20 w, [1, 2]], sent = [], caps = []\<rparr>
      = Ret (u, t') \<and> u_data u = [7, 8, 9] \<and> u_ep u = 1 \<and> avail t' = [1, 2]"
proof
  fix dev :: usbip_device
  let ?t = "\<lparr>segs = [take 20 w, drop 20 w, [1, 2]], sent = [], caps = []\<rparr>"
  have "avail ?t = w @ [1, 2]" by (simp add: avail_def)
  with submit_read_cmd_roundtrip [where s = s and stp = None and len = 3 and buf = "[7, 8, 9]"
      and interval = 0 and devid = "0x10002" and seqctr = 0 and dir = USB_OUT and ep = 1
      and wire = w and t = ?t and rest = "[1, 2]" and dev = dev]
    client_submit_sent [of s "0x10002" 0 USB_OUT 1 None 0 "[7, 8, 9]" 3]
  show "\<exists>u t'. usbip_read_cmd (\<lambda>_. True) dev ?t = Ret (u, t') \<and> u_data u = [7, 8, 9] \<and> u_ep u = 1 \<and> avail t' = [1, 2]" by (auto simp: s_def w_def)
qed

section \<open>The importer reads what the device replies\<close>

lemma ret_submit_hdr_fields:
  fixes a st :: int and sq dv dr e :: u32
  defines "h \<equiv> usb_put_be32 24 (u32_of_int a) (usb_put_be32 20 (u32_of_int st)
       (put_basic_hdr USBIP_RET_SUBMIT sq dv dr e))"
  shows "length h = 48" "usb_get_be32 h 0 = USBIP_RET_SUBMIT" "usb_get_be32 h 4 = sq"
    "usb_get_be32 h 20 = u32_of_int st" "usb_get_be32 h 24 = u32_of_int a"
  by (simp_all add: h_def put_basic_hdr_def wire_defs buf_simps)

text \<open>The reply of \<open>usbip_send_ret\<close> as the caller of the importer gets it.\<close>

lemma submit_reads_reply:
  fixes s :: sock and r :: ret_submit and buf rest :: bytes and devid seqctr ep :: u32
    and stp :: "bytes option" and interval len :: int and dir :: usb_dir
  assumes s: "caps s = []" "avail s = ret_submit_bytes r @ rest"
    and r: "r_direction r = usb_dir_code dir" "0 \<le> r_actual r" "r_actual r < 2 ^ 31"
      "- (2 ^ 31) \<le> r_status r" "r_status r < 2 ^ 31"
      "dir = USB_IN \<Longrightarrow> length (r_data r) = nat (r_actual r)"
    and len: "len = int (length buf)"
  defines "res \<equiv> usbip_client_submit devid seqctr dir ep stp interval buf len s"
    and "n \<equiv> min (nat (r_actual r)) (length buf)"
  shows "sr_rc res = (if r_status r = 0 then USB_SUCCESS else client_status_error (r_status r))
    \<and> sr_actual res = Some (if dir = USB_IN then int n else r_actual r)
    \<and> sr_buf res = (if dir = USB_IN then take n (r_data r) @ drop n buf else buf)
    \<and> sr_seq res = seqctr + 1 \<and> avail (sr_sock res) = rest"
proof -
  define h where "h = usb_put_be32 24 (u32_of_int (r_actual r)) (usb_put_be32 20
      (u32_of_int (r_status r)) (put_basic_hdr USBIP_RET_SUBMIT (r_seqnum r) (r_devid r)
        (r_direction r) (r_ep r)))"
  define d where "d = (if dir = USB_IN then r_data r else [])"
  note hf = ret_submit_hdr_fields [where a = "r_actual r" and st = "r_status r" and sq = "r_seqnum r"
      and dv = "r_devid r" and dr = "r_direction r" and e = "r_ep r", folded h_def]
  define s2 where "s2 = s\<lparr>sent := sent s @ client_cmd_bytes (seqctr + 1) devid dir ep stp interval buf len\<rparr>"
  have s2: "avail s2 = h @ d @ rest"
    using s(2) r(1,6) len by (cases dir)
      (auto simp: s2_def avail_def ret_submit_bytes_def h_def d_def usb_dir_code_def)
  then obtain s3 where r3: "readn s2 48 = Some (h, s3)" and a3: "avail s3 = d @ rest"
    using hf by (auto elim: readn_exact [of s2 h "d @ rest" 48])
  have stat: "i32 (usb_get_be32 h 20) = r_status r" "i32 (usb_get_be32 h 24) = r_actual r"
    using hf r by simp_all
  have res: "res = client_read_reply (seqctr + 1) dir buf len s2"
    using s(1) by (simp add: res_def usbip_client_submit_def client_send_all s2_def Let_def)
  show ?thesis
  proof (cases "dir = USB_IN \<and> r_actual r > 0")
    case False
    then show ?thesis using r3 stat a3 r(2,6)
      by (cases dir) (auto simp: res client_read_reply_def Let_def d_def n_def)
  next
    case True
    have into: "(if r_actual r < len then r_actual r else len) = int n"
      using len r(2) by (auto simp: n_def min_def)
    have av3: "avail s3 = take n (r_data r) @ drop n (r_data r) @ rest"
      using a3 True by (simp add: d_def)
    have "n = length (take n (r_data r))" using r(6) True by (simp add: n_def)
    with av3 obtain s4 where r4: "readn s3 n = Some (take n (r_data r), s4)"
      and a4: "avail s4 = drop n (r_data r) @ rest" by (auto elim: readn_exact)
    have ex: "(if int n > 0 then readn s3 (nat (int n)) else Some ([], s3))
        = Some (take n (r_data r), if n = 0 then s3 else s4)"
      using r4 by auto
    define s4' where "s4' = (if n = 0 then s3 else s4)"
    have a4': "avail s4' = drop n (r_data r) @ rest" using a4 av3 by (auto simp: s4'_def)
    have dl: "nat (r_actual r - int n) = length (drop n (r_data r))"
      using r(6) True by (simp add: nat_diff_distrib)
    with a4' obtain s5 where d5: "drain s4' (nat (r_actual r - int n)) = Some s5"
      using drain_ok [of "nat (r_actual r - int n)" s4'] by auto
    then have "avail s5 = rest" using drain_frame [OF d5] a4' dl by simp
    with True d5 show ?thesis
      unfolding res client_read_reply_def r3 option.case prod.case stat Let_def into ex
        s4'_def [symmetric]
      by (simp add: put_at_def n_def r(6))
  qed
qed



end
