(* ===== verification/Server.thy ===== *)
theory Server
  imports Dispatch Client
begin

text \<open>
  The listener half of \<open>src/usbip.c\<close>: transports, the registry of listeners and the devices
  plugged into them, the import and device-list handshake, the serve loop of one connection, and
  the importer's side of the handshake. \<open>src/usbip_device.c\<close> contributes \<open>pack_usbip_device\<close>,
  \<open>usbip_device_plug\<close> and \<open>usbip_device_unplug\<close>.
\<close>

section \<open>Decimal numbers\<close>

fun dec_bytes :: "nat \<Rightarrow> bytes" where
  "dec_bytes n = (if n < 10 then [of_nat (48 + n)] else dec_bytes (n div 10) @ [of_nat (48 + n mod 10)])"

declare dec_bytes.simps [simp del]

section \<open>Transports\<close>

record usb_transport =
  t_host :: bytes
  t_port :: int

definition usbip_transport :: "bytes option \<Rightarrow> int \<Rightarrow> usb_transport" where
  "usbip_transport host port = \<lparr>t_host = (case host of None \<Rightarrow> [] | Some h \<Rightarrow> snprintf_s 64 h),
     t_port = (if port \<noteq> 0 then port else 3240)\<rparr>"

definition usbip_loopback :: usb_transport where
  "usbip_loopback = usbip_transport (Some (cstr ''127.0.0.1'')) 3240"

definition usbip_transport_params :: "usb_transport \<Rightarrow> bytes option \<times> int" where
  "usbip_transport_params t = (if t_host t \<noteq> [] then Some (t_host t) else None, t_port t)"

section \<open>The device record on the wire\<close>

definition wire_speed :: "usb_speed \<Rightarrow> u32" where
  "wire_speed s = [1, 2, 3, 5] ! speed_code s"

definition pack_usbip_device :: "usbip_device \<Rightarrow> bytes" where
  "pack_usbip_device dev =
     (let bid = (if busid dev \<noteq> [] then busid dev else cstr ''1-1'');
          out = replicate 312 0;
          out = put_at 0 (snprintf_s 256 (cstr ''/sys/devices/platform/vhci_hcd.0/usb1/'' @ bid)) out;
          out = put_at 256 (snprintf_s 32 bid) out;
          out = usb_put_be32 288 (if busnum dev \<noteq> 0 then busnum dev else 1) out;
          out = usb_put_be32 292 (if devnum dev \<noteq> 0 then devnum dev else 2) out;
          out = usb_put_be32 296 (wire_speed (speed dev)) out;
          out = usb_put_be16 300 (vid dev) out;
          out = usb_put_be16 302 (pid dev) out;
          out = usb_put_be16 304 (bcdDevice dev) out
      in put_at 306 [dev_class dev, dev_sub dev, dev_proto dev, 1, 1, of_nat (n_ifnums dev)] out)"

record usbip_devinfo =
  di_busid :: bytes
  di_busnum :: u32
  di_devnum :: u32
  di_speed :: u32
  di_vid :: u16
  di_pid :: u16
  di_bcdDevice :: u16
  di_dclass :: u8
  di_dsub :: u8
  di_dproto :: u8
  di_n_cfg :: u8
  di_n_ifaces :: u8
  di_ifaces :: "(u8 \<times> u8 \<times> u8) list"

definition parse_devinfo :: "bytes \<Rightarrow> usbip_devinfo" where
  "parse_devinfo d = \<lparr>di_busid = c_string (bytes_at 256 31 d), di_busnum = usb_get_be32 d 288,
     di_devnum = usb_get_be32 d 292, di_speed = usb_get_be32 d 296, di_vid = usb_get_be16 d 300,
     di_pid = usb_get_be16 d 302, di_bcdDevice = usb_get_be16 d 304, di_dclass = d ! 306,
     di_dsub = d ! 307, di_dproto = d ! 308, di_n_cfg = d ! 310, di_n_ifaces = d ! 311,
     di_ifaces = replicate 16 (0, 0, 0)\<rparr>"

section \<open>The handshake, server side\<close>

abbreviation (input) USBIP_OP_REQ_IMPORT :: u16 where "USBIP_OP_REQ_IMPORT \<equiv> 0x8003"
abbreviation (input) USBIP_OP_REP_IMPORT :: u16 where "USBIP_OP_REP_IMPORT \<equiv> 0x0003"
abbreviation (input) USBIP_OP_REQ_DEVLIST :: u16 where "USBIP_OP_REQ_DEVLIST \<equiv> 0x8005"
abbreviation (input) USBIP_OP_REP_DEVLIST :: u16 where "USBIP_OP_REP_DEVLIST \<equiv> 0x0005"

definition op_hdr :: "u16 \<Rightarrow> u32 \<Rightarrow> bytes" where
  "op_hdr code status = usb_put_be32 4 status (usb_put_be16 2 code (usb_put_be16 0 0x0111 (replicate 8 0)))"

definition write_op_hdr :: "u16 \<Rightarrow> u32 \<Rightarrow> sock \<Rightarrow> bool \<times> sock" where
  "write_op_hdr code status s = writen s (op_hdr code status)"

text \<open>
  The interface tuples of a device, found by stepping through the blob. A step of a descriptor
  near the end may look past \<open>descr_len\<close>, and past the array itself: then there is no result.
\<close>

function iface_tuples :: "bytes \<Rightarrow> nat \<Rightarrow> nat \<Rightarrow> bytes list cresult" where
  "iface_tuples blob n off =
     (if off + 2 \<le> n then
        (if off + 1 \<ge> length blob \<or> (blob ! (off + 1) = 4 \<and> off + 7 \<ge> length blob) then Undefined
         else
           (case iface_tuples blob n (off + (if blob ! off \<noteq> 0 then unat (blob ! off) else 1)) of
              Ret ts \<Rightarrow> Ret (if blob ! (off + 1) = 4 \<and> blob ! (off + 3) = 0
                        then [blob ! (off + 5), blob ! (off + 6), blob ! (off + 7), 0] # ts else ts)
            | Err e \<Rightarrow> Err e | Undefined \<Rightarrow> Undefined))
      else Ret [])"
  by pat_completeness auto
termination
  by (relation "measure (\<lambda>(blob, n, off). n - off)") (auto intro!: diff_less_mono2 simp: unat_gt_0)

declare iface_tuples.simps [simp del]

text \<open>The results of the writes are not looked at.\<close>

fun write_all :: "bytes list \<Rightarrow> sock \<Rightarrow> sock" where
  "write_all [] s = s"
| "write_all (b # bs) s = write_all bs (snd (writen s b))"

fun emit_devlist :: "usbip_device list \<Rightarrow> sock \<Rightarrow> sock cresult" where
  "emit_devlist [] s = Ret s"
| "emit_devlist (d # ds) s =
     (let s1 = snd (writen s (pack_usbip_device d)) in
      case iface_tuples (descr d) (descr_len d) 0 of
        Ret ts \<Rightarrow> emit_devlist ds (write_all ts s1)
      | Err e \<Rightarrow> Err e | Undefined \<Rightarrow> Undefined)"

text \<open>The device imported, by its place in the snapshot, or none.\<close>

definition handshake :: "usbip_device list \<Rightarrow> sock \<Rightarrow> (nat option \<times> sock) cresult" where
  "handshake devs s =
     (case readn s 8 of
        None \<Rightarrow> Ret (None, s)
      | Some (opb, s1) \<Rightarrow>
          (let code = usb_get_be16 opb 2 in
           if code = USBIP_OP_REQ_IMPORT then
             (case readn s1 32 of
                None \<Rightarrow> Ret (None, s1)
              | Some (f, s2) \<Rightarrow>
                  (let bid = c_string (f[31 := 0]) in
                   case find_index (\<lambda>d. busid d = bid) devs of
                     Some i \<Rightarrow>
                       (let s3 = snd (write_op_hdr USBIP_OP_REP_IMPORT 0 s2)
                        in Ret (Some i, snd (writen s3 (pack_usbip_device (devs ! i)))))
                   | None \<Rightarrow> Ret (None, snd (write_op_hdr USBIP_OP_REP_IMPORT 1 s2))))
           else if code = USBIP_OP_REQ_DEVLIST then
             (let s2 = snd (write_op_hdr USBIP_OP_REP_DEVLIST 0 s1);
                  s3 = snd (writen s2 (usb_put_be32 0 (of_nat (length devs)) (replicate 4 0)))
              in case emit_devlist devs s3 of
                   Ret s4 \<Rightarrow> Ret (None, s4) | Err e \<Rightarrow> Err e | Undefined \<Rightarrow> Undefined)
           else Ret (None, s1)))"

section \<open>The handshake, importer side\<close>

definition import_request :: "bytes \<Rightarrow> bytes" where
  "import_request bid = put_at 8 (snprintf_s 32 bid)
     (usb_put_be16 2 USBIP_OP_REQ_IMPORT (usb_put_be16 0 0x0111 (replicate 40 0)))"

definition usbip_client_import :: "bytes \<Rightarrow> sock \<Rightarrow> (int \<times> usbip_devinfo option) \<times> sock" where
  "usbip_client_import bid s =
     (let (ok, s1) = writen s (import_request bid) in
      if \<not> ok then ((USB_ERROR_IO, None), s1) else
      case readn s1 8 of
        None \<Rightarrow> ((USB_ERROR_IO, None), s1)
      | Some (rep, s2) \<Rightarrow>
          (if usb_get_be32 rep 4 \<noteq> 0 then ((USB_ERROR_NOT_FOUND, None), s2)
           else (case readn s2 312 of
               None \<Rightarrow> ((USB_ERROR_IO, None), s2)
             | Some (d, s3) \<Rightarrow> ((USB_SUCCESS, Some (parse_devinfo d)), s3))))"

text \<open>The interface tuples of one device: sixteen are kept.\<close>

fun read_ifaces :: "nat \<Rightarrow> nat \<Rightarrow> usbip_devinfo \<Rightarrow> sock \<Rightarrow> (usbip_devinfo \<times> sock) option" where
  "read_ifaces 0 j info s = Some (info, s)"
| "read_ifaces (Suc n) j info s = (case readn s 4 of
     None \<Rightarrow> None
   | Some (ie, s') \<Rightarrow> read_ifaces n (Suc j)
       (if j < 16 then info\<lparr>di_ifaces := (di_ifaces info)[j := (ie ! 0, ie ! 1, ie ! 2)]\<rparr> else info) s')"

fun read_devs :: "nat \<Rightarrow> nat \<Rightarrow> usbip_devinfo list \<Rightarrow> sock \<Rightarrow> (usbip_devinfo list \<times> sock) option" where
  "read_devs 0 maxn got s = Some (got, s)"
| "read_devs (Suc n) maxn got s = (case readn s 312 of
     None \<Rightarrow> None
   | Some (d, s1) \<Rightarrow> (case read_ifaces (unat (di_n_ifaces (parse_devinfo d))) 0 (parse_devinfo d) s1 of
         None \<Rightarrow> None
       | Some (info, s2) \<Rightarrow> read_devs n maxn (if length got < maxn then got @ [info] else got) s2))"

definition devlist_request :: bytes where
  "devlist_request = usb_put_be16 2 USBIP_OP_REQ_DEVLIST (usb_put_be16 0 0x0111 (replicate 8 0))"

text \<open>The count of entries, negative on an error, with the entries. A count of \<open>2^31\<close> or more is
  negative as an \<open>int\<close> and reads as no devices.\<close>

definition usbip_client_devlist :: "nat \<Rightarrow> sock \<Rightarrow> (int \<times> usbip_devinfo list) \<times> sock" where
  "usbip_client_devlist maxn s =
     (let (ok, s1) = writen s devlist_request in
      if \<not> ok then ((USB_ERROR_IO, []), s1) else
      case readn s1 8 of
        None \<Rightarrow> ((USB_ERROR_IO, []), s1)
      | Some (rep, s2) \<Rightarrow>
          (if usb_get_be32 rep 4 \<noteq> 0 then ((USB_ERROR_IO, []), s2)
           else (case readn s2 4 of
               None \<Rightarrow> ((USB_ERROR_IO, []), s2)
             | Some (cnt, s3) \<Rightarrow>
                 (case read_devs (nat (i32 (usb_get_be32 cnt 0))) maxn [] s3 of
                    None \<Rightarrow> ((USB_ERROR_IO, []), s3)
                  | Some (got, s4) \<Rightarrow> ((int (length got), got), s4)))))"

section \<open>The registry\<close>

text \<open>
  The listeners, newest first, and for every device object its state, the address it was
  given, and the listener that serves it. A listener is named by its address, which no two of them
  share.
\<close>

record usbip_server =
  sv_host :: bytes
  sv_port :: int
  sv_running :: bool
  sv_devs :: "nat list"
  sv_next_devnum :: u32

record registry =
  rg_servers :: "usbip_server list"
  rg_dev :: "nat \<Rightarrow> usbip_device"
  rg_at :: "nat \<Rightarrow> (bytes \<times> int) option"

definition at_addr :: "bytes \<Rightarrow> int \<Rightarrow> usbip_server \<Rightarrow> bool" where
  "at_addr host port sv \<longleftrightarrow> sv_port sv = port \<and> sv_host sv = host"

definition server_for :: "bytes \<Rightarrow> int \<Rightarrow> registry \<Rightarrow> registry \<times> usbip_server" where
  "server_for host port rg = (case find (at_addr host port) (rg_servers rg) of
       Some sv \<Rightarrow> (rg, sv)
     | None \<Rightarrow> (let sv = \<lparr>sv_host = snprintf_s 64 host, sv_port = port, sv_running = False,
                    sv_devs = [], sv_next_devnum = 0\<rparr>
               in (rg\<lparr>rg_servers := sv # rg_servers rg\<rparr>, sv)))"

definition put_server :: "usbip_server \<Rightarrow> registry \<Rightarrow> registry" where
  "put_server sv rg = rg\<lparr>rg_servers := map (\<lambda>x. if at_addr (sv_host sv) (sv_port sv) x then sv else x)
     (rg_servers rg)\<rparr>"

text \<open>What \<open>socket\<close>, \<open>bind\<close>, \<open>listen\<close> and \<open>pthread_create\<close> come to is the code \<open>rc\<close>.\<close>

definition server_start :: "int \<Rightarrow> usbip_server \<Rightarrow> usbip_server" where
  "server_start rc sv = (if rc = USB_SUCCESS then sv\<lparr>sv_running := True, sv_next_devnum := 2\<rparr>
     else if rc = USB_ERROR_OTHER then sv\<lparr>sv_running := False, sv_next_devnum := 2\<rparr> else sv)"

definition server_stop :: "usbip_server \<Rightarrow> usbip_server" where
  "server_stop sv = sv\<lparr>sv_running := False\<rparr>"

definition auto_busid :: "nat \<Rightarrow> bytes" where
  "auto_busid n = snprintf_s 32 (cstr ''1-'' @ dec_bytes (n + 1))"

definition usbip_serve_start :: "int \<Rightarrow> bytes \<Rightarrow> int \<Rightarrow> nat \<Rightarrow> registry \<Rightarrow> registry \<times> int" where
  "usbip_serve_start rc host port d rg =
     (let (rg, sv) = server_for host port rg in
      if length (sv_devs sv) \<ge> 16 then (rg, USB_ERROR_NO_MEM)
      else
        (let sv' = (if sv_running sv then sv else server_start rc sv) in
         if \<not> sv_running sv \<and> rc \<noteq> USB_SUCCESS then (put_server sv' rg, rc)
         else
           (let dev = rg_dev rg d;
                dev = dev\<lparr>busid := (if busid dev \<noteq> [] then busid dev else auto_busid (length (sv_devs sv'))),
                        busnum := 1, devnum := sv_next_devnum sv'\<rparr>;
                sv'' = sv'\<lparr>sv_devs := sv_devs sv' @ [d], sv_next_devnum := sv_next_devnum sv' + 1\<rparr>
            in ((put_server sv'' rg)\<lparr>rg_dev := (rg_dev rg)(d := dev),
                   rg_at := (rg_at rg)(d \<mapsto> (host, port))\<rparr>, USB_SUCCESS))))"

text \<open>The first occurrence leaves the list.\<close>

definition usbip_serve_stop :: "nat \<Rightarrow> registry \<Rightarrow> registry" where
  "usbip_serve_stop d rg = (case rg_at rg d of
       None \<Rightarrow> rg
     | Some (host, port) \<Rightarrow> (case find (at_addr host port) (rg_servers rg) of
           None \<Rightarrow> rg
         | Some sv \<Rightarrow>
             (let sv = sv\<lparr>sv_devs := remove1 d (sv_devs sv)\<rparr>;
                  sv = (if sv_devs sv = [] then server_stop sv else sv)
              in (put_server sv rg)\<lparr>rg_at := (rg_at rg)(d := None)\<rparr>)))"

definition usbip_device_set_busid :: "bytes option \<Rightarrow> usbip_device \<Rightarrow> usbip_device" where
  "usbip_device_set_busid b dev = dev\<lparr>busid := (case b of None \<Rightarrow> [] | Some s \<Rightarrow> snprintf_s 32 s)\<rparr>"

definition usbip_device_get_busid :: "usbip_device \<Rightarrow> bytes" where
  "usbip_device_get_busid dev = (if busid dev \<noteq> [] then busid dev else cstr ''1-1'')"

definition usbip_device_plug :: "int \<Rightarrow> nat \<Rightarrow> usb_transport option \<Rightarrow> registry \<Rightarrow> registry \<times> int" where
  "usbip_device_plug start_rc d transport rg =
     (let rc = check_endpoint_conflicts (rg_dev rg d) in
      if rc \<noteq> USB_SUCCESS then (rg, rc)
      else (let (host, port) = (case transport of None \<Rightarrow> (None, 3240) | Some t \<Rightarrow> usbip_transport_params t);
                host = snprintf_s 64 (case host of None \<Rightarrow> cstr ''0.0.0.0'' | Some h \<Rightarrow> h)
            in usbip_serve_start start_rc host port d rg))"

definition usbip_device_unplug :: "nat \<Rightarrow> registry \<Rightarrow> registry" where
  "usbip_device_unplug d rg = usbip_serve_stop d rg"

section \<open>One connection\<close>

definition send_msg :: "(nat \<Rightarrow> bool) \<Rightarrow> msg \<Rightarrow> sock \<Rightarrow> sock" where
  "send_msg mem m s = (case m of
     RetSubmit r \<Rightarrow> snd (usbip_send_ret r s)
   | RetIso c u d \<Rightarrow> snd (usbip_send_ret_iso mem u d s)
   | RetUnlink c q st \<Rightarrow> snd (usbip_send_ret_unlink q st s))"

lemma read_cmd_shrinks:
  assumes "usbip_read_cmd mem dev s = Ret (u, s')"
  shows "length (avail s') < length (avail s)"
proof -
  from assms obtain hdr s1 where h: "readn s 48 = Some (hdr, s1)"
    by (auto simp: usbip_read_cmd_def split: option.splits)
  then have 1: "length (avail s1) < length (avail s)" using readn_SomeD [OF h] by auto
  have 2: "length (avail s3) \<le> length (avail s2)" if "read_transfer_buffer mem u' s2 = Some (u'', s3)" for u' u'' s2 s3
    using that by (auto simp: read_transfer_buffer_def dest!: readn_SomeD split: if_splits option.splits)
  have 3: "length (avail s3) \<le> length (avail s2)" if "read_iso_descs mem dev u' s2 = Ret (u'', s3)" for u' u'' s2 s3
    using that by (auto simp: read_iso_descs_def Let_def dest!: readn_SomeD split: if_splits option.splits cresult.splits)
  show ?thesis
    using assms 1 by (auto simp: usbip_read_cmd_def h Let_def split: if_splits option.splits dest!: 2 3)
qed

text \<open>
  The URB loop of \<open>serve_conn\<close>. A command that is neither SUBMIT nor UNLINK is dispatched with the
  fields of a SUBMIT never written, which has no defined result. Pacer rounds run on their own
  thread; this loop is what the serve thread does.
\<close>

function serve_loop :: "'s callbacks \<Rightarrow> env \<Rightarrow> nat \<Rightarrow> sock \<Rightarrow> 's world \<Rightarrow> 's world cresult" where
  "serve_loop cb e conn s w =
     (case usbip_read_cmd (ev_mem e) (w_dev w) s of
        Err _ \<Rightarrow> Ret w
      | Undefined \<Rightarrow> Undefined
      | Ret (u, s') \<Rightarrow>
          (if u_command u = USBIP_CMD_UNLINK
           then serve_loop cb e conn s' (usbip_device_handle_unlink conn u w)
           else if u_command u \<noteq> USBIP_CMD_SUBMIT then Undefined
           else (case usbip_device_dispatch cb e conn u w of
               Ret w' \<Rightarrow> serve_loop cb e conn s' w'
             | Err x \<Rightarrow> Err x | Undefined \<Rightarrow> Undefined)))"
  by pat_completeness auto
termination
  by (relation "measure (\<lambda>(cb, e, conn, s, w). length (avail s))") (auto dest: read_cmd_shrinks)

declare serve_loop.simps [simp del]

end
