(* ===== verification/Dispatch_Props.thy ===== *)
theory Dispatch_Props
  imports Dispatch
begin

text \<open>
  What the dispatcher and the pacer guarantee: every bulk, interrupt and control URB is answered or
  parked, an unlinked URB is gone, paced completions leave in deadline order and each once, and the
  pacer never runs faster than real time.
\<close>

section \<open>Answered or parked\<close>

definition parked_at :: "usbip_device \<Rightarrow> u32 \<Rightarrow> u32 \<Rightarrow> pending list" where
  "parked_at dev ep direction = (case ep_map_at dev ep direction of
     Ret (Some i) \<Rightarrow> parked (eps dev ! i) | _ \<Rightarrow> [])"

lemma bulk_out_answers:
  assumes ok: "dev_ok (w_dev w)" and i: "i < length (eps (w_dev w))"
  shows "\<exists>w' ms. bulk_out cb conn i u w = Ret w' \<and> dev_ok (w_dev w')
     \<and> w_out w' = w_out w @ ms @ [urb_ret conn u 0 [] (int (length (u_data u)))]"
proof (cases "e_on_out (eps (w_dev w) ! i)")
  case None
  let ?ep = "(eps (w_dev w) ! i)\<lparr>e_out := enq_dbuf (u_data u) (e_out (eps (w_dev w) ! i))\<rparr>"
  have "extends w (set_ep i ?ep w)"
    using nth_ep_ok [OF ok i] by (intro extends_set_ep(2) ok i) (simp_all add: ep_ok_def parked_def)
  with None show ?thesis by (auto simp: bulk_out_def extends_def Let_def)
next
  case (Some h)
  obtain s acts where c: "cb_on_out cb h (w_app w) i (u_data u) = (s, acts)" by fastforce
  from do_acts_extends [of "w\<lparr>w_app := s\<rparr>" acts] ok obtain w'
    where "do_acts acts (w\<lparr>w_app := s\<rparr>) = Ret w'" "extends w w'" by (auto simp: extends_app)
  with Some c show ?thesis by (auto simp: bulk_out_def extends_def)
qed

lemma bulk_in_answers_or_parks:
  assumes ok: "dev_ok (w_dev w)" and i: "i < length (eps (w_dev w))" and u: "urb_len_ok u"
    and h: "\<not> e_halted (eps (w_dev w) ! i)"
  shows "\<exists>w'. bulk_in conn i u w = Ret w' \<and> dev_ok (w_dev w') \<and> ep_map (w_dev w') = ep_map (w_dev w)
     \<and> ((\<exists>d n. w_out w' = w_out w @ [urb_ret conn u 0 d n])
       \<or> w_out w' = w_out w \<and> parked (eps (w_dev w') ! i) \<noteq> []
         \<and> p_seqnum (last (parked (eps (w_dev w') ! i))) = u_seqnum u)"
proof -
  let ?ep = "eps (w_dev w) ! i"
  from serve_in_spec [OF nth_ep_ok [OF ok i] u h, of conn] obtain ep out
    where s: "serve_in conn u ?ep = Ret (ep, out)" "ep_ok ep" by auto
  from s(1) have n: "e_number ep = e_number ?ep" "e_dir ep = e_dir ?ep"
    by (auto simp: serve_in_def park_def Let_def split: list.splits if_splits)
  from s(1) have o: "(\<exists>d n. out = [urb_ret conn u 0 d n])
      \<or> out = [] \<and> parked ep \<noteq> [] \<and> p_seqnum (last (parked ep)) = u_seqnum u"
    by (auto simp: serve_in_def park_def Let_def parked_def q_append_def split: list.splits if_splits)
  have "extends w (emit out (set_ep i ep w))" by (rule extends_set_ep(1) [OF ok i s(2) n])
  moreover have "bulk_in conn i u w = Ret (emit out (set_ep i ep w))" by (simp add: bulk_in_def s(1))
  ultimately show ?thesis using o i by (auto simp: extends_def same_shape_def)
qed

lemma control_urb_answered:
  assumes "dev_ok (w_dev w)" "handlers_ok cb" "u_ep u = 0"
  shows "\<exists>w' ms m. usbip_device_dispatch cb e conn u w = Ret w' \<and> dev_ok (w_dev w')
     \<and> w_out w' = w_out w @ ms @ [m] \<and> msg_seqnum m = u_seqnum u \<and> msg_conn m = conn"
proof -
  from handle_control_answers [OF assms(1,2), of conn u] obtain w' ms m
    where "handle_control cb conn u w = Ret w'" "dev_ok (w_dev w')" "w_out w' = w_out w @ ms @ [m]"
      "control_answer conn u m" by auto
  moreover from this(4) have "msg_seqnum m = u_seqnum u \<and> msg_conn m = conn"
    by (auto simp: control_answer_def Let_def urb_ret_def split: if_splits)
  ultimately show ?thesis using assms(3) by (auto simp: usbip_device_dispatch_def)
qed

lemma endpoint_urb_answered:
  assumes ok: "dev_ok (w_dev w)" and len: "urb_len_ok u" and ep: "u_ep u \<noteq> 0"
    and at: "ep_map_at (w_dev w) (u_ep u) (u_direction u) = Ret (Some i)" "i < length (eps (w_dev w))"
    and iso: "e_type (eps (w_dev w) ! i) \<noteq> USB_ISO"
  shows "\<exists>w'. usbip_device_dispatch cb e conn u w = Ret w' \<and> dev_ok (w_dev w')
     \<and> ((\<exists>ms m. w_out w' = w_out w @ ms @ [m] \<and> msg_seqnum m = u_seqnum u \<and> msg_conn m = conn)
       \<or> w_out w' = w_out w \<and> u_direction u = DIR_IN \<and> parked_at (w_dev w') (u_ep u) (u_direction u) \<noteq> []
         \<and> p_seqnum (last (parked_at (w_dev w') (u_ep u) (u_direction u))) = u_seqnum u)"
proof (cases "e_halted (eps (w_dev w) ! i)")
  case True
  with at ep ok show ?thesis by (auto simp: usbip_device_dispatch_def usbip_ep_is_halted_def urb_ret_def)
next
  case False
  then have d: "usbip_device_dispatch cb e conn u w = (if u_direction u = DIR_IN then bulk_in conn i u w else bulk_out cb conn i u w)"
    using at ep iso by (simp add: usbip_device_dispatch_def usbip_ep_is_halted_def)
  show ?thesis
  proof (cases "u_direction u = DIR_IN")
    case True
    from bulk_in_answers_or_parks [OF ok at(2) len False, of conn] obtain w' where
      w': "bulk_in conn i u w = Ret w'" "dev_ok (w_dev w')" "ep_map (w_dev w') = ep_map (w_dev w)"
      and r: "(\<exists>d n. w_out w' = w_out w @ [urb_ret conn u 0 d n])
         \<or> w_out w' = w_out w \<and> parked (eps (w_dev w') ! i) \<noteq> []
           \<and> p_seqnum (last (parked (eps (w_dev w') ! i))) = u_seqnum u" by blast
    from w'(3) have "ep_map_at (w_dev w') (u_ep u) (u_direction u) = Ret (Some i)"
      using at by (simp add: ep_map_at_def split: if_splits)
    with r d True w' show ?thesis by (auto simp: parked_at_def urb_ret_def)
  next
    case False
    with bulk_out_answers [OF ok at(2), of cb conn u] d show ?thesis by (fastforce simp: urb_ret_def)
  qed
qed


definition demo_env :: env where
  "demo_env = \<lparr>ev_mem = (\<lambda>_. True), ev_garbage = (\<lambda>_. 0), ev_now = 1000\<rparr>"


section \<open>Unlinking\<close>

text \<open>C14: After an UNLINK the unlinked URB is gone for good: it is parked on no endpoint of the device and
  waits with no pacer entry, so nothing sent later can answer it, and the UNLINK itself is answered
  once. (Parked URBs of other numbers stay where they are.)\<close>

theorem unlink_leaves_no_trace:
  assumes "dev_ok (w_dev w)" and "w_paced w \<noteq> [] \<longrightarrow> w_pace_started w"
    and "n < 16" and "ep_map (w_dev w) n d = Some h"
  shows "let w' = usbip_device_handle_unlink conn u w; s = u_unlink_seqnum u in
      (\<forall>p \<in> set (parked (eps (w_dev w') ! h)). p_seqnum p \<noteq> s)
    \<and> parked (eps (w_dev w') ! h) = filter (\<lambda>p. p_seqnum p \<noteq> s) (parked (eps (w_dev w) ! h))
    \<and> w_paced w' = filter (\<lambda>p. pr_seqnum p \<noteq> s) (w_paced w)
    \<and> w_out w' = w_out w @ [RetUnlink conn (u_seqnum u) 0]"
proof -
  let ?w = "usbip_device_handle_unlink conn u w"
  have h: "h < length (eps (w_dev w))" using assms(1,4) by (auto simp: dev_ok_def map_inv_def)
  have "is_mapped (w_dev w) h"
    using assms(3,4) by (cases d) (auto simp: is_mapped_def list_ex_iff)
  with h have "eps (w_dev ?w) ! h = unlink_pending (u_unlink_seqnum u) (eps (w_dev w) ! h)"
    by (simp add: usbip_device_handle_unlink_def Let_def)
  then have "parked (eps (w_dev ?w) ! h) = filter (\<lambda>p. p_seqnum p \<noteq> u_unlink_seqnum u) (parked (eps (w_dev w) ! h))"
    by (simp add: unlink_pending_def parked_def Let_def)
  moreover have "w_paced ?w = filter (\<lambda>p. pr_seqnum p \<noteq> u_unlink_seqnum u) (w_paced w)"
    using assms(2) by (cases "w_pace_started w") (simp_all add: usbip_device_handle_unlink_def Let_def emit_def)
  moreover have "w_out ?w = w_out w @ [RetUnlink conn (u_seqnum u) 0]"
    by (simp add: usbip_device_handle_unlink_def Let_def)
  ultimately show ?thesis by (simp add: Let_def)
qed

theorem unlink_leaves_no_trace_witness:
  "let w' = usbip_device_handle_unlink 0 (demo_in 5 0) demo_world; s = u_unlink_seqnum (demo_in 5 0) in
      (\<forall>p \<in> set (parked (eps (w_dev w') ! 0)). p_seqnum p \<noteq> s)
    \<and> parked (eps (w_dev w') ! 0) = filter (\<lambda>p. p_seqnum p \<noteq> s) (parked (eps (w_dev demo_world) ! 0))
    \<and> w_paced w' = filter (\<lambda>p. pr_seqnum p \<noteq> s) (w_paced demo_world)
    \<and> w_out w' = w_out demo_world @ [RetUnlink 0 (u_seqnum (demo_in 5 0)) 0]"
proof (rule unlink_leaves_no_trace [OF demo_world_ok])
  show "ep_map (w_dev demo_world) 1 USB_IN = Some 0"
    unfolding demo_world_def two_claims_def by code_simp
qed (simp_all add: demo_world_def)

section \<open>The pacer\<close>

lemma earliest_spec:
  assumes "k < i" "i + length ps = length qs" "drop i qs = ps" "best = qs ! k"
    and "\<forall>j < i. pr_deadline_us (qs ! k) \<le> pr_deadline_us (qs ! j)"
  shows "earliest ps i k best < length qs
     \<and> (\<forall>j < length qs. pr_deadline_us (qs ! earliest ps i k best) \<le> pr_deadline_us (qs ! j))"
  using assms
proof (induction ps arbitrary: i k best)
  case (Cons p ps)
  have p: "p = qs ! i" "drop (Suc i) qs = ps"
    using nth_via_drop [OF Cons.prems(3)] arg_cong [OF Cons.prems(3), of tl]
    by (simp_all add: drop_Suc tl_drop)
  show ?case
  proof (cases "pr_deadline_us p < pr_deadline_us best")
    case True
    then have "\<forall>j < Suc i. pr_deadline_us (qs ! i) \<le> pr_deadline_us (qs ! j)"
      using Cons.prems(4,5) p(1) by (auto simp: less_Suc_eq)
    with True Cons.prems p Cons.IH [of i "Suc i" p] show ?thesis by simp
  next
    case False
    then have "\<forall>j < Suc i. pr_deadline_us (qs ! k) \<le> pr_deadline_us (qs ! j)"
      using Cons.prems(4,5) p(1) by (auto simp: less_Suc_eq not_less)
    with False Cons.prems p Cons.IH [of k "Suc i" best] show ?thesis by simp
  qed
qed auto

text \<open>Draining at the end of a connection (\<open>usbip_device_pacer_stop\<close>).\<close>

function pacer_drain :: "env \<Rightarrow> nat \<Rightarrow> 's world \<Rightarrow> 's world" where
  "pacer_drain e conn w = (case pacer_step e True conn w of
     None \<Rightarrow> w | Some w' \<Rightarrow> pacer_drain e conn w')"
  by pat_completeness auto

lemma pacer_step_spec:
  assumes "pacer_step e stopping conn w = Some w'"
  shows "\<exists>k < length (w_paced w).
      w_paced w' = take k (w_paced w) @ drop (Suc k) (w_paced w)
    \<and> w_out w' = w_out w @ [RetIso conn (paced_urb (w_paced w ! k)) (pr_data (w_paced w ! k))]
    \<and> (\<forall>p \<in> set (w_paced w). pr_deadline_us (w_paced w ! k) \<le> pr_deadline_us p)
    \<and> (stopping \<or> pr_deadline_us (w_paced w ! k) \<le> ev_now e)"
proof -
  from assms obtain p ps where ps: "w_paced w = p # ps" by (auto simp: pacer_step_def split: list.splits)
  have e: "earliest ps (Suc 0) 0 p < length (p # ps)
     \<and> (\<forall>j < length (p # ps). pr_deadline_us ((p # ps) ! earliest ps (Suc 0) 0 p) \<le> pr_deadline_us ((p # ps) ! j))"
    by (rule earliest_spec) auto
  then have "\<forall>q \<in> set (p # ps). pr_deadline_us ((p # ps) ! earliest ps (Suc 0) 0 p) \<le> pr_deadline_us q"
    by (metis in_set_conv_nth)
  moreover have "earliest (p # ps) 0 0 p = earliest ps (Suc 0) 0 p" by simp
  ultimately show ?thesis
    using assms e unfolding ps
    by (intro exI [of _ "earliest ps (Suc 0) 0 p"])
      (auto simp: pacer_step_def ps Let_def emit_def split: if_splits)
qed

termination pacer_drain
  by (relation "measure (\<lambda>(e, conn, w). length (w_paced w))") (auto dest!: pacer_step_spec)

declare pacer_drain.simps [simp del]

text \<open>C16: Closing a connection delivers every isochronous completion still waiting, each exactly once and
  in the order of their deadlines.\<close>

theorem pacer_drains_in_deadline_order:
  "\<exists>qs. mset qs = mset (w_paced w) \<and> sorted (map pr_deadline_us qs) \<and> w_paced (pacer_drain e conn w) = []
     \<and> w_out (pacer_drain e conn w) = w_out w @ map (\<lambda>p. RetIso conn (paced_urb p) (pr_data p)) qs"
proof (induction e conn w rule: pacer_drain.induct)
  case (1 e conn w)
  show ?case
  proof (cases "pacer_step e True conn w")
    case None
    then have "w_paced w = []" by (auto simp: pacer_step_def Let_def split: list.splits)
    with None show ?thesis by (simp add: pacer_drain.simps [of e conn w])
  next
    case (Some w')
    from pacer_step_spec [OF Some] obtain k where k: "k < length (w_paced w)"
      "w_paced w' = take k (w_paced w) @ drop (Suc k) (w_paced w)"
      "w_out w' = w_out w @ [RetIso conn (paced_urb (w_paced w ! k)) (pr_data (w_paced w ! k))]"
      "\<forall>p \<in> set (w_paced w). pr_deadline_us (w_paced w ! k) \<le> pr_deadline_us p" by blast
    from "1.IH" [OF Some] obtain qs where qs: "mset qs = mset (w_paced w')" "sorted (map pr_deadline_us qs)"
      "w_paced (pacer_drain e conn w') = []"
      "w_out (pacer_drain e conn w') = w_out w' @ map (\<lambda>p. RetIso conn (paced_urb p) (pr_data p)) qs" by blast
    have split: "w_paced w = take k (w_paced w) @ w_paced w ! k # drop (Suc k) (w_paced w)"
      using k(1) by (rule id_take_nth_drop)
    have "mset (w_paced w ! k # qs) = mset (w_paced w)"
      by (subst split) (simp add: qs(1) k(2))
    moreover have "set qs \<subseteq> set (w_paced w)"
      using qs(1) k(2) by (metis mset_eq_setD set_take_subset set_drop_subset set_append Un_least)
    then have "sorted (map pr_deadline_us (w_paced w ! k # qs))" using qs(2) k(4) by auto
    ultimately show ?thesis
      using qs(3,4) k(3) Some by (intro exI [of _ "w_paced w ! k # qs"]) (simp add: pacer_drain.simps [of e conn w])
  qed
qed

section \<open>Real time\<close>

text \<open>The deadlines given to a sequence of transfers on one endpoint, each submitted at a time with a
  number of packets.\<close>

fun pace_run :: "usb_speed \<Rightarrow> (u64 \<times> int) list \<Rightarrow> usbip_ep \<Rightarrow> u64 list cresult" where
  "pace_run sp [] ep = Ret []"
| "pace_run sp ((now, np) # ts) ep =
     (case iso_deadline sp now np ep of
        Ret (ep, d) \<Rightarrow> (case pace_run sp ts ep of Ret ds \<Rightarrow> Ret (d # ds) | Err x \<Rightarrow> Err x | Undefined \<Rightarrow> Undefined)
      | Err x \<Rightarrow> Err x | Undefined \<Rightarrow> Undefined)"

text \<open>Each transfer is due no earlier than its own playing time after it was submitted, and after
  the one before it was due.\<close>

fun real_time :: "nat \<Rightarrow> nat \<Rightarrow> (u64 \<times> int) list \<Rightarrow> u64 list \<Rightarrow> bool" where
  "real_time f prev [] ds = (ds = [])"
| "real_time f prev ((now, np) # ts) ds = (case ds of
     [] \<Rightarrow> False
   | d # ds \<Rightarrow> prev + f * nat np \<le> unat d \<and> unat now + f * nat np \<le> unat d \<and> real_time f (unat d) ts ds)"

lemma iso_deadline_value:
  assumes "iso_frame_us sp (e_interval ep) = Ret f" "0 \<le> np"
    and fit: "max (unat now) (unat (e_iso_deadline_us ep)) + unat f * nat np < 2 ^ 64"
  shows "\<exists>ep' d. iso_deadline sp now np ep = Ret (ep', d) \<and> e_interval ep' = e_interval ep
     \<and> e_iso_deadline_us ep' = d \<and> unat d = max (unat now) (unat (e_iso_deadline_us ep)) + unat f * nat np"
proof -
  define start where "start = (if e_iso_deadline_us ep < now then now else e_iso_deadline_us ep)"
  have s: "unat start = max (unat now) (unat (e_iso_deadline_us ep))"
    by (auto simp: start_def word_less_nat_alt max_def)
  have n: "word_of_int np = (of_nat (nat np) :: u64)" using assms(2) by simp
  have "unat (start + f * of_nat (nat np)) = (unat start + unat f * nat np) mod 2 ^ 64"
    by (simp add: unat_word_ariths unat_of_nat mod_simps take_bit_eq_mod)
  also have "\<dots> = unat start + unat f * nat np" using fit by (simp add: s)
  finally have "unat (start + f * word_of_int np) = max (unat now) (unat (e_iso_deadline_us ep)) + unat f * nat np"
    using s n by simp
  moreover have "iso_deadline sp now np ep
      = Ret (ep\<lparr>e_iso_deadline_us := start + f * word_of_int np\<rparr>, start + f * word_of_int np)"
    by (simp add: iso_deadline_def assms(1) Let_def start_def)
  ultimately show ?thesis by simp
qed

text \<open>Paced isochronous transfers never complete faster than real time: over any sequence of
  submissions, whenever they come, each deadline is at least the transfer's playing time (its packets
  times the service interval) after both its submission and the previous deadline. (The clock is
  assumed to stay below \<open>2^64\<close> microseconds.)\<close>

theorem iso_pacing_is_real_time:
  assumes "iso_frame_us sp (e_interval ep) = Ret f"
    and "\<forall>(now, np) \<in> set ts. 0 \<le> np \<and> unat now \<le> T" and "unat (e_iso_deadline_us ep) \<le> T"
    and "T + unat f * sum_list (map (\<lambda>t. nat (snd t)) ts) < 2 ^ 64"
  shows "\<exists>ds. pace_run sp ts ep = Ret ds \<and> real_time (unat f) (unat (e_iso_deadline_us ep)) ts ds"
  using assms
proof (induction ts arbitrary: ep T)
  case (Cons t ts)
  obtain now np where t: "t = (now, np)" by fastforce
  have le: "max (unat now) (unat (e_iso_deadline_us ep)) \<le> T" using Cons.prems(2,3) t by auto
  from Cons.prems(4) have sum: "T + unat f * nat np + unat f * sum_list (map (\<lambda>t. nat (snd t)) ts) < 2 ^ 64"
    by (simp add: t algebra_simps)
  have "0 \<le> np" using Cons.prems(2) t by simp
  moreover have "max (unat now) (unat (e_iso_deadline_us ep)) + unat f * nat np < 2 ^ 64"
    using le sum by linarith
  ultimately obtain ep' d where d: "iso_deadline sp now np ep = Ret (ep', d)" "e_interval ep' = e_interval ep"
    "e_iso_deadline_us ep' = d" "unat d = max (unat now) (unat (e_iso_deadline_us ep)) + unat f * nat np"
    using iso_deadline_value [OF Cons.prems(1)] by blast
  have "\<forall>(now, np) \<in> set ts. 0 \<le> np \<and> unat now \<le> T + unat f * nat np'" for np'
    using Cons.prems(2) by (auto intro: le_trans)
  with Cons.IH [of ep' "T + unat f * nat np"] Cons.prems(1) d le sum
  obtain ds where "pace_run sp ts ep' = Ret ds" "real_time (unat f) (unat d) ts ds" by auto
  with d t show ?case by auto
qed simp

definition demo_iso_ep :: usbip_ep where
  "demo_iso_ep = new_ep 2 USB_OUT [7, 5, 2, 1, 192, 0, 1] 0"

theorem iso_pacing_is_real_time_witness:
  "\<exists>ds. pace_run USB_SPEED_FULL [(5000, 8), (5100, 8), (90000, 8)] demo_iso_ep = Ret ds
     \<and> real_time 1000 0 [(5000, 8), (5100, 8), (90000, 8)] ds"
  using iso_pacing_is_real_time [of USB_SPEED_FULL demo_iso_ep 1000 "[(5000, 8), (5100, 8), (90000, 8)]" 90000]
  by (simp add: iso_frame_us_def demo_iso_ep_def new_ep_def)

end
