(* ===== verification/Server_Props.thy ===== *)
theory Server_Props
  imports Server Dispatch_Props
begin

text \<open>
  What the listener promises: the device record survives the wire, an import reaches the device it
  names or is refused, a device list arrives whole, and plugging keeps the registry consistent.
\<close>

section \<open>The device record\<close>

lemma bytes_at_put_at_field:
  "off + length s \<le> length buf \<Longrightarrow> length s \<le> n \<Longrightarrow>
   bytes_at off n (put_at off s buf) = s @ bytes_at (off + length s) (n - length s) buf"
  by (simp add: bytes_at_def put_at_def)

lemma c_string_padded: "0 \<notin> set s \<Longrightarrow> c_string (s @ replicate k 0) = s"
  by (induction s) (auto simp: c_string_def takeWhile_replicate)

definition effective_busid :: "usbip_device \<Rightarrow> bytes" where
  "effective_busid dev = (if busid dev \<noteq> [] then busid dev else cstr ''1-1'')"

definition busid_ok :: "bytes \<Rightarrow> bool" where
  "busid_ok b \<longleftrightarrow> b \<noteq> [] \<and> length b \<le> 31 \<and> 0 \<notin> set b"

lemma cstr_1_1: "cstr ''1-1'' = [49, 45, 49]"
  by (simp add: cstr_def)

lemma length_pack [simp]: "length (pack_usbip_device dev) = 312"
  by (simp add: pack_usbip_device_def Let_def)

text \<open>What an importer learns of a device.\<close>

definition devinfo_of :: "usbip_device \<Rightarrow> usbip_devinfo" where
  "devinfo_of dev = \<lparr>di_busid = busid dev, di_busnum = (if busnum dev \<noteq> 0 then busnum dev else 1),
     di_devnum = (if devnum dev \<noteq> 0 then devnum dev else 2), di_speed = wire_speed (speed dev),
     di_vid = vid dev, di_pid = pid dev, di_bcdDevice = bcdDevice dev, di_dclass = dev_class dev,
     di_dsub = dev_sub dev, di_dproto = dev_proto dev, di_n_cfg = 1,
     di_n_ifaces = of_nat (n_ifnums dev), di_ifaces = replicate 16 (0, 0, 0)\<rparr>"

text \<open>The numeric fields, written over a buffer that holds the strings.\<close>

definition pack_fields :: "usbip_device \<Rightarrow> bytes \<Rightarrow> bytes" where
  "pack_fields dev b = put_at 306 [dev_class dev, dev_sub dev, dev_proto dev, 1, 1, of_nat (n_ifnums dev)]
     (usb_put_be16 304 (bcdDevice dev) (usb_put_be16 302 (pid dev) (usb_put_be16 300 (vid dev)
       (usb_put_be32 296 (wire_speed (speed dev)) (usb_put_be32 292 (if devnum dev \<noteq> 0 then devnum dev else 2)
         (usb_put_be32 288 (if busnum dev \<noteq> 0 then busnum dev else 1) b))))))"

lemma pack_eq: "pack_usbip_device dev = pack_fields dev (put_at 256 (snprintf_s 32 (effective_busid dev))
    (put_at 0 (snprintf_s 256 (cstr ''/sys/devices/platform/vhci_hcd.0/usb1/'' @ effective_busid dev)) (replicate 312 0)))"
  by (simp only: pack_usbip_device_def Let_def pack_fields_def effective_busid_def)

lemma pack_fields_get:
  fixes dev :: usbip_device and b :: bytes
  assumes "length b = 312"
  defines "f \<equiv> pack_fields dev b"
  shows "usb_get_be32 f 288 = (if busnum dev \<noteq> 0 then busnum dev else 1)"
    "usb_get_be32 f 292 = (if devnum dev \<noteq> 0 then devnum dev else 2)"
    "usb_get_be32 f 296 = wire_speed (speed dev)" "usb_get_be16 f 300 = vid dev"
    "usb_get_be16 f 302 = pid dev" "usb_get_be16 f 304 = bcdDevice dev"
    "f ! 306 = dev_class dev" "f ! 307 = dev_sub dev" "f ! 308 = dev_proto dev" "f ! 310 = 1"
    "f ! 311 = of_nat (n_ifnums dev)" "bytes_at 256 31 f = bytes_at 256 31 b"
  using assms(1) unfolding f_def pack_fields_def by (simp_all add: wire_defs buf_simps)

lemma parse_pack:
  assumes "busid_ok (busid dev)"
  shows "parse_devinfo (pack_usbip_device dev) = devinfo_of dev"
proof -
  define path where "path = snprintf_s 256 (cstr ''/sys/devices/platform/vhci_hcd.0/usb1/'' @ busid dev)"
  have path: "length path \<le> 255" by (simp add: path_def)
  define b where "b = put_at 256 (busid dev) (put_at 0 path (replicate 312 0))"
  have len: "length (put_at 0 path (replicate 312 0)) = 312" "length b = 312"
    using path assms by (simp_all add: b_def busid_ok_def)
  have p: "pack_usbip_device dev = pack_fields dev b"
    using assms by (simp add: pack_eq effective_busid_def b_def path_def snprintf_s_def busid_ok_def)
  have "bytes_at 256 31 b = busid dev @ replicate (31 - length (busid dev)) 0"
    using path len(1) assms by (simp add: b_def bytes_at_put_at_field busid_ok_def bytes_at_put_at_after bytes_at_replicate)
  then have "c_string (bytes_at 256 31 b) = busid dev"
    using assms by (simp add: c_string_padded busid_ok_def)
  then show ?thesis
    unfolding p parse_devinfo_def devinfo_of_def by (simp add: pack_fields_get [OF len(2)])
qed

section \<open>Importing\<close>

lemma op_hdr_fields:
  "length (op_hdr c st) = 8" "usb_get_be16 (op_hdr c st) 2 = c" "usb_get_be32 (op_hdr c st) 4 = st"
  unfolding op_hdr_def by (simp_all add: wire_defs buf_simps)

text \<open>The request in its two reads, with what the server makes of each.\<close>

lemma import_request_parts:
  assumes "busid_ok bid"
  obtains h f where "import_request bid = h @ f" "length h = 8" "length f = 32"
    "usb_get_be16 h 2 = USBIP_OP_REQ_IMPORT" "c_string (f[31 := 0]) = bid"
proof -
  let ?z = "usb_put_be16 2 USBIP_OP_REQ_IMPORT (usb_put_be16 0 0x0111 (replicate 8 0))"
  have len: "length bid \<le> 31" "snprintf_s 32 bid = bid" "0 \<notin> set bid"
    using assms by (auto simp: busid_ok_def snprintf_s_def)
  have s: "usb_put_be16 2 USBIP_OP_REQ_IMPORT (usb_put_be16 0 0x0111 (replicate 40 0)) = ?z @ replicate 32 0"
    by (simp add: wire_defs put_at_def flip: replicate_add)
  have lz: "length ?z = 8" by (simp add: wire_defs)
  have "import_request bid = ?z @ bid @ replicate (32 - length bid) 0"
    using len lz by (simp add: import_request_def s put_at_def)
  moreover have "c_string ((bid @ replicate (32 - length bid) 0)[31 := 0]) = bid"
  proof -
    have "(bid @ replicate (32 - length bid) 0)[31 := 0] = bid @ replicate (32 - length bid) 0"
      using len by (intro list_update_same_conv [THEN iffD2]) (auto simp: nth_append)
    then show ?thesis using len(3) by (simp add: c_string_padded)
  qed
  moreover have "usb_get_be16 ?z 2 = USBIP_OP_REQ_IMPORT" by (simp add: wire_defs buf_simps)
  ultimately show ?thesis using that [of ?z "bid @ replicate (32 - length bid) 0"] lz len by simp
qed

lemma find_index_nth: "find_index P xs = Some i \<Longrightarrow> i < length xs \<and> P (xs ! i)"
  using find_index_Some by fast

lemma readn_append:
  assumes "avail s = bs @ rest" "n = length bs"
  shows "\<exists>s'. readn s n = Some (bs, s') \<and> avail s' = rest \<and> caps s' = caps s \<and> sent s' = sent s"
proof -
  from assms obtain s' where r: "readn s n = Some (bs, s')" "avail s' = rest" by (auto elim: readn_exact)
  with readn_frame [OF r(1)] show ?thesis by auto
qed

lemma avail_sent [simp]: "avail (s\<lparr>sent := x\<rparr>) = avail s" "caps (s\<lparr>sent := x\<rparr>) = caps s"
  by (simp_all add: avail_def)

lemma import_client_reads:
  assumes "caps c = []" "avail c = op_hdr USBIP_OP_REP_IMPORT 0 @ pack_usbip_device dev @ tl_bytes" "busid_ok (busid dev)"
  shows "\<exists>c'. usbip_client_import bid c = ((USB_SUCCESS, Some (devinfo_of dev)), c') \<and> avail c' = tl_bytes"
proof -
  define c0 where "c0 = c\<lparr>sent := sent c @ import_request bid\<rparr>"
  have "avail c0 = op_hdr USBIP_OP_REP_IMPORT 0 @ pack_usbip_device dev @ tl_bytes" by (simp add: c0_def assms(2))
  from readn_append [OF this, of 8] obtain c1 where 1: "readn c0 8 = Some (op_hdr USBIP_OP_REP_IMPORT 0, c1)"
    "avail c1 = pack_usbip_device dev @ tl_bytes" by (auto simp: op_hdr_fields)
  from readn_append [OF 1(2), of 312] obtain c2 where 2: "readn c1 312 = Some (pack_usbip_device dev, c2)"
    "avail c2 = tl_bytes" by auto
  show ?thesis
    using 1 2 assms(1) parse_pack [OF assms(3)]
    by (simp add: usbip_client_import_def writen_caps_nil op_hdr_fields flip: c0_def)
qed

lemma import_client_refused:
  assumes "caps c = []" "avail c = op_hdr USBIP_OP_REP_IMPORT 1 @ tl_bytes"
  shows "\<exists>c'. usbip_client_import bid c = ((USB_ERROR_NOT_FOUND, None), c') \<and> avail c' = tl_bytes"
proof -
  define c0 where "c0 = c\<lparr>sent := sent c @ import_request bid\<rparr>"
  have "avail c0 = op_hdr USBIP_OP_REP_IMPORT 1 @ tl_bytes" by (simp add: c0_def assms(2))
  from readn_append [OF this, of 8] obtain c1 where "readn c0 8 = Some (op_hdr USBIP_OP_REP_IMPORT 1, c1)"
    "avail c1 = tl_bytes" by (auto simp: op_hdr_fields)
  with assms(1) show ?thesis
    by (simp add: usbip_client_import_def writen_caps_nil op_hdr_fields flip: c0_def)
qed

text \<open>C13: An import gets the device it names. Where the listener receives what
  \<open>usbip_client_import\<close> wrote for a busid, it enters the URB phase with the first exported device of that
  busid and the importer reads that device's identity field for field; where no device has the busid,
  nothing is imported and the importer is told \<open>USB_ERROR_NOT_FOUND\<close>. Both ends consume exactly
  the other's message.\<close>

theorem import_reaches_named_device:
  assumes "busid_ok bid" and "caps s = []" and "avail s = import_request bid @ rest"
  shows "\<exists>t s' reply. handshake devs s = Ret (t, s') \<and> sent s' = sent s @ reply
    \<and> t = find_index (\<lambda>d. busid d = bid) devs \<and> avail s' = rest
    \<and> (\<forall>c. caps c = [] \<longrightarrow> avail c = reply @ tl_bytes \<longrightarrow> (\<exists>c'. usbip_client_import bid c =
          ((case t of None \<Rightarrow> (USB_ERROR_NOT_FOUND, None) | Some i \<Rightarrow> (USB_SUCCESS, Some (devinfo_of (devs ! i)))), c')
        \<and> avail c' = tl_bytes))"
proof -
  obtain h f where hf: "import_request bid = h @ f" "length h = 8" "length f = 32"
    "usb_get_be16 h 2 = USBIP_OP_REQ_IMPORT" "c_string (f[31 := 0]) = bid"
    using import_request_parts [OF assms(1)] by blast
  have "avail s = h @ f @ rest" using assms(3) hf(1) by simp
  from readn_append [OF this, of 8] hf(2) obtain s1 where 1: "readn s 8 = Some (h, s1)"
    "avail s1 = f @ rest" "caps s1 = []" "sent s1 = sent s" using assms(2) by auto
  from readn_append [OF 1(2), of 32] hf(3) 1 obtain s2 where 2: "readn s1 32 = Some (f, s2)"
    "avail s2 = rest" "caps s2 = []" "sent s2 = sent s" by auto
  show ?thesis
  proof (cases "find_index (\<lambda>d. busid d = bid) devs")
    case None
    then have "handshake devs s = Ret (None, s2\<lparr>sent := sent s2 @ op_hdr USBIP_OP_REP_IMPORT 1\<rparr>)"
      using 1 2 hf by (simp add: handshake_def write_op_hdr_def writen_caps_nil)
    with import_client_refused [of _ tl_bytes bid] None 2 show ?thesis by auto
  next
    case (Some i)
    then have i: "busid (devs ! i) = bid" using find_index_nth by fast
    from Some have "handshake devs s
        = Ret (Some i, s2\<lparr>sent := sent s2 @ op_hdr USBIP_OP_REP_IMPORT 0 @ pack_usbip_device (devs ! i)\<rparr>)"
      using 1 2 hf by (simp add: handshake_def write_op_hdr_def writen_caps_nil)
    with import_client_reads [of _ "devs ! i" tl_bytes bid] assms(1) Some 2 i show ?thesis by auto
  qed
qed

definition named_dev :: "bytes \<Rightarrow> usbip_device" where
  "named_dev b = (usbip_device_create 0x1234 0x5678)\<lparr>busid := b, busnum := 1, devnum := 3\<rparr>"

theorem import_reaches_named_device_witness:
  "\<exists>s' reply. handshake [named_dev (cstr ''1-1''), named_dev (cstr ''1-2'')]
      \<lparr>segs = [take 5 (import_request (cstr ''1-2'')), drop 5 (import_request (cstr ''1-2'')), [7]], sent = [], caps = []\<rparr>
      = Ret (Some 1, s') \<and> sent s' = reply \<and> avail s' = [7]
    \<and> (\<exists>c'. usbip_client_import (cstr ''1-2'') \<lparr>segs = [reply], sent = [], caps = []\<rparr>
      = ((USB_SUCCESS, Some (devinfo_of (named_dev (cstr ''1-2'')))), c') \<and> avail c' = [])"
proof -
  let ?b = "cstr ''1-2''" and ?devs = "[named_dev (cstr ''1-1''), named_dev (cstr ''1-2'')]"
  let ?s = "\<lparr>segs = [take 5 (import_request ?b), drop 5 (import_request ?b), [7]], sent = [], caps = []\<rparr>"
  have b: "busid_ok ?b" by (simp add: busid_ok_def cstr_def)
  have av: "avail ?s = import_request ?b @ [7]" by (simp add: avail_def)
  have fi: "find_index (\<lambda>d. busid d = ?b) ?devs = Some 1" by (simp add: named_dev_def cstr_def)
  have "caps ?s = []" by simp
  from import_reaches_named_device [OF b this av, of ?devs "[]"] fi
  obtain s' where "handshake ?devs ?s = Ret (Some 1, s')" "avail s' = [7]"
    "\<And>c. caps c = [] \<Longrightarrow> avail c = sent s' \<Longrightarrow> \<exists>c'. usbip_client_import ?b c
      = ((USB_SUCCESS, Some (devinfo_of (named_dev (cstr ''1-2'')))), c') \<and> avail c' = []"
    by auto
  then show ?thesis by (auto simp: avail_def)
qed

section \<open>The device list\<close>

text \<open>What one entry of the list looks like, and what the importer makes of it.\<close>

definition entry_bytes :: "usbip_device \<Rightarrow> bytes list \<Rightarrow> bytes" where
  "entry_bytes d ts = pack_usbip_device d @ concat ts"

fun set_ifaces :: "bytes list \<Rightarrow> nat \<Rightarrow> (u8 \<times> u8 \<times> u8) list \<Rightarrow> (u8 \<times> u8 \<times> u8) list" where
  "set_ifaces [] j xs = xs"
| "set_ifaces (t # ts) j xs = set_ifaces ts (Suc j) (if j < 16 then xs[j := (t ! 0, t ! 1, t ! 2)] else xs)"

text \<open>A device whose tuples number what its record announces.\<close>

definition listable :: "usbip_device \<Rightarrow> bytes list \<Rightarrow> bool" where
  "listable d ts \<longleftrightarrow> busid_ok (busid d) \<and> iface_tuples (descr d) (descr_len d) 0 = Ret ts
     \<and> length ts = n_ifnums d \<and> n_ifnums d < 256"

lemma iface_tuples_length: "iface_tuples blob n off = Ret ts \<Longrightarrow> \<forall>t \<in> set ts. length t = 4"
proof (induction blob n off arbitrary: ts rule: iface_tuples.induct)
  case (1 blob n off)
  show ?case
  proof (cases "off + 2 \<le> n \<and> \<not> (off + 1 \<ge> length blob \<or> (blob ! (off + 1) = 4 \<and> off + 7 \<ge> length blob))")
    case False
    with "1.prems" show ?thesis by (subst (asm) iface_tuples.simps) (auto split: if_splits)
  next
    case True
    define off' where "off' = off + (if blob ! off \<noteq> 0 then unat (blob ! off) else 1)"
    have e: "iface_tuples blob n off = (case iface_tuples blob n off' of
          Ret ts \<Rightarrow> Ret (if blob ! (off + 1) = 4 \<and> blob ! (off + 3) = 0
                    then [blob ! (off + 5), blob ! (off + 6), blob ! (off + 7), 0] # ts else ts)
        | Err e \<Rightarrow> Err e | Undefined \<Rightarrow> Undefined)"
      using True unfolding off'_def by (subst iface_tuples.simps) presburger
    show ?thesis
    proof (cases "iface_tuples blob n off'")
      case (Ret us)
      with True "1.IH" [of us] have "\<forall>t \<in> set us. length t = 4" unfolding off'_def by blast
      with Ret "1.prems" e show ?thesis by (auto split: if_splits)
    qed (use "1.prems" e in simp_all)
  qed
qed

lemma write_all_sent: "caps s = [] \<Longrightarrow> write_all bs s = s\<lparr>sent := sent s @ concat bs\<rparr>"
  by (induction bs arbitrary: s) (simp_all add: writen_caps_nil)

lemma emit_devlist_sent:
  assumes "caps s = []" "list_all2 listable ds tss"
  shows "emit_devlist ds s = Ret (s\<lparr>sent := sent s @ concat (map2 entry_bytes ds tss)\<rparr>)"
  using assms(2,1)
proof (induction ds tss arbitrary: s rule: list_all2_induct)
  case (Cons d ds ts tss)
  then show ?case
    by (simp add: writen_caps_nil write_all_sent listable_def entry_bytes_def)
qed simp

lemma read_ifaces_ok:
  assumes "avail s = concat ts @ rest" "\<forall>t \<in> set ts. length t = 4"
  shows "\<exists>s'. read_ifaces (length ts) j info s = Some (info\<lparr>di_ifaces := set_ifaces ts j (di_ifaces info)\<rparr>, s')
     \<and> avail s' = rest"
  using assms
proof (induction ts arbitrary: j info s)
  case (Cons t ts)
  have "avail s = t @ concat ts @ rest" "4 = length t" using Cons.prems by simp_all
  from readn_append [OF this] obtain s1 where 1: "readn s 4 = Some (t, s1)" "avail s1 = concat ts @ rest" by auto
  let ?info = "if j < 16 then info\<lparr>di_ifaces := (di_ifaces info)[j := (t ! 0, t ! 1, t ! 2)]\<rparr> else info"
  from Cons.IH [of s1 "Suc j" ?info] 1 Cons.prems obtain s2 where
    "read_ifaces (length ts) (Suc j) ?info s1 = Some (?info\<lparr>di_ifaces := set_ifaces ts (Suc j) (di_ifaces ?info)\<rparr>, s2)"
    "avail s2 = rest" by auto
  with 1 show ?case by (cases "j < 16") auto
qed simp

definition listed_info :: "usbip_device \<Rightarrow> bytes list \<Rightarrow> usbip_devinfo" where
  "listed_info d ts = (devinfo_of d)\<lparr>di_ifaces := set_ifaces ts 0 (replicate 16 (0, 0, 0))\<rparr>"

lemma read_devs_ok:
  assumes "list_all2 listable ds tss" "avail s = concat (map2 entry_bytes ds tss) @ rest"
  shows "\<exists>s'. read_devs (length ds) maxn got s = Some (got @ take (maxn - length got) (map2 listed_info ds tss), s')
     \<and> avail s' = rest"
  using assms
proof (induction ds tss arbitrary: s got rule: list_all2_induct)
  case Nil
  then show ?case by simp
next
  case (Cons d ds ts tss)
  have "avail s = pack_usbip_device d @ concat ts @ concat (map2 entry_bytes ds tss) @ rest"
    using Cons.prems by (simp add: entry_bytes_def)
  from readn_append [OF this, of 312] obtain s1 where 1: "readn s 312 = Some (pack_usbip_device d, s1)"
    "avail s1 = concat ts @ concat (map2 entry_bytes ds tss) @ rest" by auto
  from Cons.hyps(1) have l: "busid_ok (busid d)" "length ts = n_ifnums d" "n_ifnums d < 256"
    "\<forall>t \<in> set ts. length t = 4" using iface_tuples_length by (auto simp: listable_def)
  have n: "unat (di_n_ifaces (devinfo_of d)) = length ts"
    using l(2,3) by (simp add: devinfo_of_def unat_of_nat take_bit_nat_eq_self)
  from read_ifaces_ok [OF 1(2) l(4), of 0 "devinfo_of d"] obtain s2 where
    2: "read_ifaces (length ts) 0 (devinfo_of d) s1 = Some (listed_info d ts, s2)"
    "avail s2 = concat (map2 entry_bytes ds tss) @ rest"
    by (auto simp: listed_info_def devinfo_of_def)
  show ?case
  proof (cases "length got < maxn")
    case True
    then have "Suc (maxn - Suc (length got)) = maxn - length got" by simp
    with Cons.IH [OF 2(2), of "got @ [listed_info d ts]"] 1(1) 2(1) n True parse_pack [OF l(1)] show ?thesis
      by (auto simp: take_Suc_Cons [symmetric] simp del: take_Suc_Cons)
  next
    case False
    with Cons.IH [OF 2(2), of got] 1(1) 2(1) n parse_pack [OF l(1)] show ?thesis by auto
  qed
qed

text \<open>C18: A device list arrives whole. Where every exported device emits as many interface tuples as its
  record announces, the importer that asks for the list gets all of the devices, in order and
  up to the number it has room for, each with its identity and the class triples of its first sixteen
  interfaces, and consumes exactly the reply.\<close>

theorem devlist_roundtrip:
  assumes "list_all2 listable ds tss" and "length ds < 2 ^ 31"
    and "caps s = []" and "avail s = devlist_request @ rest"
  shows "\<exists>s' reply. handshake ds s = Ret (None, s') \<and> sent s' = sent s @ reply \<and> avail s' = rest
    \<and> (\<forall>c. caps c = [] \<longrightarrow> avail c = reply @ tl_bytes \<longrightarrow> (\<exists>c'. usbip_client_devlist maxn c =
          ((int (min maxn (length ds)), take maxn (map2 listed_info ds tss)), c') \<and> avail c' = tl_bytes))"
proof -
  let ?cnt = "usb_put_be32 0 (of_nat (length ds)) (replicate 4 0)"
  let ?h = "op_hdr USBIP_OP_REP_DEVLIST 0"
  let ?entries = "concat (map2 entry_bytes ds tss)"
  have req: "length devlist_request = 8" "usb_get_be16 devlist_request 2 = USBIP_OP_REQ_DEVLIST"
    unfolding devlist_request_def by (simp_all add: wire_defs buf_simps)
  from readn_append [OF assms(4), of 8] req assms(3) obtain s1 where 1: "readn s 8 = Some (devlist_request, s1)"
    "avail s1 = rest" "caps s1 = []" "sent s1 = sent s" by auto
  let ?s = "s1\<lparr>sent := sent s1 @ ?h @ ?cnt @ ?entries\<rparr>"
  have hs: "handshake ds s = Ret (None, ?s)"
    using 1 req emit_devlist_sent [OF _ assms(1), of "s1\<lparr>sent := sent s1 @ ?h @ ?cnt\<rparr>"]
    by (simp add: handshake_def write_op_hdr_def writen_caps_nil)
  have len: "length (map2 listed_info ds tss) = length ds" using list_all2_lengthD [OF assms(1)] by simp
  have cl: "\<exists>c'. usbip_client_devlist maxn c =
          ((int (min maxn (length ds)), take maxn (map2 listed_info ds tss)), c') \<and> avail c' = tl_bytes"
    if "caps c = []" "avail c = (?h @ ?cnt @ ?entries) @ tl_bytes" for c
  proof -
    define c0 where "c0 = c\<lparr>sent := sent c @ devlist_request\<rparr>"
    have "avail c0 = ?h @ ?cnt @ ?entries @ tl_bytes" by (simp add: c0_def that(2))
    from readn_append [OF this, of 8] obtain c1 where c1: "readn c0 8 = Some (?h, c1)"
      "avail c1 = ?cnt @ ?entries @ tl_bytes" by (auto simp: op_hdr_fields)
    from readn_append [OF c1(2), of 4] obtain c2 where c2: "readn c1 4 = Some (?cnt, c2)"
      "avail c2 = ?entries @ tl_bytes" by auto
    have "usb_get_be32 ?cnt 0 = of_nat (length ds)" by (simp add: wire_defs buf_simps)
    then have "nat (i32 (usb_get_be32 ?cnt 0)) = length ds"
      using assms(2) by (simp add: signed_of_nat signed_take_bit_int_eq_self)
    with read_devs_ok [OF assms(1) c2(2), of maxn "[]"] c1 c2 that(1) len show ?thesis
      by (auto simp: usbip_client_devlist_def writen_caps_nil op_hdr_fields min_def simp flip: c0_def)
  qed
  show ?thesis using hs 1 cl by (intro exI [of _ ?s] exI [of _ "?h @ ?cnt @ ?entries"]) auto
qed

definition listed_dev :: usbip_device where
  "listed_dev = (fold build_step two_claims (usbip_device_create 1 2))\<lparr>busid := cstr ''1-1''\<rparr>"

theorem devlist_roundtrip_witness:
  "\<exists>s' reply c'. handshake [listed_dev] \<lparr>segs = [devlist_request], sent = [], caps = []\<rparr> = Ret (None, s')
     \<and> sent s' = reply
     \<and> usbip_client_devlist 8 \<lparr>segs = [reply], sent = [], caps = []\<rparr>
       = ((1, [listed_info listed_dev [[0xFF, 0, 0, 0], [0xFF, 0, 0, 0]]]), c')"
proof -
  let ?ts = "[[0xFF, 0, 0, 0], [0xFF, 0, 0, 0]] :: bytes list"
  have "iface_tuples (descr listed_dev) (descr_len listed_dev) 0 = Ret ?ts" "n_ifnums listed_dev = 2"
    unfolding listed_dev_def two_claims_def by code_simp+
  moreover have "busid_ok (busid listed_dev)" by (simp add: listed_dev_def busid_ok_def cstr_def)
  ultimately have "list_all2 listable [listed_dev] [?ts]" by (simp add: listable_def)
  from devlist_roundtrip [OF this, of "\<lparr>segs = [devlist_request], sent = [], caps = []\<rparr>" "[]" "[]" 8]
  obtain s' where hs: "handshake [listed_dev] \<lparr>segs = [devlist_request], sent = [], caps = []\<rparr> = Ret (None, s')"
    and cl: "\<forall>c. caps c = [] \<longrightarrow> avail c = sent s' \<longrightarrow> (\<exists>c'. usbip_client_devlist 8 c
       = ((1, [listed_info listed_dev ?ts]), c') \<and> avail c' = [])"
    by (simp add: avail_def del: concat_eq_Nil_conv) blast
  have "avail \<lparr>segs = [sent s'], sent = [], caps = []\<rparr> = sent s'" by (simp add: avail_def)
  with cl have "\<exists>c'. usbip_client_devlist 8 \<lparr>segs = [sent s'], sent = [], caps = []\<rparr>
       = ((1, [listed_info listed_dev ?ts]), c')" by (metis sock.select_convs(3))
  with hs show ?thesis by blast
qed

end
