(* ===== verification/Device_Group.thy ===== *)
theory Device_Group
  imports Device_Build
begin

text \<open>
  Descriptor groups (\<open>usbip_device_group_begin\<close> and \<open>usbip_device_group_abort\<close> of
  \<open>src/usbip_device.c\<close>): a class that fails half way through its set-up takes its whole group
  back out. The invariant \<open>in_group\<close> relates the device inside an open group to the device
  before it; the rollback theorem follows from it.
\<close>

section \<open>Inside an open group\<close>

definition snapshot :: "usbip_device \<Rightarrow> gmark" where
  "snapshot dev = \<lparr>m_descr_len = descr_len dev, m_n_ifalts = length (ifalts dev),
     m_n_eps = length (eps dev), m_n_msos = length (msos dev), m_n_ifnums = n_ifnums dev,
     m_cur_ifnum = cur_ifnum dev, m_cur_alt = cur_alt dev, m_if_present = if_present dev,
     m_ep_reserved = ep_reserved dev, m_ctrl = ctrl dev, m_ctrl_default = ctrl_default dev,
     m_set_alt_tab = set_alt_tab dev\<rparr>"

text \<open>\<open>overlay d0 d\<close>: the fields building may change, taken from \<open>d0\<close>, the others from \<open>d\<close>.\<close>

definition overlay :: "usbip_device \<Rightarrow> usbip_device \<Rightarrow> usbip_device" where
  "overlay d0 d = d\<lparr>descr := descr d0, descr_len := descr_len d0, ifalts := ifalts d0,
     cur_ifnum := cur_ifnum d0, cur_alt := cur_alt d0, if_present := if_present d0,
     n_ifnums := n_ifnums d0, eps := eps d0, ep_map := ep_map d0, ep_reserved := ep_reserved d0,
     ctrl := ctrl d0, ctrl_default := ctrl_default d0, set_alt_tab := set_alt_tab d0,
     groups := groups d0, mark := mark d0\<rparr>"

text \<open>The endpoint map gained endpoints of the group and lost none.\<close>

definition map_extends :: "nat \<Rightarrow> (nat \<Rightarrow> usb_dir \<Rightarrow> nat option) \<Rightarrow> (nat \<Rightarrow> usb_dir \<Rightarrow> nat option) \<Rightarrow> bool" where
  "map_extends n0 m0 m \<longleftrightarrow> (\<forall>n dir. m n dir = m0 n dir
     \<or> m0 n dir = None \<and> (\<exists>h. m n dir = Some h \<and> n0 \<le> h))"

definition alts_extend :: "nat \<Rightarrow> ifalt list \<Rightarrow> ifalt list \<Rightarrow> bool" where
  "alts_extend off as0 as \<longleftrightarrow> (\<exists>xs. as = as0 @ xs \<and> (\<forall>ia \<in> set xs. off \<le> ia_off ia))"

definition eps_extend :: "usbip_ep list \<Rightarrow> usbip_ep list \<Rightarrow> bool" where
  "eps_extend es0 es \<longleftrightarrow> (\<exists>ys. es = es0 @ ys)"

definition groups_extend :: "descr_group list \<Rightarrow> descr_group list \<Rightarrow> bool" where
  "groups_extend gs0 gs \<longleftrightarrow> (\<exists>g. gs = gs0 @ [g])"

definition in_group :: "usbip_device \<Rightarrow> usbip_device \<Rightarrow> bool" where
  "in_group d0 d \<longleftrightarrow>
     mark d = snapshot d0 \<and> overlay d0 d = d0
     \<and> groups_extend (groups d0) (groups d)
     \<and> descr_len d0 \<le> descr_len d \<and> length (descr d) = length (descr d0)
     \<and> take (descr_len d0) (descr d) = take (descr_len d0) (descr d0)
     \<and> alts_extend (descr_len d0) (ifalts d0) (ifalts d) \<and> eps_extend (eps d0) (eps d)
     \<and> map_extends (length (eps d0)) (ep_map d0) (ep_map d)
     \<and> n_ifnums d0 \<le> n_ifnums d"

text \<open>An interface of the group itself is current.\<close>

definition own_interface :: "usbip_device \<Rightarrow> usbip_device \<Rightarrow> bool" where
  "own_interface d0 d \<longleftrightarrow> int (n_ifnums d0) \<le> cur_ifnum d \<and> cur_ifnum d < 255"

text \<open>What a class does inside its group: interfaces with fresh numbers, and their strings.\<close>

fun group_op_ok :: "nat \<Rightarrow> build_op \<Rightarrow> bool" where
  "group_op_ok n0 (AddDescriptor d) = (desc_ok d \<and> (d ! 1 = 4 \<longrightarrow> n0 \<le> unat (d ! 2) \<and> d ! 2 \<noteq> 0xFF))"
| "group_op_ok n0 GroupBegin = False"
| "group_op_ok n0 (SetInterfaceString i a s) = (n0 \<le> unat i)"
| "group_op_ok n0 _ = True"

lemma group_op_ok_op_ok: "group_op_ok n0 op \<Longrightarrow> op_ok op"
  by (cases op) auto

lemma find_index_append:
  "find_index P (xs @ ys) = (case find_index P xs of Some k \<Rightarrow> Some k
     | None \<Rightarrow> map_option ((+) (length xs)) (find_index P ys))"
  by (induction xs; cases "find_index P ys") (auto split: option.splits)

text \<open>A fresh interface number is found only among the group's own records.\<close>

lemma ifalt_for_fresh:
  assumes d0: "size_inv d0" and d: "ifalts d = ifalts d0 @ xs" and i: "n_ifnums d0 \<le> unat i"
    and "ifalt_for d i a = Some k"
  shows "length (ifalts d0) \<le> k \<and> k < length (ifalts d) \<and> ifalts d ! k \<in> set xs"
proof -
  have "find_index (\<lambda>ia. ia_ifnum ia = i \<and> ia_alt ia = a) (ifalts d0) = None"
    using d0 i by (auto simp: find_index_None size_inv_def)
  with assms obtain j where "k = length (ifalts d0) + j" "find_index (\<lambda>ia. ia_ifnum ia = i \<and> ia_alt ia = a) xs = Some j"
    by (auto simp: ifalt_for_def find_index_append)
  with d find_index_Some show ?thesis by (fastforce simp: nth_append)
qed

lemma update_tail: "length xs \<le> k \<Longrightarrow> (xs @ ys)[k := v] = xs @ ys[k - length xs := v]"
  by (simp add: list_update_append)

lemma overlay_self: "overlay d d = d"
  by (simp add: overlay_def)

lemma overlay_group_begin: "overlay d0 (fst (usbip_device_group_begin d)) = overlay d0 d"
  by (simp add: overlay_def usbip_device_group_begin_def)

lemma in_group_begin:
  assumes "length (groups d0) < GROUPS_MAX"
  shows "in_group d0 (fst (usbip_device_group_begin d0))"
  using assms unfolding in_group_def overlay_group_begin overlay_self
  by (simp add: usbip_device_group_begin_def snapshot_def alts_extend_def eps_extend_def
      groups_extend_def map_extends_def)

lemma take_put_at_after: "n \<le> k \<Longrightarrow> k + length b \<le> length xs \<Longrightarrow> take n (put_at k b xs) = take n xs"
  by (simp add: put_at_def min_absorb1)

lemma in_group_appended:
  assumes "in_group d0 d" "size_inv d" "desc_ok desc" "descr_len d + desc_len desc \<le> DESCR_MAX"
  shows "in_group d0 (appended desc d)"
proof -
  have "overlay d0 (appended desc d) = overlay d0 d" by (simp add: appended_def overlay_def)
  moreover have "take (descr_len d0) (descr (appended desc d)) = take (descr_len d0) (descr d)"
    using assms by (simp add: appended_def in_group_def desc_ok_def size_inv_def take_put_at_after)
  moreover have "length (descr (appended desc d)) = length (descr d)"
    using assms by (simp add: size_inv_def desc_ok_def)
  ultimately show ?thesis
    using assms(1) unfolding in_group_def appended_simps by (simp add: trans_le_add1)
qed


lemma overlay_register_ifnum: "overlay d0 (register_ifnum i d) = overlay d0 d"
  by (simp add: register_ifnum_def Let_def overlay_def)

lemma overlay_note_interface: "overlay d0 (note_interface desc k d) = overlay d0 d"
proof -
  have "overlay d0 (note_interface desc k d) = overlay d0 (register_ifnum (desc ! 2) d)"
    by (simp add: note_interface_def Let_def overlay_def split: option.split)
  then show ?thesis by (simp add: overlay_register_ifnum)
qed

lemma overlay_note_endpoint: "overlay d0 (note_endpoint n dir desc k d) = overlay d0 d"
  by (simp add: note_endpoint_def Let_def overlay_def split: option.split)

lemma groups_extend_register:
  "groups_extend gs (groups d) \<Longrightarrow> groups_extend gs (groups (register_ifnum i d))"
  by (auto simp: groups_extend_def register_ifnum_def Let_def)

lemma groups_note_interface: "groups (note_interface desc k d) = groups (register_ifnum (desc ! 2) d)"
  by (simp add: note_interface_def Let_def split: option.split)

lemma alts_extend_note_interface:
  assumes ex: "alts_extend off (ifalts d0) (ifalts d)" and "size_inv d0" "off \<le> k"
    and "n_ifnums d0 \<le> unat (desc ! 2)"
  shows "alts_extend off (ifalts d0) (ifalts (note_interface desc k d))"
proof -
  from ex obtain xs where xs: "ifalts d = ifalts d0 @ xs" "\<forall>ia \<in> set xs. off \<le> ia_off ia"
    by (auto simp: alts_extend_def)
  let ?d = "(register_ifnum (desc ! 2) d)\<lparr>cur_ifnum := uint (desc ! 2), cur_alt := uint (desc ! 3)\<rparr>"
  show ?thesis
  proof (cases "ifalt_for ?d (desc ! 2) (desc ! 3)")
    case None
    with xs assms(3) show ?thesis by (auto simp: note_interface_def Let_def alts_extend_def)
  next
    case (Some j)
    with assms(2,4) xs ifalt_for_fresh [of d0 ?d xs "desc ! 2" "desc ! 3" j]
    have j: "length (ifalts d0) \<le> j" by simp
    have "\<forall>ia \<in> set (xs[j - length (ifalts d0) := ia'\<lparr>ia_off := k\<rparr>]). off \<le> ia_off ia" for ia'
      using xs(2) assms(3) set_update_subset_insert [of xs "j - length (ifalts d0)" "ia'\<lparr>ia_off := k\<rparr>"] by auto
    with Some xs j show ?thesis
      by (simp add: note_interface_def Let_def alts_extend_def update_tail)
  qed
qed

lemma in_group_note_interface:
  assumes "in_group d0 d" "size_inv d0" "descr_len d0 \<le> k" "n_ifnums d0 \<le> unat (desc ! 2)"
  shows "in_group d0 (note_interface desc k d)"
  using assms alts_extend_note_interface [of "descr_len d0" d0 d k desc]
  unfolding in_group_def overlay_note_interface groups_note_interface
  by (simp add: groups_extend_register)

lemma in_group_note_endpoint:
  assumes g: "in_group d0 d" and inv: "build_inv d0" and own: "own_interface d0 d"
    and free: "case ep_map d n dir of None \<Rightarrow> True | Some h \<Rightarrow> e_ifnum (eps d ! h) = cur_owner d"
    and k: "descr_len d0 \<le> k"
  shows "in_group d0 (note_endpoint n dir desc k d)"
proof -
  let ?d = "note_endpoint n dir desc k d"
  from g obtain ys where ys: "eps d = eps d0 @ ys" by (auto simp: in_group_def eps_extend_def)
  from own inv have c: "unat (cur_owner d) = nat (cur_ifnum d)" "cur_owner d \<noteq> 0xFF"
    using unat_u8_of_int [of "cur_ifnum d"] by (auto simp: own_interface_def cur_owner_def)
  have "ep_map d0 n dir = None"
  proof (rule ccontr)
    assume "ep_map d0 n dir \<noteq> None"
    with g obtain h where h: "ep_map d0 n dir = Some h" "ep_map d n dir = Some h"
      unfolding in_group_def map_extends_def by (metis not_None_eq)
    with inv have "h < length (eps d0)" by (simp add: build_inv_def map_inv_def)
    then have "eps d0 ! h \<in> set (eps d0)" "eps d ! h = eps d0 ! h" by (simp_all add: ys nth_append)
    with h free inv have "e_ifnum (eps d0 ! h) = cur_owner d" "cur_owner d = 0xFF \<or> unat (cur_owner d) < n_ifnums d0"
      by (auto simp: build_inv_def size_inv_def)
    with c own show False by (auto simp: own_interface_def)
  qed
  then have m: "map_extends (length (eps d0)) (ep_map d0) (ep_map ?d)"
    using g by (auto simp: in_group_def map_extends_def ys)
  have "take (descr_len d0) (descr ?d) = take (descr_len d0) (descr d)"
  proof -
    from g obtain xs where xs: "ifalts d = ifalts d0 @ xs" "\<forall>ia \<in> set xs. descr_len d0 \<le> ia_off ia"
      by (auto simp: in_group_def alts_extend_def)
    have "descr_len d0 \<le> ia_off (ifalts d ! j) + 4" if "ifalt_for d (cur_owner d) a = Some j" for a j
      using ifalt_for_fresh [of d0 d xs "cur_owner d" a j] that xs c own inv
      by (auto simp: build_inv_def own_interface_def trans_le_add1)
    with k show ?thesis
      by (auto simp: note_endpoint_def Let_def ifalt_for_def split: option.split)
  qed
  moreover have "eps_extend (eps d0) (eps ?d)" by (simp add: eps_extend_def ys)
  ultimately show ?thesis
    using g m unfolding in_group_def overlay_note_endpoint by simp
qed

lemma in_group_truncate:
  "in_group d0 d \<Longrightarrow> descr_len d0 \<le> n \<Longrightarrow> in_group d0 (d\<lparr>descr_len := n\<rparr>)"
proof -
  have "overlay d0 (d\<lparr>descr_len := n\<rparr>) = overlay d0 d" by (simp add: overlay_def)
  then show "in_group d0 d \<Longrightarrow> descr_len d0 \<le> n \<Longrightarrow> in_group d0 (d\<lparr>descr_len := n\<rparr>)"
    by (simp add: in_group_def)
qed

lemma in_group_add_descriptor:
  assumes g: "in_group d0 d" and inv: "build_inv d0" "build_inv d" and ok: "group_op_ok (n_ifnums d0) (AddDescriptor desc)"
    and own: "desc ! 1 = 4 \<or> own_interface d0 d"
  shows "in_group d0 (fst (usbip_device_add_descriptor desc d))"
    "own_interface d0 d \<or> desc ! 1 = 4 \<and> descr_len d + 9 \<le> DESCR_MAX \<Longrightarrow>
     own_interface d0 (fst (usbip_device_add_descriptor desc d))"
proof -
  have k: "descr_len d0 \<le> descr_len d" using g by (simp add: in_group_def)
  have a: "in_group d0 (appended desc d)" if "descr_len d + desc_len desc \<le> DESCR_MAX"
    using that g inv ok by (intro in_group_appended) (auto simp: build_inv_def)
  show "in_group d0 (fst (usbip_device_add_descriptor desc d))"
  proof (cases "ep_alloc_number d (cur_owner d) (unat (desc ! 2 AND 0x0f)) (addr_dir (desc ! 2))")
    case None
    with g a k inv ok show ?thesis
      by (auto simp: add_descriptor_cases build_inv_def intro!: in_group_note_interface in_group_truncate)
  next
    case (Some n)
    from ep_alloc_number_Some [OF this] have
      "case ep_map d n (addr_dir (desc ! 2)) of None \<Rightarrow> True | Some h \<Rightarrow> e_ifnum (eps d ! h) = cur_owner d"
      by simp
    then have "in_group d0 (note_endpoint n (addr_dir (desc ! 2)) desc (descr_len d) (appended desc d))"
      if "descr_len d + desc_len desc \<le> DESCR_MAX" "own_interface d0 d"
      using that a inv k by (intro in_group_note_endpoint) (auto simp: own_interface_def cong: option.case_cong)
    with g a k inv ok Some own show ?thesis
      by (auto simp: add_descriptor_cases build_inv_def intro!: in_group_note_interface in_group_truncate)
  qed
  show "own_interface d0 (fst (usbip_device_add_descriptor desc d))"
    if "own_interface d0 d \<or> desc ! 1 = 4 \<and> descr_len d + 9 \<le> DESCR_MAX"
  proof -
    have "int (n_ifnums d0) \<le> uint (desc ! 2) \<and> uint (desc ! 2) < 255" if "desc ! 1 = 4"
    proof -
      have "desc ! 2 \<noteq> 0xFF" using that ok by simp
      then have "unat (desc ! 2) \<noteq> unat (0xFF :: u8)" by (metis word_unat_eq_iff)
      then have "unat (desc ! 2) \<noteq> 255" by simp
      moreover have "n_ifnums d0 \<le> unat (desc ! 2)" using that ok by simp
      moreover have "uint (desc ! 2) = int (unat (desc ! 2))" by simp
      ultimately show ?thesis using unat_u8_less [of "desc ! 2"] by linarith
    qed
    with that ok show ?thesis
      by (auto simp: add_descriptor_cases own_interface_def desc_ok_def split: option.split)
  qed
qed

lemma in_group_step:
  assumes g: "in_group d0 d" and inv: "build_inv d0" "build_inv d" and ok: "group_op_ok (n_ifnums d0) op"
    and own: "own_interface d0 d"
  shows "in_group d0 (build_step op d) \<and> own_interface d0 (build_step op d)"
proof (cases op)
  case (AddDescriptor desc)
  with in_group_add_descriptor [OF g inv] ok own show ?thesis by auto
next
  case (ReserveEndpoint a)
  have "in_group d0 (d\<lparr>ep_reserved := r\<rparr>)" for r
    using g by (simp add: in_group_def overlay_def)
  with g own ReserveEndpoint show ?thesis
    by (simp add: usbip_device_reserve_endpoint_def Let_def own_interface_def split: option.split)
next
  case (OnControl i cb)
  have "in_group d0 (d\<lparr>ctrl := r\<rparr>)" "in_group d0 (d\<lparr>ctrl_default := x\<rparr>)" for r x
    using g by (simp_all add: in_group_def overlay_def)
  with g own OnControl show ?thesis by (simp add: usbip_device_on_control_def own_interface_def)
next
  case (OnSetAlt i cb)
  have "in_group d0 (d\<lparr>set_alt_tab := r\<rparr>)" for r
    using g by (simp add: in_group_def overlay_def)
  with g own OnSetAlt show ?thesis by (simp add: usbip_device_on_set_alt_def own_interface_def)
next
  case (SetInterfaceString i a s)
  have "in_group d0 (d\<lparr>descr := (descr d)[ia_off (ifalts d ! k) + 8 := s]\<rparr>)" if "ifalt_for d i a = Some k" for k
  proof -
    from g obtain xs where "ifalts d = ifalts d0 @ xs" "\<forall>ia \<in> set xs. descr_len d0 \<le> ia_off ia"
      by (auto simp: in_group_def alts_extend_def)
    then have "descr_len d0 \<le> ia_off (ifalts d ! k) + 8"
      using ifalt_for_fresh [of d0 d xs i a k] that inv ok SetInterfaceString
      by (auto simp: build_inv_def trans_le_add1)
    then show ?thesis using g by (simp add: in_group_def overlay_def)
  qed
  with g own SetInterfaceString show ?thesis
    by (auto simp: usbip_device_set_interface_string_def own_interface_def split: option.split)
qed (use ok in auto)

lemma in_group_steps:
  assumes "in_group d0 d" "build_inv d0" "build_inv d" "list_all (group_op_ok (n_ifnums d0)) ops"
    and "own_interface d0 d"
  shows "in_group d0 (fold build_step ops d) \<and> build_inv (fold build_step ops d)"
  using assms
proof (induction ops arbitrary: d)
  case (Cons op ops)
  then have "in_group d0 (build_step op d) \<and> own_interface d0 (build_step op d)"
    by (intro in_group_step) auto
  moreover have "build_inv (build_step op d)"
    using Cons.prems group_op_ok_op_ok by (intro build_inv_step) auto
  ultimately show ?case using Cons.prems Cons.IH [of "build_step op d"] by simp
qed simp

section \<open>Rolling back\<close>

lemma msos_build_step: "msos (build_step op d) = msos d"
  by (cases op) (simp_all add: add_descriptor_cases usbip_device_reserve_endpoint_def
      usbip_device_group_begin_def usbip_device_on_control_def usbip_device_on_set_alt_def
      usbip_device_set_interface_string_def Let_def split: option.split)

lemma msos_build_steps: "msos (fold build_step ops (usbip_device_create v p)) = []"
proof -
  have "msos (fold build_step ops d) = msos d" for d
    by (induction ops arbitrary: d) (simp_all add: msos_build_step)
  then show ?thesis by (simp add: usbip_device_create_def)
qed

lemma msos_drop_none: "\<forall>e \<in> set xs. ms_group e \<noteq> gid \<Longrightarrow> msos_drop gid i xs = xs"
  by (induction gid i xs rule: msos_drop.induct) (simp add: msos_drop.simps [of _ _ "_ :: msos_entry list"])

lemma group_abort_restores:
  assumes g: "in_group d0 d" and inv: "build_inv d0" "build_inv d"
    and ms: "\<forall>e \<in> set (msos d0). ms_group e < int (length (groups d0))"
  shows "(usbip_device_group_abort d)\<lparr>descr := descr d0, mark := mark d0\<rparr> = d0"
    and "take (descr_len d0) (descr (usbip_device_group_abort d)) = take (descr_len d0) (descr d0)"
proof -
  let ?m = "\<lambda>n dir. case ep_map d n dir of None \<Rightarrow> None
     | Some h \<Rightarrow> (if m_n_eps (mark d) \<le> h \<and> h < length (eps d) \<and> e_number (eps d ! h) = n \<and> e_dir (eps d ! h) = dir
         then None else Some h)"
  from g have o: "overlay d0 d = d0" and mk: "mark d = snapshot d0" by (simp_all add: in_group_def)
  have mks: "m_descr_len (mark d) = descr_len d0" "m_n_ifalts (mark d) = length (ifalts d0)"
    "m_n_eps (mark d) = length (eps d0)" "m_n_ifnums (mark d) = n_ifnums d0"
    "m_cur_ifnum (mark d) = cur_ifnum d0" "m_cur_alt (mark d) = cur_alt d0"
    "m_if_present (mark d) = if_present d0" "m_ep_reserved (mark d) = ep_reserved d0"
    "m_ctrl (mark d) = ctrl d0" "m_ctrl_default (mark d) = ctrl_default d0"
    "m_set_alt_tab (mark d) = set_alt_tab d0" by (simp_all add: mk snapshot_def)
  have "?m n dir = ep_map d0 n dir" for n dir
  proof -
    from g have "ep_map d n dir = ep_map d0 n dir \<or>
        ep_map d0 n dir = None \<and> (\<exists>h. ep_map d n dir = Some h \<and> length (eps d0) \<le> h)"
      by (auto simp: in_group_def map_extends_def)
    moreover from inv have "h < length (eps d0)" if "ep_map d0 n dir = Some h" for h
      using that by (simp add: build_inv_def map_inv_def)
    moreover from inv have "h < length (eps d) \<and> e_number (eps d ! h) = n \<and> e_dir (eps d ! h) = dir"
      if "ep_map d n dir = Some h" for h
      using that by (simp add: build_inv_def map_inv_def)
    ultimately show ?thesis unfolding mks by (cases "ep_map d0 n dir") fastforce+
  qed
  then have m: "?m = ep_map d0" by (intro ext)
  from g obtain grp ys xs where ext: "groups d = groups d0 @ [grp]" "eps d = eps d0 @ ys" "ifalts d = ifalts d0 @ xs"
    by (auto simp: in_group_def groups_extend_def eps_extend_def alts_extend_def)
  from arg_cong [OF o, of msos] have "msos d = msos d0" by (simp add: overlay_def)
  with ms have ms': "msos_drop (int (length (groups d0))) 0 (msos d) = msos d"
    by (intro msos_drop_none) auto
  have "(usbip_device_group_abort d)\<lparr>descr := descr d0, mark := mark d0\<rparr> = overlay d0 d"
    unfolding usbip_device_group_abort_def Let_def m by (simp add: overlay_def ext mks ms')
  with o show "(usbip_device_group_abort d)\<lparr>descr := descr d0, mark := mark d0\<rparr> = d0" by simp
  show "take (descr_len d0) (descr (usbip_device_group_abort d)) = take (descr_len d0) (descr d0)"
    using g by (simp add: usbip_device_group_abort_def Let_def in_group_def ext)
qed



end
