(* ===== verification/Usb_Class.thy ===== *)
theory Usb_Class
  imports Device_Group Control
begin

text \<open>
  The class layer (\<open>src/classes/usb_class.c\<close>): functions, their interfaces, the per-device
  function registry, the trampolines from the core's callbacks to a class vtable, and class
  instantiation with its rollback.

  A pointer to a function is its index in the function heap \<open>uc_heap\<close>, which only grows (a
  freed function is no longer referenced); the same number is the handler the core is given, so
  the core's \<open>(trampoline, func)\<close> pair is one number. A device pointer is a number. A pointer to
  an interface is its index in the function's \<open>f_ifaces\<close>. \<open>calloc\<close> is taken to succeed.
\<close>

section \<open>Functions and interfaces\<close>

record usbip_interface =
  i_ifnum :: u8
  i_cls :: u8
  i_sub :: u8
  i_proto :: u8
  i_cur_alt :: u8

text \<open>The vtable: a callback is \<open>None\<close> where the pointer is NULL; it gets the function it is
  called for. \<open>c_id\<close> is the address of the vtable, which the code compares.\<close>

record 's usbip_device_class =
  c_id :: nat
  c_control :: "(handler \<Rightarrow> 's \<Rightarrow> usb_setup \<Rightarrow> bytes \<Rightarrow> u16 \<Rightarrow> 's \<times> ep_act list \<times> int \<times> bytes) option"
  c_set_alt :: "(handler \<Rightarrow> 's \<Rightarrow> u8 \<Rightarrow> u8 \<Rightarrow> 's \<times> ep_act list) option"
  c_on_out :: "(handler \<Rightarrow> 's \<Rightarrow> nat \<Rightarrow> bytes \<Rightarrow> 's \<times> ep_act list) option"
  c_on_iso :: "(handler \<Rightarrow> 's \<Rightarrow> nat \<Rightarrow> u32 list \<Rightarrow> bytes \<Rightarrow> 's \<times> ep_act list \<times> u32 list \<times> bytes) option"

record 's usbip_function =
  f_ptr :: handler
  f_dev :: nat
  f_group :: int
  f_base_ifnum :: nat
  f_cls :: "'s usbip_device_class option"
  f_control_cb :: "(handler \<Rightarrow> 's \<Rightarrow> usb_setup \<Rightarrow> bytes \<Rightarrow> u16 \<Rightarrow> 's \<times> ep_act list \<times> int \<times> bytes) option"
  f_eps :: "nat list"
  f_ifaces :: "usbip_interface list"
  f_cur_iface :: "nat option"

abbreviation (input) F_EPS_MAX :: nat where "F_EPS_MAX \<equiv> 16"
abbreviation (input) F_IFACES_MAX :: nat where "F_IFACES_MAX \<equiv> 8"
abbreviation (input) REG_FUNCS_MAX :: nat where "REG_FUNCS_MAX \<equiv> 8"

section \<open>The registry\<close>

record uc_registry =
  r_dev :: "nat option"
  r_funcs :: "handler list"

record 's uc =
  uc_regs :: "uc_registry list"
  uc_heap :: "'s usbip_function list"

definition uc_init :: "'s uc" where
  "uc_init = \<lparr>uc_regs = replicate 16 \<lparr>r_dev = None, r_funcs = []\<rparr>, uc_heap = []\<rparr>"

text \<open>The device's slot, else the first empty one, claimed for it; NULL when all are taken.\<close>

definition uc_reg_for :: "nat \<Rightarrow> uc_registry list \<Rightarrow> uc_registry list \<times> nat option" where
  "uc_reg_for dv regs =
     (case find_index (\<lambda>r. r_dev r = Some dv) regs of
        Some i \<Rightarrow> (regs, Some i)
      | None \<Rightarrow> (case find_index (\<lambda>r. r_dev r = None) regs of
            None \<Rightarrow> (regs, None)
          | Some i \<Rightarrow> (regs[i := (regs ! i)\<lparr>r_dev := Some dv\<rparr>], Some i)))"

section \<open>Trampolines\<close>

definition uc_ctrl_tramp :: "'s usbip_function \<Rightarrow> 's \<Rightarrow> usb_setup \<Rightarrow> bytes \<Rightarrow> u16 \<Rightarrow> 's \<times> ep_act list \<times> int \<times> bytes" where
  "uc_ctrl_tramp func s stp d len =
     (case (case f_cls func of None \<Rightarrow> None | Some c \<Rightarrow> c_control c) of
        Some cb \<Rightarrow> cb (f_ptr func) s stp d len
      | None \<Rightarrow> (case f_control_cb func of
            Some cb \<Rightarrow> cb (f_ptr func) s stp d len
          | None \<Rightarrow> (s, [], - 1, [])))"

text \<open>The other three are registered only where the vtable declares the callback.\<close>

definition uc_set_alt_tramp :: "'s usbip_function \<Rightarrow> 's \<Rightarrow> u8 \<Rightarrow> u8 \<Rightarrow> 's \<times> ep_act list" where
  "uc_set_alt_tramp func s ifnum alt =
     (case Option.bind (f_cls func) c_set_alt of Some cb \<Rightarrow> cb (f_ptr func) s ifnum alt | None \<Rightarrow> (s, []))"

definition uc_out_tramp :: "'s usbip_function \<Rightarrow> 's \<Rightarrow> nat \<Rightarrow> bytes \<Rightarrow> 's \<times> ep_act list" where
  "uc_out_tramp func s ep d =
     (case Option.bind (f_cls func) c_on_out of Some cb \<Rightarrow> cb (f_ptr func) s ep d | None \<Rightarrow> (s, []))"

definition uc_iso_tramp :: "'s usbip_function \<Rightarrow> 's \<Rightarrow> nat \<Rightarrow> u32 list \<Rightarrow> bytes \<Rightarrow> 's \<times> ep_act list \<times> u32 list \<times> bytes" where
  "uc_iso_tramp func s ep lens buf =
     (case Option.bind (f_cls func) c_on_iso of Some cb \<Rightarrow> cb (f_ptr func) s ep lens buf
      | None \<Rightarrow> (s, [], lens, buf))"

text \<open>What the core sees of a set of functions.\<close>

definition uc_callbacks :: "'s uc \<Rightarrow> 's callbacks" where
  "uc_callbacks uc = \<lparr>
     cb_control = (\<lambda>h s stp d len. if h < length (uc_heap uc) then uc_ctrl_tramp (uc_heap uc ! h) s stp d len else (s, [], - 1, [])),
     cb_set_alt = (\<lambda>h s i a. if h < length (uc_heap uc) then uc_set_alt_tramp (uc_heap uc ! h) s i a else (s, [])),
     cb_on_out = (\<lambda>h s e d. if h < length (uc_heap uc) then uc_out_tramp (uc_heap uc ! h) s e d else (s, [])),
     cb_on_iso = (\<lambda>h s e l b. if h < length (uc_heap uc) then uc_iso_tramp (uc_heap uc ! h) s e l b else (s, [], l, b))\<rparr>"

section \<open>Building a function\<close>

text \<open>The function's object for an interface number, made on first sight.\<close>

definition uc_iface_for :: "u8 \<Rightarrow> 's usbip_function \<Rightarrow> usbip_device \<Rightarrow> 's usbip_function \<times> usbip_device \<times> nat option" where
  "uc_iface_for ifnum func dev =
     (case find_index (\<lambda>i. i_ifnum i = ifnum) (f_ifaces func) of
        Some k \<Rightarrow> (func, dev, Some k)
      | None \<Rightarrow>
          (if length (f_ifaces func) \<ge> F_IFACES_MAX then (func, dev, None)
           else (let dev = usbip_device_on_control (uint ifnum) (Some (f_ptr func)) dev;
                     dev = (if \<not> Option.is_none (Option.bind (f_cls func) c_set_alt)
                            then usbip_device_on_set_alt (uint ifnum) (Some (f_ptr func)) dev else dev)
                 in (func\<lparr>f_ifaces := f_ifaces func @ [\<lparr>i_ifnum = ifnum, i_cls = 0, i_sub = 0, i_proto = 0, i_cur_alt = 0\<rparr>]\<rparr>,
                     dev, Some (length (f_ifaces func))))))"

definition usbip_function_add_descriptor :: "bytes \<Rightarrow> 's usbip_function \<Rightarrow> usbip_device \<Rightarrow> 's usbip_function \<times> usbip_device \<times> int" where
  "usbip_function_add_descriptor desc func dev =
     (if desc ! 1 = 5 then
        (if length (f_eps func) \<ge> F_EPS_MAX then (func, dev, USB_ERROR_NO_MEM)
         else (case usbip_device_add_endpoint desc dev of
             (dev, None) \<Rightarrow> (func, dev, USB_ERROR_NO_MEM)
           | (dev, Some ep) \<Rightarrow>
               (let func = func\<lparr>f_eps := f_eps func @ [ep]\<rparr>;
                    dev = (if \<not> Option.is_none (Option.bind (f_cls func) c_on_out)
                           then usbip_ep_on_out ep (Some (f_ptr func)) dev else dev);
                    dev = (if \<not> Option.is_none (Option.bind (f_cls func) c_on_iso)
                           then usbip_ep_on_iso ep (Some (f_ptr func)) dev else dev)
                in (func, dev, USB_SUCCESS))))
      else
        (let (dev, rc) = usbip_device_add_descriptor desc dev
         in if rc \<noteq> USB_SUCCESS then (func, dev, rc)
            else if desc ! 1 = 4 then
              (case uc_iface_for (desc ! 2) func dev of
                 (func, dev, None) \<Rightarrow> (func, dev, USB_SUCCESS)
               | (func, dev, Some k) \<Rightarrow>
                   (func\<lparr>f_cur_iface := Some k,
                      f_ifaces := (f_ifaces func)[k := (f_ifaces func ! k)\<lparr>i_cur_alt := desc ! 3\<rparr>]\<rparr>, dev, USB_SUCCESS))
            else (func, dev, USB_SUCCESS)))"

definition usbip_function_add_endpoint :: "bytes \<Rightarrow> 's usbip_function \<Rightarrow> usbip_device \<Rightarrow> 's usbip_function \<times> usbip_device \<times> nat option" where
  "usbip_function_add_endpoint desc func dev =
     (let dir = addr_dir (desc ! 2);
          (func, dev, rc) = usbip_function_add_descriptor desc func dev
      in if rc \<noteq> USB_SUCCESS then (func, dev, None)
         else if f_eps func = [] then (func, dev, None)
         else (let ep = last (f_eps func)
               in (func, dev, if addr_dir (e_addr (eps dev ! ep)) = dir then Some ep else None)))"

text \<open>An endpoint of the function by the address the class asked for.\<close>

definition usbip_function_endpoint :: "u8 \<Rightarrow> 's usbip_function \<Rightarrow> usbip_device \<Rightarrow> nat option" where
  "usbip_function_endpoint a func dev =
     find (\<lambda>ep. e_addr (eps dev ! ep) AND 0x0f = a AND 0x0f \<and> e_addr (eps dev ! ep) AND 0x80 = a AND 0x80)
       (f_eps func)"

definition usbip_function_reserve_endpoint :: "u8 \<Rightarrow> 's usbip_function \<Rightarrow> usbip_device \<Rightarrow> usbip_device \<times> u8" where
  "usbip_function_reserve_endpoint want_addr func dev =
     (if f_cur_iface func = None then (dev, 0) else usbip_device_reserve_endpoint want_addr dev)"

definition usbip_function_enable_msos :: "bytes option \<Rightarrow> bytes option \<Rightarrow> 's usbip_function \<Rightarrow> usbip_device \<Rightarrow> usbip_device \<times> int" where
  "usbip_function_enable_msos compatible guid func dev =
     usbip_device_enable_msos_group (f_group func) compatible guid dev"

text \<open>The descriptor literals: \<open>bLength\<close> is left 0 for the core to fill in.\<close>

definition iface_desc :: "u8 \<Rightarrow> u8 \<Rightarrow> u8 \<Rightarrow> u8 \<Rightarrow> u8 \<Rightarrow> bytes" where
  "iface_desc ifnum alt cls sub proto = [0, 4, ifnum, alt, 0, cls, sub, proto, 0]"

definition ep_desc :: "u8 \<Rightarrow> u8 \<Rightarrow> u16 \<Rightarrow> u8 \<Rightarrow> bytes" where
  "ep_desc a attr mps interval = [0, 5, a, attr] @ le_bytes 2 mps @ [interval]"

text \<open>The current interface is written through a pointer that is NULL when none was ever added.\<close>

definition usbip_function_add_interface :: "u8 \<Rightarrow> u8 \<Rightarrow> u8 \<Rightarrow> 's usbip_function \<Rightarrow> usbip_device \<Rightarrow> ('s usbip_function \<times> usbip_device \<times> nat) cresult" where
  "usbip_function_add_interface cls sub proto func dev =
     (let ifnum = of_nat (n_ifnums dev) :: u8;
          (func, dev, rc) = usbip_function_add_descriptor (iface_desc ifnum 0 cls sub proto) func dev
      in case f_cur_iface func of
           None \<Rightarrow> Undefined
         | Some k \<Rightarrow> Ret (func\<lparr>f_ifaces := (f_ifaces func)[k := (f_ifaces func ! k)\<lparr>i_cls := cls, i_sub := sub, i_proto := proto\<rparr>]\<rparr>, dev, k))"

definition usbip_interface_add_altsetting :: "nat \<Rightarrow> u8 \<Rightarrow> 's usbip_function \<Rightarrow> usbip_device \<Rightarrow> 's usbip_function \<times> usbip_device \<times> int" where
  "usbip_interface_add_altsetting iface alt func dev =
     (let i = f_ifaces func ! iface
      in usbip_function_add_descriptor (iface_desc (i_ifnum i) alt (i_cls i) (i_sub i) (i_proto i)) func dev)"

definition usbip_interface_set_string :: "nat \<Rightarrow> u8 \<Rightarrow> 's usbip_function \<Rightarrow> usbip_device \<Rightarrow> usbip_device" where
  "usbip_interface_set_string iface istr func dev =
     usbip_device_set_interface_string (i_ifnum (f_ifaces func ! iface)) (i_cur_alt (f_ifaces func ! iface)) istr dev"

definition usbip_function_associate :: "u8 \<Rightarrow> u8 \<Rightarrow> u8 \<Rightarrow> u8 \<Rightarrow> u8 \<Rightarrow> 's usbip_function \<Rightarrow> usbip_device \<Rightarrow> 's usbip_function \<times> usbip_device \<times> int" where
  "usbip_function_associate n_if cls sub proto iFunction func dev =
     usbip_function_add_descriptor [8, 0x0B, of_nat (n_ifnums dev), n_if, cls, sub, proto, iFunction] func dev"

definition usbip_interface_add_descriptor :: "bytes \<Rightarrow> 's usbip_function \<Rightarrow> usbip_device \<Rightarrow> 's usbip_function \<times> usbip_device" where
  "usbip_interface_add_descriptor desc func dev =
     (let (func, dev, rc) = usbip_function_add_descriptor desc func dev in (func, dev))"

definition usbip_interface_add_endpoint :: "bytes \<Rightarrow> 's usbip_function \<Rightarrow> usbip_device \<Rightarrow> 's usbip_function \<times> usbip_device \<times> nat option" where
  "usbip_interface_add_endpoint desc func dev = usbip_function_add_endpoint desc func dev"

definition usbip_function_enable_winusb :: "bytes option \<Rightarrow> 's usbip_function \<Rightarrow> usbip_device \<Rightarrow> usbip_device \<times> int" where
  "usbip_function_enable_winusb guid func dev =
     usbip_function_enable_msos (Some (cstr ''WINUSB''))
       (Some (case guid of Some g \<Rightarrow> g | None \<Rightarrow> cstr ''{D2A45C1E-7B3F-4A6E-9C2D-1E5F8B0A3C7D}'')) func dev"

text \<open>The address of an endpoint object, 0 for NULL.\<close>

definition usbip_endpoint_address :: "usbip_device \<Rightarrow> nat option \<Rightarrow> u8" where
  "usbip_endpoint_address dev ep = (case ep of None \<Rightarrow> 0 | Some h \<Rightarrow> e_addr (eps dev ! h))"

text \<open>A class's write to or stall of one of its pipes; a NULL pipe is ignored.\<close>

definition ep_write :: "nat option \<Rightarrow> bytes \<Rightarrow> ep_act list" where
  "ep_write ep d = (case ep of None \<Rightarrow> [] | Some i \<Rightarrow> [EpWrite i d])"

definition ep_stall :: "nat option \<Rightarrow> ep_act list" where
  "ep_stall ep = (case ep of None \<Rightarrow> [] | Some i \<Rightarrow> [EpStall i])"

text \<open>Steps of a \<open>build\<close> in sequence.\<close>

definition bindc :: "'a cresult \<Rightarrow> ('a \<Rightarrow> 'b cresult) \<Rightarrow> 'b cresult" where
  "bindc r k = (case r of Ret x \<Rightarrow> k x | Err e \<Rightarrow> Err e | Undefined \<Rightarrow> Undefined)"

lemma bindc_simps [simp]: "bindc (Ret x) k = k x" "bindc (Err e) k = Err e" "bindc Undefined k = Undefined"
  by (simp_all add: bindc_def)

text \<open>
  How many bytes a control handler may write behind \<open>buf\<close>: the core's scratch buffer for an IN
  request, the data stage the host sent for an OUT request (none at all without one).
\<close>

definition ctl_room :: "usb_setup \<Rightarrow> bytes \<Rightarrow> nat" where
  "ctl_room stp d = (if req_is_in (bmRequestType stp) then 4096 else length d)"

text \<open>A handler's reply of \<open>length r\<close> bytes, and its return value.\<close>

definition ctl_reply :: "usb_setup \<Rightarrow> bytes \<Rightarrow> 'a \<Rightarrow> bytes \<Rightarrow> ('a \<times> int \<times> bytes) cresult" where
  "ctl_reply stp d x r = (if length r > ctl_room stp d then Undefined else Ret (x, int (length r), r))"

section \<open>Adding and removing functions\<close>

definition usbip_device_add_function :: "nat \<Rightarrow> 's uc \<Rightarrow> usbip_device \<Rightarrow> 's uc \<times> usbip_device \<times> handler option" where
  "usbip_device_add_function dv uc dev =
     (case uc_reg_for dv (uc_regs uc) of
        (regs, None) \<Rightarrow> (uc\<lparr>uc_regs := regs\<rparr>, dev, None)
      | (regs, Some i) \<Rightarrow>
          (if length (r_funcs (regs ! i)) \<ge> REG_FUNCS_MAX then (uc\<lparr>uc_regs := regs\<rparr>, dev, None)
           else (let (dev, gid) = usbip_device_group_begin dev
                 in if gid < 0 then (uc\<lparr>uc_regs := regs\<rparr>, dev, None)
                    else (let fp = length (uc_heap uc);
                              func = \<lparr>f_ptr = fp, f_dev = dv, f_group = gid, f_base_ifnum = n_ifnums dev,
                                f_cls = None, f_control_cb = None, f_eps = [], f_ifaces = [], f_cur_iface = None\<rparr>;
                              dev = (if r_funcs (regs ! i) = [] then usbip_device_on_control (- 1) (Some fp) dev else dev)
                          in (uc\<lparr>uc_regs := regs[i := (regs ! i)\<lparr>r_funcs := r_funcs (regs ! i) @ [fp]\<rparr>],
                                 uc_heap := uc_heap uc @ [func]\<rparr>, dev, Some fp)))))"

definition uc_function_free :: "nat \<Rightarrow> handler \<Rightarrow> 's uc \<Rightarrow> usbip_device \<Rightarrow> 's uc \<times> usbip_device" where
  "uc_function_free dv fp uc dev =
     (let dev = usbip_device_group_abort dev
      in case uc_reg_for dv (uc_regs uc) of
           (regs, None) \<Rightarrow> (uc\<lparr>uc_regs := regs\<rparr>, dev)
         | (regs, Some i) \<Rightarrow> (uc\<lparr>uc_regs := regs[i := (regs ! i)\<lparr>r_funcs := remove1 fp (r_funcs (regs ! i))\<rparr>]\<rparr>, dev))"

definition usbip_function_on_control ::
  "(handler \<Rightarrow> 's \<Rightarrow> usb_setup \<Rightarrow> bytes \<Rightarrow> u16 \<Rightarrow> 's \<times> ep_act list \<times> int \<times> bytes) option \<Rightarrow> 's usbip_function \<Rightarrow> 's usbip_function" where
  "usbip_function_on_control cb func = func\<lparr>f_control_cb := cb\<rparr>"

text \<open>How many functions of the same class the device has before this one.\<close>

definition usbip_function_instance :: "'s usbip_function \<Rightarrow> 's uc \<Rightarrow> 's uc \<times> nat" where
  "usbip_function_instance func uc =
     (case uc_reg_for (f_dev func) (uc_regs uc) of
        (regs, None) \<Rightarrow> (uc\<lparr>uc_regs := regs\<rparr>, 0)
      | (regs, Some i) \<Rightarrow> (uc\<lparr>uc_regs := regs\<rparr>,
          length (filter (\<lambda>p. case f_cls (uc_heap uc ! p) of
              None \<Rightarrow> False
            | Some c \<Rightarrow> (case f_cls func of None \<Rightarrow> False | Some c' \<Rightarrow> c_id c = c_id c'))
            (takeWhile (\<lambda>p. p \<noteq> f_ptr func) (r_funcs (regs ! i))))))"

text \<open>
  A class's \<open>build\<close> gets the registry (for its instance number), the function and the device,
  and gives \<open>None\<close> where it returns an error, else the private state it has set up.
\<close>

type_synonym ('s, 'c) uc_build =
  "'s uc \<Rightarrow> 's usbip_function \<Rightarrow> usbip_device \<Rightarrow> ('s usbip_function \<times> usbip_device \<times> 'c option) cresult"

definition usbip_device_add_class ::
  "('s, 'c) uc_build \<Rightarrow> 's usbip_device_class \<Rightarrow> nat \<Rightarrow> 's uc \<Rightarrow> usbip_device \<Rightarrow> ('s uc \<times> usbip_device \<times> (handler \<times> 'c) option) cresult" where
  "usbip_device_add_class build cls dv uc dev =
     (case usbip_device_add_function dv uc dev of
        (uc, dev, None) \<Rightarrow> Ret (uc, dev, None)
      | (uc, dev, Some fp) \<Rightarrow>
          (let func = (uc_heap uc ! fp)\<lparr>f_cls := Some cls\<rparr>;
               uc = uc\<lparr>uc_heap := (uc_heap uc)[fp := func]\<rparr>
           in case build uc func dev of
                Err e \<Rightarrow> Err e
              | Undefined \<Rightarrow> Undefined
              | Ret (func, dev, Some c) \<Rightarrow> Ret (uc\<lparr>uc_heap := (uc_heap uc)[fp := func]\<rparr>, dev, Some (fp, c))
              | Ret (func, dev, None) \<Rightarrow>
                  (let (uc, dev) = uc_function_free dv fp (uc\<lparr>uc_heap := (uc_heap uc)[fp := func]\<rparr>) dev
                   in Ret (uc, dev, None))))"

end
