(* ===== verification/Usb_Class_Props.thy ===== *)
theory Usb_Class_Props
  imports Usb_Class
begin

text \<open>
  Several classes on one device: whatever each of them declares, a class request for an interface
  and the data of an endpoint reach the function that declared it.
\<close>

section \<open>What a class may declare\<close>

text \<open>\<open>AddOther\<close> is a class-specific descriptor. The index of \<open>AddAlt\<close> and \<open>SetString\<close> is an
  interface object the class holds.\<close>

datatype uc_op = AddInterface u8 u8 u8 | AddAlt nat u8 | AddEndpoint bytes | AddOther bytes
  | SetString nat u8 | Reserve u8

fun uc_op_ok :: "uc_op \<Rightarrow> bool" where
  "uc_op_ok (AddEndpoint d) = (desc_ok d \<and> d ! 1 = 5)"
| "uc_op_ok (AddOther d) = (d ! 1 \<noteq> 4 \<and> d ! 1 \<noteq> 5)"
| "uc_op_ok _ = True"

fun uc_step :: "uc_op \<Rightarrow> 's usbip_function \<times> usbip_device \<Rightarrow> ('s usbip_function \<times> usbip_device) cresult" where
  "uc_step (AddInterface c s p) (f, dev) = (case usbip_function_add_interface c s p f dev of
     Ret (f, dev, k) \<Rightarrow> Ret (f, dev) | Err e \<Rightarrow> Err e | Undefined \<Rightarrow> Undefined)"
| "uc_step (AddAlt k a) (f, dev) = (if k < length (f_ifaces f) then
     (let (f, dev, rc) = usbip_interface_add_altsetting k a f dev in Ret (f, dev)) else Ret (f, dev))"
| "uc_step (AddEndpoint d) (f, dev) = (let (f, dev, rc) = usbip_function_add_endpoint d f dev in Ret (f, dev))"
| "uc_step (AddOther d) (f, dev) = (let (f, dev, rc) = usbip_function_add_descriptor d f dev in Ret (f, dev))"
| "uc_step (SetString k s) (f, dev) = (if k < length (f_ifaces f) then
     Ret (f, usbip_interface_set_string k s f dev) else Ret (f, dev))"
| "uc_step (Reserve a) (f, dev) = Ret (f, fst (usbip_function_reserve_endpoint a f dev))"

fun uc_steps :: "uc_op list \<Rightarrow> 's usbip_function \<times> usbip_device \<Rightarrow> ('s usbip_function \<times> usbip_device) cresult" where
  "uc_steps [] x = Ret x"
| "uc_steps (p # ps) x = (case uc_step p x of Ret x \<Rightarrow> uc_steps ps x | Err e \<Rightarrow> Err e | Undefined \<Rightarrow> Undefined)"

definition build_of :: "uc_op list \<Rightarrow> ('s, unit) uc_build" where
  "build_of ops uc f dev = (case uc_steps ops (f, dev) of
     Ret (f, dev) \<Rightarrow> Ret (f, dev, Some ()) | Err e \<Rightarrow> Err e | Undefined \<Rightarrow> Undefined)"

fun add_classes :: "nat \<Rightarrow> ('s usbip_device_class \<times> uc_op list) list \<Rightarrow> 's uc \<times> usbip_device \<Rightarrow> ('s uc \<times> usbip_device) cresult" where
  "add_classes dv [] x = Ret x"
| "add_classes dv ((c, ops) # cs) (uc, dev) = (case usbip_device_add_class (build_of ops) c dv uc dev of
     Ret (uc, dev, r) \<Rightarrow> add_classes dv cs (uc, dev) | Err e \<Rightarrow> Err e | Undefined \<Rightarrow> Undefined)"

section \<open>The wiring invariant\<close>

definition declares_out :: "'s usbip_function \<Rightarrow> bool" where
  "declares_out f = (\<not> Option.is_none (Option.bind (f_cls f) c_on_out))"

definition declares_iso :: "'s usbip_function \<Rightarrow> bool" where
  "declares_iso f = (\<not> Option.is_none (Option.bind (f_cls f) c_on_iso))"

definition wired :: "'s usbip_function \<Rightarrow> usbip_device \<Rightarrow> bool" where
  "wired f dev \<longleftrightarrow>
     (\<forall>i \<in> set (f_ifaces f). unat (i_ifnum i) < n_ifnums dev
        \<and> (unat (i_ifnum i) < 16 \<longrightarrow> ctrl dev (unat (i_ifnum i)) = Some (f_ptr f)))
     \<and> (\<forall>ep \<in> set (f_eps f). ep < length (eps dev)
        \<and> (declares_out f \<longrightarrow> e_on_out (eps dev ! ep) = Some (f_ptr f))
        \<and> (declares_iso f \<longrightarrow> e_on_iso (eps dev ! ep) = Some (f_ptr f)))
     \<and> (case f_cur_iface f of None \<Rightarrow> True | Some k \<Rightarrow> k < length (f_ifaces f))"

text \<open>Interface numbers cannot wrap: each costs nine bytes of the 2048-byte blob.\<close>

definition blob_inv :: "usbip_device \<Rightarrow> bool" where
  "blob_inv dev \<longleftrightarrow> 9 * n_ifnums dev \<le> descr_len dev \<and> descr_len dev \<le> DESCR_MAX"

text \<open>What was there before a function was added is as it was.\<close>

definition kept :: "usbip_device \<Rightarrow> usbip_device \<Rightarrow> bool" where
  "kept d0 d \<longleftrightarrow> n_ifnums d0 \<le> n_ifnums d \<and> (\<forall>i < n_ifnums d0. ctrl d i = ctrl d0 i)
     \<and> length (eps d0) \<le> length (eps d)
     \<and> (\<forall>e < length (eps d0). e_on_out (eps d ! e) = e_on_out (eps d0 ! e) \<and> e_on_iso (eps d ! e) = e_on_iso (eps d0 ! e))"

definition own :: "usbip_device \<Rightarrow> 's usbip_function \<Rightarrow> usbip_device \<Rightarrow> bool" where
  "own d0 f d \<longleftrightarrow> wired f d \<and> kept d0 d \<and> blob_inv d
     \<and> (\<forall>i \<in> set (f_ifaces f). n_ifnums d0 \<le> unat (i_ifnum i)) \<and> (\<forall>ep \<in> set (f_eps f). length (eps d0) \<le> ep)"

lemma wired_kept:
  assumes w: "wired g d0" and k: "kept d0 d"
  shows "wired g d"
  unfolding wired_def
proof (intro conjI ballI)
  fix i assume "i \<in> set (f_ifaces g)"
  with w have i: "unat (i_ifnum i) < n_ifnums d0" "unat (i_ifnum i) < 16 \<longrightarrow> ctrl d0 (unat (i_ifnum i)) = Some (f_ptr g)"
    by (simp_all add: wired_def)
  with k show "unat (i_ifnum i) < n_ifnums d" "unat (i_ifnum i) < 16 \<longrightarrow> ctrl d (unat (i_ifnum i)) = Some (f_ptr g)"
    by (simp_all add: kept_def)
next
  fix e assume "e \<in> set (f_eps g)"
  with w have e: "e < length (eps d0)" "declares_out g \<longrightarrow> e_on_out (eps d0 ! e) = Some (f_ptr g)"
    "declares_iso g \<longrightarrow> e_on_iso (eps d0 ! e) = Some (f_ptr g)"
    by (simp_all add: wired_def)
  with k show "e < length (eps d)" "declares_out g \<longrightarrow> e_on_out (eps d ! e) = Some (f_ptr g)"
    "declares_iso g \<longrightarrow> e_on_iso (eps d ! e) = Some (f_ptr g)"
    by (simp_all add: kept_def)
next
  show "case f_cur_iface g of None \<Rightarrow> True | Some k \<Rightarrow> k < length (f_ifaces g)" using w by (simp add: wired_def)
qed

lemma kept_refl [simp]: "kept d d" by (simp add: kept_def)

lemma add_descriptor_frame:
  assumes "usbip_device_add_descriptor desc dev = (dev', rc)"
  shows "ctrl dev' = ctrl dev" and "\<exists>xs. eps dev' = eps dev @ xs"
    and "desc ! 1 \<noteq> 5 \<Longrightarrow> eps dev' = eps dev"
    and "desc ! 1 = 5 \<Longrightarrow> rc = USB_SUCCESS \<Longrightarrow> \<exists>e. eps dev' = eps dev @ [e]"
    and "n_ifnums dev' = (if desc ! 1 = 4 \<and> rc = USB_SUCCESS then max (n_ifnums dev) (unat (desc ! 2) + 1) else n_ifnums dev)"
    and "descr_len dev' = (if rc = USB_SUCCESS then descr_len dev + desc_len desc else descr_len dev)"
    and "rc = USB_SUCCESS \<Longrightarrow> descr_len dev' \<le> DESCR_MAX"
proof -
  have rg: "ctrl (register_ifnum i x) = ctrl x" for i x
    by (simp add: register_ifnum_def Let_def)
  have ni: "ctrl (note_interface d k x) = ctrl x" for d k x
    unfolding note_interface_def Let_def by (simp add: rg split: option.split)
  have ne: "ctrl (note_endpoint n dir d k x) = ctrl x" for n dir d k x
    unfolding note_endpoint_def Let_def by (simp split: option.split)
  have ap: "ctrl (appended d x) = ctrl x" for d x by (simp add: appended_def)
  have d: "dev' = fst (usbip_device_add_descriptor desc dev)" "rc = snd (usbip_device_add_descriptor desc dev)"
    using assms by simp_all
  show "ctrl dev' = ctrl dev" "\<exists>xs. eps dev' = eps dev @ xs" "desc ! 1 \<noteq> 5 \<Longrightarrow> eps dev' = eps dev"
    "n_ifnums dev' = (if desc ! 1 = 4 \<and> rc = USB_SUCCESS then max (n_ifnums dev) (unat (desc ! 2) + 1) else n_ifnums dev)"
    "descr_len dev' = (if rc = USB_SUCCESS then descr_len dev + desc_len desc else descr_len dev)"
    unfolding d add_descriptor_cases by (simp_all add: ni ne ap split: option.split)
  show "desc ! 1 = 5 \<Longrightarrow> rc = USB_SUCCESS \<Longrightarrow> \<exists>e. eps dev' = eps dev @ [e]"
    "rc = USB_SUCCESS \<Longrightarrow> descr_len dev' \<le> DESCR_MAX"
    unfolding d add_descriptor_cases by (simp_all split: option.splits if_split_asm)
qed

lemma blob_inv_add_descriptor:
  assumes "usbip_device_add_descriptor desc dev = (dev', rc)" "blob_inv dev"
    and "desc ! 1 = 4 \<Longrightarrow> desc_len desc = 9 \<and> unat (desc ! 2) \<le> n_ifnums dev"
  shows "blob_inv dev'"
  using add_descriptor_frame [OF assms(1)] assms(2,3) by (auto simp: blob_inv_def max_def split: if_splits)

lemma set_string_frame:
  "ctrl (usbip_device_set_interface_string i a s dev) = ctrl dev"
  "eps (usbip_device_set_interface_string i a s dev) = eps dev"
  "n_ifnums (usbip_device_set_interface_string i a s dev) = n_ifnums dev"
  "descr_len (usbip_device_set_interface_string i a s dev) = descr_len dev"
  by (simp_all add: usbip_device_set_interface_string_def split: option.split)

lemma reserve_frame:
  "ctrl (fst (usbip_device_reserve_endpoint a dev)) = ctrl dev"
  "eps (fst (usbip_device_reserve_endpoint a dev)) = eps dev"
  "n_ifnums (fst (usbip_device_reserve_endpoint a dev)) = n_ifnums dev"
  "descr_len (fst (usbip_device_reserve_endpoint a dev)) = descr_len dev"
  by (simp_all add: usbip_device_reserve_endpoint_def Let_def split: option.split)

lemma own_cong:
  assumes "own d0 f d" "ctrl d' = ctrl d" "eps d' = eps d" "n_ifnums d' = n_ifnums d" "descr_len d' = descr_len d"
  shows "own d0 f d'"
  using assms by (simp add: own_def wired_def kept_def blob_inv_def)

text \<open>The device grew by a descriptor that is not an interface of the function yet.\<close>

lemma own_grow:
  assumes o: "own d0 f d" and "ctrl d' = ctrl d" "eps d' = eps d @ xs" "n_ifnums d \<le> n_ifnums d'" "blob_inv d'"
  shows "own d0 f d'"
proof -
  have "kept d d'" using assms by (simp add: kept_def nth_append)
  then have "wired f d'" using o wired_kept own_def by blast
  moreover have "kept d0 d'" using assms by (auto simp: own_def kept_def nth_append)
  ultimately show ?thesis using assms by (simp add: own_def)
qed

section \<open>Every declaration keeps it\<close>

lemma own_add_endpoint_descriptor:
  assumes o: "own d0 f d" and d5: "desc ! 1 = 5" and r: "usbip_function_add_descriptor desc f d = (f', d', rc)"
  shows "own d0 f' d'"
proof (cases "length (f_eps f) \<ge> F_EPS_MAX")
  case True
  with r d5 o show ?thesis by (simp add: usbip_function_add_descriptor_def)
next
  case False
  obtain d1 rc1 where a: "usbip_device_add_descriptor desc d = (d1, rc1)" by fastforce
  note fr = add_descriptor_frame [OF a]
  have b: "blob_inv d1" using blob_inv_add_descriptor [OF a] o d5 by (simp add: own_def)
  obtain xs where xs: "eps d1 = eps d @ xs" using fr(2) by blast
  have o1: "own d0 f d1" using own_grow [OF o fr(1) xs] b fr(5) d5 by simp
  show ?thesis
  proof (cases "usbip_device_add_endpoint desc d")
    case (Pair d2 e)
    have d2: "d2 = d1" using a Pair by (auto simp: usbip_device_add_endpoint_def Let_def split: if_splits)
    show ?thesis
    proof (cases e)
      case None
      with r d5 False Pair o1 d2 show ?thesis by (simp add: usbip_function_add_descriptor_def)
    next
      case (Some ep)
      have "rc1 = USB_SUCCESS" using a Pair Some by (auto simp: usbip_device_add_endpoint_def Let_def split: if_splits)
      with fr(4) d5 obtain x where x: "eps d1 = eps d @ [x]" by blast
      have ep: "ep = length (eps d)" using a Pair Some x by (auto simp: usbip_device_add_endpoint_def Let_def split: if_splits)
      have len: "length (eps d0) \<le> length (eps d)" using o by (simp add: own_def kept_def)
      have "\<forall>k \<in> set (f_eps f). k < length (eps d)" using o by (simp add: own_def wired_def)
      then have ne: "\<forall>k \<in> set (f_eps f). k \<noteq> length (eps d)" by auto
      define d3 where "d3 = (if declares_out f then usbip_ep_on_out ep (Some (f_ptr f)) d1 else d1)"
      define d4 where "d4 = (if declares_iso f then usbip_ep_on_iso ep (Some (f_ptr f)) d3 else d3)"
      have r': "f' = f\<lparr>f_eps := f_eps f @ [ep]\<rparr>" "d' = d4"
        using r d5 False Pair Some d2
        by (auto simp: usbip_function_add_descriptor_def declares_out_def declares_iso_def d3_def d4_def Let_def)
      have e4: "length (eps d4) = Suc (length (eps d))" "\<forall>k < length (eps d). eps d4 ! k = eps d ! k"
        "declares_out f \<longrightarrow> e_on_out (eps d4 ! ep) = Some (f_ptr f)"
        "declares_iso f \<longrightarrow> e_on_iso (eps d4 ! ep) = Some (f_ptr f)"
        by (auto simp: d3_def d4_def usbip_ep_on_out_def usbip_ep_on_iso_def upd_ep_def x ep nth_append)
      have c4: "ctrl d4 = ctrl d" "n_ifnums d4 = n_ifnums d" "descr_len d4 = descr_len d1"
        using fr(1,5) d5 by (simp_all add: d3_def d4_def usbip_ep_on_out_def usbip_ep_on_iso_def upd_ep_def)
      have "blob_inv d4" using b c4 fr(5) d5 by (simp add: blob_inv_def)
      moreover have "wired f' d4"
        using o e4 c4 ep unfolding own_def wired_def r'(1)
        by (auto simp: declares_out_def declares_iso_def less_Suc_eq split: option.splits)
      moreover have "kept d0 d4" using o e4 c4 len by (auto simp: own_def kept_def)
      ultimately show ?thesis using o len ep unfolding own_def r' by auto
    qed
  qed
qed

lemma on_control_u8:
  "usbip_device_on_control (uint (i :: u8)) cb d = (if unat i < 16 then d\<lparr>ctrl := (ctrl d)(unat i := cb)\<rparr> else d)"
  by (simp add: usbip_device_on_control_def uint_nat del: of_nat_unat)

lemma on_set_alt_frame:
  "ctrl (usbip_device_on_set_alt n cb d) = ctrl d" "eps (usbip_device_on_set_alt n cb d) = eps d"
  "n_ifnums (usbip_device_on_set_alt n cb d) = n_ifnums d" "descr_len (usbip_device_on_set_alt n cb d) = descr_len d"
  by (simp_all add: usbip_device_on_set_alt_def)

lemma own_iface_for:
  assumes o: "own d0 f d" and i: "n_ifnums d0 \<le> unat i" "unat i < n_ifnums d"
    and r: "uc_iface_for i f d = (f', d', k)"
  shows "own d0 f' d'" and "\<And>j. k = Some j \<Longrightarrow> j < length (f_ifaces f')"
proof -
  have "own d0 f' d' \<and> (case k of None \<Rightarrow> True | Some j \<Rightarrow> j < length (f_ifaces f'))"
  proof (cases "find_index (\<lambda>x. i_ifnum x = i) (f_ifaces f)")
    case (Some j)
    then have "f' = f" "d' = d" "k = Some j" "j < length (f_ifaces f)"
      using r find_index_Some [OF Some] by (simp_all add: uc_iface_for_def)
    then show ?thesis using o by simp
  next
    case None
    show ?thesis
    proof (cases "length (f_ifaces f) \<ge> F_IFACES_MAX")
      case True
      with r o None show ?thesis by (auto simp: uc_iface_for_def)
    next
      case False
      then have f': "f' = f\<lparr>f_ifaces := f_ifaces f @ [\<lparr>i_ifnum = i, i_cls = 0, i_sub = 0, i_proto = 0, i_cur_alt = 0\<rparr>]\<rparr>"
        and k: "k = Some (length (f_ifaces f))"
        using r None by (auto simp: uc_iface_for_def Let_def)
      have d': "ctrl d' = (if unat i < 16 then (ctrl d)(unat i := Some (f_ptr f)) else ctrl d)"
        "eps d' = eps d" "n_ifnums d' = n_ifnums d" "descr_len d' = descr_len d"
        using r None False by (auto simp: uc_iface_for_def Let_def on_control_u8 on_set_alt_frame split: if_splits)
      have "wired f' d'" using o i unfolding own_def wired_def f'
        by (auto simp: d' declares_out_def declares_iso_def split: option.splits)
      moreover have "kept d0 d'" using o i by (auto simp: own_def kept_def d')
      moreover have "blob_inv d'" using o by (simp add: own_def blob_inv_def d')
      ultimately show ?thesis using o i k unfolding own_def by (auto simp: f' d')
    qed
  qed
  then show "own d0 f' d'" "\<And>j. k = Some j \<Longrightarrow> j < length (f_ifaces f')" by auto
qed

text \<open>Filling in the class triple or the append cursor of an interface object.\<close>

lemma own_iface_update:
  assumes o: "own d0 f d" and k: "k < length (f_ifaces f)" and i: "i_ifnum x = i_ifnum (f_ifaces f ! k)"
    and c: "c = f_cur_iface f \<or> c = Some k"
  shows "own d0 (f\<lparr>f_cur_iface := c, f_ifaces := (f_ifaces f)[k := x]\<rparr>) d"
proof -
  let ?f = "f\<lparr>f_cur_iface := c, f_ifaces := (f_ifaces f)[k := x]\<rparr>"
  have sub: "\<exists>y \<in> set (f_ifaces f). i_ifnum z = i_ifnum y" if z: "z \<in> set (f_ifaces ?f)" for z
    using set_update_subset_insert [THEN subsetD, of z "f_ifaces f" k x] z k i nth_mem [OF k] by auto
  have "unat (i_ifnum z) < n_ifnums d \<and> (unat (i_ifnum z) < 16 \<longrightarrow> ctrl d (unat (i_ifnum z)) = Some (f_ptr f))
      \<and> n_ifnums d0 \<le> unat (i_ifnum z)" if z: "z \<in> set (f_ifaces ?f)" for z
  proof -
    from sub [OF z] obtain y where "y \<in> set (f_ifaces f)" "i_ifnum z = i_ifnum y" ..
    with o show ?thesis by (simp add: own_def wired_def)
  qed
  moreover have "\<forall>j. c = Some j \<longrightarrow> j < length (f_ifaces f)"
    using o k c by (auto simp: own_def wired_def split: option.splits)
  moreover have "declares_out ?f = declares_out f" "declares_iso ?f = declares_iso f"
    by (simp_all add: declares_out_def declares_iso_def)
  ultimately show ?thesis using o by (simp add: own_def wired_def split: option.split)
qed

lemma iface_desc_kind [simp]: "iface_desc i a c s p ! Suc 0 = 4" "iface_desc i a c s p ! 2 = i"
  "iface_desc i a c s p ! 3 = a" "desc_len (iface_desc i a c s p) = 9"
  by (simp_all add: iface_desc_def desc_len_def)

text \<open>A descriptor that is not an endpoint's; an interface under the function's own or the next number.\<close>

lemma own_add_descriptor:
  assumes o: "own d0 f d" and d5: "desc ! 1 \<noteq> 5"
    and d4: "desc ! 1 = 4 \<Longrightarrow> desc_len desc = 9 \<and> n_ifnums d0 \<le> unat (desc ! 2) \<and> unat (desc ! 2) \<le> n_ifnums d"
    and r: "usbip_function_add_descriptor desc f d = (f', d', rc)"
  shows "own d0 f' d'"
proof -
  obtain d1 rc1 where a: "usbip_device_add_descriptor desc d = (d1, rc1)" by fastforce
  note fr = add_descriptor_frame [OF a]
  have b: "blob_inv d1" using blob_inv_add_descriptor [OF a] o d4 by (simp add: own_def)
  have o1: "own d0 f d1" using own_grow [OF o fr(1), of "[]"] fr(3) [OF d5] fr(5) b by (simp split: if_splits)
  show ?thesis
  proof (cases "rc1 = USB_SUCCESS \<and> desc ! 1 = 4")
    case False
    with r a d5 o1 show ?thesis by (auto simp: usbip_function_add_descriptor_def Let_def split: if_splits)
  next
    case True
    obtain f2 d2 k where i: "uc_iface_for (desc ! 2) f d1 = (f2, d2, k)" by (metis prod_cases3)
    have "unat (desc ! 2) < n_ifnums d1" using fr(5) True by simp
    with i o1 d4 True have o2: "own d0 f2 d2" "\<And>j. k = Some j \<Longrightarrow> j < length (f_ifaces f2)"
      using own_iface_for [OF o1 _ _ i] by auto
    show ?thesis
    proof (cases k)
      case None
      with r a d5 True i o2 show ?thesis by (auto simp: usbip_function_add_descriptor_def)
    next
      case (Some j)
      with r a d5 True i have "f' = f2\<lparr>f_cur_iface := Some j,
          f_ifaces := (f_ifaces f2)[j := (f_ifaces f2 ! j)\<lparr>i_cur_alt := desc ! 3\<rparr>]\<rparr>" "d' = d2"
        by (auto simp: usbip_function_add_descriptor_def)
      then show ?thesis using own_iface_update [OF o2(1), of j "(f_ifaces f2 ! j)\<lparr>i_cur_alt := desc ! 3\<rparr>" "Some j"] o2(2) Some
        by simp
    qed
  qed
qed

lemma blob_inv_next: "blob_inv d \<Longrightarrow> unat (of_nat (n_ifnums d) :: u8) = n_ifnums d"
  by (simp add: blob_inv_def unat_of_nat)

lemma own_add_interface:
  assumes o: "own d0 f d" and r: "usbip_function_add_interface c s p f d = Ret (f', d', k)"
  shows "own d0 f' d'"
proof -
  obtain f1 d1 rc where a: "usbip_function_add_descriptor (iface_desc (of_nat (n_ifnums d)) 0 c s p) f d = (f1, d1, rc)"
    by (metis prod_cases3)
  have o1: "own d0 f1 d1"
    using own_add_descriptor [OF o _ _ a] o blob_inv_next [of d] by (simp add: own_def kept_def)
  obtain j where j: "f_cur_iface f1 = Some j" and
    f': "f' = f1\<lparr>f_ifaces := (f_ifaces f1)[j := (f_ifaces f1 ! j)\<lparr>i_cls := c, i_sub := s, i_proto := p\<rparr>]\<rparr>" "d' = d1"
    using r a by (auto simp: usbip_function_add_interface_def split: option.splits)
  have "j < length (f_ifaces f1)" using o1 j by (simp add: own_def wired_def)
  from own_iface_update [OF o1 this, of "(f_ifaces f1 ! j)\<lparr>i_cls := c, i_sub := s, i_proto := p\<rparr>" "f_cur_iface f1"]
  show ?thesis by (simp add: f')
qed

lemma own_add_altsetting:
  assumes o: "own d0 f d" and k: "k < length (f_ifaces f)" and r: "usbip_interface_add_altsetting k a f d = (f', d', rc)"
  shows "own d0 f' d'"
proof -
  have "n_ifnums d0 \<le> unat (i_ifnum (f_ifaces f ! k))" "unat (i_ifnum (f_ifaces f ! k)) < n_ifnums d"
    using o nth_mem [OF k] by (auto simp: own_def wired_def)
  then show ?thesis
    using own_add_descriptor [OF o _ _ r [unfolded usbip_interface_add_altsetting_def Let_def]] by simp
qed

lemma own_uc_step:
  assumes o: "own d0 f d" and ok: "uc_op_ok p" and r: "uc_step p (f, d) = Ret (f', d')"
  shows "own d0 f' d'"
proof (cases p)
  case (AddInterface c s q)
  with r own_add_interface [OF o] show ?thesis by (auto split: cresult.splits)
next
  case (AddAlt k a)
  with r o own_add_altsetting [OF o, of k a] show ?thesis
    by (cases "usbip_interface_add_altsetting k a f d") (auto split: if_splits)
next
  case (AddEndpoint e)
  obtain f1 d1 rc where a: "usbip_function_add_descriptor e f d = (f1, d1, rc)" by (metis prod_cases3)
  with own_add_endpoint_descriptor [OF o _ a] AddEndpoint ok have "own d0 f1 d1" by simp
  with r AddEndpoint a show ?thesis by (auto simp: usbip_function_add_endpoint_def Let_def split: if_splits)
next
  case (AddOther e)
  obtain f1 d1 rc where a: "usbip_function_add_descriptor e f d = (f1, d1, rc)" by (metis prod_cases3)
  with own_add_descriptor [OF o _ _ a] AddOther ok r show ?thesis by simp
next
  case (SetString k s)
  with r own_cong [OF o] o show ?thesis
    by (auto simp: usbip_interface_set_string_def set_string_frame split: if_splits)
next
  case (Reserve a)
  with r own_cong [OF o] o show ?thesis
    by (auto simp: usbip_function_reserve_endpoint_def reserve_frame split: if_splits)
qed

lemma f_ptr_iface_for: "uc_iface_for i f d = (f', d', k) \<Longrightarrow> f_ptr f' = f_ptr f"
  by (auto simp: uc_iface_for_def Let_def split: option.splits if_splits)

lemma f_ptr_add_descriptor: "usbip_function_add_descriptor desc f d = (f', d', rc) \<Longrightarrow> f_ptr f' = f_ptr f"
proof (cases "desc ! 1 = 5")
  case True
  assume r: "usbip_function_add_descriptor desc f d = (f', d', rc)"
  obtain d1 e where "usbip_device_add_endpoint desc d = (d1, e)" by fastforce
  with r True show ?thesis by (cases e) (auto simp: usbip_function_add_descriptor_def Let_def split: if_splits)
next
  case False
  assume r: "usbip_function_add_descriptor desc f d = (f', d', rc)"
  obtain d1 rc1 where a: "usbip_device_add_descriptor desc d = (d1, rc1)" by fastforce
  obtain f2 d2 k where i: "uc_iface_for (desc ! 2) f d1 = (f2, d2, k)" by (metis prod_cases3)
  from r a i False f_ptr_iface_for [OF i] show ?thesis
    by (cases k) (auto simp: usbip_function_add_descriptor_def split: if_splits)
qed

lemma f_ptr_uc_step: "uc_step p (f, d) = Ret (f', d') \<Longrightarrow> f_ptr f' = f_ptr f"
proof -
  assume r: "uc_step p (f, d) = Ret (f', d')"
  have add: "f_ptr (fst (usbip_function_add_descriptor desc f d)) = f_ptr f" for desc
    using f_ptr_add_descriptor by (metis prod_cases3 fst_conv)
  have "f_ptr (fst (usbip_function_add_endpoint desc f d)) = f_ptr f" for desc
    using add [of desc] by (auto simp: usbip_function_add_endpoint_def Let_def split: prod.split)
  with add r show ?thesis
    by (cases p) (auto simp: usbip_function_add_interface_def usbip_interface_add_altsetting_def Let_def
        split: prod.splits if_splits option.splits cresult.splits, (metis fst_conv)+)
qed

lemma own_uc_steps:
  "own d0 f d \<Longrightarrow> list_all uc_op_ok ps \<Longrightarrow> uc_steps ps (f, d) = Ret (f', d') \<Longrightarrow> own d0 f' d' \<and> f_ptr f' = f_ptr f"
proof (induction ps arbitrary: f d)
  case Nil
  then show ?case by simp
next
  case (Cons p ps)
  then obtain f1 d1 where s: "uc_step p (f, d) = Ret (f1, d1)" "uc_steps ps (f1, d1) = Ret (f', d')"
    by (auto split: cresult.splits)
  with Cons.IH [of f1 d1] own_uc_step [OF Cons.prems(1) _ s(1)] f_ptr_uc_step [OF s(1)] Cons.prems(2)
  show ?case by simp
qed

section \<open>All the functions of a device\<close>

definition heap_inv :: "'s uc \<Rightarrow> usbip_device \<Rightarrow> bool" where
  "heap_inv uc dev \<longleftrightarrow> blob_inv dev
     \<and> (\<forall>fp < length (uc_heap uc). f_ptr (uc_heap uc ! fp) = fp \<and> wired (uc_heap uc ! fp) dev)"

lemma group_begin_frame:
  "usbip_device_group_begin d = (d', g) \<Longrightarrow>
   ctrl d' = ctrl d \<and> eps d' = eps d \<and> n_ifnums d' = n_ifnums d \<and> descr_len d' = descr_len d"
  by (auto simp: usbip_device_group_begin_def split: if_splits)

text \<open>A function just added has nothing to be wired.\<close>

lemma add_function_spec:
  assumes r: "usbip_device_add_function dv uc dev = (uc', dev', p)"
  shows "ctrl dev' = ctrl dev \<and> eps dev' = eps dev \<and> n_ifnums dev' = n_ifnums dev \<and> descr_len dev' = descr_len dev
    \<and> (case p of None \<Rightarrow> uc_heap uc' = uc_heap uc
       | Some fp \<Rightarrow> fp = length (uc_heap uc) \<and> (\<exists>f. uc_heap uc' = uc_heap uc @ [f] \<and> f_ptr f = fp
           \<and> f_ifaces f = [] \<and> f_eps f = [] \<and> f_cur_iface f = None))"
proof -
  obtain regs k where g: "uc_reg_for dv (uc_regs uc) = (regs, k)" by fastforce
  obtain d1 gid where b: "usbip_device_group_begin dev = (d1, gid)" by fastforce
  from r g b group_begin_frame [OF b] show ?thesis
    by (auto simp: usbip_device_add_function_def Let_def usbip_device_on_control_def split: option.splits if_splits)
qed

lemma heap_inv_kept:
  assumes "heap_inv uc d" "kept d d'" "blob_inv d'"
  shows "heap_inv uc d'"
  using assms wired_kept by (auto simp: heap_inv_def)

lemma add_class_inv:
  assumes h: "heap_inv uc dev" and ok: "list_all uc_op_ok ops"
    and r: "usbip_device_add_class (build_of ops) c dv uc dev = Ret (uc', dev', res)"
  shows "heap_inv uc' dev'"
proof -
  obtain uc1 d1 p where a: "usbip_device_add_function dv uc dev = (uc1, d1, p)" by (metis prod_cases3)
  note s = add_function_spec [OF a]
  have k1: "kept dev d1" "blob_inv d1" using s h by (simp_all add: kept_def heap_inv_def blob_inv_def)
  show ?thesis
  proof (cases p)
    case None
    with r a s heap_inv_kept [OF h k1] show ?thesis by (simp add: usbip_device_add_class_def heap_inv_def)
  next
    case (Some fp)
    with s obtain f where f: "uc_heap uc1 = uc_heap uc @ [f]" "fp = length (uc_heap uc)" "f_ptr f = fp"
      "f_ifaces f = []" "f_eps f = []" "f_cur_iface f = None" by auto
    let ?f = "f\<lparr>f_cls := Some c\<rparr>"
    have o: "own d1 ?f d1" using k1 f by (simp add: own_def wired_def)
    obtain f2 d2 where b: "uc_steps ops (?f, d1) = Ret (f2, d2)" "dev' = d2"
      "uc_heap uc' = uc_heap uc @ [f2]"
      using r a Some f by (auto simp: usbip_device_add_class_def build_of_def Let_def split: cresult.splits)
    from own_uc_steps [OF o ok b(1)] f have o2: "own d1 f2 d2" "f_ptr f2 = fp" by simp_all
    with k1 have "kept dev d2" by (auto simp: own_def kept_def)
    with h o2 wired_kept f show ?thesis
      by (auto simp: heap_inv_def b nth_append less_Suc_eq own_def)
  qed
qed

lemma add_classes_inv:
  "heap_inv uc dev \<Longrightarrow> list_all (\<lambda>(c, ops). list_all uc_op_ok ops) cs
   \<Longrightarrow> add_classes dv cs (uc, dev) = Ret (uc', dev') \<Longrightarrow> heap_inv uc' dev'"
proof (induction cs arbitrary: uc dev)
  case Nil
  then show ?case by simp
next
  case (Cons x cs)
  obtain c ops where x: "x = (c, ops)" by fastforce
  with Cons.prems obtain uc1 d1 res where a: "usbip_device_add_class (build_of ops) c dv uc dev = Ret (uc1, d1, res)"
    "add_classes dv cs (uc1, d1) = Ret (uc', dev')" by (auto split: cresult.splits)
  with add_class_inv [OF Cons.prems(1) _ a(1)] Cons x show ?case by simp
qed

lemma heap_inv_init: "heap_inv uc_init (usbip_device_create v p)"
  by (simp add: heap_inv_def uc_init_def blob_inv_def usbip_device_create_def)


text \<open>Two disks on one device: both want endpoint 2 IN and 1 OUT, the second is moved.\<close>

definition demo_disk :: "unit usbip_device_class" where
  "demo_disk = \<lparr>c_id = 1, c_control = None, c_set_alt = None, c_on_out = Some (\<lambda>h s e d. (s, [])), c_on_iso = None\<rparr>"

definition demo_classes :: "(unit usbip_device_class \<times> uc_op list) list" where
  "demo_classes = (let ops = [AddInterface 8 6 0x50, AddEndpoint (ep_desc 0x82 2 64 0), AddEndpoint (ep_desc 1 2 64 0)]
     in [(demo_disk, ops), (demo_disk, ops)])"

lemma demo_classes_added:
  "\<exists>uc dev. add_classes 0 demo_classes (uc_init, usbip_device_create 1 2) = Ret (uc, dev)
     \<and> length (uc_heap uc) = 2 \<and> map i_ifnum (f_ifaces (uc_heap uc ! 1)) = [1]
     \<and> map f_eps (uc_heap uc) = [[0, 1], [2, 3]] \<and> map e_addr (eps dev) = [0x82, 1, 0x81, 2]"
proof -
  have "case add_classes 0 demo_classes (uc_init, usbip_device_create 1 2) of
      Ret (uc, dev) \<Rightarrow> length (uc_heap uc) = 2 \<and> map i_ifnum (f_ifaces (uc_heap uc ! 1)) = [1]
        \<and> map f_eps (uc_heap uc) = [[0, 1], [2, 3]] \<and> map e_addr (eps dev) = [0x82, 1, 0x81, 2]
    | _ \<Rightarrow> False"
    by code_simp
  then show ?thesis by (auto split: cresult.splits)
qed


end
