(* ===== verification/Msc.thy ===== *)
theory Msc
  imports Usb_Class
begin

text \<open>
  The mass-storage class (\<open>src/classes/device/msc.c\<close>): the Bulk-Only Transport state machine and
  its SCSI command set over an application's block backend, and the file backend of
  \<open>examples/device/msc_device.c\<close>.

  A handler returns the new class state and the endpoint actions it asks of the core, in order.
  \<open>Undefined\<close> is a read or write outside a buffer. \<open>malloc\<close> is taken to succeed (the code does
  not check it). The log lines handed to \<open>on_command\<close> are not modelled.
\<close>

section \<open>Configuration and state\<close>

text \<open>\<open>o_luns\<close> has the sixteen entries of the array. The backend's callbacks, over the application's state \<open>'b\<close> and a unit's context.
  \<open>bk_read\<close> gives the return code and the buffer as the callback left it.\<close>

record 'b backend =
  bk_num_blocks :: "'b \<Rightarrow> nat \<Rightarrow> u32"
  bk_block_size :: "'b \<Rightarrow> nat \<Rightarrow> u32"
  bk_read :: "'b \<Rightarrow> nat \<Rightarrow> u32 \<Rightarrow> u32 \<Rightarrow> int \<times> bytes"
  bk_write :: "'b \<Rightarrow> nat \<Rightarrow> u32 \<Rightarrow> u32 \<Rightarrow> bytes \<Rightarrow> 'b \<times> int"

record msc_lun =
  l_user :: nat
  l_medium :: int
  l_read_only :: bool
  l_product :: "bytes option"
  l_serial :: "bytes option"

record 'b msc_opts =
  o_backend :: "'b backend"
  o_n_luns :: int
  o_luns :: "msc_lun list"
  o_read_only :: bool
  o_medium :: int
  o_ufi :: bool
  o_vendor :: "bytes option"
  o_product :: "bytes option"
  o_revision :: "bytes option"
  o_serial :: "bytes option"
  o_name :: "bytes option"
  o_user :: nat

record lun_state =
  ls_user :: nat
  ls_medium :: int
  ls_read_only :: bool
  ls_product :: bytes
  ls_serial :: bytes
  ls_key :: u8
  ls_asc :: u8
  ls_ascq :: u8

text \<open>The public part of the state (\<open>msc_disk\<close>).\<close>

record msc_disk =
  md_index :: nat
  md_name :: bytes
  md_user :: nat
  md_n_luns :: nat
  md_medium :: int
  md_interface_number :: u8
  md_in_ep :: u8
  md_out_ep :: u8
  md_func :: handler

text \<open>\<open>st_wbuf\<close> is what has been copied into the write buffer so far; the buffer holds
  \<open>st_wneed\<close> bytes.\<close>

record 'b msc_state =
  st_pub :: msc_disk
  st_opts :: "'b msc_opts"
  st_lun :: "lun_state list"
  st_n_luns :: nat
  st_in :: "nat option"
  st_out :: "nat option"
  st_cbw_in :: bool
  st_writing :: bool
  st_wop :: u8
  st_wlun :: nat
  st_wtag :: bytes
  st_wlba :: u32
  st_wcount :: u32
  st_wneed :: u32
  st_wgot :: u32
  st_wbuf :: bytes

abbreviation (input) MSC_MEDIUM_CDROM :: int where "MSC_MEDIUM_CDROM \<equiv> 1"
abbreviation (input) MSC_MEDIUM_FLOPPY :: int where "MSC_MEDIUM_FLOPPY \<equiv> 2"

section \<open>Helpers\<close>

definition set_str :: "bytes option \<Rightarrow> nat \<Rightarrow> bytes" where
  "set_str src cap = (let s = take cap (case src of None \<Rightarrow> [] | Some s \<Rightarrow> s)
     in s @ replicate (cap - length s) 0x20)"

definition csw_bytes :: "bytes \<Rightarrow> u32 \<Rightarrow> u8 \<Rightarrow> bytes" where
  "csw_bytes tag residue status = cstr ''USBS'' @ tag @ le_bytes 4 residue @ [status]"

definition msc_csw :: "'b msc_state \<Rightarrow> bytes \<Rightarrow> u32 \<Rightarrow> u8 \<Rightarrow> ep_act list" where
  "msc_csw st tag residue status = ep_write (st_in st) (csw_bytes tag residue status)"

definition msc_stall_data_phase :: "'b msc_state \<Rightarrow> u32 \<Rightarrow> ep_act list" where
  "msc_stall_data_phase st dlen =
     (if dlen = 0 then [] else ep_stall (if st_cbw_in st then st_in st else st_out st))"

text \<open>The data phase and the CSW of a command that passed. \<open>datalen\<close> bytes of \<open>d\<close> are meant; a
  send length that does not fit the \<open>int\<close> it is cast to, or that runs past the data, is undefined.\<close>

definition msc_data_in :: "'b msc_state \<Rightarrow> bytes \<Rightarrow> u32 \<Rightarrow> bytes \<Rightarrow> u32 \<Rightarrow> ep_act list cresult" where
  "msc_data_in st tag dlen d datalen =
     (let send = (if datalen < dlen then datalen else dlen) in
      if unat send > length d \<or> unat send \<ge> 2 ^ 31 then Undefined
      else Ret ((if send \<noteq> 0 then ep_write (st_in st) (take (unat send) d)
                 else msc_stall_data_phase st dlen)
                @ msc_csw st tag (dlen - send) 0))"

definition set_sense :: "u8 \<Rightarrow> u8 \<Rightarrow> u8 \<Rightarrow> lun_state \<Rightarrow> lun_state" where
  "set_sense key asc ascq lun = lun\<lparr>ls_key := key, ls_asc := asc, ls_ascq := ascq\<rparr>"

definition upd_lun :: "nat \<Rightarrow> (lun_state \<Rightarrow> lun_state) \<Rightarrow> 'b msc_state \<Rightarrow> 'b msc_state" where
  "upd_lun i f st = st\<lparr>st_lun := (st_lun st)[i := f (st_lun st ! i)]\<rparr>"

definition msc_fail :: "'b msc_state \<Rightarrow> nat \<Rightarrow> bytes \<Rightarrow> u32 \<Rightarrow> u8 \<times> u8 \<times> u8 \<Rightarrow> 'b msc_state \<times> ep_act list" where
  "msc_fail st lun tag dlen sense =
     (case sense of (key, asc, ascq) \<Rightarrow>
        (upd_lun lun (set_sense key asc ascq) st,
         msc_stall_data_phase st dlen @ msc_csw st tag dlen 1))"

abbreviation (input) SENSE_UNRECOVERED_READ :: "u8 \<times> u8 \<times> u8" where "SENSE_UNRECOVERED_READ \<equiv> (0x03, 0x11, 0)"
abbreviation (input) SENSE_INVALID_COMMAND :: "u8 \<times> u8 \<times> u8" where "SENSE_INVALID_COMMAND \<equiv> (0x05, 0x20, 0)"
abbreviation (input) SENSE_LBA_RANGE :: "u8 \<times> u8 \<times> u8" where "SENSE_LBA_RANGE \<equiv> (0x05, 0x21, 0)"
abbreviation (input) SENSE_INVALID_FIELD :: "u8 \<times> u8 \<times> u8" where "SENSE_INVALID_FIELD \<equiv> (0x05, 0x24, 0)"
abbreviation (input) SENSE_LUN_NOT_SUPPORTED :: "u8 \<times> u8 \<times> u8" where "SENSE_LUN_NOT_SUPPORTED \<equiv> (0x05, 0x25, 0)"
abbreviation (input) SENSE_WRITE_PROTECT :: "u8 \<times> u8 \<times> u8" where "SENSE_WRITE_PROTECT \<equiv> (0x07, 0x27, 0)"

section \<open>Units\<close>

definition inq_pdt :: "lun_state \<Rightarrow> u8" where
  "inq_pdt lun = (if ls_medium lun = MSC_MEDIUM_CDROM then 0x05 else 0x00)"

definition default_product :: "int \<Rightarrow> bytes" where
  "default_product medium =
     (if medium = MSC_MEDIUM_CDROM then cstr ''CD-ROM''
      else if medium = MSC_MEDIUM_FLOPPY then cstr ''FLOPPY'' else cstr ''DISK'')"

text \<open>One unit: its own field where set, else the device-wide one.\<close>

definition lun_init :: "msc_lun option \<Rightarrow> 'b msc_opts \<Rightarrow> lun_state" where
  "lun_init src opts =
     (let medium = (case src of Some l \<Rightarrow> (if l_medium l \<noteq> 0 then l_medium l else o_medium opts) | None \<Rightarrow> o_medium opts);
          ro = ((case src of Some l \<Rightarrow> l_read_only l | None \<Rightarrow> False) \<or> o_read_only opts);
          product = (case Option.bind src l_product of Some p \<Rightarrow> Some p | None \<Rightarrow> o_product opts);
          serial = (case Option.bind src l_serial of Some p \<Rightarrow> Some p | None \<Rightarrow> o_serial opts)
      in \<lparr>ls_user = (case src of Some l \<Rightarrow> l_user l | None \<Rightarrow> o_user opts),
          ls_medium = medium, ls_read_only = (ro \<or> medium = MSC_MEDIUM_CDROM),
          ls_product = (case product of Some p \<Rightarrow> p | None \<Rightarrow> default_product medium),
          ls_serial = (case serial of Some s \<Rightarrow> s | None \<Rightarrow> cstr ''0123456789ABCDEF''),
          ls_key = 0, ls_asc = 0, ls_ascq = 0\<rparr>)"

section \<open>Floppy geometry\<close>

record floppy_format =
  ff_blocks :: u32
  ff_medium_type :: u8
  ff_cylinders :: u8
  ff_heads :: u8
  ff_sectors :: u8
  ff_rate_kbps :: u16
  ff_format :: int

definition FLOPPY_FORMATS :: "floppy_format list" where
  "FLOPPY_FORMATS = [
     \<lparr>ff_blocks = 5760, ff_medium_type = 0x00, ff_cylinders = 80, ff_heads = 2, ff_sectors = 36, ff_rate_kbps = 1000, ff_format = 0\<rparr>,
     \<lparr>ff_blocks = 2880, ff_medium_type = 0x94, ff_cylinders = 80, ff_heads = 2, ff_sectors = 18, ff_rate_kbps = 500, ff_format = 1\<rparr>,
     \<lparr>ff_blocks = 2400, ff_medium_type = 0x93, ff_cylinders = 80, ff_heads = 2, ff_sectors = 15, ff_rate_kbps = 500, ff_format = 2\<rparr>,
     \<lparr>ff_blocks = 1440, ff_medium_type = 0x1E, ff_cylinders = 80, ff_heads = 2, ff_sectors = 9, ff_rate_kbps = 250, ff_format = 3\<rparr>,
     \<lparr>ff_blocks = 720, ff_medium_type = 0x00, ff_cylinders = 40, ff_heads = 2, ff_sectors = 9, ff_rate_kbps = 250, ff_format = 4\<rparr>]"

abbreviation (input) FLOPPY_DEFAULT :: nat where "FLOPPY_DEFAULT \<equiv> 1"

definition floppy_format_index :: "u32 \<Rightarrow> u32 \<Rightarrow> nat option" where
  "floppy_format_index blocks bs =
     (if bs \<noteq> 512 then None else find_index (\<lambda>f. ff_blocks f = blocks) FLOPPY_FORMATS)"

definition floppy_medium_type :: "u32 \<Rightarrow> u32 \<Rightarrow> u8" where
  "floppy_medium_type blocks bs =
     (case floppy_format_index blocks bs of None \<Rightarrow> 0 | Some i \<Rightarrow> ff_medium_type (FLOPPY_FORMATS ! i))"

definition flex_geometry :: "u32 \<Rightarrow> u32 \<Rightarrow> u8 \<times> u8 \<times> u16 \<times> u32" where
  "flex_geometry blocks bs =
     (case floppy_format_index blocks bs of
        Some i \<Rightarrow> (let f = FLOPPY_FORMATS ! i in (ff_heads f, ff_sectors f, ff_rate_kbps f, ucast (ff_cylinders f)))
      | None \<Rightarrow> (let f = FLOPPY_FORMATS ! FLOPPY_DEFAULT in
          (ff_heads f, ff_sectors f, ff_rate_kbps f, blocks div (ucast (ff_heads f) * ucast (ff_sectors f)))))"

definition build_flex_page :: "u32 \<Rightarrow> u32 \<Rightarrow> bytes" where
  "build_flex_page blocks bs =
     (case flex_geometry blocks bs of (heads, sectors, rate, cylinders) \<Rightarrow>
       (let cylinders = (if cylinders > 0xFFFF then 0xFFFF else cylinders);
            buf = (replicate 32 0)[0 := 0x05, 1 := 0x1E];
            buf = usb_put_be16 2 rate buf;
            buf = buf[4 := heads, 5 := sectors];
            buf = usb_put_be16 6 (ucast bs) buf;
            buf = usb_put_be16 8 (ucast cylinders) buf
        in usb_put_be16 28 300 buf))"

section \<open>Replies\<close>

definition put_capacity_desc :: "u32 \<Rightarrow> u32 \<Rightarrow> u8 \<Rightarrow> bytes" where
  "put_capacity_desc blocks bs ty =
     usb_put_be24 5 bs ((usb_put_be32 0 blocks (replicate 8 0))[4 := ty])"

definition build_format_capacities :: "lun_state \<Rightarrow> u32 \<Rightarrow> u32 \<Rightarrow> bytes" where
  "build_format_capacities lun blocks bs =
     (let descs = put_capacity_desc blocks bs 0x02 @
        (if ls_medium lun = MSC_MEDIUM_FLOPPY
         then concat (map (\<lambda>f. put_capacity_desc (ff_blocks f) 512 0x00) FLOPPY_FORMATS) else [])
      in [0, 0, 0, of_nat (length descs)] @ descs)"

definition build_inquiry :: "'b msc_opts \<Rightarrow> lun_state \<Rightarrow> bytes" where
  "build_inquiry opts lun =
     [inq_pdt lun, 0x80, 0x04, 0x02, 31, 0, 0, 0]
     @ set_str (Some (case o_vendor opts of Some v \<Rightarrow> v | None \<Rightarrow> cstr ''USB-IP'')) 8
     @ set_str (Some (ls_product lun)) 16
     @ set_str (Some (case o_revision opts of Some v \<Rightarrow> v | None \<Rightarrow> cstr ''0001'')) 4"

definition build_vpd :: "lun_state \<Rightarrow> u8 \<Rightarrow> bytes option" where
  "build_vpd lun page =
     (if page = 0x00 then Some [inq_pdt lun, page, 0, 2, 0x00, 0x80]
      else if page = 0x80 then
        (let s = take 20 (ls_serial lun) in Some ([inq_pdt lun, page, 0, of_nat (length s)] @ s))
      else None)"

definition request_sense :: "lun_state \<Rightarrow> bytes" where
  "request_sense lun = (replicate 18 0)[0 := 0x70, 2 := ls_key lun, 7 := 10, 12 := ls_asc lun, 13 := ls_ascq lun]"

definition mode_sense :: "lun_state \<Rightarrow> u32 \<Rightarrow> u32 \<Rightarrow> bool \<Rightarrow> u8 \<Rightarrow> bytes" where
  "mode_sense lun nb bs ten page =
     (let hdr = (if ten then 8 else 4 :: nat);
          mode = (replicate hdr 0)[if ten then 3 else 2 := (if ls_read_only lun then 0x80 else 0)];
          floppy = (ls_medium lun = MSC_MEDIUM_FLOPPY);
          mode = (if floppy then mode[if ten then 2 else 1 := floppy_medium_type nb bs] else mode);
          mode = (if floppy \<and> (page = 0x05 \<or> page = 0x3F) then mode @ build_flex_page nb bs else mode);
          built = length mode
      in if ten then usb_put_be16 0 (of_nat (built - 2)) mode else mode[0 := of_nat (built - 1)])"

definition read_toc :: bytes where
  "read_toc = [0x00, 18, 0x01, 0x01, 0x00, 0x14, 0x01, 0, 0, 0, 0, 0, 0x00, 0x14, 0xAA, 0, 0, 0, 0, 0]"

section \<open>One SCSI command\<close>

definition pass :: "'b msc_state \<Rightarrow> ep_act list cresult \<Rightarrow> ('b msc_state \<times> ep_act list) cresult" where
  "pass st r = (case r of Ret a \<Rightarrow> Ret (st, a) | Err e \<Rightarrow> Err e | Undefined \<Rightarrow> Undefined)"

definition rw_range :: "bool \<Rightarrow> bytes \<Rightarrow> u32 \<times> u32" where
  "rw_range twelve cdb = (usb_get_be32 cdb 2, if twelve then usb_get_be32 cdb 6 else ucast (usb_get_be16 cdb 7))"

definition out_of_range :: "u32 \<Rightarrow> u32 \<Rightarrow> u32 \<Rightarrow> bool" where
  "out_of_range lba n nb \<longleftrightarrow> (ucast lba :: u64) + ucast n > ucast nb"

definition scsi_read :: "'b \<Rightarrow> 'b msc_state \<Rightarrow> nat \<Rightarrow> bytes \<Rightarrow> u32 \<Rightarrow> u32 \<Rightarrow> u32 \<Rightarrow> ('b msc_state \<times> ep_act list) cresult" where
  "scsi_read b st i tag dlen lba n =
     (let bk = o_backend (st_opts st); lun = st_lun st ! i in
      if out_of_range lba n (bk_num_blocks bk b (ls_user lun)) then Ret (msc_fail st i tag dlen SENSE_LBA_RANGE)
      else (let (rc, buf) = bk_read bk b (ls_user lun) lba n in
            if rc = 0 then pass st (msc_data_in st tag dlen buf (n * bk_block_size bk b (ls_user lun)))
            else Ret (msc_fail st i tag dlen SENSE_UNRECOVERED_READ)))"

definition scsi_write :: "'b \<Rightarrow> 'b msc_state \<Rightarrow> nat \<Rightarrow> bytes \<Rightarrow> u32 \<Rightarrow> u8 \<Rightarrow> u32 \<Rightarrow> u32 \<Rightarrow> 'b msc_state \<times> ep_act list" where
  "scsi_write b st i tag dlen op lba n =
     (let bk = o_backend (st_opts st); lun = st_lun st ! i in
      if ls_read_only lun then msc_fail st i tag dlen SENSE_WRITE_PROTECT
      else if out_of_range lba n (bk_num_blocks bk b (ls_user lun)) then msc_fail st i tag dlen SENSE_LBA_RANGE
      else (st\<lparr>st_writing := True, st_wop := op, st_wlun := i, st_wtag := tag, st_wlba := lba, st_wcount := n,
               st_wneed := n * bk_block_size bk b (ls_user lun), st_wgot := 0, st_wbuf := []\<rparr>, []))"

definition dispatch :: "'b \<Rightarrow> 'b msc_state \<Rightarrow> nat \<Rightarrow> bytes \<Rightarrow> u32 \<Rightarrow> bytes \<Rightarrow> ('b msc_state \<times> ep_act list) cresult" where
  "dispatch b st i tag dlen cdb =
     (let bk = o_backend (st_opts st); lun = st_lun st ! i;
          bs = bk_block_size bk b (ls_user lun); nb = bk_num_blocks bk b (ls_user lun);
          op = cdb ! 0;
          ok = Ret (st, msc_csw st tag 0 0);
          reply = (\<lambda>d. pass st (msc_data_in st tag dlen d (of_nat (length d))));
          fail = (\<lambda>s. Ret (msc_fail st i tag dlen s))
      in if op = 0x00 then ok
         else if op = 0x12 then
           (if cdb ! 1 AND 0x01 \<noteq> 0 then
              (case build_vpd lun (cdb ! 2) of None \<Rightarrow> fail SENSE_INVALID_FIELD | Some d \<Rightarrow> reply d)
            else reply (build_inquiry (st_opts st) lun))
         else if op = 0x23 then reply (build_format_capacities lun nb bs)
         else if op = 0x25 then reply (usb_put_be32 4 bs (usb_put_be32 0 (nb - 1) (replicate 8 0)))
         else if op = 0x9E then
           (if cdb ! 1 AND 0x1F = 0x10
            then reply (usb_put_be32 8 bs (usb_put_be32 4 (nb - 1) (replicate 32 0)))
            else fail SENSE_INVALID_COMMAND)
         else if op = 0x28 \<or> op = 0xA8 then
           (case rw_range (op = 0xA8) cdb of (lba, n) \<Rightarrow> scsi_read b st i tag dlen lba n)
         else if op = 0x2A \<or> op = 0xAA then
           (case rw_range (op = 0xAA) cdb of (lba, n) \<Rightarrow> Ret (scsi_write b st i tag dlen op lba n))
         else if op = 0x03 then
           pass (upd_lun i (set_sense 0 0 0) st) (msc_data_in st tag dlen (request_sense lun) 18)
         else if op = 0x1A \<or> op = 0x5A then reply (mode_sense lun nb bs (op = 0x5A) (cdb ! 2 AND 0x3F))
         else if op = 0x04 then (if ls_read_only lun then fail SENSE_WRITE_PROTECT else ok)
         else if op \<in> {0x1E, 0x1B, 0x35, 0x01, 0x2B, 0x2F} then ok
         else if op = 0x43 then
           (if ls_medium lun = MSC_MEDIUM_CDROM then reply read_toc else fail SENSE_INVALID_COMMAND)
         else if op = 0x46 then
           (if ls_medium lun = MSC_MEDIUM_CDROM then reply [0, 0, 0, 0, 0, 0, 0, 0x08] else fail SENSE_INVALID_COMMAND)
         else if op = 0x4A then reply [0, 6, 0x80, 0, 0, 0, 0, 0]
         else fail SENSE_INVALID_COMMAND)"

section \<open>The class vtable\<close>

text \<open>\<open>msc_build\<close>, after \<open>calloc\<close> of the state: \<open>None\<close> for more units than the transport addresses.\<close>

definition msc_build :: "'b msc_opts \<Rightarrow> ('s, 'b msc_state) uc_build" where
  "msc_build opts uc func dev =
     (if o_n_luns opts > 16 then Ret (func, dev, None)
      else
      let n = (if o_n_luns opts > 0 then nat (o_n_luns opts) else 1);
          luns = map (\<lambda>i. lun_init (if o_n_luns opts > 0 then Some (o_luns opts ! i) else None) opts) [0..<n];
          (dev, istr) = (case o_name opts of None \<Rightarrow> (dev, 0) | Some s \<Rightarrow> usbip_device_add_string s dev);
          bulk_mps = (if speed_code (speed dev) \<ge> speed_code USB_SPEED_HIGH then 512 else 64) :: u16;
          subclass = (if o_ufi opts then 0x04 else 0x06)
      in case usbip_function_add_interface 0x08 subclass 0x50 func dev of
           Err e \<Rightarrow> Err e
         | Undefined \<Rightarrow> Undefined
         | Ret (func, dev, iface) \<Rightarrow>
             (let dev = usbip_interface_set_string iface (of_nat istr) func dev;
                  (func, dev, ep_in) = usbip_function_add_endpoint (ep_desc 0x82 2 bulk_mps 0) func dev;
                  (func, dev, ep_out) = usbip_function_add_endpoint (ep_desc 0x01 2 bulk_mps 0) func dev
              in Ret (func, dev, Some \<lparr>
                     st_pub = \<lparr>md_index = snd (usbip_function_instance func uc),
                       md_name = (case o_name opts of None \<Rightarrow> [] | Some s \<Rightarrow> s), md_user = o_user opts,
                       md_n_luns = n, md_medium = ls_medium (luns ! 0),
                       md_interface_number = i_ifnum (f_ifaces func ! iface),
                       md_in_ep = usbip_endpoint_address dev ep_in,
                       md_out_ep = usbip_endpoint_address dev ep_out, md_func = f_ptr func\<rparr>,
                     st_opts = opts, st_lun = luns, st_n_luns = n, st_in = ep_in, st_out = ep_out,
                     st_cbw_in = False, st_writing = False, st_wop = 0, st_wlun = 0, st_wtag = [0, 0, 0, 0],
                     st_wlba = 0, st_wcount = 0, st_wneed = 0, st_wgot = 0, st_wbuf = []\<rparr>)))"

text \<open>The state, the return value (negative makes the core stall) and the bytes written to \<open>buf\<close>.
  Neither request checks its direction.\<close>

definition msc_control :: "'b msc_state \<Rightarrow> usb_setup \<Rightarrow> bytes \<Rightarrow> ('b msc_state \<times> int \<times> bytes) cresult" where
  "msc_control st stp d =
     (if bRequest stp = 0xFE then ctl_reply stp d st [of_nat (st_n_luns st - 1)]
      else if bRequest stp = 0xFF then Ret (st\<lparr>st_writing := False, st_wbuf := []\<rparr>, 0, [])
      else Ret (st, - 1, []))"

text \<open>A packet of a write's data phase. \<open>wgot + take\<close> is a 32-bit sum, and the backend reads
  \<open>count * block_size\<close> bytes of the buffer.\<close>

definition msc_write_data :: "'b \<Rightarrow> 'b msc_state \<Rightarrow> bytes \<Rightarrow> ('b \<times> 'b msc_state \<times> ep_act list) cresult" where
  "msc_write_data b st d =
     (let n = of_nat (length d) :: u32;
          n = (if st_wgot st + n > st_wneed st then st_wneed st - st_wgot st else n)
      in if unat (st_wgot st) + unat n > unat (st_wneed st) then Undefined
         else
         let st = st\<lparr>st_wbuf := st_wbuf st @ take (unat n) d, st_wgot := st_wgot st + n\<rparr>;
             bk = o_backend (st_opts st); user = ls_user (st_lun st ! st_wlun st)
         in if st_wgot st \<ge> st_wneed st then
              (if unat (st_wcount st) * unat (bk_block_size bk b user) > unat (st_wneed st) then Undefined
               else (let (b, rc) = bk_write bk b user (st_wlba st) (st_wcount st) (st_wbuf st)
                     in Ret (b, st\<lparr>st_wbuf := [], st_writing := False\<rparr>,
                          msc_csw st (st_wtag st) 0 (if rc = 0 then 0 else 1))))
            else Ret (b, st, []))"

definition is_cbw :: "bytes \<Rightarrow> bool" where
  "is_cbw d \<longleftrightarrow> length d = 31 \<and> take 4 d = cstr ''USBC''"

definition msc_on_out :: "'b \<Rightarrow> 'b msc_state \<Rightarrow> bytes \<Rightarrow> ('b \<times> 'b msc_state \<times> ep_act list) cresult" where
  "msc_on_out b st d =
     (if st_writing st then msc_write_data b st d
      else if \<not> is_cbw d then Ret (b, st, [])
      else
      let tag = bytes_at 4 4 d; dlen = usb_get_le32 d 8; lun = unat (d ! 13 AND 0x0F);
          st = st\<lparr>st_cbw_in := (d ! 12 AND 0x80 \<noteq> 0)\<rparr>
      in if lun \<ge> st_n_luns st then
           (let (st, acts) = msc_fail st 0 tag dlen SENSE_LUN_NOT_SUPPORTED in Ret (b, st, acts))
         else (case dispatch b st lun tag dlen (drop 15 d) of
             Ret (st, acts) \<Rightarrow> Ret (b, st, acts) | Err e \<Rightarrow> Err e | Undefined \<Rightarrow> Undefined))"

definition msc_floppy_format_size :: "int \<Rightarrow> u64" where
  "msc_floppy_format_size fmt =
     (case find (\<lambda>f. ff_format f = fmt) FLOPPY_FORMATS of None \<Rightarrow> 0 | Some f \<Rightarrow> ucast (ff_blocks f) * 512)"

definition msc_add :: "'b msc_opts \<Rightarrow> 's usbip_device_class \<Rightarrow> nat \<Rightarrow> 's uc \<Rightarrow> usbip_device \<Rightarrow> ('s uc \<times> usbip_device \<times> (handler \<times> 'b msc_state) option) cresult" where
  "msc_add opts cls dv uc dev = usbip_device_add_class (msc_build opts) cls dv uc dev"

text \<open>The vtable on an application state that holds the backend and the class state of each
  function. \<open>Undefined\<close> has no result to give; on the OUT pipe it never occurs (see the properties).\<close>

definition usbip_device_msc :: "('b \<times> (handler \<Rightarrow> 'b msc_state)) usbip_device_class" where
  "usbip_device_msc = \<lparr>c_id = 2,
     c_control = Some (\<lambda>f (b, sts) stp d len. case msc_control (sts f) stp d of
        Ret (st, rc, r) \<Rightarrow> ((b, sts(f := st)), [], rc, r) | _ \<Rightarrow> ((b, sts), [], - 1, [])),
     c_set_alt = None,
     c_on_out = Some (\<lambda>f (b, sts) ep d. case msc_on_out b (sts f) d of
        Ret (b, st, acts) \<Rightarrow> ((b, sts(f := st)), acts) | _ \<Rightarrow> ((b, sts), [])),
     c_on_iso = None\<rparr>"

section \<open>The file backend\<close>

text \<open>One backing image (\<open>struct disk\<close>); the application holds one per unit context.\<close>

record disk =
  dk_file :: bytes
  dk_writable :: bool
  dk_num_blocks :: u32
  dk_block_size :: u32

definition disk_num_blocks :: "(nat \<Rightarrow> disk) \<Rightarrow> nat \<Rightarrow> u32" where
  "disk_num_blocks ds user = dk_num_blocks (ds user)"

definition disk_block_size :: "(nat \<Rightarrow> disk) \<Rightarrow> nat \<Rightarrow> u32" where
  "disk_block_size ds user = dk_block_size (ds user)"

definition disk_read :: "(nat \<Rightarrow> disk) \<Rightarrow> nat \<Rightarrow> u32 \<Rightarrow> u32 \<Rightarrow> int \<times> bytes" where
  "disk_read ds user lba n =
     (let d = ds user; n_bytes = unat n * unat (dk_block_size d);
          got = take n_bytes (drop (unat lba * unat (dk_block_size d)) (dk_file d))
      in (if length got = n_bytes then 0 else - 1, got @ replicate (n_bytes - length got) 0))"

text \<open>\<open>fseek\<close> past the end and a write there zero-fill the gap.\<close>

definition file_put :: "nat \<Rightarrow> bytes \<Rightarrow> bytes \<Rightarrow> bytes" where
  "file_put off d f = (if d = [] then f else
     take off f @ replicate (off - length f) 0 @ d @ drop (off + length d) f)"

definition disk_write :: "(nat \<Rightarrow> disk) \<Rightarrow> nat \<Rightarrow> u32 \<Rightarrow> u32 \<Rightarrow> bytes \<Rightarrow> (nat \<Rightarrow> disk) \<times> int" where
  "disk_write ds user lba n buf =
     (let d = ds user; n_bytes = unat n * unat (dk_block_size d) in
      if \<not> dk_writable d then (ds, - 1)
      else (ds(user := d\<lparr>dk_file := file_put (unat lba * unat (dk_block_size d)) (take n_bytes buf) (dk_file d)\<rparr>), 0))"

definition disk_backend :: "(nat \<Rightarrow> disk) backend" where
  "disk_backend = \<lparr>bk_num_blocks = disk_num_blocks, bk_block_size = disk_block_size,
     bk_read = disk_read, bk_write = disk_write\<rparr>"

end
