(* ===== verification/Msc_Props.thy ===== *)
theory Msc_Props
  imports Msc
begin

text \<open>
  What the mass-storage class promises: every command is answered with one status wrapper that
  echoes its tag and accounts for the data phase, whatever the host sends has a defined result and
  stays on the medium, and a disk reads back what was written to it.

  The block backend is the locale \<open>block_backend\<close>, whose laws the file backend of the example
  application discharges.
\<close>

section \<open>Answers\<close>

text \<open>A data phase (data, a halt where none of the promised data comes, or nothing) and the CSW.\<close>

definition answered :: "'b msc_state \<Rightarrow> bytes \<Rightarrow> u32 \<Rightarrow> ep_act list \<Rightarrow> bool" where
  "answered st tag dlen acts \<longleftrightarrow>
     (\<exists>ph residue status. acts = ph @ ep_write (st_in st) (csw_bytes tag residue status) \<and> (status = 0 \<or> status = 1)
        \<and> (ph = [] \<and> residue = 0
           \<or> dlen \<noteq> 0 \<and> residue = dlen \<and> ph = ep_stall (if st_cbw_in st then st_in st else st_out st)
           \<or> (\<exists>d. d \<noteq> [] \<and> ph = ep_write (st_in st) d \<and> length d + unat residue = unat dlen \<and> status = 0)))"

text \<open>The parts of the state no command changes.\<close>

definition same_disk :: "'b msc_state \<Rightarrow> 'b msc_state \<Rightarrow> bool" where
  "same_disk st st' \<longleftrightarrow> st_opts st' = st_opts st \<and> st_n_luns st' = st_n_luns st \<and> st_in st' = st_in st
     \<and> st_out st' = st_out st \<and> length (st_lun st') = length (st_lun st)
     \<and> (\<forall>i < length (st_lun st). ls_user (st_lun st' ! i) = ls_user (st_lun st ! i)
          \<and> ls_read_only (st_lun st' ! i) = ls_read_only (st_lun st ! i)
          \<and> ls_medium (st_lun st' ! i) = ls_medium (st_lun st ! i))"

lemma same_disk_refl [simp]: "same_disk st st" by (simp add: same_disk_def)

lemma same_disk_trans: "same_disk a b \<Longrightarrow> same_disk b c \<Longrightarrow> same_disk a c"
  by (simp add: same_disk_def)

lemma same_disk_set_sense [simp]: "same_disk st (upd_lun i (set_sense k a q) st)"
  by (cases "i < length (st_lun st)") (auto simp: same_disk_def upd_lun_def set_sense_def nth_list_update)

lemma length_csw_bytes [simp]: "length tag = 4 \<Longrightarrow> length (csw_bytes tag r s) = 13"
  by (simp add: csw_bytes_def cstr_def)

lemma answered_csw: "s = 0 \<or> s = 1 \<Longrightarrow> answered st tag dlen (msc_csw st tag 0 s)"
  unfolding answered_def msc_csw_def by blast

lemma answered_fail: "answered st tag dlen (snd (msc_fail st i tag dlen s))"
proof (cases "dlen = 0")
  case True
  then show ?thesis
    using answered_csw [of 1 st tag dlen] by (cases s) (simp add: msc_fail_def msc_stall_data_phase_def)
next
  case False
  then show ?thesis unfolding answered_def
    by (cases s, intro exI [of _ "msc_stall_data_phase st dlen"] exI [of _ dlen] exI [of _ 1])
      (simp add: msc_fail_def msc_stall_data_phase_def msc_csw_def)
qed

lemma data_in_answers:
  assumes "unat datalen \<le> length d" "unat datalen < 2 ^ 31"
  shows "\<exists>acts. msc_data_in st tag dlen d datalen = Ret acts \<and> answered st tag dlen acts"
proof -
  define send where "send = (if datalen < dlen then datalen else dlen)"
  have le: "send \<le> datalen" "send \<le> dlen" by (auto simp: send_def)
  then have s: "unat send \<le> length d" "unat send < 2 ^ 31" using assms by (auto simp: word_le_nat_alt)
  let ?ph = "if send \<noteq> 0 then ep_write (st_in st) (take (unat send) d) else msc_stall_data_phase st dlen"
  have r: "msc_data_in st tag dlen d datalen = Ret (?ph @ msc_csw st tag (dlen - send) 0)"
    using s by (simp add: msc_data_in_def Let_def flip: send_def)
  have "answered st tag dlen (?ph @ msc_csw st tag (dlen - send) 0)"
  proof (cases "send = 0")
    case False
    have "length (take (unat send) d) + unat (dlen - send) = unat dlen"
      using s(1) le(2) by (simp add: unat_sub word_le_nat_alt)
    moreover have "take (unat send) d \<noteq> []" using False s(1) by (auto simp: unat_eq_zero)
    ultimately have "\<exists>x. x \<noteq> [] \<and> ep_write (st_in st) (take (unat send) d) = ep_write (st_in st) x
        \<and> length x + unat (dlen - send) = unat dlen \<and> (0 :: u8) = 0" by blast
    then show ?thesis using False unfolding answered_def msc_csw_def
      by (intro exI [of _ "ep_write (st_in st) (take (unat send) d)"] exI [of _ "dlen - send"] exI [of _ 0]) simp
  next
    case True
    then show ?thesis unfolding answered_def msc_csw_def
      by (cases "dlen = 0") (auto simp: msc_stall_data_phase_def)
  qed
  with r show ?thesis by blast
qed

section \<open>The backend\<close>

abbreviation nblk :: "'b backend \<Rightarrow> 'b \<Rightarrow> nat \<Rightarrow> nat" where "nblk bk b u \<equiv> unat (bk_num_blocks bk b u)"
abbreviation blksz :: "'b backend \<Rightarrow> 'b \<Rightarrow> nat \<Rightarrow> nat" where "blksz bk b u \<equiv> unat (bk_block_size bk b u)"

text \<open>
  A backend in good order serves, for each unit context, an image of its capacity; a read gives the
  bytes of the image and a write on a writable unit replaces them, leaving the other units alone.
\<close>

locale block_backend =
  fixes bk :: "'b backend" and ok :: "'b \<Rightarrow> bool" and writable :: "'b \<Rightarrow> nat \<Rightarrow> bool"
    and image :: "'b \<Rightarrow> nat \<Rightarrow> bytes"
  assumes length_image: "ok b \<Longrightarrow> length (image b u) = nblk bk b u * blksz bk b u"
    and fits: "ok b \<Longrightarrow> nblk bk b u * blksz bk b u < 2 ^ 31"
    and read_law: "ok b \<Longrightarrow> unat lba + unat n \<le> nblk bk b u \<Longrightarrow>
      bk_read bk b u lba n = (0, bytes_at (unat lba * blksz bk b u) (unat n * blksz bk b u) (image b u))"
    and write_law: "ok b \<Longrightarrow> unat lba + unat n \<le> nblk bk b u \<Longrightarrow> length d = unat n * blksz bk b u \<Longrightarrow>
      writable b u \<Longrightarrow> bk_write bk b u lba n d = (b', rc) \<Longrightarrow>
      rc = 0 \<and> ok b' \<and> bk_num_blocks bk b' = bk_num_blocks bk b \<and> bk_block_size bk b' = bk_block_size bk b
      \<and> writable b' = writable b
      \<and> image b' = (image b)(u := put_at (unat lba * blksz bk b u) d (image b u))"
    and write_refused: "\<not> writable b u \<Longrightarrow> bk_write bk b u lba n d = (b', rc) \<Longrightarrow> rc \<noteq> 0 \<and> b' = b"
begin

lemma image_range:
  "unat lba + unat n \<le> nblk bk b u \<Longrightarrow>
   unat lba * blksz bk b u + unat n * blksz bk b u \<le> nblk bk b u * blksz bk b u"
  by (metis add_mult_distrib mult_le_mono1)

lemma range_fits: "ok b \<Longrightarrow> unat lba + unat n \<le> nblk bk b u \<Longrightarrow> unat n * blksz bk b u < 2 ^ 31"
  using image_range [of lba n b u] fits [of b u] by linarith

lemma unat_bytes: "ok b \<Longrightarrow> unat lba + unat n \<le> nblk bk b u \<Longrightarrow> unat (n * bk_block_size bk b u) = unat n * blksz bk b u"
  using range_fits [of b lba n u] by (intro unat_mult_lem [THEN iffD1]) simp

end

lemma unat_u64 [simp]: "unat (ucast (w :: u32) :: u64) = unat w"
  using unsigned_less [of w, where ?'a = nat] by (simp add: unsigned_ucast_eq take_bit_nat_eq_self)

lemma in_range_iff: "\<not> out_of_range lba n nb \<longleftrightarrow> unat lba + unat n \<le> unat nb"
proof -
  have "unat (ucast lba + ucast n :: u64) = unat lba + unat n"
    using unsigned_less [of lba, where ?'a = nat] unsigned_less [of n, where ?'a = nat]
    by (subst unat_add_lem [THEN iffD1]) simp_all
  then show ?thesis
    by (simp add: out_of_range_def not_less word_le_nat_alt)
qed


section \<open>Every command is answered\<close>

text \<open>The class state between two packets: a write in flight fits its buffer and the medium.\<close>

definition msc_inv :: "'b \<Rightarrow> 'b msc_state \<Rightarrow> bool" where
  "msc_inv b st \<longleftrightarrow> 1 \<le> st_n_luns st \<and> st_n_luns st \<le> 16 \<and> length (st_lun st) = st_n_luns st
     \<and> (st_writing st \<longrightarrow> (let bk = o_backend (st_opts st); u = ls_user (st_lun st ! st_wlun st) in
          st_wlun st < st_n_luns st \<and> \<not> ls_read_only (st_lun st ! st_wlun st) \<and> length (st_wtag st) = 4
          \<and> length (st_wbuf st) = unat (st_wgot st) \<and> st_wgot st \<le> st_wneed st
          \<and> unat (st_wneed st) = unat (st_wcount st) * blksz bk b u
          \<and> unat (st_wlba st) + unat (st_wcount st) \<le> nblk bk b u))"

definition good :: "'b \<Rightarrow> 'b msc_state \<Rightarrow> bytes \<Rightarrow> u32 \<Rightarrow> ('b msc_state \<times> ep_act list) cresult \<Rightarrow> bool" where
  "good b st tag dlen r \<longleftrightarrow> (\<exists>st' acts. r = Ret (st', acts) \<and> same_disk st st' \<and> msc_inv b st'
     \<and> (if st_writing st' then acts = [] else answered st tag dlen acts))"

lemma msc_inv_idle: "msc_inv b st \<Longrightarrow> same_disk st st' \<Longrightarrow> \<not> st_writing st' \<Longrightarrow> msc_inv b st'"
  by (simp add: msc_inv_def same_disk_def)

lemma goodI:
  assumes "msc_inv b st" "same_disk st st'" "\<not> st_writing st'" "answered st tag dlen acts"
  shows "good b st tag dlen (Ret (st', acts))"
  unfolding good_def using assms msc_inv_idle [OF assms(1-3)]
  by (intro exI [of _ st'] exI [of _ acts]) simp

lemma good_csw: "msc_inv b st \<Longrightarrow> \<not> st_writing st \<Longrightarrow> good b st tag dlen (Ret (st, msc_csw st tag 0 0))"
  by (intro goodI answered_csw) simp_all

lemma upd_lun_writing [simp]: "st_writing (upd_lun i f st) = st_writing st"
  by (simp add: upd_lun_def)

lemma good_fail:
  assumes "msc_inv b st" "\<not> st_writing st"
  shows "good b st tag dlen (Ret (msc_fail st i tag dlen s))"
proof -
  obtain k a q where s: "s = (k, a, q)" by (metis prod_cases3)
  obtain acts where acts: "msc_fail st i tag dlen s = (upd_lun i (set_sense k a q) st, acts)"
    by (simp add: msc_fail_def s)
  then have "answered st tag dlen acts" using answered_fail [of st tag dlen i s] by simp
  with assms show ?thesis unfolding acts by (intro goodI) simp_all
qed

lemma good_data:
  assumes "msc_inv b st" "same_disk st st'" "\<not> st_writing st'" "unat n \<le> length d" "unat n < 2 ^ 31"
  shows "good b st tag dlen (pass st' (msc_data_in st tag dlen d n))"
proof -
  obtain acts where "msc_data_in st tag dlen d n = Ret acts" "answered st tag dlen acts"
    using data_in_answers [OF assms(4,5)] by blast
  with assms(1-3) goodI show ?thesis by (simp add: pass_def)
qed

lemma good_reply:
  assumes "msc_inv b st" "\<not> st_writing st" "length d < 2 ^ 31"
  shows "good b st tag dlen (pass st (msc_data_in st tag dlen d (of_nat (length d))))"
  using assms by (intro good_data) (simp_all add: unat_of_nat)

lemma good_sense:
  assumes "msc_inv b st" "\<not> st_writing st"
  shows "good b st tag dlen (pass (upd_lun i (set_sense 0 0 0) st) (msc_data_in st tag dlen (request_sense l) 18))"
  using assms by (intro good_data) (simp_all add: request_sense_def)

context block_backend
begin

lemma good_read:
  assumes o: "o_backend (st_opts st) = bk" and b: "ok b" and inv: "msc_inv b st" "\<not> st_writing st"
  shows "good b st tag dlen (scsi_read b st i tag dlen lba n)"
proof (cases "out_of_range lba n (bk_num_blocks bk b (ls_user (st_lun st ! i)))")
  case True
  then show ?thesis using good_fail [OF inv] by (simp add: scsi_read_def o)
next
  case False
  then have r: "unat lba + unat n \<le> nblk bk b (ls_user (st_lun st ! i))" by (simp add: in_range_iff)
  note le = image_range [OF r] length_image [OF b, of "ls_user (st_lun st ! i)"]
  have "good b st tag dlen (pass st (msc_data_in st tag dlen
      (bytes_at (unat lba * blksz bk b (ls_user (st_lun st ! i))) (unat n * blksz bk b (ls_user (st_lun st ! i))) (image b (ls_user (st_lun st ! i))))
      (n * bk_block_size bk b (ls_user (st_lun st ! i)))))"
    using inv le range_fits [OF b r] unat_bytes [OF b r] by (intro good_data) simp_all
  then show ?thesis using False read_law [OF b r] by (simp add: scsi_read_def o Let_def)
qed

lemma good_write:
  assumes o: "o_backend (st_opts st) = bk" and b: "ok b" and inv: "msc_inv b st" "\<not> st_writing st"
    and i: "i < st_n_luns st" and tag: "length tag = 4"
  shows "good b st tag dlen (Ret (scsi_write b st i tag dlen op lba n))"
proof (cases "ls_read_only (st_lun st ! i) \<or> out_of_range lba n (bk_num_blocks bk b (ls_user (st_lun st ! i)))")
  case True
  then show ?thesis using good_fail [OF inv] by (auto simp: scsi_write_def o Let_def)
next
  case False
  then have r: "unat lba + unat n \<le> nblk bk b (ls_user (st_lun st ! i))" by (simp add: in_range_iff)
  show ?thesis using False inv i tag r unat_bytes [OF b r]
    by (simp add: good_def scsi_write_def o Let_def same_disk_def msc_inv_def)
qed

lemma length_replies:
  "length (build_inquiry opts l) < 2 ^ 31" "build_vpd l pg = Some d \<Longrightarrow> length d < 2 ^ 31"
  "length (build_format_capacities l blks sz) < 2 ^ 31"
  "length (mode_sense l blks sz ten pg) < 2 ^ 31"
proof -
  show "length (build_inquiry opts l) < 2 ^ 31" by (simp add: build_inquiry_def set_str_def Let_def)
  show "build_vpd l pg = Some d \<Longrightarrow> length d < 2 ^ 31" by (auto simp: build_vpd_def Let_def split: if_splits)
  have "length (put_capacity_desc a c ty) = 8" for a c ty by (simp add: put_capacity_desc_def)
  then show "length (build_format_capacities l blks sz) < 2 ^ 31"
    by (simp add: build_format_capacities_def FLOPPY_FORMATS_def Let_def)
  have "length (build_flex_page blks sz) = 32" by (simp add: build_flex_page_def Let_def split: prod.split)
  then show "length (mode_sense l blks sz ten pg) < 2 ^ 31" by (simp add: mode_sense_def Let_def)
qed

lemma good_dispatch:
  assumes o: "o_backend (st_opts st) = bk" and b: "ok b" and inv: "msc_inv b st" "\<not> st_writing st"
    and i: "i < st_n_luns st" and tag: "length tag = 4"
  shows "good b st tag dlen (dispatch b st i tag dlen cdb)"
proof -
  note leaf = good_csw [OF inv] good_fail [OF inv] good_reply [OF inv] good_sense [OF inv]
    good_read [OF o b inv] good_write [OF o b inv i tag] good_data [OF inv(1) same_disk_refl inv(2)]
  show ?thesis unfolding dispatch_def Let_def o
    by (simp add: leaf [simplified] length_replies [simplified] read_toc_def split: option.split prod.split)
qed

end


section \<open>The data phase of a write\<close>

text \<open>What is left of the buffer, and what a packet does to it.\<close>

definition more_data :: "bytes \<Rightarrow> 'b msc_state \<Rightarrow> 'b msc_state" where
  "more_data d st = st\<lparr>st_wbuf := st_wbuf st @ d, st_wgot := st_wgot st + of_nat (length d)\<rparr>"

definition write_done :: "bytes \<Rightarrow> 'b msc_state \<Rightarrow> 'b msc_state" where
  "write_done d st = (more_data d st)\<lparr>st_wbuf := [], st_writing := False\<rparr>"

lemma same_disk_more_data [simp]: "same_disk st (more_data d st)" "same_disk st (write_done d st)"
  by (simp_all add: same_disk_def more_data_def write_done_def)

context block_backend
begin

abbreviation "wuser st \<equiv> ls_user (st_lun st ! st_wlun st)"

lemma writing_facts:
  assumes o: "o_backend (st_opts st) = bk" and b: "ok b" and inv: "msc_inv b st" and w: "st_writing st"
  shows "st_wlun st < st_n_luns st" "\<not> ls_read_only (st_lun st ! st_wlun st)" "length (st_wtag st) = 4"
    "length (st_wbuf st) = unat (st_wgot st)" "unat (st_wgot st) \<le> unat (st_wneed st)"
    "unat (st_wneed st) = unat (st_wcount st) * blksz bk b (wuser st)"
    "unat (st_wlba st) + unat (st_wcount st) \<le> nblk bk b (wuser st)"
    "unat (st_wneed st) < 2 ^ 31"
proof -
  show f: "st_wlun st < st_n_luns st" "\<not> ls_read_only (st_lun st ! st_wlun st)" "length (st_wtag st) = 4"
    "length (st_wbuf st) = unat (st_wgot st)" "unat (st_wgot st) \<le> unat (st_wneed st)"
    "unat (st_wneed st) = unat (st_wcount st) * blksz bk b (wuser st)"
    "unat (st_wlba st) + unat (st_wcount st) \<le> nblk bk b (wuser st)"
    using inv w o by (simp_all add: msc_inv_def Let_def word_le_nat_alt)
  show "unat (st_wneed st) < 2 ^ 31" using range_fits [OF b f(7)] f(6) by simp
qed

lemma write_data_eq:
  assumes o: "o_backend (st_opts st) = bk" and b: "ok b" and inv: "msc_inv b st" and w: "st_writing st"
    and d: "length d < 2 ^ 31"
  shows "msc_write_data b st d =
    (if unat (st_wgot st) + length d < unat (st_wneed st) then Ret (b, more_data d st, [])
     else (let x = take (unat (st_wneed st) - unat (st_wgot st)) d;
               (b', rc) = bk_write bk b (wuser st) (st_wlba st) (st_wcount st) (st_wbuf st @ x)
           in Ret (b', write_done x st, msc_csw st (st_wtag st) 0 (if rc = 0 then 0 else 1))))"
proof -
  note f = writing_facts [OF o b inv w]
  let ?g = "unat (st_wgot st)" and ?w = "unat (st_wneed st)" and ?n = "of_nat (length d) :: u32"
  have n: "unat ?n = length d" using d by (simp add: unat_of_nat)
  have sum: "unat (st_wgot st + ?n) = ?g + length d"
    using f(5,8) d n by (subst unat_add_lem [THEN iffD1]) simp_all
  have gt: "st_wgot st + ?n > st_wneed st \<longleftrightarrow> ?g + length d > ?w" by (simp add: word_less_nat_alt sum)
  have rest: "unat (st_wneed st - st_wgot st) = ?w - ?g" using f(5) by (simp add: unat_sub word_le_nat_alt)
  define m where "m = (if st_wgot st + ?n > st_wneed st then st_wneed st - st_wgot st else ?n)"
  have m: "unat m = (if ?g + length d > ?w then ?w - ?g else length d)"
    using gt rest n by (simp add: m_def)
  have gm: "unat (st_wgot st + m) = ?g + unat m"
    using f(5,8) d m by (subst unat_add_lem [THEN iffD1]) (auto split: if_splits)
  define x where "x = take (unat m) d"
  have lx: "length x = unat m" using m by (auto simp: x_def)
  then have mx: "m = of_nat (length x)" by (simp add: lx)
  have st1: "st\<lparr>st_wbuf := st_wbuf st @ x, st_wgot := st_wgot st + m\<rparr> = more_data x st"
    by (simp add: more_data_def mx)
  have sel: "st_wneed (more_data x st) = st_wneed st" "st_wgot (more_data x st) = st_wgot st + m"
    "st_wbuf (more_data x st) = st_wbuf st @ x" "st_opts (more_data x st) = st_opts st"
    "st_lun (more_data x st) = st_lun st" "st_wlun (more_data x st) = st_wlun st" "st_wlba (more_data x st) = st_wlba st"
    "st_wcount (more_data x st) = st_wcount st" "st_wtag (more_data x st) = st_wtag st" "st_in (more_data x st) = st_in st"
    by (simp_all add: more_data_def mx)
  have ge: "st_wgot st + m \<ge> st_wneed st \<longleftrightarrow> \<not> ?g + length d < ?w"
    using m gm f(5) by (auto simp: word_le_nat_alt)
  have nu: "\<not> ?g + unat m > ?w" using m f(5) by auto
  have fit: "\<not> unat (st_wcount st) * blksz bk b (wuser st) > ?w" using f(6) by simp
  have x': "x = (if ?g + length d < ?w then d else take (?w - ?g) d)" using m by (auto simp: x_def)
  have "msc_write_data b st d =
    (if \<not> ?g + length d < ?w then
       (let (b', rc) = bk_write bk b (wuser st) (st_wlba st) (st_wcount st) (st_wbuf st @ x)
        in Ret (b', write_done x st, msc_csw st (st_wtag st) 0 (if rc = 0 then 0 else 1)))
     else Ret (b, more_data x st, []))"
    unfolding msc_write_data_def Let_def m_def [symmetric] x_def [symmetric] st1
    using nu fit o ge by (simp add: sel write_done_def msc_csw_def split: prod.split)
  then show ?thesis by (simp add: x' Let_def)
qed

section \<open>Any packet\<close>

text \<open>The media as a whole: only the unit of a write in flight may change, and only if it is neither
  read-only for the class nor for the backend.\<close>

definition media_kept :: "'b msc_state \<Rightarrow> 'b \<Rightarrow> 'b \<Rightarrow> bool" where
  "media_kept st b b' \<longleftrightarrow> bk_num_blocks bk b' = bk_num_blocks bk b \<and> bk_block_size bk b' = bk_block_size bk b
     \<and> writable b' = writable b
     \<and> (\<forall>u. image b' u \<noteq> image b u \<longrightarrow> writable b u \<and> (\<exists>i < st_n_luns st. ls_user (st_lun st ! i) = u \<and> \<not> ls_read_only (st_lun st ! i)))"

lemma media_kept_refl [simp]: "media_kept st b b" by (simp add: media_kept_def)

lemma media_kept_trans:
  assumes "media_kept st a b" "media_kept st' b c" "same_disk st st'" "st_n_luns st = length (st_lun st)"
  shows "media_kept st a c"
  unfolding media_kept_def
proof (intro conjI allI impI)
  fix u assume ne: "image c u \<noteq> image a u"
  have "writable a u \<and> (\<exists>i < st_n_luns st. ls_user (st_lun st ! i) = u \<and> \<not> ls_read_only (st_lun st ! i))"
  proof (cases "image b u = image a u")
    case False
    with assms(1) show ?thesis by (simp add: media_kept_def)
  next
    case True
    with ne assms(2) have "writable b u" "\<exists>i < st_n_luns st'. ls_user (st_lun st' ! i) = u \<and> \<not> ls_read_only (st_lun st' ! i)"
      by (simp_all add: media_kept_def)
    with assms(1,3,4) show ?thesis by (fastforce simp: media_kept_def same_disk_def)
  qed
  then show "writable a u" "\<exists>i < st_n_luns st. ls_user (st_lun st ! i) = u \<and> \<not> ls_read_only (st_lun st ! i)" by auto
qed (use assms in \<open>simp_all add: media_kept_def\<close>)

lemma on_out_writing:
  assumes o: "o_backend (st_opts st) = bk" and b: "ok b" and inv: "msc_inv b st" and w: "st_writing st"
    and d: "length d < 2 ^ 31"
  shows "\<exists>b' st' acts. msc_on_out b st d = Ret (b', st', acts) \<and> ok b' \<and> msc_inv b' st' \<and> same_disk st st'
     \<and> media_kept st b b'"
proof (cases "unat (st_wgot st) + length d < unat (st_wneed st)")
  case True
  have "unat (st_wgot st + of_nat (length d)) = unat (st_wgot st) + length d"
    using True d writing_facts(8) [OF o b inv w] by (subst unat_add_lem [THEN iffD1]) (simp_all add: unat_of_nat)
  then have "msc_inv b (more_data d st)" using inv w True
    by (simp add: msc_inv_def more_data_def Let_def word_le_nat_alt)
  then show ?thesis using True w b write_data_eq [OF o b inv w d] by (simp add: msc_on_out_def)
next
  case False
  note f = writing_facts [OF o b inv w]
  let ?x = "take (unat (st_wneed st) - unat (st_wgot st)) d"
  obtain b' rc where r: "bk_write bk b (wuser st) (st_wlba st) (st_wcount st) (st_wbuf st @ ?x) = (b', rc)"
    by fastforce
  have e: "msc_on_out b st d = Ret (b', write_done ?x st, msc_csw st (st_wtag st) 0 (if rc = 0 then 0 else 1))"
    using False w write_data_eq [OF o b inv w d] r by (simp add: msc_on_out_def)
  have len: "length (st_wbuf st @ ?x) = unat (st_wcount st) * blksz bk b (wuser st)"
    using f False by (simp add: min_absorb2)
  have "ok b' \<and> media_kept st b b'"
  proof (cases "writable b (wuser st)")
    case True
    with write_law [OF b f(7) len True r] f(1,2) show ?thesis by (auto simp: media_kept_def)
  next
    case False
    with write_refused [OF False r] b show ?thesis by simp
  qed
  moreover have "msc_inv b' (write_done ?x st)"
    using inv by (simp add: msc_inv_def write_done_def more_data_def)
  ultimately show ?thesis using e by simp
qed

lemma msc_inv_cbw_in: "msc_inv b (st\<lparr>st_cbw_in := c\<rparr>) = msc_inv b st" "same_disk (st\<lparr>st_cbw_in := c\<rparr>) st' = same_disk st st'"
  by (simp_all add: msc_inv_def same_disk_def)

lemma on_out_idle:
  assumes o: "o_backend (st_opts st) = bk" and b: "ok b" and inv: "msc_inv b st" and w: "\<not> st_writing st"
  shows "\<exists>st' acts. msc_on_out b st d = Ret (b, st', acts) \<and> msc_inv b st' \<and> same_disk st st'
     \<and> (is_cbw d \<longrightarrow> (if st_writing st' then acts = []
          else answered (st\<lparr>st_cbw_in := (d ! 12 AND 0x80 \<noteq> 0)\<rparr>) (bytes_at 4 4 d) (usb_get_le32 d 8) acts))
     \<and> (\<not> is_cbw d \<longrightarrow> st' = st \<and> acts = [])"
proof (cases "is_cbw d")
  case False
  then show ?thesis using w inv by (simp add: msc_on_out_def)
next
  case True
  let ?st = "st\<lparr>st_cbw_in := (d ! 12 AND 0x80 \<noteq> 0)\<rparr>" and ?i = "unat (d ! 13 AND 0x0F)"
  have inv': "msc_inv b ?st" "\<not> st_writing ?st" "o_backend (st_opts ?st) = bk"
    using inv w o by (simp_all add: msc_inv_cbw_in)
  have tag: "length (bytes_at 4 4 d) = 4" using True by (simp add: is_cbw_def)
  have "\<exists>r. msc_on_out b st d = (case r of Ret (st, acts) \<Rightarrow> Ret (b, st, acts) | Err e \<Rightarrow> Err e | Undefined \<Rightarrow> Undefined)
      \<and> good b ?st (bytes_at 4 4 d) (usb_get_le32 d 8) r"
  proof (cases "?i < st_n_luns st")
    case True
    then have "good b ?st (bytes_at 4 4 d) (usb_get_le32 d 8) (dispatch b ?st ?i (bytes_at 4 4 d) (usb_get_le32 d 8) (drop 15 d))"
      by (intro good_dispatch [OF inv'(3) b inv'(1,2) _ tag]) simp
    with True w \<open>is_cbw d\<close> show ?thesis by (auto simp: msc_on_out_def Let_def)
  next
    case False
    with w \<open>is_cbw d\<close> show ?thesis
      using good_fail [OF inv'(1,2), of "bytes_at 4 4 d" "usb_get_le32 d 8" 0 SENSE_LUN_NOT_SUPPORTED]
      by (intro exI [of _ "Ret (msc_fail ?st 0 (bytes_at 4 4 d) (usb_get_le32 d 8) SENSE_LUN_NOT_SUPPORTED)"])
        (simp add: msc_on_out_def Let_def split: prod.split)
  qed
  then obtain st' acts where "msc_on_out b st d = Ret (b, st', acts)" "same_disk st st'" "msc_inv b st'"
    "if st_writing st' then acts = [] else answered ?st (bytes_at 4 4 d) (usb_get_le32 d 8) acts"
    by (auto simp: good_def msc_inv_cbw_in)
  then show ?thesis using True by (intro exI [of _ st'] exI [of _ acts]) simp
qed

text \<open>A sequence of packets, the actions in order.\<close>

end

fun msc_run :: "'b \<Rightarrow> 'b msc_state \<Rightarrow> bytes list \<Rightarrow> ('b \<times> 'b msc_state \<times> ep_act list) cresult" where
  "msc_run b st [] = Ret (b, st, [])"
| "msc_run b st (d # ds) = (case msc_on_out b st d of
     Ret (b, st, acts) \<Rightarrow> (case msc_run b st ds of
        Ret (b, st, acts') \<Rightarrow> Ret (b, st, acts @ acts') | Err e \<Rightarrow> Err e | Undefined \<Rightarrow> Undefined)
   | Err e \<Rightarrow> Err e | Undefined \<Rightarrow> Undefined)"

lemma msc_run_append:
  "msc_run b st ds = Ret (b1, st1, a1) \<Longrightarrow> msc_run b1 st1 es = Ret (b2, st2, a2) \<Longrightarrow>
   msc_run b st (ds @ es) = Ret (b2, st2, a1 @ a2)"
  by (induction ds arbitrary: b st a1) (auto split: cresult.splits)

context block_backend
begin

lemma run_any:
  "o_backend (st_opts st) = bk \<Longrightarrow> ok b \<Longrightarrow> msc_inv b st \<Longrightarrow> \<forall>d \<in> set ds. length d < 2 ^ 31 \<Longrightarrow>
   \<exists>b' st' acts. msc_run b st ds = Ret (b', st', acts) \<and> ok b' \<and> msc_inv b' st' \<and> same_disk st st' \<and> media_kept st b b'"
proof (induction ds arbitrary: b st)
  case Nil
  then show ?case by simp
next
  case (Cons d ds)
  have "\<exists>b' st' acts. msc_on_out b st d = Ret (b', st', acts) \<and> ok b' \<and> msc_inv b' st' \<and> same_disk st st' \<and> media_kept st b b'"
    using on_out_writing [OF Cons.prems(1-3), of d] on_out_idle [OF Cons.prems(1-3), of d] Cons.prems(2,4)
    by (cases "st_writing st") (fastforce, auto)
  then obtain b1 st1 acts where 1: "msc_on_out b st d = Ret (b1, st1, acts)" "ok b1" "msc_inv b1 st1"
    "same_disk st st1" "media_kept st b b1" by blast
  have "o_backend (st_opts st1) = bk" using 1(4) Cons.prems(1) by (simp add: same_disk_def)
  from Cons.IH [OF this 1(2,3)] Cons.prems(4) obtain b2 st2 acts2 where 2: "msc_run b1 st1 ds = Ret (b2, st2, acts2)"
    "ok b2" "msc_inv b2 st2" "same_disk st1 st2" "media_kept st1 b1 b2" by auto
  have "media_kept st b b2" using media_kept_trans [OF 1(5) 2(5) 1(4)] Cons.prems(3) by (simp add: msc_inv_def)
  with 1 2 same_disk_trans [OF 1(4) 2(4)] show ?case by simp
qed

text \<open>The data phase in any segmentation: one backend write of all the bytes, and its CSW.\<close>

lemma run_data_phase:
  "o_backend (st_opts st) = bk \<Longrightarrow> ok b \<Longrightarrow> msc_inv b st \<Longrightarrow> st_writing st \<Longrightarrow> ds \<noteq> [] \<Longrightarrow> [] \<notin> set ds \<Longrightarrow>
   unat (st_wgot st) + length (concat ds) = unat (st_wneed st) \<Longrightarrow>
   bk_write bk b (wuser st) (st_wlba st) (st_wcount st) (st_wbuf st @ concat ds) = (b', rc) \<Longrightarrow>
   \<exists>st'. msc_run b st ds = Ret (b', st', msc_csw st (st_wtag st) 0 (if rc = 0 then 0 else 1))
     \<and> same_disk st st' \<and> \<not> st_writing st' \<and> st_lun st' = st_lun st"
proof (induction ds arbitrary: st)
  case Nil
  then show ?case by simp
next
  case (Cons d ds)
  note f = writing_facts [OF Cons.prems(1-4)]
  have d: "length d < 2 ^ 31" using Cons.prems(7) f(8) by simp
  note e = write_data_eq [OF Cons.prems(1-4) d]
  show ?case
  proof (cases "ds = []")
    case True
    with Cons.prems e have "msc_on_out b st d = Ret (b', write_done d st, msc_csw st (st_wtag st) 0 (if rc = 0 then 0 else 1))"
      by (simp add: msc_on_out_def)
    with True show ?thesis by (simp add: write_done_def more_data_def same_disk_def)
  next
    case False
    with Cons.prems(6) have "0 < length (concat ds)" by (cases ds) auto
    with Cons.prems(7) have lt: "unat (st_wgot st) + length d < unat (st_wneed st)"
      unfolding concat.simps length_append by linarith
    with Cons.prems(4) e have 1: "msc_on_out b st d = Ret (b, more_data d st, [])" by (simp add: msc_on_out_def)
    have g: "unat (st_wgot st + of_nat (length d)) = unat (st_wgot st) + length d"
      using lt d f(8) by (subst unat_add_lem [THEN iffD1]) (simp_all add: unat_of_nat)
    have "msc_inv b (more_data d st)" using Cons.prems(3,4) lt g
      by (simp add: msc_inv_def more_data_def Let_def word_le_nat_alt)
    then have "\<exists>st'. msc_run b (more_data d st) ds = Ret (b', st', msc_csw (more_data d st) (st_wtag (more_data d st)) 0 (if rc = 0 then 0 else 1))
        \<and> same_disk (more_data d st) st' \<and> \<not> st_writing st' \<and> st_lun st' = st_lun (more_data d st)"
      using Cons.prems False g by (intro Cons.IH) (simp_all add: more_data_def)
    then obtain st' where "msc_run b (more_data d st) ds = Ret (b', st', msc_csw st (st_wtag st) 0 (if rc = 0 then 0 else 1))"
      "same_disk (more_data d st) st'" "\<not> st_writing st'" "st_lun st' = st_lun st"
      by (auto simp: more_data_def msc_csw_def)
    with 1 same_disk_trans [of st "more_data d st"] show ?thesis by auto
  qed
qed

end

section \<open>The file backend is one\<close>

definition disks_ok :: "(nat \<Rightarrow> disk) \<Rightarrow> bool" where
  "disks_ok ds \<longleftrightarrow> (\<forall>u. unat (dk_num_blocks (ds u)) * unat (dk_block_size (ds u)) \<le> length (dk_file (ds u))
     \<and> unat (dk_num_blocks (ds u)) * unat (dk_block_size (ds u)) < 2 ^ 31)"

definition disk_image :: "(nat \<Rightarrow> disk) \<Rightarrow> nat \<Rightarrow> bytes" where
  "disk_image ds u = take (unat (dk_num_blocks (ds u)) * unat (dk_block_size (ds u))) (dk_file (ds u))"

definition disk_writable :: "(nat \<Rightarrow> disk) \<Rightarrow> nat \<Rightarrow> bool" where
  "disk_writable ds u = dk_writable (ds u)"

lemma blocks_le: "l + n \<le> m \<Longrightarrow> l * k + n * k \<le> m * (k :: nat)"
  by (metis add_mult_distrib mult_le_mono1)

lemma file_put_in_place: "off + length d \<le> length f \<Longrightarrow> file_put off d f = put_at off d f"
  by (auto simp: file_put_def put_at_def)

interpretation file_disk: block_backend disk_backend disks_ok disk_writable disk_image
proof unfold_locales
  fix ds u assume ok: "disks_ok ds"
  then have cap: "unat (dk_num_blocks (ds u)) * unat (dk_block_size (ds u)) \<le> length (dk_file (ds u))"
    "unat (dk_num_blocks (ds u)) * unat (dk_block_size (ds u)) < 2 ^ 31" by (simp_all add: disks_ok_def)
  then show "length (disk_image ds u) = nblk disk_backend ds u * blksz disk_backend ds u"
    "nblk disk_backend ds u * blksz disk_backend ds u < 2 ^ 31"
    by (simp_all add: disk_image_def disk_backend_def disk_num_blocks_def disk_block_size_def)
  fix lba n :: u32 assume r: "unat lba + unat n \<le> nblk disk_backend ds u"
  let ?bs = "unat (dk_block_size (ds u))" and ?nb = "unat (dk_num_blocks (ds u))"
  have le: "unat lba * ?bs + unat n * ?bs \<le> ?nb * ?bs"
    using r by (intro blocks_le) (simp add: disk_backend_def disk_num_blocks_def)
  then have "take (unat n * ?bs) (drop (unat lba * ?bs) (dk_file (ds u))) = bytes_at (unat lba * ?bs) (unat n * ?bs) (disk_image ds u)"
    by (simp add: bytes_at_def disk_image_def drop_take min_absorb1)
  moreover have "length (take (unat n * ?bs) (drop (unat lba * ?bs) (dk_file (ds u)))) = unat n * ?bs"
    using le cap by simp
  moreover have "unat n * ?bs \<le> length (dk_file (ds u)) - unat lba * ?bs" using le cap by simp
  ultimately show "bk_read disk_backend ds u lba n
      = (0, bytes_at (unat lba * blksz disk_backend ds u) (unat n * blksz disk_backend ds u) (disk_image ds u))"
    by (simp add: disk_backend_def disk_read_def disk_block_size_def Let_def min_absorb2)
  fix d ds' rc
  assume d: "length d = unat n * blksz disk_backend ds u" and w: "disk_writable ds u"
    and e: "bk_write disk_backend ds u lba n d = (ds', rc)"
  have d': "length d = unat n * ?bs" using d by (simp add: disk_backend_def disk_block_size_def)
  have fp: "file_put (unat lba * ?bs) d (dk_file (ds u)) = put_at (unat lba * ?bs) d (dk_file (ds u))"
    using le cap d' by (intro file_put_in_place) simp
  have ds': "ds' = ds(u := (ds u)\<lparr>dk_file := put_at (unat lba * ?bs) d (dk_file (ds u))\<rparr>)" "rc = 0"
    using e w d' fp by (simp_all add: disk_backend_def disk_write_def disk_writable_def Let_def)
  have "length (put_at (unat lba * ?bs) d (dk_file (ds u))) = length (dk_file (ds u))"
    using le cap d' by (intro length_put_at) simp
  then have "disks_ok ds'" using ok by (simp add: disks_ok_def ds')
  moreover have "take (?nb * ?bs) (put_at (unat lba * ?bs) d (dk_file (ds u))) = put_at (unat lba * ?bs) d (take (?nb * ?bs) (dk_file (ds u)))"
    using le cap d' by (simp add: put_at_def min_absorb1 min_absorb2 take_drop add.commute min.commute)
  then have "disk_image ds' = (disk_image ds)(u := put_at (unat lba * ?bs) d (disk_image ds u))"
    by (intro ext) (simp add: disk_image_def ds')
  ultimately show "rc = 0 \<and> disks_ok ds' \<and> bk_num_blocks disk_backend ds' = bk_num_blocks disk_backend ds
      \<and> bk_block_size disk_backend ds' = bk_block_size disk_backend ds \<and> disk_writable ds' = disk_writable ds
      \<and> disk_image ds' = (disk_image ds)(u := put_at (unat lba * blksz disk_backend ds u) d (disk_image ds u))"
    by (auto simp: ds' disk_backend_def disk_num_blocks_def disk_block_size_def disk_writable_def fun_eq_iff)
next
  fix ds u lba n d ds' rc
  assume "\<not> disk_writable ds u" "bk_write disk_backend ds u lba n d = (ds', rc)"
  then show "rc \<noteq> 0 \<and> ds' = ds" by (simp add: disk_backend_def disk_write_def disk_writable_def Let_def)
qed

section \<open>Command wrappers\<close>

definition cbw :: "bytes \<Rightarrow> u32 \<Rightarrow> u8 \<Rightarrow> nat \<Rightarrow> bytes \<Rightarrow> bytes" where
  "cbw tag dlen flags lun cdb = cstr ''USBC'' @ tag @ le_bytes 4 dlen
     @ [flags, of_nat lun, of_nat (length cdb)] @ cdb @ replicate (16 - length cdb) 0"

definition cdb10 :: "u8 \<Rightarrow> u32 \<Rightarrow> u16 \<Rightarrow> bytes" where
  "cdb10 op lba n = [op, 0] @ rev (le_bytes 4 lba) @ [0] @ rev (le_bytes 2 n) @ [0]"

definition request_sense_cdb :: bytes where
  "request_sense_cdb = [0x03, 0, 0, 0, 18, 0]"

lemma length_USBC [simp]: "length (cstr ''USBC'') = 4" by (simp add: cstr_def)

lemma cbw_fields:
  assumes "length tag = 4" "length cdb \<le> 16" "lun < 16"
  shows "is_cbw (cbw tag dlen flags lun cdb)" "bytes_at 4 4 (cbw tag dlen flags lun cdb) = tag"
    "usb_get_le32 (cbw tag dlen flags lun cdb) 8 = dlen" "cbw tag dlen flags lun cdb ! 12 = flags"
    "unat (cbw tag dlen flags lun cdb ! 13 AND 0x0F) = lun"
    "drop 15 (cbw tag dlen flags lun cdb) = cdb @ replicate (16 - length cdb) 0"
proof -
  show "is_cbw (cbw tag dlen flags lun cdb)" "bytes_at 4 4 (cbw tag dlen flags lun cdb) = tag"
    "usb_get_le32 (cbw tag dlen flags lun cdb) 8 = dlen" "cbw tag dlen flags lun cdb ! 12 = flags"
    "drop 15 (cbw tag dlen flags lun cdb) = cdb @ replicate (16 - length cdb) 0"
    using assms by (simp_all add: cbw_def is_cbw_def bytes_at_def usb_get_le32_def nth_append)
  have "(0x0F :: u8) = mask 4" by (simp add: mask_eq_exp_minus_1)
  then have "(of_nat lun :: u8) AND 0x0F = take_bit 4 (of_nat lun)" by (simp only: take_bit_eq_mask)
  then have "unat ((of_nat lun :: u8) AND 0x0F) = lun"
    using assms(3) by (simp add: unsigned_take_bit_eq unat_of_nat take_bit_nat_eq_self)
  then show "unat (cbw tag dlen flags lun cdb ! 13 AND 0x0F) = lun"
    using assms by (simp add: cbw_def nth_append)
qed

lemma length_cdb10 [simp]: "length (cdb10 op lba n) = 10" by (simp add: cdb10_def)

lemma cdb10_range: "rw_range False (cdb10 op lba n @ z) = (lba, ucast n)" "(cdb10 op lba n @ z) ! 0 = op"
  by (simp_all add: rw_range_def cdb10_def usb_get_be32_def usb_get_be16_def bytes_at_def)

section \<open>Reading back\<close>

text \<open>A command to a unit the disk has, with the rest of the state named.\<close>

lemma on_out_cbw:
  assumes "\<not> st_writing st" "length tag = 4" "length cdb \<le> 16" "i < 16" "i < st_n_luns st"
  shows "msc_on_out b st (cbw tag dlen flags i cdb) =
    (case dispatch b (st\<lparr>st_cbw_in := (flags AND 0x80 \<noteq> 0)\<rparr>) i tag dlen (cdb @ replicate (16 - length cdb) 0) of
       Ret (st, acts) \<Rightarrow> Ret (b, st, acts) | Err e \<Rightarrow> Err e | Undefined \<Rightarrow> Undefined)"
  using assms cbw_fields [OF assms(2-4)] by (simp add: msc_on_out_def Let_def)

context block_backend
begin

lemma dispatch_write10:
  assumes o: "o_backend (st_opts st) = bk" and ro: "\<not> ls_read_only (st_lun st ! i)"
    and r: "unat lba + unat (ucast n :: u32) \<le> nblk bk b (ls_user (st_lun st ! i))"
  shows "dispatch b st i tag dlen (cdb10 0x2A lba n @ z) =
    Ret (st\<lparr>st_writing := True, st_wop := 0x2A, st_wlun := i, st_wtag := tag, st_wlba := lba, st_wcount := ucast n,
      st_wneed := ucast n * bk_block_size bk b (ls_user (st_lun st ! i)), st_wgot := 0, st_wbuf := []\<rparr>, [])"
  using o ro r by (simp add: dispatch_def Let_def cdb10_range scsi_write_def in_range_iff [THEN iffD2])

lemma dispatch_read10:
  assumes o: "o_backend (st_opts st) = bk" and b: "ok b"
    and r: "unat lba + unat (ucast n :: u32) \<le> nblk bk b (ls_user (st_lun st ! i))"
    and bs: "bs = blksz bk b (ls_user (st_lun st ! i))" and pos: "0 < unat (ucast n :: u32) * bs"
  shows "dispatch b st i tag (of_nat (unat (ucast n :: u32) * bs)) (cdb10 0x28 lba n @ z) =
    Ret (st, ep_write (st_in st) (bytes_at (unat lba * bs) (unat (ucast n :: u32) * bs) (image b (ls_user (st_lun st ! i))))
      @ msc_csw st tag 0 0)"
proof -
  let ?u = "ls_user (st_lun st ! i)" and ?n = "ucast n :: u32"
  let ?d = "bytes_at (unat lba * bs) (unat ?n * bs) (image b ?u)"
  have len: "length ?d = unat ?n * bs"
    using image_range [OF r] length_image [OF b, of ?u] by (simp add: bs)
  have w: "?n * bk_block_size bk b ?u = of_nat (unat ?n * bs)"
    by (simp add: bs)
  have u: "unat (of_nat (unat ?n * bs) :: u32) = unat ?n * bs"
    using unat_bytes [OF b r] bs unfolding w [symmetric] by simp
  have "msc_data_in st tag (of_nat (unat ?n * bs)) ?d (of_nat (unat ?n * bs)) = Ret (ep_write (st_in st) ?d @ msc_csw st tag 0 0)"
    using u pos len range_fits [OF b r] bs by (auto simp: msc_data_in_def Let_def unat_eq_zero [symmetric])
  then show ?thesis
    using r by (simp add: dispatch_def Let_def cdb10_range scsi_read_def in_range_iff [THEN iffD2] o
        read_law [OF b r] pass_def w flip: bs)
qed

lemma write_then_read:
  assumes o: "o_backend (st_opts st) = bk" and b: "ok b" and inv: "msc_inv b st" and w: "\<not> st_writing st"
    and i: "i < st_n_luns st" and ro: "\<not> ls_read_only (st_lun st ! i)" and u: "u = ls_user (st_lun st ! i)"
    and wr: "writable b u" and r: "unat lba + unat (ucast n :: u32) \<le> nblk bk b u"
    and d: "concat pkts = d" "[] \<notin> set pkts" "pkts \<noteq> []" "length d = unat (ucast n :: u32) * blksz bk b u"
    and t: "length t1 = 4" "length t2 = 4"
  shows "\<exists>b' st'. msc_run b st (cbw t1 (of_nat (length d)) 0 i (cdb10 0x2A lba n) # pkts
        @ [cbw t2 (of_nat (length d)) 0x80 i (cdb10 0x28 lba n)])
      = Ret (b', st', ep_write (st_in st) (csw_bytes t1 0 0) @ ep_write (st_in st) d @ ep_write (st_in st) (csw_bytes t2 0 0))
    \<and> image b' = (image b)(u := put_at (unat lba * blksz bk b u) d (image b u))"
proof -
  let ?n = "ucast n :: u32" and ?bs = "bk_block_size bk b u"
  let ?w = "st\<lparr>st_cbw_in := False, st_writing := True, st_wop := 0x2A, st_wlun := i, st_wtag := t1, st_wlba := lba, st_wcount := ?n,
      st_wneed := ?n * ?bs, st_wgot := 0, st_wbuf := []\<rparr>"
  have i16: "i < 16" using i inv by (simp add: msc_inv_def)
  have 1: "msc_run b st [cbw t1 (of_nat (length d)) 0 i (cdb10 0x2A lba n)] = Ret (b, ?w, [])"
    using on_out_cbw [OF w t(1) _ i16 i, of "cdb10 0x2A lba n"] dispatch_write10 [of "st\<lparr>st_cbw_in := False\<rparr>" i lba n b] o ro r u
    by simp
  have need: "unat (?n * ?bs) = length d" using unat_bytes [OF b r] d by simp
  have wi: "msc_inv b ?w" using inv i ro t r need d u o by (simp add: msc_inv_def Let_def)
  obtain b' rc where bw: "bk_write bk b u lba ?n d = (b', rc)" by fastforce
  from write_law [OF b r d(4) wr bw] have b': "rc = 0" "ok b'" "bk_num_blocks bk b' = bk_num_blocks bk b"
    "bk_block_size bk b' = bk_block_size bk b" "image b' = (image b)(u := put_at (unat lba * blksz bk b u) d (image b u))" by simp_all
  have "\<exists>st'. msc_run b ?w pkts = Ret (b', st', msc_csw ?w (st_wtag ?w) 0 (if rc = 0 then 0 else 1))
     \<and> same_disk ?w st' \<and> \<not> st_writing st' \<and> st_lun st' = st_lun ?w"
    using o b wi d need bw u by (intro run_data_phase) simp_all
  then obtain st1 where 2: "msc_run b ?w pkts = Ret (b', st1, ep_write (st_in st) (csw_bytes t1 0 0))"
    and s1: "same_disk ?w st1" "\<not> st_writing st1" "st_lun st1 = st_lun st"
    using b'(1) by (auto simp: msc_csw_def)
  from s1 have s1': "st_n_luns st1 = st_n_luns st" "st_in st1 = st_in st" "o_backend (st_opts st1) = bk"
    using o by (simp_all add: same_disk_def)
  have "d \<noteq> []" using d(1-3) by (cases pkts) auto
  then have dpos: "0 < length d" by simp
  have rng: "unat lba * blksz bk b u + length d \<le> length (image b u)"
    using image_range [OF r] length_image [OF b, of u] d(4) by simp
  have "msc_on_out b' st1 (cbw t2 (of_nat (length d)) 0x80 i (cdb10 0x28 lba n))
      = Ret (b', st1\<lparr>st_cbw_in := True\<rparr>, ep_write (st_in st) d @ msc_csw st1 t2 0 0)"
    using on_out_cbw [where cdb = "cdb10 0x28 lba n" and b = b' and dlen = "of_nat (length d)" and flags = "0x80", OF s1(2) t(2) _ i16]
      dispatch_read10 [where st = "st1\<lparr>st_cbw_in := True\<rparr>" and b = b' and lba = lba and n = n and i = i
        and bs = "blksz bk b u" and tag = t2] i s1' s1(3) b' d dpos r u rng
    by (simp add: bytes_at_put_at_same msc_csw_def)
  then have 3: "msc_run b' st1 [cbw t2 (of_nat (length d)) 0x80 i (cdb10 0x28 lba n)]
      = Ret (b', st1\<lparr>st_cbw_in := True\<rparr>, ep_write (st_in st) d @ ep_write (st_in st) (csw_bytes t2 0 0))"
    by (simp add: msc_csw_def s1')
  show ?thesis
    using msc_run_append [OF 1 msc_run_append [OF 2 3]] b'(5) by auto
qed

end

end
