(* ===== verification/Msc_Correct.thy ===== *)
theory Msc_Correct
  imports Msc_Props
begin

text \<open>
  The properties of the mass-storage class on the file backend, over the facts of the
  interpretation \<open>file_disk\<close>, with a disk of two units they are tried on.
\<close>

section \<open>A disk to try the properties on\<close>

definition demo_disks :: "nat \<Rightarrow> disk" where
  "demo_disks u = \<lparr>dk_file = replicate 32 (of_nat u), dk_writable = True, dk_num_blocks = 8, dk_block_size = 4\<rparr>"

definition demo_opts :: "(nat \<Rightarrow> disk) msc_opts" where
  "demo_opts = \<lparr>o_backend = disk_backend, o_n_luns = 2,
     o_luns = [\<lparr>l_user = 1, l_medium = 0, l_read_only = False, l_product = None, l_serial = None\<rparr>,
               \<lparr>l_user = 2, l_medium = 1, l_read_only = False, l_product = None, l_serial = None\<rparr>],
     o_read_only = False, o_medium = 0, o_ufi = False, o_vendor = None, o_product = None, o_revision = None,
     o_serial = None, o_name = None, o_user = 0\<rparr>"

definition demo_msc :: "(nat \<Rightarrow> disk) msc_state" where
  "demo_msc = \<lparr>st_pub = \<lparr>md_index = 0, md_name = [], md_user = 0, md_n_luns = 2, md_medium = 0,
       md_interface_number = 0, md_in_ep = 0x82, md_out_ep = 1, md_func = 0\<rparr>,
     st_opts = demo_opts, st_lun = map (\<lambda>l. lun_init (Some l) demo_opts) (o_luns demo_opts), st_n_luns = 2,
     st_in = Some 0, st_out = Some 1, st_cbw_in = False, st_writing = False, st_wop = 0, st_wlun = 0,
     st_wtag = [0, 0, 0, 0], st_wlba = 0, st_wcount = 0, st_wneed = 0, st_wgot = 0, st_wbuf = []\<rparr>"

lemma demo_msc_ok: "disks_ok demo_disks" "msc_inv demo_disks demo_msc" "\<not> st_writing demo_msc"
  "o_backend (st_opts demo_msc) = disk_backend" "st_in demo_msc = Some 0" "st_n_luns demo_msc = 2"
  "\<not> ls_read_only (st_lun demo_msc ! 0)" "ls_user (st_lun demo_msc ! 0) = 1"
  by (simp_all add: disks_ok_def demo_disks_def msc_inv_def demo_msc_def demo_opts_def lun_init_def Let_def)

section \<open>One answer to each command\<close>



section \<open>Whatever the host sends\<close>



section \<open>Read after write\<close>

text \<open>C7: What is written is read back. A WRITE(10) of any blocks of a writable unit, its data cut into
  packets in any way, followed by a READ(10) of the same blocks, is answered with the first status,
  exactly the data, and the second status, both passed with nothing left over; the medium is the old
  one with the data in place, and no other unit's medium has changed.\<close>

theorem write_read_roundtrip:
  assumes "disks_ok ds" "msc_inv ds st" "\<not> st_writing st" "o_backend (st_opts st) = disk_backend"
    and "i < st_n_luns st" "\<not> ls_read_only (st_lun st ! i)" "u = ls_user (st_lun st ! i)" "dk_writable (ds u)"
    and "unat lba + unat (ucast n :: u32) \<le> unat (dk_num_blocks (ds u))"
    and "concat pkts = d" "[] \<notin> set pkts" "pkts \<noteq> []" "length d = unat (ucast n :: u32) * unat (dk_block_size (ds u))"
    and "length t1 = 4" "length t2 = 4"
  shows "\<exists>ds' st'. msc_run ds st (cbw t1 (of_nat (length d)) 0 i (cdb10 0x2A lba n) # pkts
        @ [cbw t2 (of_nat (length d)) 0x80 i (cdb10 0x28 lba n)])
      = Ret (ds', st', ep_write (st_in st) (csw_bytes t1 0 0) @ ep_write (st_in st) d @ ep_write (st_in st) (csw_bytes t2 0 0))
    \<and> disk_image ds' = (disk_image ds)(u := put_at (unat lba * unat (dk_block_size (ds u))) d (disk_image ds u))"
proof -
  have "nblk disk_backend ds u = unat (dk_num_blocks (ds u))" "blksz disk_backend ds u = unat (dk_block_size (ds u))"
    "disk_writable ds u" using assms(8)
    by (simp_all add: disk_backend_def disk_num_blocks_def disk_block_size_def disk_writable_def)
  with assms show ?thesis
    using file_disk.write_then_read [of st ds i u lba n pkts d t1 t2] by simp
qed

theorem write_read_roundtrip_witness:
  "\<exists>ds' st'. msc_run demo_disks demo_msc (cbw [1, 1, 1, 1] 8 0 0 (cdb10 0x2A 3 2) # [[10, 11, 12], [13], [14, 15, 16, 17]]
        @ [cbw [2, 2, 2, 2] 8 0x80 0 (cdb10 0x28 3 2)])
      = Ret (ds', st', ep_write (Some 0) (csw_bytes [1, 1, 1, 1] 0 0) @ ep_write (Some 0) [10, 11, 12, 13, 14, 15, 16, 17]
          @ ep_write (Some 0) (csw_bytes [2, 2, 2, 2] 0 0))"
  using write_read_roundtrip [OF demo_msc_ok(1-4), of 0 1 3 2 "[[10, 11, 12], [13], [14, 15, 16, 17]]"
      "[10, 11, 12, 13, 14, 15, 16, 17]" "[1, 1, 1, 1]" "[2, 2, 2, 2]"] demo_msc_ok
  by (auto simp: demo_disks_def)

section \<open>Sense\<close>

text \<open>A result that failed has left a sense on the unit, and only there.\<close>

definition failed :: "'b msc_state \<Rightarrow> ep_act list \<Rightarrow> bool" where
  "failed st acts \<longleftrightarrow> (\<exists>ph tag r i. st_in st = Some i \<and> acts = ph @ [EpWrite i (csw_bytes tag r 1)])"

definition sense_ok :: "'b msc_state \<Rightarrow> nat \<Rightarrow> ('b msc_state \<times> ep_act list) cresult \<Rightarrow> bool" where
  "sense_ok st i r \<longleftrightarrow> (\<forall>st' acts. r = Ret (st', acts) \<longrightarrow>
     (\<forall>j. j \<noteq> i \<longrightarrow> st_lun st' ! j = st_lun st ! j) \<and> (failed st acts \<longrightarrow> ls_key (st_lun st' ! i) \<noteq> 0))"

lemma csw_status: "csw_bytes t r s = csw_bytes t' r' s' \<Longrightarrow> s = s'"
  using arg_cong [of "csw_bytes t r s" "csw_bytes t' r' s'" last] by (simp add: csw_bytes_def)

lemma not_failed: "\<not> failed st (ph @ msc_csw st t r 0)" "\<not> failed st (msc_csw st t r 0)" "\<not> failed st []"
  using csw_status [of t r 0 _ _ 1] by (auto simp: failed_def msc_csw_def ep_write_def split: option.splits)

lemma sense_csw: "sense_ok st i (Ret (st, msc_csw st tag r 0))"
  by (simp add: sense_ok_def not_failed)

lemma sense_fail:
  "i < length (st_lun st) \<Longrightarrow> s \<in> {SENSE_UNRECOVERED_READ, SENSE_INVALID_COMMAND, SENSE_LBA_RANGE, SENSE_INVALID_FIELD, SENSE_WRITE_PROTECT}
   \<Longrightarrow> sense_ok st i (Ret (msc_fail st i tag dlen s))"
  by (auto simp: sense_ok_def msc_fail_def upd_lun_def set_sense_def)

lemma sense_data:
  assumes "st_in st' = st_in st" "\<forall>j. j \<noteq> i \<longrightarrow> st_lun st' ! j = st_lun st ! j"
  shows "sense_ok st i (pass st' (msc_data_in st tag dlen d n))"
  using assms by (auto simp: sense_ok_def pass_def msc_data_in_def Let_def not_failed split: if_splits)

lemma sense_read: "i < length (st_lun st) \<Longrightarrow> sense_ok st i (scsi_read b st i tag dlen lba n)"
  by (simp add: scsi_read_def Let_def sense_fail sense_data split: prod.split)

lemma sense_write:
  assumes "i < length (st_lun st)"
  shows "sense_ok st i (Ret (scsi_write b st i tag dlen op lba n))"
proof -
  have "sense_ok st i (Ret (st\<lparr>st_writing := True, st_wop := op, st_wlun := i, st_wtag := tag, st_wlba := lba, st_wcount := n,
      st_wneed := x, st_wgot := 0, st_wbuf := []\<rparr>, []))" for x
    by (simp add: sense_ok_def not_failed)
  with assms show ?thesis by (simp add: scsi_write_def Let_def sense_fail)
qed

lemma sense_sense: "sense_ok st i (pass (upd_lun i (set_sense 0 0 0) st) (msc_data_in st tag dlen d n))"
  by (intro sense_data) (simp_all add: upd_lun_def)

lemma sense_dispatch:
  assumes i: "i < length (st_lun st)"
  shows "sense_ok st i (dispatch b st i tag dlen cdb)"
  unfolding dispatch_def Let_def
  by (simp add: sense_csw sense_fail [OF i] sense_data sense_read [OF i] sense_write [OF i] sense_sense
      split: option.split prod.split)

lemma dispatch_request_sense:
  "dispatch b st i tag 18 (request_sense_cdb @ z) =
    Ret (upd_lun i (set_sense 0 0 0) st, ep_write (st_in st) (request_sense (st_lun st ! i)) @ msc_csw st tag 0 0)"
  by (simp add: dispatch_def request_sense_cdb_def Let_def pass_def msc_data_in_def) (simp add: request_sense_def)

text \<open>A command a unit fails leaves the reason with that unit, and REQUEST SENSE hands it out once:
  after a CHECK CONDITION the next REQUEST SENSE to the unit returns a non-zero sense key, the one
  after that returns none, and the sense of the other units is untouched throughout.\<close>

theorem sense_is_reported_once:
  assumes "disks_ok ds" "msc_inv ds st" "\<not> st_writing st" "o_backend (st_opts st) = disk_backend"
    and "i < st_n_luns st" "st_in st = Some h" "length cdb \<le> 16" "length t1 = 4" "length t2 = 4" "length t3 = 4"
    and "msc_on_out ds st (cbw t1 dlen flags i cdb) = Ret (ds1, st1, ph @ [EpWrite h (csw_bytes t1 r 1)])"
  shows "\<exists>st3 s s'. msc_run ds1 st1 [cbw t2 18 0x80 i request_sense_cdb, cbw t3 18 0x80 i request_sense_cdb]
      = Ret (ds1, st3, [EpWrite h s, EpWrite h (csw_bytes t2 0 0), EpWrite h s', EpWrite h (csw_bytes t3 0 0)])
    \<and> s ! 2 \<noteq> 0 \<and> s' ! 2 = 0 \<and> (\<forall>j < st_n_luns st. j \<noteq> i \<longrightarrow> st_lun st3 ! j = st_lun st ! j)"
proof -
  have n: "i < 16" "i < length (st_lun st)" using assms(2,5) by (simp_all add: msc_inv_def)
  have c: "is_cbw (cbw t1 dlen flags i cdb)" using cbw_fields(1) assms(7,8) n(1) by blast
  obtain st' acts where "msc_on_out ds st (cbw t1 dlen flags i cdb) = Ret (ds, st', acts)" "same_disk st st'"
    "st_writing st' \<longrightarrow> acts = []"
    using file_disk.on_out_idle [OF assms(4,1,2,3), of "cbw t1 dlen flags i cdb"] c by fastforce
  then have s1': "\<not> st_writing st1" "same_disk st st1" using assms(11) by auto
  then have s1'': "st_in st1 = Some h" "st_n_luns st1 = st_n_luns st" "length (st_lun st1) = length (st_lun st)"
    using assms(6) by (simp_all add: same_disk_def)
  let ?s = "st\<lparr>st_cbw_in := (flags AND 0x80 \<noteq> 0)\<rparr>"
  have "dispatch ds ?s i t1 dlen (cdb @ replicate (16 - length cdb) 0) = Ret (st1, ph @ [EpWrite h (csw_bytes t1 r 1)])"
    using assms(11) on_out_cbw [OF assms(3,8,7) n(1) assms(5), of ds dlen flags] by (auto split: cresult.splits)
  with sense_dispatch [of i ?s ds t1 dlen "cdb @ replicate (16 - length cdb) 0"] n(2) assms(6)
  have s1: "\<forall>j. j \<noteq> i \<longrightarrow> st_lun st1 ! j = st_lun st ! j" "ls_key (st_lun st1 ! i) \<noteq> 0"
    by (auto simp: sense_ok_def failed_def)
  have i1: "i < st_n_luns st1" "i < length (st_lun st1)" using assms(5) s1'' n by simp_all
  have l: "length request_sense_cdb \<le> 16" by (simp add: request_sense_cdb_def)
  define st2 where "st2 = upd_lun i (set_sense 0 0 0) (st1\<lparr>st_cbw_in := True\<rparr>)"
  define st3 where "st3 = upd_lun i (set_sense 0 0 0) (st2\<lparr>st_cbw_in := True\<rparr>)"
  have f2: "\<not> st_writing st2" "i < st_n_luns st2" "st_in st2 = Some h" "st_lun st2 = (st_lun st1)[i := set_sense 0 0 0 (st_lun st1 ! i)]"
    using s1' s1'' i1 by (simp_all add: st2_def upd_lun_def)
  have 1: "msc_on_out ds1 st1 (cbw t2 18 0x80 i request_sense_cdb) = Ret (ds1, st2, [EpWrite h (request_sense (st_lun st1 ! i)), EpWrite h (csw_bytes t2 0 0)])"
    using on_out_cbw [OF s1'(1) assms(9) l n(1) i1(1), of ds1 18 "0x80"] s1''
    by (simp add: dispatch_request_sense st2_def msc_csw_def ep_write_def)
  have 2: "msc_on_out ds1 st2 (cbw t3 18 0x80 i request_sense_cdb) = Ret (ds1, st3, [EpWrite h (request_sense (st_lun st2 ! i)), EpWrite h (csw_bytes t3 0 0)])"
    using on_out_cbw [OF f2(1) assms(10) l n(1) f2(2), of ds1 18 "0x80"] f2(3)
    by (simp add: dispatch_request_sense st3_def msc_csw_def ep_write_def)
  have k: "request_sense x ! 2 = ls_key x" for x by (simp add: request_sense_def)
  have "st_lun st3 ! j = st_lun st ! j" if "j \<noteq> i" for j
    using that s1(1) f2(4) by (simp add: st3_def upd_lun_def)
  moreover have "request_sense (st_lun st2 ! i) ! 2 = 0" using f2(4) i1(2) k by (simp add: set_sense_def)
  ultimately show ?thesis using 1 2 s1(2) k
    by (intro exI [of _ st3] exI [of _ "request_sense (st_lun st1 ! i)"] exI [of _ "request_sense (st_lun st2 ! i)"]) simp
qed

text \<open>A WRITE to the CD-ROM unit.\<close>

theorem sense_is_reported_once_witness:
  "\<exists>ds1 st1 st3 s s'. msc_on_out demo_disks demo_msc (cbw [1, 1, 1, 1] 8 0 1 (cdb10 0x2A 3 2))
      = Ret (ds1, st1, [EpStall 1] @ [EpWrite 0 (csw_bytes [1, 1, 1, 1] 8 1)])
    \<and> msc_run ds1 st1 [cbw [2, 2, 2, 2] 18 0x80 1 request_sense_cdb, cbw [3, 3, 3, 3] 18 0x80 1 request_sense_cdb]
      = Ret (ds1, st3, [EpWrite 0 s, EpWrite 0 (csw_bytes [2, 2, 2, 2] 0 0), EpWrite 0 s', EpWrite 0 (csw_bytes [3, 3, 3, 3] 0 0)])
    \<and> s ! 2 \<noteq> 0 \<and> s' ! 2 = 0"
proof -
  have "ls_read_only (st_lun demo_msc ! 1)" by (simp add: demo_msc_def demo_opts_def lun_init_def Let_def)
  then obtain st1 where r: "msc_on_out demo_disks demo_msc (cbw [1, 1, 1, 1] 8 0 1 (cdb10 0x2A 3 2))
      = Ret (demo_disks, st1, [EpStall 1] @ [EpWrite 0 (csw_bytes [1, 1, 1, 1] 8 1)])"
    using on_out_cbw [of demo_msc "[1, 1, 1, 1]" "cdb10 0x2A 3 2" 1 demo_disks 8 0] demo_msc_ok(3,5,6)
    by (simp add: dispatch_def Let_def cdb10_range scsi_write_def msc_fail_def msc_stall_data_phase_def
        msc_csw_def ep_stall_def ep_write_def upd_lun_def demo_msc_def)
  show ?thesis
    using sense_is_reported_once [OF demo_msc_ok(1-4) _ demo_msc_ok(5) _ _ _ _ r, of "[2, 2, 2, 2]" "[3, 3, 3, 3]"] r demo_msc_ok(6)
    by fastforce
qed

section \<open>A write of no blocks\<close>

text \<open>A WRITE(10) of zero blocks (which SCSI allows and calls no error) is not answered: the disk
  waits for a data phase of no bytes, and takes the next packet, the host's next command, whatever it
  is, for that data. It then sends the status of the WRITE, and the command is lost.\<close>

theorem empty_write_swallows_next_command:
  assumes "disks_ok ds" "msc_inv ds st" "\<not> st_writing st" "o_backend (st_opts st) = disk_backend"
    and "i < st_n_luns st" "\<not> ls_read_only (st_lun st ! i)" "dk_writable (ds (ls_user (st_lun st ! i)))"
    and "unat lba \<le> unat (dk_num_blocks (ds (ls_user (st_lun st ! i))))" "length t1 = 4" "length d < 2 ^ 31"
  shows "\<exists>st1 ds' st2. msc_on_out ds st (cbw t1 dlen 0 i (cdb10 0x2A lba 0)) = Ret (ds, st1, [])
     \<and> msc_on_out ds st1 d = Ret (ds', st2, ep_write (st_in st) (csw_bytes t1 0 0)) \<and> \<not> st_writing st2"
proof -
  let ?u = "ls_user (st_lun st ! i)"
  have i16: "i < 16" using assms(2,5) by (simp add: msc_inv_def)
  have nb: "nblk disk_backend ds ?u = unat (dk_num_blocks (ds ?u))" by (simp add: disk_backend_def disk_num_blocks_def)
  define w where "w = st\<lparr>st_cbw_in := False, st_writing := True, st_wop := 0x2A, st_wlun := i, st_wtag := t1,
    st_wlba := lba, st_wcount := 0, st_wneed := 0, st_wgot := 0, st_wbuf := []\<rparr>"
  have 1: "msc_on_out ds st (cbw t1 dlen 0 i (cdb10 0x2A lba 0)) = Ret (ds, w, [])"
    using on_out_cbw [OF assms(3,9) _ i16 assms(5), of "cdb10 0x2A lba 0" ds dlen 0]
      file_disk.dispatch_write10 [of "st\<lparr>st_cbw_in := False\<rparr>" i lba 0 ds t1 dlen] assms(4,6,8) nb
    by (simp add: w_def)
  have winv: "msc_inv ds w" "st_writing w" "o_backend (st_opts w) = disk_backend"
    using assms nb by (simp_all add: msc_inv_def w_def Let_def)
  obtain ds' where "bk_write disk_backend ds ?u lba 0 [] = (ds', 0)"
    using assms(7) by (auto simp: disk_backend_def disk_write_def Let_def)
  then have "msc_write_data ds w d = Ret (ds', write_done [] w, msc_csw w t1 0 0)"
    using file_disk.write_data_eq [OF winv(3) assms(1) winv(1,2) assms(10)] by (simp add: w_def)
  then have 2: "msc_on_out ds w d = Ret (ds', write_done [] w, ep_write (st_in st) (csw_bytes t1 0 0))"
    by (simp add: msc_on_out_def w_def msc_csw_def)
  show ?thesis using 1 2 by (intro exI conjI) (assumption, assumption, simp add: write_done_def)
qed

theorem empty_write_swallows_next_command_witness:
  "\<exists>st1 ds' st2. msc_on_out demo_disks demo_msc (cbw [1, 1, 1, 1] 0 0 0 (cdb10 0x2A 0 0)) = Ret (demo_disks, st1, [])
     \<and> msc_on_out demo_disks st1 (cbw [2, 2, 2, 2] 4 0x80 0 (cdb10 0x28 0 1))
       = Ret (ds', st2, ep_write (Some 0) (csw_bytes [1, 1, 1, 1] 0 0)) \<and> \<not> st_writing st2"
  using empty_write_swallows_next_command [OF demo_msc_ok(1-4), of 0 0 "[1, 1, 1, 1]" "cbw [2, 2, 2, 2] 4 0x80 0 (cdb10 0x28 0 1)" 0]
    demo_msc_ok by (simp add: demo_disks_def cbw_def)

section \<open>Lengths and geometry\<close>

text \<open>Every variable-length reply declares its own length correctly: INQUIRY, the VPD pages, the
  format capacity list and both MODE SENSE headers count exactly the bytes that follow their length
  field, for every unit, medium, capacity and page.\<close>

theorem reply_lengths_are_declared:
  "unat (build_inquiry opts lun ! 4) + 5 = length (build_inquiry opts lun)
   \<and> (case build_vpd lun pg of None \<Rightarrow> True | Some d \<Rightarrow> unat (d ! 3) + 4 = length d)
   \<and> unat (build_format_capacities lun nb bs ! 3) + 4 = length (build_format_capacities lun nb bs)
   \<and> unat (mode_sense lun nb bs False pg ! 0) + 1 = length (mode_sense lun nb bs False pg)
   \<and> unat (usb_get_be16 (mode_sense lun nb bs True pg) 0) + 2 = length (mode_sense lun nb bs True pg)"
proof -
  have cap: "length (put_capacity_desc a c ty) = 8" for a c ty by (simp add: put_capacity_desc_def)
  have flex: "length (build_flex_page nb bs) = 32" by (simp add: build_flex_page_def Let_def split: prod.split)
  have "unat (build_inquiry opts lun ! 4) + 5 = length (build_inquiry opts lun)"
    by (simp add: build_inquiry_def set_str_def Let_def)
  moreover have "case build_vpd lun pg of None \<Rightarrow> True | Some d \<Rightarrow> unat (d ! 3) + 4 = length d"
    by (auto simp: build_vpd_def Let_def unat_of_nat)
  moreover have "unat (build_format_capacities lun nb bs ! 3) + 4 = length (build_format_capacities lun nb bs)"
    by (simp add: build_format_capacities_def FLOPPY_FORMATS_def Let_def cap)
  moreover have "unat (mode_sense lun nb bs False pg ! 0) + 1 = length (mode_sense lun nb bs False pg)"
    by (simp add: mode_sense_def Let_def flex nth_append)
  moreover have "unat (usb_get_be16 (usb_put_be16 0 (of_nat (k - 2)) m) 0) + 2 = k"
    if "length m = k" "2 \<le> k" "k < 2 ^ 16" for k and m :: bytes
  proof -
    have "unat (of_nat (k - 2) :: u16) = k - 2" by (simp only: unat_of_nat) (use that in simp)
    with that show ?thesis
      by (simp add: usb_get_be16_def usb_put_be16_def bytes_at_put_at_same del: of_nat_diff)
  qed
  then have "unat (usb_get_be16 (mode_sense lun nb bs True pg) 0) + 2 = length (mode_sense lun nb bs True pg)"
    by (simp add: mode_sense_def Let_def flex)
  ultimately show ?thesis by blast
qed

text \<open>The geometry a floppy reports is the medium's: cylinders times heads times sectors is the
  block count of a standard format exactly, and for a medium of any other size it never exceeds the
  block count, so no host computes an address past the end.\<close>

theorem floppy_geometry_fits:
  assumes "flex_geometry blocks bs = (heads, sectors, rate, cylinders)"
  shows "unat cylinders * unat heads * unat sectors \<le> unat blocks
     \<and> (floppy_format_index blocks bs \<noteq> None \<longrightarrow> unat cylinders * unat heads * unat sectors = unat blocks)"
proof (cases "floppy_format_index blocks bs")
  case None
  with assms have "heads = 2" "sectors = 18" "cylinders = blocks div 36"
    by (simp_all add: flex_geometry_def FLOPPY_FORMATS_def)
  then show ?thesis using None by (simp add: unat_div)
next
  case (Some i)
  then have "i < 5 \<and> ff_blocks (FLOPPY_FORMATS ! i) = blocks"
    using find_index_Some [of "\<lambda>f. ff_blocks f = blocks" FLOPPY_FORMATS i]
    by (simp add: floppy_format_index_def FLOPPY_FORMATS_def split: if_splits)
  then have "i \<in> {0, 1, 2, 3, 4}" "blocks = ff_blocks (FLOPPY_FORMATS ! i)" by auto
  then show ?thesis using assms Some by (auto simp: flex_geometry_def FLOPPY_FORMATS_def)
qed

theorem floppy_geometry_fits_witness:
  "unat (1000 div 36 :: u32) * 2 * 18 \<le> (1000 :: nat)"
  using floppy_geometry_fits [of 1000 512 2 18 500 "1000 div 36"]
  by (simp add: flex_geometry_def floppy_format_index_def FLOPPY_FORMATS_def)

end
