(* ===== verification/Dfu.thy ===== *)
theory Dfu
  imports Usb_Class
begin

text \<open>
  The firmware-upgrade class (\<open>src/classes/device/dfu.c\<close>) over the targets of an application, and
  the file target of \<open>examples/device/dfu_device.c\<close>. All traffic is control transfers.

  A target's callbacks act on the application's state \<open>'b\<close> (their context pointer is part of the
  function). The log lines handed to \<open>on_event\<close> are not modelled.
\<close>

section \<open>Configuration and state\<close>

text \<open>\<open>tg_read\<close> gives the return value and the bytes written to the buffer.\<close>

record 'b dfu_target =
  tg_name :: "bytes option"
  tg_write :: "'b \<Rightarrow> u32 \<Rightarrow> bytes \<Rightarrow> 'b \<times> int"
  tg_read :: "'b \<Rightarrow> u32 \<Rightarrow> u32 \<Rightarrow> int \<times> bytes"
  tg_begin :: "('b \<Rightarrow> 'b) option"
  tg_finish :: "('b \<Rightarrow> 'b) option"

record 'b dfu_opts =
  do_targets :: "'b dfu_target list"
  do_transfer_size :: u16
  do_attributes :: u8
  do_winusb :: bool

abbreviation (input) dfuIDLE :: u8 where "dfuIDLE \<equiv> 2"
abbreviation (input) dfuDNLOAD_SYNC :: u8 where "dfuDNLOAD_SYNC \<equiv> 3"
abbreviation (input) dfuDNLOAD_IDLE :: u8 where "dfuDNLOAD_IDLE \<equiv> 5"
abbreviation (input) dfuMANIFEST_SYNC :: u8 where "dfuMANIFEST_SYNC \<equiv> 6"
abbreviation (input) dfuUPLOAD_IDLE :: u8 where "dfuUPLOAD_IDLE \<equiv> 9"
abbreviation (input) dfuERROR :: u8 where "dfuERROR \<equiv> 10"

record 'b dfu_state =
  df_transfer_size :: u16
  df_attributes :: u8
  df_tgt :: "'b dfu_target list"
  df_cur :: nat
  df_state :: u8
  df_status :: u8

section \<open>Building\<close>

text \<open>One alternate setting per target; the first one makes the interface.\<close>

fun dfu_alts :: "nat \<Rightarrow> 'b dfu_target list \<Rightarrow> nat option \<Rightarrow> 's usbip_function \<Rightarrow> usbip_device \<Rightarrow> ('s usbip_function \<times> usbip_device \<times> nat option) cresult" where
  "dfu_alts i [] ifc func dev = Ret (func, dev, ifc)"
| "dfu_alts i (t # ts) ifc func dev =
     (let (dev, istr) = usbip_device_add_string (case tg_name t of None \<Rightarrow> cstr ''target'' | Some n \<Rightarrow> n) dev
      in bindc (case ifc of
            None \<Rightarrow> usbip_function_add_interface 0xFE 0x01 0x02 func dev
          | Some k \<Rightarrow> (let (func, dev, rc) = usbip_interface_add_altsetting k (of_nat i) func dev in Ret (func, dev, k)))
        (\<lambda>(func, dev, k). dfu_alts (Suc i) ts (Some k) func (usbip_interface_set_string k (of_nat istr) func dev)))"

definition dfu_functional_desc :: "u8 \<Rightarrow> u16 \<Rightarrow> bytes" where
  "dfu_functional_desc attrs tsz = [9, 0x21, attrs] @ le_bytes 2 (1000 :: u16) @ le_bytes 2 tsz @ le_bytes 2 (0x0110 :: u16)"

definition dfu_build :: "'b dfu_opts \<Rightarrow> ('s, 'b dfu_state) uc_build" where
  "dfu_build opts uc func dev =
     (let tsz = (if do_transfer_size opts = 0 then 1024 else do_transfer_size opts);
          tsz = (if tsz > 4096 then 4096 else tsz);
          attrs = (if do_attributes opts = 0 then 0x07 else do_attributes opts);
          tgts = take 16 (do_targets opts);
          dev = (if do_winusb opts then fst (usbip_function_enable_winusb None func dev) else dev)
      in bindc (dfu_alts 0 tgts None func dev) (\<lambda>(func, dev, ifc).
           let (func, dev, rc) = usbip_function_add_descriptor (dfu_functional_desc attrs tsz) func dev
           in Ret (func, dev, Some \<lparr>df_transfer_size = tsz, df_attributes = attrs, df_tgt = tgts, df_cur = 0,
                df_state = dfuIDLE, df_status = 0\<rparr>)))"

section \<open>Requests\<close>

text \<open>The byte offset of a block: \<open>(uint32_t)wValue * transfer_size\<close>.\<close>

definition block_off :: "'b dfu_state \<Rightarrow> usb_setup \<Rightarrow> u32" where
  "block_off st stp = ucast (wValue stp) * ucast (df_transfer_size st)"

text \<open>The data behind \<open>buf\<close>, \<open>len\<close> bytes of it: an IN request has none to read.\<close>

definition dfu_dnload :: "'b \<Rightarrow> 'b dfu_state \<Rightarrow> usb_setup \<Rightarrow> bytes \<Rightarrow> u16 \<Rightarrow> ('b \<times> 'b dfu_state \<times> int \<times> bytes) cresult" where
  "dfu_dnload b st stp d len =
     (let t = df_tgt st ! df_cur st in
      if len = 0 then
        Ret (case tg_finish t of None \<Rightarrow> b | Some f \<Rightarrow> f b, st\<lparr>df_state := dfuMANIFEST_SYNC, df_status := 0\<rparr>, 0, [])
      else if unat len > length d then Undefined
      else
      let b = (if wValue stp = 0 then (case tg_begin t of None \<Rightarrow> b | Some f \<Rightarrow> f b) else b);
          (b, rc) = tg_write t b (block_off st stp) (take (unat len) d)
      in if rc \<noteq> 0 then
           Ret (b, st\<lparr>df_state := dfuERROR, df_status := (if rc > 0 \<and> rc \<le> 15 then of_int rc else 3)\<rparr>, 0, [])
         else Ret (b, st\<lparr>df_state := dfuDNLOAD_SYNC, df_status := 0\<rparr>, 0, []))"

definition dfu_upload :: "'b \<Rightarrow> 'b dfu_state \<Rightarrow> usb_setup \<Rightarrow> bytes \<Rightarrow> u16 \<Rightarrow> ('b \<times> 'b dfu_state \<times> int \<times> bytes) cresult" where
  "dfu_upload b st stp d len =
     (let t = df_tgt st ! df_cur st;
          want = (if df_transfer_size st > len then len else df_transfer_size st);
          (got, r) = tg_read t b (block_off st stp) (ucast want)
      in if length r > ctl_room stp d then Undefined
         else Ret (b, st\<lparr>df_state := (if got \<noteq> 0 then dfuUPLOAD_IDLE else dfuIDLE), df_status := 0\<rparr>, got, r))"

definition dfu_getstatus :: "'b dfu_state \<Rightarrow> 'b dfu_state \<times> bytes" where
  "dfu_getstatus st =
     (let st = (if df_state st = dfuDNLOAD_SYNC then st\<lparr>df_state := dfuDNLOAD_IDLE\<rparr>
                else if df_state st = dfuMANIFEST_SYNC then st\<lparr>df_state := dfuIDLE\<rparr> else st)
      in (st, [df_status st, 0, 0, 0, df_state st, 0]))"

text \<open>\<open>None\<close> of \<open>df_tgt\<close> is current when no target was given: its callbacks are NULL.\<close>

definition dfu_control :: "'b \<Rightarrow> 'b dfu_state \<Rightarrow> usb_setup \<Rightarrow> bytes \<Rightarrow> u16 \<Rightarrow> ('b \<times> 'b dfu_state \<times> int \<times> bytes) cresult" where
  "dfu_control b st stp d len =
     (let r = bRequest stp in
      if USB_REQ_TYPE (bmRequestType stp) \<noteq> USB_CLASS then Ret (b, st, - 1, [])
      else if r = 1 then
        (if df_cur st < length (df_tgt st) then dfu_dnload b st stp d len
         else if len = 0 then Ret (b, st\<lparr>df_state := dfuMANIFEST_SYNC, df_status := 0\<rparr>, 0, []) else Undefined)
      else if r = 2 then (if df_cur st < length (df_tgt st) then dfu_upload b st stp d len else Undefined)
      else if r = 3 then
        (let (st, s) = dfu_getstatus st
         in bindc (ctl_reply stp d st s) (\<lambda>(st, rc, s). Ret (b, st, rc, s)))
      else if r = 5 then bindc (ctl_reply stp d st [df_state st]) (\<lambda>(st, rc, s). Ret (b, st, rc, s))
      else if r = 4 \<or> r = 6 then Ret (b, st\<lparr>df_state := dfuIDLE, df_status := 0\<rparr>, 0, [])
      else if r = 0 then Ret (b, st, 0, [])
      else Ret (b, st, - 1, []))"

definition dfu_set_alt :: "'b dfu_state \<Rightarrow> u8 \<Rightarrow> 'b dfu_state" where
  "dfu_set_alt st alt =
     (if unat alt < length (df_tgt st) then st\<lparr>df_cur := unat alt, df_state := dfuIDLE, df_status := 0\<rparr> else st)"

definition usbip_device_dfu :: "('b \<times> (handler \<Rightarrow> 'b dfu_state)) usbip_device_class" where
  "usbip_device_dfu = \<lparr>c_id = 3,
     c_control = Some (\<lambda>f (b, sts) stp d len. case dfu_control b (sts f) stp d len of
        Ret (b, st, rc, r) \<Rightarrow> ((b, sts(f := st)), [], rc, r) | _ \<Rightarrow> ((b, sts), [], - 1, [])),
     c_set_alt = Some (\<lambda>f (b, sts) ifnum alt. ((b, sts(f := dfu_set_alt (sts f) alt)), [])),
     c_on_out = None, c_on_iso = None\<rparr>"

definition dfu_add :: "'b dfu_opts \<Rightarrow> 's usbip_device_class \<Rightarrow> nat \<Rightarrow> 's uc \<Rightarrow> usbip_device \<Rightarrow> ('s uc \<times> usbip_device \<times> (handler \<times> 'b dfu_state) option) cresult" where
  "dfu_add opts cls dv uc dev = usbip_device_add_class (dfu_build opts) cls dv uc dev"

section \<open>The file target\<close>

record file_backing =
  fb_file :: bytes
  fb_length :: u32

definition file_write :: "file_backing \<Rightarrow> u32 \<Rightarrow> bytes \<Rightarrow> file_backing \<times> int" where
  "file_write fb off d =
     (let f = take (unat off) (fb_file fb) @ replicate (unat off - length (fb_file fb)) 0 @ d @ drop (unat off + length d) (fb_file fb);
          end_off = off + of_nat (length d)
      in (fb\<lparr>fb_file := (if d = [] then fb_file fb else f),
             fb_length := (if end_off > fb_length fb then end_off else fb_length fb)\<rparr>, 0))"

definition file_read :: "file_backing \<Rightarrow> u32 \<Rightarrow> u32 \<Rightarrow> int \<times> bytes" where
  "file_read fb off want =
     (if off \<ge> fb_length fb then (0, [])
      else (let want = (if want > fb_length fb - off then fb_length fb - off else want);
                got = take (unat want) (drop (unat off) (fb_file fb))
            in (int (length got), got)))"

definition file_begin :: "file_backing \<Rightarrow> file_backing" where
  "file_begin fb = fb\<lparr>fb_length := 0\<rparr>"

definition file_finish :: "file_backing \<Rightarrow> file_backing" where
  "file_finish fb = fb\<lparr>fb_file := take (unat (fb_length fb)) (fb_file fb)
     @ replicate (unat (fb_length fb) - length (fb_file fb)) 0\<rparr>"

definition file_target :: "bytes \<Rightarrow> file_backing dfu_target" where
  "file_target name = \<lparr>tg_name = Some name, tg_write = file_write, tg_read = file_read,
     tg_begin = Some file_begin, tg_finish = Some file_finish\<rparr>"

section \<open>The states a host can reach\<close>

text \<open>One request or alternate setting of the host.\<close>

inductive dfu_step :: "'b \<times> 'b dfu_state \<Rightarrow> 'b \<times> 'b dfu_state \<Rightarrow> bool" where
  request: "dfu_control b st stp d len = Ret (b', st', rc, r) \<Longrightarrow> dfu_step (b, st) (b', st')"
| set_alt: "dfu_step (b, st) (b, dfu_set_alt st alt)"

inductive_cases dfu_step_cases: "dfu_step x y"

inductive dfu_reachable :: "'b \<Rightarrow> 'b dfu_state \<Rightarrow> 'b \<times> 'b dfu_state \<Rightarrow> bool" for b0 st0 where
  start: "dfu_reachable b0 st0 (b0, st0)"
| step: "dfu_reachable b0 st0 x \<Longrightarrow> dfu_step x y \<Longrightarrow> dfu_reachable b0 st0 y"

definition dfu_inv :: "'b dfu_state \<Rightarrow> 'b dfu_state \<Rightarrow> bool" where
  "dfu_inv st0 st \<longleftrightarrow> df_state st \<in> {dfuIDLE, dfuDNLOAD_SYNC, dfuDNLOAD_IDLE, dfuMANIFEST_SYNC, dfuUPLOAD_IDLE, dfuERROR}
     \<and> (df_status st = 0 \<longleftrightarrow> df_state st \<noteq> dfuERROR)
     \<and> df_tgt st = df_tgt st0 \<and> df_transfer_size st = df_transfer_size st0
     \<and> (df_tgt st0 \<noteq> [] \<longrightarrow> df_cur st < length (df_tgt st0))"

lemma dfu_error_status: "(if rc > 0 \<and> rc \<le> 15 then of_int rc else 3 :: u8) \<noteq> 0" for rc :: int
proof -
  have "(of_int rc :: u8) \<noteq> 0" if "rc > 0" "rc \<le> 15"
  proof
    assume "(of_int rc :: u8) = 0"
    then have "uint (of_int rc :: u8) = 0" by simp
    with that show False by (simp add: uint_word_of_int)
  qed
  then show ?thesis by simp
qed

lemma dfu_inv_upd:
  assumes "dfu_inv st0 st" "s \<in> {dfuIDLE, dfuDNLOAD_SYNC, dfuDNLOAD_IDLE, dfuMANIFEST_SYNC, dfuUPLOAD_IDLE, dfuERROR}"
    and "x = 0 \<longleftrightarrow> s \<noteq> dfuERROR"
  shows "dfu_inv st0 (st\<lparr>df_state := s, df_status := x\<rparr>)"
  using assms unfolding dfu_inv_def by simp

lemma dfu_dnload_state:
  assumes "dfu_dnload b st stp d len = Ret (b', st', rc, r)"
  shows "\<exists>s x. st' = st\<lparr>df_state := s, df_status := x\<rparr> \<and> s \<in> {dfuMANIFEST_SYNC, dfuERROR, dfuDNLOAD_SYNC} \<and> (x = 0 \<longleftrightarrow> s \<noteq> dfuERROR)"
proof (cases "len = 0")
  case True
  with assms have "st' = st\<lparr>df_state := dfuMANIFEST_SYNC, df_status := 0\<rparr>" by (simp add: dfu_dnload_def)
  then show ?thesis by (intro exI [of _ dfuMANIFEST_SYNC] exI [of _ 0]) simp
next
  case False
  let ?t = "df_tgt st ! df_cur st"
  obtain b1 rc1 where w: "tg_write ?t (if wValue stp = 0 then (case tg_begin ?t of None \<Rightarrow> b | Some f \<Rightarrow> f b) else b)
      (block_off st stp) (take (unat len) d) = (b1, rc1)" by fastforce
  have "st' = (if rc1 \<noteq> 0 then st\<lparr>df_state := dfuERROR, df_status := (if rc1 > 0 \<and> rc1 \<le> 15 then of_int rc1 else 3)\<rparr>
      else st\<lparr>df_state := dfuDNLOAD_SYNC, df_status := 0\<rparr>)"
    using assms False w by (auto simp: dfu_dnload_def Let_def split: if_split_asm)
  then show ?thesis
    using dfu_error_status [of rc1]
    by (intro exI [of _ "if rc1 \<noteq> 0 then dfuERROR else dfuDNLOAD_SYNC"]
        exI [of _ "if rc1 \<noteq> 0 then (if rc1 > 0 \<and> rc1 \<le> 15 then of_int rc1 else 3) else 0"]) auto
qed

lemma dfu_inv_control:
  assumes inv: "dfu_inv st0 st" and c: "dfu_control b st stp d len = Ret (b', st', rc, r)"
  shows "dfu_inv st0 st'"
proof -
  have dn: "dfu_inv st0 st'" if dl: "dfu_dnload b st stp d len = Ret (b', st', rc, r)"
  proof -
    obtain s x where "st' = st\<lparr>df_state := s, df_status := x\<rparr>" "s \<in> {dfuMANIFEST_SYNC, dfuERROR, dfuDNLOAD_SYNC}"
      "x = 0 \<longleftrightarrow> s \<noteq> dfuERROR" using dfu_dnload_state [OF dl] by blast
    with dfu_inv_upd [OF inv, of s x] show ?thesis by auto
  qed
  obtain got rd where rd: "tg_read (df_tgt st ! df_cur st) b (block_off st stp)
      (ucast (if df_transfer_size st > len then len else df_transfer_size st)) = (got, rd)" by fastforce
  have up: "dfu_inv st0 st'" if "dfu_upload b st stp d len = Ret (b', st', rc, r)"
  proof -
    have "st' = st\<lparr>df_state := (if got \<noteq> 0 then dfuUPLOAD_IDLE else dfuIDLE), df_status := 0\<rparr>"
      using that rd by (simp add: dfu_upload_def Let_def split: if_split_asm)
    with dfu_inv_upd [OF inv, of "if got \<noteq> 0 then dfuUPLOAD_IDLE else dfuIDLE" 0] show ?thesis by (cases "got = 0") simp_all
  qed
  have gs: "dfu_inv st0 (fst (dfu_getstatus st))"
    using inv by (auto simp: dfu_getstatus_def dfu_inv_def Let_def)
  have cl: "dfu_inv st0 (st\<lparr>df_state := dfuIDLE, df_status := 0\<rparr>)" "dfu_inv st0 (st\<lparr>df_state := dfuMANIFEST_SYNC, df_status := 0\<rparr>)"
    using dfu_inv_upd [OF inv] by simp_all
  have gs': "dfu_inv st0 x" if "dfu_getstatus st = (x, y)" for x y using gs that by simp
  obtain x y where "dfu_getstatus st = (x, y)" by fastforce
  note c' = c [unfolded dfu_control_def Let_def ctl_reply_def this prod.case]
  show ?thesis using c' dn up gs' [OF \<open>dfu_getstatus st = (x, y)\<close>] cl inv by (simp split: if_split_asm)
qed

lemma dfu_inv_set_alt: "dfu_inv st0 st \<Longrightarrow> dfu_inv st0 (dfu_set_alt st alt)"
  by (auto simp: dfu_inv_def dfu_set_alt_def)

lemma dfu_inv_reachable:
  assumes "dfu_reachable b0 st0 x" "dfu_inv st0 st0"
  shows "dfu_inv st0 (snd x)"
  using assms by induction (auto elim!: dfu_step_cases intro: dfu_inv_control dfu_inv_set_alt)

lemma dfu_inv_start:
  assumes "df_state st = dfuIDLE" "df_status st = 0" "df_cur st = 0"
  shows "dfu_inv st st"
  using assms by (simp add: dfu_inv_def)

text \<open>C27: Whatever requests a host sends a firmware-upgrade interface and whichever alternate settings
  it selects, the interface stays in one of the six states it declares, its status is OK exactly
  while it is not in dfuERROR, the selected target exists, and the two transient states are never
  seen: GETSTATUS reports dfuIDLE or dfuDNLOAD-IDLE for them and moves on.\<close>

theorem dfu_states_are_sound:
  assumes "df_state st0 = dfuIDLE" "df_status st0 = 0" "df_cur st0 = 0" "dfu_reachable b0 st0 (b, st)"
  shows "df_state st \<in> {dfuIDLE, dfuDNLOAD_SYNC, dfuDNLOAD_IDLE, dfuMANIFEST_SYNC, dfuUPLOAD_IDLE, dfuERROR}
     \<and> (df_status st = 0 \<longleftrightarrow> df_state st \<noteq> dfuERROR)
     \<and> (df_tgt st0 \<noteq> [] \<longrightarrow> df_cur st < length (df_tgt st))
     \<and> (\<forall>st' s. dfu_getstatus st = (st', s) \<longrightarrow> s ! 4 = df_state st' \<and> s ! 0 = df_status st'
          \<and> df_state st' \<notin> {dfuDNLOAD_SYNC, dfuMANIFEST_SYNC})"
proof -
  have inv: "dfu_inv st0 st" using dfu_inv_reachable [OF assms(4) dfu_inv_start [OF assms(1-3)]] by simp
  moreover have "s ! 4 = df_state st' \<and> s ! 0 = df_status st' \<and> df_state st' \<notin> {dfuDNLOAD_SYNC, dfuMANIFEST_SYNC}"
    if "dfu_getstatus st = (st', s)" for st' s
    using that inv by (auto simp: dfu_getstatus_def Let_def dfu_inv_def)
  ultimately show ?thesis by (auto simp: dfu_inv_def)
qed

definition demo_dfu :: "file_backing dfu_state" where
  "demo_dfu = \<lparr>df_transfer_size = 4, df_attributes = 7, df_tgt = [file_target (cstr ''fw0'')], df_cur = 0,
     df_state = dfuIDLE, df_status = 0\<rparr>"

definition demo_fw :: file_backing where
  "demo_fw = \<lparr>fb_file = [9, 9, 9], fb_length = 3\<rparr>"

definition dfu_req :: "u8 \<Rightarrow> nat \<Rightarrow> u16 \<Rightarrow> usb_setup" where
  "dfu_req r i len = \<lparr>bmRequestType = (if r = 2 \<or> r = 3 \<or> r = 5 then 0xA1 else 0x21), bRequest = r,
     wValue = of_nat i, wIndex = 0, wLength = len\<rparr>"

theorem dfu_states_are_sound_witness:
  "\<exists>b st. dfu_reachable demo_fw demo_dfu (b, st) \<and> df_state st = dfuDNLOAD_SYNC
     \<and> df_state st \<in> {dfuIDLE, dfuDNLOAD_SYNC, dfuDNLOAD_IDLE, dfuMANIFEST_SYNC, dfuUPLOAD_IDLE, dfuERROR}"
proof -
  obtain b st where r: "dfu_control demo_fw demo_dfu (dfu_req 1 0 2) [1, 2] 2 = Ret (b, st, 0, [])"
    "df_state st = dfuDNLOAD_SYNC"
    by (simp add: dfu_control_def dfu_dnload_def dfu_req_def demo_dfu_def demo_fw_def file_target_def file_write_def
        file_begin_def block_off_def USB_REQ_TYPE_def Let_def)
  have "dfu_reachable demo_fw demo_dfu (b, st)"
    by (rule dfu_reachable.step [OF dfu_reachable.start request [OF r(1)]])
  then show ?thesis
    using dfu_states_are_sound [of demo_dfu demo_fw b st] r(2) by (auto simp: demo_dfu_def)
qed

section \<open>Firmware stores\<close>

text \<open>A target that stores a linear image: the contract between the class and an application.\<close>

locale firmware_store =
  fixes tgt :: "'b dfu_target" and ok :: "'b \<Rightarrow> bool" and image :: "'b \<Rightarrow> bytes"
  assumes begin_law: "ok b \<Longrightarrow> tg_begin tgt = Some f \<Longrightarrow> ok (f b) \<and> image (f b) = []"
    and has_begin: "tg_begin tgt \<noteq> None"
    and write_law: "ok b \<Longrightarrow> unat off = length (image b) \<Longrightarrow> unat off + length d < 2 ^ 32 \<Longrightarrow>
      \<exists>b'. tg_write tgt b off d = (b', 0) \<and> ok b' \<and> image b' = image b @ d"
    and read_law: "ok b \<Longrightarrow> tg_read tgt b off want
      = (int (length (bytes_at (unat off) (unat want) (image b))), bytes_at (unat off) (unat want) (image b))"
    and finish_law: "ok b \<Longrightarrow> tg_finish tgt = Some f \<Longrightarrow> ok (f b) \<and> image (f b) = image b"
begin

lemma block_off_eq:
  "i < 2 ^ 16 \<Longrightarrow> unat (block_off st (dfu_req r i len)) = i * unat (df_transfer_size st)"
proof -
  assume i: "i < 2 ^ 16"
  have "i * unat (df_transfer_size st) < 2 ^ 16 * 2 ^ 16"
    using i unsigned_less [of "df_transfer_size st", where ?'a = nat] by (intro mult_strict_mono) simp_all
  moreover have "unat (ucast (of_nat i :: u16) :: u32) = i" "unat (ucast (df_transfer_size st) :: u32) = unat (df_transfer_size st)"
    using i unsigned_less [of "df_transfer_size st", where ?'a = nat]
    by (simp_all add: unsigned_ucast_eq take_bit_nat_eq_self unat_of_nat)
  ultimately show ?thesis
    unfolding block_off_def dfu_req_def by (subst unat_mult_lem [THEN iffD1]) simp_all
qed

text \<open>A block of a download, in sequence.\<close>

lemma dnload_block:
  assumes b: "ok b" and st: "df_tgt st ! df_cur st = tgt" "df_cur st < length (df_tgt st)"
    and i: "i < 2 ^ 16" and d: "d \<noteq> []" "length d < 2 ^ 16"
    and at: "i \<noteq> 0 \<Longrightarrow> length (image b) = i * unat (df_transfer_size st)"
  shows "\<exists>b'. dfu_control b st (dfu_req 1 i (of_nat (length d))) d (of_nat (length d))
      = Ret (b', st\<lparr>df_state := dfuDNLOAD_SYNC, df_status := 0\<rparr>, 0, [])
    \<and> ok b' \<and> image b' = (if i = 0 then [] else image b) @ d"
proof -
  let ?r = "dfu_req 1 i (of_nat (length d))"
  obtain f where f: "tg_begin tgt = Some f" using has_begin by blast
  define b1 where "b1 = (if i = 0 then f b else b)"
  have b1: "ok b1" "image b1 = (if i = 0 then [] else image b)" using begin_law [OF b f] b by (auto simp: b1_def)
  have off: "unat (block_off st ?r) = length (image b1)" using block_off_eq [OF i, of st 1] at b1(2) by simp
  have "i * unat (df_transfer_size st) \<le> 65535 * 65535"
    using i unsigned_less [of "df_transfer_size st", where ?'a = nat] by (intro mult_le_mono) simp_all
  then have "unat (block_off st ?r) + length d < 2 ^ 32" using block_off_eq [OF i, of st 1] d by simp
  from write_law [OF b1(1) off this] obtain b' where w: "tg_write tgt b1 (block_off st ?r) d = (b', 0)" "ok b'" "image b' = image b1 @ d"
    by blast
  have n: "unat (of_nat (length d) :: u16) = length d" using d(2) by (simp add: unat_of_nat)
  have ne: "(of_nat (length d) :: u16) \<noteq> 0" using n d(1) by (metis length_0_conv unsigned_0)
  have v: "wValue ?r = 0 \<longleftrightarrow> i = 0" using i by (simp add: dfu_req_def unat_eq_zero [symmetric] unat_of_nat)
  have c: "(if wValue ?r = 0 then (case tg_begin tgt of None \<Rightarrow> b | Some f \<Rightarrow> f b) else b) = b1"
    using v f by (simp add: b1_def)
  have "dfu_dnload b st ?r d (of_nat (length d)) = Ret (b', st\<lparr>df_state := dfuDNLOAD_SYNC, df_status := 0\<rparr>, 0, [])"
    using w(1) ne n unfolding dfu_dnload_def Let_def st(1) c by simp
  then show ?thesis using st w b1(2) by (simp add: dfu_control_def dfu_req_def USB_REQ_TYPE_def Let_def)
qed

text \<open>A whole download: its blocks in sequence from number \<open>i\<close>.\<close>

end

fun dfu_download :: "nat \<Rightarrow> bytes list \<Rightarrow> 'b \<times> 'b dfu_state \<Rightarrow> ('b \<times> 'b dfu_state) cresult" where
  "dfu_download i [] (b, st) = bindc (dfu_control b st (dfu_req 1 i 0) [] 0) (\<lambda>(b, st, rc, r). Ret (b, st))"
| "dfu_download i (d # ds) (b, st) = bindc (dfu_control b st (dfu_req 1 i (of_nat (length d))) d (of_nat (length d)))
     (\<lambda>(b, st, rc, r). if rc < 0 then Err rc else
        bindc (dfu_control b st (dfu_req 3 0 6) [] 6) (\<lambda>(b, st, rc, r).
          if r ! 0 \<noteq> 0 then Err (int (unat (r ! 0))) else dfu_download (Suc i) ds (b, st)))"

definition dfu_upload_block :: "'b \<times> 'b dfu_state \<Rightarrow> nat \<Rightarrow> bytes" where
  "dfu_upload_block x i = (case dfu_control (fst x) (snd x) (dfu_req 2 i (df_transfer_size (snd x))) [] (df_transfer_size (snd x)) of
     Ret (b, st, rc, r) \<Rightarrow> take (nat rc) r | _ \<Rightarrow> [])"

context firmware_store
begin

lemma getstatus_idle:
  "dfu_control b (st\<lparr>df_state := dfuDNLOAD_SYNC, df_status := 0\<rparr>) (dfu_req 3 0 6) [] 6
    = Ret (b, st\<lparr>df_state := dfuDNLOAD_IDLE, df_status := 0\<rparr>, 6, [0, 0, 0, 0, 5, 0])"
  by (simp add: dfu_control_def dfu_req_def USB_REQ_TYPE_def dfu_getstatus_def ctl_reply_def ctl_room_def
      req_is_in_def Let_def)

text \<open>All blocks but the last are full.\<close>

lemma download_blocks:
  "ok b \<Longrightarrow> df_tgt st ! df_cur st = tgt \<Longrightarrow> df_cur st < length (df_tgt st) \<Longrightarrow> i + length ds \<le> 2 ^ 16 \<Longrightarrow> [] \<notin> set ds \<Longrightarrow>
   \<forall>d \<in> set ds. length d \<le> unat (df_transfer_size st) \<Longrightarrow> \<forall>d \<in> set (butlast ds). length d = unat (df_transfer_size st) \<Longrightarrow>
   (i \<noteq> 0 \<and> ds \<noteq> [] \<longrightarrow> length (image b) = i * unat (df_transfer_size st)) \<Longrightarrow> i \<noteq> 0 \<or> ds \<noteq> [] \<Longrightarrow>
   \<exists>b' st'. dfu_download i ds (b, st) = Ret (b', st') \<and> ok b' \<and> image b' = (if i = 0 then [] else image b) @ concat ds
     \<and> df_state st' = dfuMANIFEST_SYNC \<and> df_tgt st' = df_tgt st \<and> df_cur st' = df_cur st \<and> df_transfer_size st' = df_transfer_size st"
proof (induction ds arbitrary: i b st)
  case Nil
  obtain b' where "(case tg_finish tgt of None \<Rightarrow> b | Some f \<Rightarrow> f b) = b'" "ok b'" "image b' = image b"
    using finish_law [OF Nil.prems(1)] Nil.prems(1) by (cases "tg_finish tgt") auto
  then show ?case using Nil.prems
    by (simp add: dfu_control_def dfu_dnload_def dfu_req_def USB_REQ_TYPE_def Let_def)
next
  case (Cons d ds)
  have len: "length d < 2 ^ 16" using Cons.prems(6) unsigned_less [of "df_transfer_size st", where ?'a = nat] by force
  have "d \<noteq> []" "i < 2 ^ 16" using Cons.prems(4,5) by auto
  from dnload_block [OF Cons.prems(1-3) this(2,1) len] Cons.prems(8)
  obtain b1 where 1: "dfu_control b st (dfu_req 1 i (of_nat (length d))) d (of_nat (length d))
      = Ret (b1, st\<lparr>df_state := dfuDNLOAD_SYNC, df_status := 0\<rparr>, 0, [])" "ok b1"
    "image b1 = (if i = 0 then [] else image b) @ d" by auto
  let ?st = "st\<lparr>df_state := dfuDNLOAD_IDLE, df_status := 0\<rparr>"
  have "ds \<noteq> [] \<longrightarrow> length (image b1) = Suc i * unat (df_transfer_size ?st)"
    using 1(3) Cons.prems(7,8) by auto
  then have "\<exists>b' st'. dfu_download (Suc i) ds (b1, ?st) = Ret (b', st') \<and> ok b' \<and> image b' = (if Suc i = 0 then [] else image b1) @ concat ds
     \<and> df_state st' = dfuMANIFEST_SYNC \<and> df_tgt st' = df_tgt ?st \<and> df_cur st' = df_cur ?st \<and> df_transfer_size st' = df_transfer_size ?st"
    using Cons.prems 1(2) by (intro Cons.IH) (auto split: if_splits)
  then show ?case using 1 by (simp add: getstatus_idle)
qed

lemma upload_block:
  assumes b: "ok b" and st: "df_tgt st ! df_cur st = tgt" "df_cur st < length (df_tgt st)" and i: "i < 2 ^ 16"
    and sz: "unat (df_transfer_size st) \<le> 4096"
  shows "dfu_upload_block (b, st) i = bytes_at (i * unat (df_transfer_size st)) (unat (df_transfer_size st)) (image b)"
proof -
  have u: "unat (ucast (df_transfer_size st) :: u32) = unat (df_transfer_size st)"
    using unsigned_less [of "df_transfer_size st", where ?'a = nat] by (simp add: unsigned_ucast_eq take_bit_nat_eq_self)
  let ?x = "bytes_at (i * unat (df_transfer_size st)) (unat (df_transfer_size st)) (image b)"
  have "tg_read tgt b (block_off st (dfu_req 2 i (df_transfer_size st))) (ucast (df_transfer_size st)) = (int (length ?x), ?x)"
    using read_law [OF b, of "block_off st (dfu_req 2 i (df_transfer_size st))" "ucast (df_transfer_size st)"]
      block_off_eq [OF i, of st 2 "df_transfer_size st"] u by simp
  moreover have "length ?x \<le> 4096" using sz by (simp add: bytes_at_def)
  ultimately have "dfu_upload b st (dfu_req 2 i (df_transfer_size st)) [] (df_transfer_size st)
      = Ret (b, st\<lparr>df_state := (if int (length ?x) \<noteq> 0 then dfuUPLOAD_IDLE else dfuIDLE), df_status := 0\<rparr>, int (length ?x), ?x)"
    using st(1) by (simp add: dfu_upload_def Let_def ctl_room_def dfu_req_def req_is_in_def)
  then show ?thesis
    using st(2) by (simp add: dfu_upload_block_def dfu_control_def dfu_req_def USB_REQ_TYPE_def Let_def)
qed

end

text \<open>The file target, with an image that ends inside the file.\<close>

definition file_ok :: "file_backing \<Rightarrow> bool" where
  "file_ok fb \<longleftrightarrow> unat (fb_length fb) \<le> length (fb_file fb)"

definition file_image :: "file_backing \<Rightarrow> bytes" where
  "file_image fb = take (unat (fb_length fb)) (fb_file fb)"

lemma length_file_image: "file_ok fb \<Longrightarrow> length (file_image fb) = unat (fb_length fb)"
  by (simp add: file_ok_def file_image_def)

interpretation file_fw: firmware_store "file_target name" file_ok file_image
proof unfold_locales
  fix b f assume "file_ok b" "tg_begin (file_target name) = Some f"
  then show "file_ok (f b) \<and> file_image (f b) = []"
    by (auto simp: file_target_def file_begin_def file_ok_def file_image_def)
next
  show "tg_begin (file_target name) \<noteq> None" by (simp add: file_target_def)
next
  fix b and off :: u32 and d :: bytes
  assume b: "file_ok b" and off: "unat off = length (file_image b)" and fit: "unat off + length d < 2 ^ 32"
  have o: "off = fb_length b" using off length_file_image [OF b] by (simp add: word_unat_eq_iff)
  have n: "unat (off + of_nat (length d)) = unat off + length d"
    using fit by (subst unat_add_lem [THEN iffD1]) (simp_all add: unat_of_nat)
  have ge: "fb_length b \<le> off + of_nat (length d)" using n o by (simp add: word_le_nat_alt)
  have l: "(if off + of_nat (length d) > fb_length b then off + of_nat (length d) else fb_length b) = off + of_nat (length d)"
    using ge by (simp add: not_less)
  obtain b' where b': "file_write b off d = (b', 0)" by (simp add: file_write_def Let_def)
  have z: "unat off - length (fb_file b) = 0" using b o by (simp add: file_ok_def)
  have f: "fb_length b' = off + of_nat (length d)" "fb_file b' = (if d = [] then fb_file b else take (unat off) (fb_file b) @ d @ drop (unat off + length d) (fb_file b))"
    using b' l z by (auto simp: file_write_def Let_def)
  have le: "unat off \<le> length (fb_file b)" using b o by (simp add: file_ok_def)
  have "file_ok b'" using f n le by (auto simp: file_ok_def)
  moreover have "file_image b' = file_image b @ d"
    using f n le o by (auto simp: file_image_def)
  ultimately show "\<exists>b'. tg_write (file_target name) b off d = (b', 0) \<and> file_ok b' \<and> file_image b' = file_image b @ d"
    using b' by (auto simp: file_target_def)
next
  fix b and off want :: u32 assume b: "file_ok b"
  show "tg_read (file_target name) b off want
      = (int (length (bytes_at (unat off) (unat want) (file_image b))), bytes_at (unat off) (unat want) (file_image b))"
  proof (cases "off \<ge> fb_length b")
    case True
    then show ?thesis using length_file_image [OF b]
      by (simp add: file_target_def file_read_def bytes_at_def word_le_nat_alt)
  next
    case False
    then have lt: "unat off < unat (fb_length b)" by (simp add: word_le_nat_alt)
    then have s: "unat (fb_length b - off) = unat (fb_length b) - unat off" by (simp add: unat_sub word_le_nat_alt)
    define w where "w = (if want > fb_length b - off then fb_length b - off else want)"
    have w: "unat w = min (unat want) (unat (fb_length b) - unat off)"
      using s by (auto simp: w_def word_less_nat_alt)
    have "take (unat w) (drop (unat off) (fb_file b)) = bytes_at (unat off) (unat want) (file_image b)"
      using lt by (simp add: w bytes_at_def file_image_def drop_take)
    then show ?thesis using False by (simp add: file_target_def file_read_def Let_def flip: w_def length_take)
  qed
next
  fix b f assume "file_ok b" "tg_finish (file_target name) = Some f"
  then show "file_ok (f b) \<and> file_image (f b) = file_image b"
    by (auto simp: file_target_def file_finish_def file_ok_def file_image_def)
qed

section \<open>Round trip\<close>

lemma block_of_concat:
  assumes "\<forall>d \<in> set (butlast ds). length d = n" "\<forall>d \<in> set ds. length d \<le> n" "i < length ds"
  shows "bytes_at (i * n) n (concat ds) = ds ! i"
  using assms
proof (induction ds arbitrary: i)
  case Nil
  then show ?case by simp
next
  case (Cons d ds)
  show ?case
  proof (cases "ds = []")
    case True
    with Cons.prems show ?thesis by (simp add: bytes_at_def)
  next
    case False
    with Cons.prems have d: "length d = n" by simp
    show ?thesis
    proof (cases i)
      case 0
      with d show ?thesis by (simp add: bytes_at_def)
    next
      case (Suc j)
      have "bytes_at (j * n) n (concat ds) = ds ! j" using Cons False Suc by simp
      moreover have "bytes_at (i * n) n (concat (d # ds)) = bytes_at (j * n) n (concat ds)"
        using Suc d by (simp add: bytes_at_def)
      ultimately show ?thesis using Suc by simp
    qed
  qed
qed

lemma length_concat_le: "\<forall>d \<in> set ds. length d \<le> n \<Longrightarrow> length (concat ds) \<le> length ds * n"
  by (induction ds) auto

text \<open>C26: Firmware comes back as it was sent. Downloading an image block by block (every block but the
  last of the transfer size, at most 65536 of them, the host polling GETSTATUS after each) to the
  file target replaces the stored image, whatever it was, by exactly those bytes; uploading then
  returns the same blocks in order and an empty one after the last.\<close>

theorem firmware_roundtrip:
  assumes "file_ok fb" "df_tgt st = [file_target name]" "df_cur st = 0" "unat (df_transfer_size st) \<le> 4096"
    and "ds \<noteq> []" "[] \<notin> set ds" "length ds \<le> 2 ^ 16" "\<forall>d \<in> set ds. length d \<le> unat (df_transfer_size st)"
    and "\<forall>d \<in> set (butlast ds). length d = unat (df_transfer_size st)"
  shows "\<exists>fb' st'. dfu_download 0 ds (fb, st) = Ret (fb', st') \<and> file_image fb' = concat ds
     \<and> (\<forall>i < length ds. dfu_upload_block (fb', st') i = ds ! i)
     \<and> (length ds < 2 ^ 16 \<longrightarrow> dfu_upload_block (fb', st') (length ds) = [])"
proof -
  let ?n = "unat (df_transfer_size st)"
  obtain fb' st' where d: "dfu_download 0 ds (fb, st) = Ret (fb', st')" "file_ok fb'" "file_image fb' = concat ds"
    "df_tgt st' = df_tgt st" "df_cur st' = df_cur st" "df_transfer_size st' = df_transfer_size st"
    using file_fw.download_blocks [of fb st name 0 ds] assms by auto
  have up: "dfu_upload_block (fb', st') i = bytes_at (i * ?n) ?n (concat ds)" if "i < 2 ^ 16" for i
    using file_fw.upload_block [OF d(2), of st' name i] d assms(2-4) that by simp
  have "\<forall>i < length ds. dfu_upload_block (fb', st') i = ds ! i"
    using up block_of_concat [OF assms(9,8)] assms(7) by auto
  moreover have "length ds < 2 ^ 16 \<longrightarrow> dfu_upload_block (fb', st') (length ds) = []"
    using up length_concat_le [OF assms(8)] by (simp add: bytes_at_def)
  ultimately show ?thesis using d by blast
qed

theorem firmware_roundtrip_witness:
  "\<exists>fb' st'. dfu_download 0 [[1, 2, 3, 4], [5, 6, 7, 8], [9]] (demo_fw, demo_dfu) = Ret (fb', st')
     \<and> file_image fb' = [1, 2, 3, 4, 5, 6, 7, 8, 9] \<and> dfu_upload_block (fb', st') 2 = [9]"
proof -
  have "\<exists>fb' st'. dfu_download 0 [[1, 2, 3, 4], [5, 6, 7, 8], [9]] (demo_fw, demo_dfu) = Ret (fb', st')
     \<and> file_image fb' = concat [[1, 2, 3, 4], [5, 6, 7, 8], [9]]
     \<and> (\<forall>i < length [[1, 2, 3, 4], [5, 6, 7, 8], [9 :: u8]]. dfu_upload_block (fb', st') i = [[1, 2, 3, 4], [5, 6, 7, 8], [9]] ! i)
     \<and> (length [[1, 2, 3, 4], [5, 6, 7, 8], [9 :: u8]] < 2 ^ 16 \<longrightarrow> dfu_upload_block (fb', st') (length [[1, 2, 3, 4], [5, 6, 7, 8], [9 :: u8]]) = [])"
    by (rule firmware_roundtrip [where name = "cstr ''fw0''"]) (simp_all add: demo_fw_def demo_dfu_def file_ok_def)
  then obtain fb' st' where r: "dfu_download 0 [[1, 2, 3, 4], [5, 6, 7, 8], [9]] (demo_fw, demo_dfu) = Ret (fb', st')"
    "file_image fb' = concat [[1, 2, 3, 4], [5, 6, 7, 8], [9]]"
    "\<forall>i < length [[1, 2, 3, 4], [5, 6, 7, 8], [9 :: u8]]. dfu_upload_block (fb', st') i = [[1, 2, 3, 4], [5, 6, 7, 8], [9]] ! i"
    by (elim exE conjE) (rule that; assumption)
  from r(3) have "dfu_upload_block (fb', st') 2 = [9]" by (drule_tac x = 2 in spec) simp
  with r(1,2) show ?thesis by auto
qed

end
