(* ===== verification/Bluetooth.thy ===== *)
theory Bluetooth
  imports Usb_Class
begin

text \<open>
  The Bluetooth HCI transport class (\<open>src/classes/device/bluetooth.c\<close>). It carries HCI commands and
  ACL data between the host and the application's controller; the application's callbacks are events
  handed to it in order. The reassembly buffer is the list of the bytes it holds (\<open>acl_have\<close> is its
  length).
\<close>

section \<open>State and building\<close>

record bt_opts =
  bo_on_command :: bool
  bo_on_acl :: bool
  bo_with_sco :: bool

record bt_state =
  bt_opts :: bt_opts
  acl_rx :: bytes
  bt_event_ep :: "nat option"
  bt_acl_in :: "nat option"

datatype bt_event = HciCommand bytes | AclPdu bytes

abbreviation (input) BT_ACL_REASM_MAX :: nat where "BT_ACL_REASM_MAX \<equiv> 1024"

definition sco_alt_sizes :: "u16 list" where
  "sco_alt_sizes = [0, 9, 17, 25, 33, 49]"

text \<open>The SCO interface: alternate setting \<open>i\<close> carries the isochronous pair of its size.\<close>

fun bt_sco_alts :: "nat \<Rightarrow> u16 list \<Rightarrow> nat \<Rightarrow> 's usbip_function \<Rightarrow> usbip_device \<Rightarrow> ('s usbip_function \<times> usbip_device) cresult" where
  "bt_sco_alts i [] sco func dev = Ret (func, dev)"
| "bt_sco_alts i (mps # ss) sco func dev =
     bindc (if i = 0 then usbip_function_add_interface 0xE0 1 1 func dev
            else (let (func, dev, rc) = usbip_interface_add_altsetting sco (of_nat i) func dev in Ret (func, dev, sco)))
       (\<lambda>(func, dev, sco).
          let (func, dev, e) = usbip_interface_add_endpoint (ep_desc 0x03 1 mps 1) func dev;
              (func, dev, e) = usbip_interface_add_endpoint (ep_desc 0x83 1 mps 1) func dev
          in bt_sco_alts (Suc i) ss sco func dev)"

definition bt_build :: "bt_opts \<Rightarrow> ('s, bt_state) uc_build" where
  "bt_build opts uc func dev =
     bindc (usbip_function_add_interface 0xE0 1 1 func (usbip_device_set_class 0xE0 1 1 dev)) (\<lambda>(func, dev, hci).
       let (func, dev, ev) = usbip_interface_add_endpoint (ep_desc 0x81 3 16 1) func dev;
           (func, dev, e) = usbip_interface_add_endpoint (ep_desc 0x02 2 64 0) func dev;
           (func, dev, ai) = usbip_interface_add_endpoint (ep_desc 0x82 2 64 0) func dev
       in bindc (if bo_with_sco opts then bt_sco_alts 0 sco_alt_sizes 0 func dev else Ret (func, dev)) (\<lambda>(func, dev).
            Ret (func, dev, Some \<lparr>bt_opts = opts, acl_rx = [], bt_event_ep = ev, bt_acl_in = ai\<rparr>)))"

section \<open>Commands and ACL data\<close>

text \<open>The data of an OUT request; \<open>None\<close> is a STALL.\<close>

definition bt_control :: "bt_state \<Rightarrow> usb_setup \<Rightarrow> bytes \<Rightarrow> bt_event list option" where
  "bt_control st stp d =
     (if USB_REQ_TYPE (bmRequestType stp) = USB_CLASS \<and> \<not> req_is_in (bmRequestType stp)
      then Some (if bo_on_command (bt_opts st) then [HciCommand d] else []) else None)"

text \<open>Every complete PDU (a 4-byte header with the data length at offset 2) at the front.\<close>

function bt_release :: "bytes \<Rightarrow> bytes list \<times> bytes" where
  "bt_release rx =
     (if length rx < 4 then ([], rx)
      else (let n = 4 + unat (usb_get_le16 rx 2) in
            if length rx < n then ([], rx)
            else (let (pdus, rest) = bt_release (drop n rx) in (take n rx # pdus, rest))))"
  by pat_completeness auto
termination by (relation "measure length") auto

declare bt_release.simps [simp del]

definition bt_on_out :: "bt_state \<Rightarrow> bytes \<Rightarrow> (bt_state \<times> bt_event list) cresult" where
  "bt_on_out st d =
     (if d = [] then Ret (st, [])
      else
      let rx = (if length (acl_rx st) + length d > BT_ACL_REASM_MAX then [] else acl_rx st)
      in if length rx + length d > BT_ACL_REASM_MAX then Undefined
         else (let (pdus, rest) = bt_release (rx @ d)
               in Ret (st\<lparr>acl_rx := rest\<rparr>, if bo_on_acl (bt_opts st) then map AclPdu pdus else [])))"

definition bt_send_event :: "bt_state \<Rightarrow> bytes \<Rightarrow> ep_act list" where
  "bt_send_event st d = (case bt_event_ep st of None \<Rightarrow> [] | Some i \<Rightarrow> [EpWrite i d])"

definition bt_send_acl :: "bt_state \<Rightarrow> bytes \<Rightarrow> ep_act list" where
  "bt_send_acl st d = (case bt_acl_in st of None \<Rightarrow> [] | Some i \<Rightarrow> [EpWrite i d])"

definition bluetooth_add :: "bt_opts \<Rightarrow> 's usbip_device_class \<Rightarrow> nat \<Rightarrow> 's uc \<Rightarrow> usbip_device \<Rightarrow> ('s uc \<times> usbip_device \<times> (handler \<times> bt_state) option) cresult" where
  "bluetooth_add opts cls dv uc dev = usbip_device_add_class (bt_build opts) cls dv uc dev"

text \<open>A sequence of bulk-OUT packets.\<close>

fun bt_run :: "bt_state \<Rightarrow> bytes list \<Rightarrow> (bt_state \<times> bt_event list) cresult" where
  "bt_run st [] = Ret (st, [])"
| "bt_run st (d # ds) = bindc (bt_on_out st d) (\<lambda>(st, ev). bindc (bt_run st ds) (\<lambda>(st, ev'). Ret (st, ev @ ev')))"

section \<open>Reassembly\<close>

definition acl_pdu :: "bytes \<Rightarrow> bool" where
  "acl_pdu p \<longleftrightarrow> 4 \<le> length p \<and> length p = 4 + unat (usb_get_le16 p 2)"

lemma usb_get_le16_append: "4 \<le> length p \<Longrightarrow> usb_get_le16 (p @ q) 2 = usb_get_le16 p 2"
  by (simp add: usb_get_le16_def bytes_at_append_left)

lemma release_pdus: "\<forall>p \<in> set ps. acl_pdu p \<Longrightarrow> bt_release (concat ps) = (ps, [])"
proof (induction ps)
  case Nil
  show ?case by (simp add: bt_release.simps [of "[]"])
next
  case (Cons p ps)
  then have p: "4 \<le> length p" "4 + unat (usb_get_le16 p 2) = length p" by (simp_all add: acl_pdu_def)
  with Cons show ?case
    by (simp add: bt_release.simps [of "p @ concat ps"] usb_get_le16_append Let_def)
qed

text \<open>What is released early is not changed by what follows.\<close>

lemma release_append:
  "bt_release a = (out, r) \<Longrightarrow> bt_release (a @ b) = (out @ fst (bt_release (r @ b)), snd (bt_release (r @ b)))"
proof (induction a arbitrary: out r rule: bt_release.induct)
  case (1 rx)
  let ?n = "4 + unat (usb_get_le16 rx 2)"
  show ?case
  proof (cases "length rx < 4 \<or> length rx < ?n")
    case True
    with "1.prems" have "out = []" "r = rx" by (auto simp: bt_release.simps [of rx] Let_def split: if_splits)
    then show ?thesis by simp
  next
    case False
    obtain o1 where o1: "bt_release (drop ?n rx) = (o1, r)" "out = take ?n rx # o1"
      using "1.prems" False by (auto simp: bt_release.simps [of rx] Let_def split: prod.splits)
    have "bt_release (drop ?n rx @ b) = (o1 @ fst (bt_release (r @ b)), snd (bt_release (r @ b)))"
      using "1.IH" [OF _ refl _ o1(1)] False by simp
    with False o1(2) show ?thesis
      by (simp add: bt_release.simps [of "rx @ b"] usb_get_le16_append Let_def)
  qed
qed

text \<open>A held-back remainder is shorter than the PDU it starts.\<close>

lemma held_back_short:
  assumes "bt_release r = ([], r)" "r @ rest = p @ q" "acl_pdu p"
  shows "length r < length p"
proof (rule ccontr)
  assume "\<not> length r < length p"
  then have le: "length p \<le> length r" by simp
  with assms(2) obtain r' where r: "r = p @ r'" by (metis append_eq_append_conv_if append_take_drop_id)
  from assms(3) have p: "4 \<le> length p" "4 + unat (usb_get_le16 p 2) = length p" by (simp_all add: acl_pdu_def)
  with assms(1) r show False
    by (simp add: bt_release.simps [of "p @ r'"] usb_get_le16_append Let_def split: prod.splits)
qed

lemma release_remainder: "bt_release a = (out, r) \<Longrightarrow> bt_release r = ([], r) \<and> a = concat out @ r"
proof (induction a arbitrary: out r rule: bt_release.induct)
  case (1 rx)
  let ?n = "4 + unat (usb_get_le16 rx 2)"
  show ?case
  proof (cases "length rx < 4 \<or> length rx < ?n")
    case True
    then have "bt_release rx = ([], rx)" by (auto simp: bt_release.simps [of rx] Let_def)
    with "1.prems" show ?thesis by simp
  next
    case False
    obtain o1 where o1: "bt_release (drop ?n rx) = (o1, r)" "out = take ?n rx # o1"
      using "1.prems" False by (auto simp: bt_release.simps [of rx] Let_def split: prod.splits)
    have "bt_release r = ([], r) \<and> drop ?n rx = concat o1 @ r"
      using "1.IH" [OF _ refl _ o1(1)] False by simp
    then show ?thesis using o1(2) by (metis append.assoc append_take_drop_id concat.simps(2))
  qed
qed

lemma run_reassembles:
  assumes "bo_on_acl (bt_opts st)" "\<forall>p \<in> set ps. acl_pdu p \<and> length p + mx \<le> 1025" "\<forall>d \<in> set ds. length d \<le> mx"
    and "bt_release (acl_rx st) = ([], acl_rx st)" "acl_rx st @ concat ds = concat ps" "mx \<le> 1024"
  shows "\<exists>st'. bt_run st ds = Ret (st', map AclPdu ps) \<and> acl_rx st' = []"
  using assms
proof (induction ds arbitrary: st ps)
  case Nil
  then have "acl_rx st = concat ps" by simp
  with Nil(4) release_pdus [of ps] Nil(2) have "ps = []" "acl_rx st = []" by simp_all
  then show ?case by simp
next
  case (Cons d ds)
  show ?case
  proof (cases "d = []")
    case True
    have "bindc r Ret = r" for r :: "(bt_state \<times> bt_event list) cresult" by (cases r) simp_all
    with True Cons show ?thesis by (simp add: bt_on_out_def)
  next
    case False
    have "length (acl_rx st) + length d \<le> 1024"
    proof (cases ps)
      case Nil
      with Cons.prems(5) False show ?thesis by simp
    next
      case (Cons p ps')
      then have p: "acl_pdu p" "length p + mx \<le> 1025" using Cons.prems(2) by simp_all
      have "length (acl_rx st) < length p"
        using held_back_short [OF Cons.prems(4) _ p(1), of "concat (d # ds)" "concat ps'"] Cons.prems(5) Cons by simp
      with p(2) Cons.prems(3) show ?thesis by simp
    qed
    moreover obtain out r where rel: "bt_release (acl_rx st @ d) = (out, r)" by fastforce
    ultimately have o: "bt_on_out st d = Ret (st\<lparr>acl_rx := r\<rparr>, map AclPdu out)"
      using False Cons.prems(1) by (simp add: bt_on_out_def Let_def)
    have all: "bt_release (acl_rx st @ concat (d # ds)) = (ps, [])"
      using release_pdus [of ps] Cons.prems(2,5) by simp
    have "bt_release ((acl_rx st @ d) @ concat ds) = (out @ fst (bt_release (r @ concat ds)), snd (bt_release (r @ concat ds)))"
      by (rule release_append [OF rel])
    with all have ps: "ps = out @ fst (bt_release (r @ concat ds))" "snd (bt_release (r @ concat ds)) = []" by simp_all
    define ps2 where "ps2 = fst (bt_release (r @ concat ds))"
    have r2: "bt_release (r @ concat ds) = (ps2, [])" using ps(2) by (simp add: ps2_def prod_eq_iff)
    then have "r @ concat ds = concat ps2" using release_remainder by fastforce
    moreover have "bt_release r = ([], r)" using release_remainder [OF rel] by simp
    ultimately have "\<exists>st'. bt_run (st\<lparr>acl_rx := r\<rparr>) ds = Ret (st', map AclPdu ps2) \<and> acl_rx st' = []"
      using Cons.prems ps(1) by (intro Cons.IH) (auto simp: ps2_def)
    with o ps(1) show ?thesis by (auto simp: ps2_def)
  qed
qed

text \<open>C28: ACL data is reassembled. However a stream of PDUs is cut into bulk-OUT packets, the
  application gets exactly the PDUs, each whole, once and in order, and nothing is left in the buffer,
  provided a PDU and a packet together fit the 1024-byte buffer. (A PDU that does not leave room for
  the packet it ends in makes the code drop what it has, so the longest 3-DH5 PDU, 1025 bytes with
  its header, never arrives.)\<close>

theorem acl_pdus_are_reassembled:
  assumes "bo_on_acl (bt_opts st)" "acl_rx st = []" "concat pkts = concat pdus"
    and "\<forall>p \<in> set pdus. acl_pdu p \<and> length p + mx \<le> 1025" "\<forall>d \<in> set pkts. length d \<le> mx" "mx \<le> 1024"
  shows "\<exists>st'. bt_run st pkts = Ret (st', map AclPdu pdus) \<and> acl_rx st' = []"
  using assms by (intro run_reassembles [where mx = mx]) (simp_all add: bt_release.simps [of "[]"])

theorem acl_pdus_are_reassembled_witness:
  "\<exists>st'. bt_run \<lparr>bt_opts = \<lparr>bo_on_command = True, bo_on_acl = True, bo_with_sco = False\<rparr>, acl_rx = [], bt_event_ep = None, bt_acl_in = None\<rparr>
     [[1, 0x20], [3, 0, 10], [11, 12, 2, 0x20, 1], [0, 13]]
     = Ret (st', map AclPdu [[1, 0x20, 3, 0, 10, 11, 12], [2, 0x20, 1, 0, 13]]) \<and> acl_rx st' = []"
  by (rule acl_pdus_are_reassembled [where mx = 64])
    (simp_all add: acl_pdu_def usb_get_le16_def bytes_at_def)

end
