(* ===== verification/Cdc_Acm.thy ===== *)
theory Cdc_Acm
  imports Usb_Class
begin

text \<open>
  The CDC-ACM serial port class (\<open>src/classes/device/cdc_acm.c\<close>). The application's callbacks are
  events handed to it in order.
\<close>

section \<open>State\<close>

record cdc_line_coding =
  lc_baud :: u32
  lc_stop_bits :: u8
  lc_parity :: u8
  lc_data_bits :: u8

record cdc_port =
  cp_index :: nat
  cp_name :: bytes
  cp_interface_number :: u8
  cp_in_ep :: u8
  cp_out_ep :: u8
  cp_line_coding :: cdc_line_coding
  cp_is_open :: bool

record cdc_acm_opts =
  co_on_open :: bool
  co_on_close :: bool
  co_on_line_coding :: bool
  co_on_rx :: bool
  co_name :: "bytes option"

record cdc_state =
  cs_pub :: cdc_port
  cs_opts :: cdc_acm_opts
  cs_notify :: "nat option"
  cs_in :: "nat option"
  cs_out :: "nat option"

datatype cdc_event = Opened cdc_line_coding | Closed | LineCoding cdc_line_coding | Received bytes

section \<open>Line coding on the wire\<close>

definition coding_from_wire :: "bytes \<Rightarrow> cdc_line_coding" where
  "coding_from_wire wire = \<lparr>lc_baud = usb_get_le32 wire 0, lc_stop_bits = wire ! 4,
     lc_parity = wire ! 5, lc_data_bits = wire ! 6\<rparr>"

definition coding_to_wire :: "cdc_line_coding \<Rightarrow> bytes" where
  "coding_to_wire lc = (usb_put_le32 0 (lc_baud lc) (replicate 7 0))
     [4 := lc_stop_bits lc, 5 := lc_parity lc, 6 := lc_data_bits lc]"

section \<open>Building\<close>

definition cdc_build :: "cdc_acm_opts \<Rightarrow> ('s, cdc_state) uc_build" where
  "cdc_build opts uc func dev =
     (let (dev, istr) = (case co_name opts of None \<Rightarrow> (dev, 0) | Some s \<Rightarrow> usbip_device_add_string s dev);
          index = snd (usbip_function_instance func uc);
          (func, dev) = (if composite dev
             then (let (func, dev, rc) = usbip_function_associate 2 0x02 0x02 0x01 (of_nat istr) func dev in (func, dev))
             else (func, usbip_device_set_class 0x02 0x02 0x01 dev))
      in bindc (usbip_function_add_interface 0x02 0x02 0x01 func dev) (\<lambda>(func, dev, comm).
         let comm_if = i_ifnum (f_ifaces func ! comm);
             data_if = comm_if + 1;
             dev = usbip_interface_set_string comm (of_nat istr) func dev;
             (func, dev) = usbip_interface_add_descriptor ([5, 0x24, 0x00] @ le_bytes 2 (0x0110 :: u16)) func dev;
             (func, dev) = usbip_interface_add_descriptor [5, 0x24, 0x01, 0x00, data_if] func dev;
             (func, dev) = usbip_interface_add_descriptor [4, 0x24, 0x02, 0x02] func dev;
             (func, dev) = usbip_interface_add_descriptor [5, 0x24, 0x06, comm_if, data_if] func dev;
             (func, dev, notify) = usbip_interface_add_endpoint (ep_desc 0x82 3 16 9) func dev;
             bulk_mps = (if speed_code (speed dev) \<ge> speed_code USB_SPEED_HIGH then 512 else 64) :: u16
         in bindc (usbip_function_add_interface 0x0A 0 0 func dev) (\<lambda>(func, dev, data).
            let (func, dev, ep_in) = usbip_interface_add_endpoint (ep_desc 0x81 2 bulk_mps 0) func dev;
                (func, dev, ep_out) = usbip_interface_add_endpoint (ep_desc 0x01 2 bulk_mps 0) func dev
            in Ret (func, dev, Some \<lparr>
                 cs_pub = \<lparr>cp_index = index, cp_name = (case co_name opts of None \<Rightarrow> [] | Some s \<Rightarrow> s),
                   cp_interface_number = comm_if, cp_in_ep = usbip_endpoint_address dev ep_in,
                   cp_out_ep = usbip_endpoint_address dev ep_out,
                   cp_line_coding = \<lparr>lc_baud = 9600, lc_stop_bits = 0, lc_parity = 0, lc_data_bits = 8\<rparr>,
                   cp_is_open = False\<rparr>,
                 cs_opts = opts, cs_notify = notify, cs_in = ep_in, cs_out = ep_out\<rparr>))))"

section \<open>Requests and data\<close>

definition upd_port :: "(cdc_port \<Rightarrow> cdc_port) \<Rightarrow> cdc_state \<Rightarrow> cdc_state" where
  "upd_port f st = st\<lparr>cs_pub := f (cs_pub st)\<rparr>"

text \<open>The state, the events, the return value and the reply. A line coding is read from \<open>buf\<close>
  whatever the direction of the request; only an OUT request has put it there.\<close>

definition cdc_control :: "cdc_state \<Rightarrow> usb_setup \<Rightarrow> bytes \<Rightarrow> u16 \<Rightarrow> (cdc_state \<times> cdc_event list \<times> int \<times> bytes) cresult" where
  "cdc_control st stp d len =
     (let r = bRequest stp; opt = cs_opts st; lc = cp_line_coding (cs_pub st) in
      if r = 0x20 then
        (if len < 7 then Ret (st, [], 0, [])
         else if length d < 7 then Undefined
         else (let lc = coding_from_wire d
               in Ret (upd_port (\<lambda>p. p\<lparr>cp_line_coding := lc\<rparr>) st, if co_on_line_coding opt then [LineCoding lc] else [], 0, [])))
      else if r = 0x21 then bindc (ctl_reply stp d st (coding_to_wire lc)) (\<lambda>(st, rc, w). Ret (st, [], rc, w))
      else if r = 0x22 then
        (let dtr = (wValue stp AND 0x01 \<noteq> 0) in
         if dtr \<and> \<not> cp_is_open (cs_pub st) then
           Ret (upd_port (\<lambda>p. p\<lparr>cp_is_open := True\<rparr>) st, if co_on_open opt then [Opened lc] else [], 0, [])
         else if \<not> dtr \<and> cp_is_open (cs_pub st) then
           Ret (upd_port (\<lambda>p. p\<lparr>cp_is_open := False\<rparr>) st, if co_on_close opt then [Closed] else [], 0, [])
         else Ret (st, [], 0, []))
      else Ret (st, [], - 1, []))"

definition cdc_on_out :: "cdc_state \<Rightarrow> bytes \<Rightarrow> cdc_event list" where
  "cdc_on_out st d = (if co_on_rx (cs_opts st) then [Received d] else [])"

definition cdc_acm_send :: "cdc_state \<Rightarrow> bytes \<Rightarrow> (ep_act list, int) sum" where
  "cdc_acm_send st d = (case cs_in st of None \<Rightarrow> Inr USB_ERROR_NO_DEVICE | Some i \<Rightarrow> Inl [EpWrite i d])"

definition cdc_acm_add :: "cdc_acm_opts \<Rightarrow> 's usbip_device_class \<Rightarrow> nat \<Rightarrow> 's uc \<Rightarrow> usbip_device \<Rightarrow> ('s uc \<times> usbip_device \<times> (handler \<times> cdc_state) option) cresult" where
  "cdc_acm_add opts cls dv uc dev = usbip_device_add_class (cdc_build opts) cls dv uc dev"

text \<open>A sequence of control requests, each with its data stage, skipping those that stall.\<close>

fun cdc_requests :: "cdc_state \<Rightarrow> (usb_setup \<times> bytes) list \<Rightarrow> (cdc_state \<times> cdc_event list) cresult" where
  "cdc_requests st [] = Ret (st, [])"
| "cdc_requests st ((stp, d) # rs) =
     bindc (cdc_control st stp d (if req_is_in (bmRequestType stp) then wLength stp else of_nat (length d)))
       (\<lambda>(st, ev, rc, w). bindc (cdc_requests st rs) (\<lambda>(st, ev'). Ret (st, ev @ ev')))"

section \<open>Properties\<close>

lemma coding_to_wire_bytes:
  "coding_to_wire lc = le_bytes 4 (lc_baud lc) @ [lc_stop_bits lc, lc_parity lc, lc_data_bits lc]"
  by (simp add: coding_to_wire_def usb_put_le32_def put_at_def le_bytes_numeral numeral_eq_Suc)

lemma coding_roundtrip: "coding_from_wire (coding_to_wire lc) = lc"
  by (simp add: coding_from_wire_def coding_to_wire_bytes usb_get_le32_def bytes_at_def nth_append)

lemma coding_roundtrip':
  assumes "length w = 7"
  shows "coding_to_wire (coding_from_wire w) = w"
proof -
  have "le_bytes 4 (le_of (take 4 w) :: u32) = take 4 w" using le_bytes_le_of [of "take 4 w", where 'a = 32] assms by simp
  moreover have "drop 4 w = [w ! 4, w ! 5, w ! 6]"
    using assms by (simp add: list_eq_iff_nth_eq nth_Cons' less_Suc_eq numeral_eq_Suc)
  ultimately show ?thesis
    using append_take_drop_id [of 4 w] by (simp add: coding_from_wire_def coding_to_wire_bytes usb_get_le32_def bytes_at_def)
qed

text \<open>Opens and closes as an automaton of one bit.\<close>

fun alternates :: "bool \<Rightarrow> cdc_event list \<Rightarrow> bool \<Rightarrow> bool" where
  "alternates s [] e = (s = e)"
| "alternates s (Opened lc # es) e = (\<not> s \<and> alternates True es e)"
| "alternates s (Closed # es) e = (s \<and> alternates False es e)"
| "alternates s (LineCoding lc # es) e = alternates s es e"
| "alternates s (Received d # es) e = alternates s es e"

lemma alternates_append: "alternates s es m \<Longrightarrow> alternates m es' e \<Longrightarrow> alternates s (es @ es') e"
  by (induction s es m rule: alternates.induct) auto

lemma control_alternates:
  assumes "co_on_open (cs_opts st)" "co_on_close (cs_opts st)" "cdc_control st stp d len = Ret (st', ev, rc, w)"
  shows "alternates (cp_is_open (cs_pub st)) ev (cp_is_open (cs_pub st')) \<and> cs_opts st' = cs_opts st"
  using assms by (auto simp: cdc_control_def Let_def upd_port_def ctl_reply_def split: if_splits)

text \<open>C38: The application of a serial port sees its opens and closes strictly alternate, beginning
  with an open, whatever requests the host sends and however often it repeats one; and the port is
  marked open exactly when the last of them was an open.\<close>

theorem opens_and_closes_alternate:
  assumes "co_on_open (cs_opts st)" "co_on_close (cs_opts st)" "cdc_requests st rs = Ret (st', ev)"
  shows "alternates (cp_is_open (cs_pub st)) ev (cp_is_open (cs_pub st'))"
  using assms
proof (induction rs arbitrary: st ev)
  case Nil
  then show ?case by simp
next
  case (Cons x rs)
  obtain stp d where x: "x = (stp, d)" by fastforce
  with Cons.prems(3) obtain st1 ev1 rc w ev2 where
    c: "cdc_control st stp d (if req_is_in (bmRequestType stp) then wLength stp else of_nat (length d)) = Ret (st1, ev1, rc, w)"
    and r: "cdc_requests st1 rs = Ret (st', ev2)" "ev = ev1 @ ev2"
    by (auto simp: bindc_def split: cresult.splits prod.splits)
  note a = control_alternates [OF Cons.prems(1,2) c]
  then have "alternates (cp_is_open (cs_pub st1)) ev2 (cp_is_open (cs_pub st'))"
    using Cons.IH [OF _ _ r(1)] Cons.prems(1,2) by simp
  with a r(2) alternates_append show ?case by blast
qed

definition demo_port :: cdc_state where
  "demo_port = \<lparr>cs_pub = \<lparr>cp_index = 0, cp_name = [], cp_interface_number = 0, cp_in_ep = 0x81, cp_out_ep = 1,
       cp_line_coding = \<lparr>lc_baud = 9600, lc_stop_bits = 0, lc_parity = 0, lc_data_bits = 8\<rparr>, cp_is_open = False\<rparr>,
     cs_opts = \<lparr>co_on_open = True, co_on_close = True, co_on_line_coding = True, co_on_rx = True, co_name = None\<rparr>,
     cs_notify = Some 0, cs_in = Some 1, cs_out = Some 2\<rparr>"

definition line_state :: "u16 \<Rightarrow> usb_setup \<times> bytes" where
  "line_state v = (\<lparr>bmRequestType = 0x21, bRequest = 0x22, wValue = v, wIndex = 0, wLength = 0\<rparr>, [])"

theorem opens_and_closes_alternate_witness:
  "\<exists>st' ev. cdc_requests demo_port [line_state 3, line_state 1, line_state 2, line_state 3] = Ret (st', ev)
     \<and> length ev = 3 \<and> alternates False ev True"
proof -
  obtain st' ev where r: "cdc_requests demo_port [line_state 3, line_state 1, line_state 2, line_state 3] = Ret (st', ev)"
    "length ev = 3" "cp_is_open (cs_pub st')"
    by (simp add: line_state_def cdc_control_def demo_port_def upd_port_def Let_def)
  with opens_and_closes_alternate [OF _ _ r(1)] show ?thesis by (simp add: demo_port_def)
qed

text \<open>A line coding the host sets is the one it reads back, byte for byte, and the application is
  told the same values.\<close>

theorem line_coding_roundtrip:
  assumes "length w = 7"
  shows "\<exists>st' ev. cdc_control st \<lparr>bmRequestType = 0x21, bRequest = 0x20, wValue = 0, wIndex = i, wLength = 7\<rparr> w 7 = Ret (st', ev, 0, [])
     \<and> ev = (if co_on_line_coding (cs_opts st) then [LineCoding (coding_from_wire w)] else [])
     \<and> cdc_control st' \<lparr>bmRequestType = 0xA1, bRequest = 0x21, wValue = 0, wIndex = i, wLength = 7\<rparr> [] 7 = Ret (st', [], 7, w)"
  using assms coding_roundtrip' [OF assms]
  by (simp add: cdc_control_def Let_def upd_port_def ctl_reply_def ctl_room_def req_is_in_def)

theorem line_coding_roundtrip_witness:
  "\<exists>st' ev. cdc_control demo_port \<lparr>bmRequestType = 0x21, bRequest = 0x20, wValue = 0, wIndex = 0, wLength = 7\<rparr>
       [0, 0xC2, 1, 0, 0, 0, 8] 7 = Ret (st', ev, 0, [])
     \<and> cdc_control st' \<lparr>bmRequestType = 0xA1, bRequest = 0x21, wValue = 0, wIndex = 0, wLength = 7\<rparr> [] 7
       = Ret (st', [], 7, [0, 0xC2, 1, 0, 0, 0, 8])"
  using line_coding_roundtrip [of "[0, 0xC2, 1, 0, 0, 0, 8]" demo_port 0] by auto

end
