(* ===== verification/Hid.thy ===== *)
theory Hid
  imports Usb_Class
begin

text \<open>
  The HID class (\<open>src/classes/device/hid.c\<close>) over an application's state \<open>'b\<close> and its optional
  report callbacks.
\<close>

section \<open>State\<close>

text \<open>\<open>ho_get_report\<close> gives the return value and the bytes it wrote to the buffer;
  \<open>ho_report_desc\<close> is the array of \<open>report_desc_len\<close> bytes.\<close>

record 'b hid_opts =
  ho_report_desc :: bytes
  ho_report_desc_len :: u16
  ho_subclass :: u8
  ho_protocol :: u8
  ho_in_ep :: u8
  ho_in_mps :: u16
  ho_in_interval :: u8
  ho_out_ep :: u8
  ho_out_mps :: u16
  ho_out_interval :: u8
  ho_country :: u8
  ho_name :: "bytes option"
  ho_get_report :: "('b \<Rightarrow> u8 \<Rightarrow> u8 \<Rightarrow> u16 \<Rightarrow> 'b \<times> int \<times> bytes) option"
  ho_set_report :: "('b \<Rightarrow> u8 \<Rightarrow> u8 \<Rightarrow> bytes \<Rightarrow> 'b) option"
  ho_on_output :: "('b \<Rightarrow> bytes \<Rightarrow> 'b) option"

record hid_iface =
  hi_index :: nat
  hi_name :: bytes
  hi_interface_number :: u8
  hi_in_ep :: u8
  hi_out_ep :: u8
  hi_protocol :: u8
  hi_idle :: u8

text \<open>\<open>hs_last_input\<close> is the first \<open>last_input_len\<close> bytes of the echo buffer.\<close>

record 'b hid_state =
  hs_pub :: hid_iface
  hs_opts :: "'b hid_opts"
  hs_in :: "nat option"
  hs_out :: "nat option"
  hs_last_input :: bytes

abbreviation (input) HID_LAST_INPUT_MAX :: nat where "HID_LAST_INPUT_MAX \<equiv> 64"

definition hid_desc :: "'b hid_opts \<Rightarrow> bytes" where
  "hid_desc opt = [9, 0x21] @ le_bytes 2 (0x0111 :: u16) @ [ho_country opt, 1, 0x22] @ le_bytes 2 (ho_report_desc_len opt)"

section \<open>The polling interval\<close>

text \<open>The candidate exponents in turn, with the best so far and its error.\<close>

fun best_interval :: "u32 \<Rightarrow> nat list \<Rightarrow> nat \<times> u32 \<Rightarrow> nat \<times> u32" where
  "best_interval target_us [] be = be"
| "best_interval target_us (c # cs) be =
     (let us = push_bit (c - 1) 125; err = (if us > target_us then us - target_us else target_us - us)
      in best_interval target_us cs (if err < snd be then (c, err) else be))"

definition hid_encode_interval :: "usb_speed \<Rightarrow> u8 \<Rightarrow> u8" where
  "hid_encode_interval sp ms =
     (if speed_code sp < speed_code USB_SPEED_HIGH \<or> ms = 0 then ms
      else of_nat (fst (best_interval (ucast ms * 1000) [1..<17] (1, 0xFFFFFFFF))))"

section \<open>Building\<close>

definition hid_defaults :: "'b hid_opts \<Rightarrow> 'b hid_opts" where
  "hid_defaults opt =
     (let opt = (if ho_in_ep opt = 0 then opt\<lparr>ho_in_ep := 0x81\<rparr> else opt);
          opt = (if ho_in_mps opt = 0 then opt\<lparr>ho_in_mps := 64\<rparr> else opt);
          opt = (if ho_in_interval opt = 0 then opt\<lparr>ho_in_interval := 10\<rparr> else opt);
          opt = (if ho_out_ep opt \<noteq> 0 \<and> ho_out_mps opt = 0 then opt\<lparr>ho_out_mps := 64\<rparr> else opt)
      in if ho_out_ep opt \<noteq> 0 \<and> ho_out_interval opt = 0 then opt\<lparr>ho_out_interval := 10\<rparr> else opt)"

definition hid_build :: "'b hid_opts \<Rightarrow> ('s, 'b hid_state) uc_build" where
  "hid_build opts uc func dev =
     (let opt = hid_defaults opts;
          (dev, istr) = (case ho_name opt of None \<Rightarrow> (dev, 0) | Some s \<Rightarrow> usbip_device_add_string s dev);
          index = snd (usbip_function_instance func uc)
      in bindc (usbip_function_add_interface 0x03 (ho_subclass opt) (ho_protocol opt) func dev) (\<lambda>(func, dev, iface).
         let dev = usbip_interface_set_string iface (of_nat istr) func dev;
             (func, dev) = usbip_interface_add_descriptor (hid_desc opt) func dev;
             (func, dev, ep_in) = usbip_interface_add_endpoint
                (ep_desc (ho_in_ep opt) 3 (ho_in_mps opt) (hid_encode_interval (speed dev) (ho_in_interval opt))) func dev;
             (func, dev, ep_out) = (if ho_out_ep opt = 0 then (func, dev, None)
                else usbip_interface_add_endpoint
                (ep_desc (ho_out_ep opt) 3 (ho_out_mps opt) (hid_encode_interval (speed dev) (ho_out_interval opt))) func dev)
         in Ret (func, dev, Some \<lparr>
              hs_pub = \<lparr>hi_index = index, hi_name = (case ho_name opt of None \<Rightarrow> [] | Some s \<Rightarrow> s),
                hi_interface_number = i_ifnum (f_ifaces func ! iface), hi_in_ep = 0, hi_out_ep = 0,
                hi_protocol = 1, hi_idle = 0\<rparr>,
              hs_opts = opt, hs_in = ep_in, hs_out = ep_out, hs_last_input = []\<rparr>)))"

section \<open>Requests and reports\<close>

text \<open>\<open>memcpy(buf, src, min(n, len))\<close> and that count.\<close>

definition hid_copy :: "usb_setup \<Rightarrow> bytes \<Rightarrow> 'b \<times> 'b hid_state \<Rightarrow> bytes \<Rightarrow> u16 \<Rightarrow> (('b \<times> 'b hid_state) \<times> int \<times> bytes) cresult" where
  "hid_copy stp d x src len = ctl_reply stp d x (take (unat len) src)"

text \<open>A report from the host: \<open>len\<close> bytes of \<open>buf\<close>, which only an OUT request has filled.\<close>

definition hid_set_report :: "'b \<Rightarrow> 'b hid_state \<Rightarrow> usb_setup \<Rightarrow> bytes \<Rightarrow> u16 \<Rightarrow> 'b cresult" where
  "hid_set_report b st stp d len =
     (case ho_set_report (hs_opts st) of
        Some f \<Rightarrow> (if unat len > length d then Undefined
                  else Ret (f b (USB_U16_MSB (wValue stp)) (USB_U16_LSB (wValue stp)) (take (unat len) d)))
      | None \<Rightarrow> (case ho_on_output (hs_opts st) of
            Some f \<Rightarrow> (if unat len > length d then Undefined else Ret (f b (take (unat len) d)))
          | None \<Rightarrow> Ret b))"

definition hid_get_report :: "'b \<Rightarrow> 'b hid_state \<Rightarrow> usb_setup \<Rightarrow> bytes \<Rightarrow> u16 \<Rightarrow> (('b \<times> 'b hid_state) \<times> int \<times> bytes) cresult" where
  "hid_get_report b st stp d len =
     (case ho_get_report (hs_opts st) of
        None \<Rightarrow> hid_copy stp d (b, st) (hs_last_input st) len
      | Some f \<Rightarrow> (let (b, got, r) = f b (USB_U16_MSB (wValue stp)) (USB_U16_LSB (wValue stp)) len
          in if length r > ctl_room stp d then Undefined
             else if got \<ge> 0 then Ret ((b, st), got, r)
             else hid_copy stp d (b, st) (hs_last_input st) len))"

definition hid_control :: "'b \<Rightarrow> 'b hid_state \<Rightarrow> usb_setup \<Rightarrow> bytes \<Rightarrow> u16 \<Rightarrow> (('b \<times> 'b hid_state) \<times> int \<times> bytes) cresult" where
  "hid_control b st stp d len =
     (let ty = USB_REQ_TYPE (bmRequestType stp); r = bRequest stp; dt = USB_U16_MSB (wValue stp); opt = hs_opts st in
      if ty = USB_STANDARD \<and> r = 6 then
        (if dt = 0x22 then hid_copy stp d (b, st) (take (unat (ho_report_desc_len opt)) (ho_report_desc opt)) len
         else if dt = 0x21 then hid_copy stp d (b, st) (hid_desc opt) len
         else Ret ((b, st), - 1, []))
      else if ty \<noteq> USB_CLASS then Ret ((b, st), - 1, [])
      else if r = 0x01 then hid_get_report b st stp d len
      else if r = 0x09 then bindc (hid_set_report b st stp d len) (\<lambda>b. Ret ((b, st), 0, []))
      else if r = 0x02 then ctl_reply stp d (b, st) [hi_idle (hs_pub st)]
      else if r = 0x0A then Ret ((b, st\<lparr>hs_pub := (hs_pub st)\<lparr>hi_idle := USB_U16_MSB (wValue stp)\<rparr>\<rparr>), 0, [])
      else if r = 0x03 then ctl_reply stp d (b, st) [hi_protocol (hs_pub st)]
      else if r = 0x0B then Ret ((b, st\<lparr>hs_pub := (hs_pub st)\<lparr>hi_protocol := USB_U16_LSB (wValue stp)\<rparr>\<rparr>), 0, [])
      else Ret ((b, st), - 1, []))"

definition hid_on_out :: "'b \<Rightarrow> 'b hid_state \<Rightarrow> bytes \<Rightarrow> 'b" where
  "hid_on_out b st d = (case ho_on_output (hs_opts st) of None \<Rightarrow> b | Some f \<Rightarrow> f b d)"

text \<open>An Input report: kept for GET_REPORT and queued on the pipe.\<close>

definition hid_send_report :: "'b hid_state \<Rightarrow> bytes \<Rightarrow> ('b hid_state \<times> ep_act list, int) sum" where
  "hid_send_report st d =
     (case hs_in st of
        None \<Rightarrow> Inr USB_ERROR_NO_DEVICE
      | Some i \<Rightarrow> (let kept = take HID_LAST_INPUT_MAX d
          in Inl (if kept \<noteq> [] then st\<lparr>hs_last_input := kept\<rparr> else st, [EpWrite i d])))"

definition hid_add :: "'b hid_opts \<Rightarrow> 's usbip_device_class \<Rightarrow> nat \<Rightarrow> 's uc \<Rightarrow> usbip_device \<Rightarrow> ('s uc \<times> usbip_device \<times> (handler \<times> 'b hid_state) option) cresult" where
  "hid_add opts cls dv uc dev = usbip_device_add_class (hid_build opts) cls dv uc dev"

section \<open>The interval is the nearest one\<close>

definition interval_error :: "nat \<Rightarrow> nat \<Rightarrow> nat" where
  "interval_error target_us c = (if 125 * 2 ^ (c - 1) > target_us then 125 * 2 ^ (c - 1) - target_us else target_us - 125 * 2 ^ (c - 1))"

lemma candidate_us:
  assumes "k \<le> 15"
  shows "unat (push_bit k 125 :: u32) = 125 * 2 ^ k"
proof -
  have "125 * 2 ^ k \<le> 125 * (2 :: nat) ^ 15" using assms by (intro mult_le_mono power_increasing) simp_all
  then have "unat (of_nat (125 * 2 ^ k) :: u32) = 125 * 2 ^ k" by (simp only: unat_of_nat) simp
  then show ?thesis by (simp add: push_bit_eq_mult mult.commute)
qed

lemma best_interval_spec:
  assumes "\<forall>c \<in> set cs. c - 1 \<le> 15"
  shows "let (c, e) = best_interval t cs (c0, e0) in
    (\<forall>x \<in> set cs. unat e \<le> interval_error (unat t) x) \<and> e \<le> e0
    \<and> (c = c0 \<and> e = e0 \<or> c \<in> set cs \<and> unat e = interval_error (unat t) c)"
  using assms
proof (induction cs arbitrary: c0 e0)
  case Nil
  then show ?case by simp
next
  case (Cons c cs)
  define err where "err = (if push_bit (c - 1) 125 > t then push_bit (c - 1) 125 - t else t - push_bit (c - 1) (125 :: u32))"
  have u: "unat (push_bit (c - 1) 125 :: u32) = 125 * 2 ^ (c - 1)" using Cons.prems by (intro candidate_us) simp
  have err: "unat err = interval_error (unat t) c"
  proof (cases "push_bit (c - 1) 125 > t")
    case True
    then show ?thesis using unat_sub [of t "push_bit (c - 1) 125"] u
      by (simp add: err_def interval_error_def word_less_nat_alt word_le_nat_alt)
  next
    case False
    then show ?thesis using unat_sub [of "push_bit (c - 1) 125" t] u
      by (simp add: err_def interval_error_def word_less_nat_alt word_le_nat_alt)
  qed
  obtain c1 e1 where r: "best_interval t cs (if err < e0 then (c, err) else (c0, e0)) = (c1, e1)" by fastforce
  have "best_interval t (c # cs) (c0, e0) = (c1, e1)" using r unfolding best_interval.simps Let_def snd_conv err_def [symmetric] by simp
  moreover have "(\<forall>x \<in> set cs. unat e1 \<le> interval_error (unat t) x) \<and> e1 \<le> (if err < e0 then err else e0)
    \<and> (c1 = (if err < e0 then c else c0) \<and> e1 = (if err < e0 then err else e0) \<or> c1 \<in> set cs \<and> unat e1 = interval_error (unat t) c1)"
    using Cons.IH [of "fst (if err < e0 then (c, err) else (c0, e0))" "snd (if err < e0 then (c, err) else (c0, e0))"]
      Cons.prems r by (simp split: if_splits)
  ultimately show ?case using err by (auto simp: word_le_nat_alt word_less_nat_alt split: if_splits)
qed

text \<open>C39: At high speed the interval a HID endpoint declares is the best there is: the exponent is in
  the range the USB specification allows, and no other exponent's period is nearer to the
  milliseconds the application asked for. At full and low speed the milliseconds are used as they are.\<close>

theorem hid_interval_is_nearest:
  assumes "sp = USB_SPEED_HIGH \<or> sp = USB_SPEED_SUPER" "ms \<noteq> 0"
  shows "1 \<le> unat (hid_encode_interval sp ms) \<and> unat (hid_encode_interval sp ms) \<le> 16
     \<and> (\<forall>c \<in> {1..16}. interval_error (1000 * unat ms) (unat (hid_encode_interval sp ms)) \<le> interval_error (1000 * unat ms) c)"
proof -
  have ms: "unat ms < 256" using unsigned_less [of ms, where ?'a = nat] by simp
  have um: "unat (ucast ms :: u32) = unat ms" 
  proof -
    have "unat ms < 2 ^ 32" by (rule order_less_trans [OF ms]) simp
    then show ?thesis by (simp only: unsigned_ucast_eq) (simp add: take_bit_nat_eq_self)
  qed
  have t: "unat (ucast ms * 1000 :: u32) = 1000 * unat ms"
  proof -
    have n: "unat (1000 :: u32) = 1000" "(2 :: nat) ^ LENGTH(32) = 4294967296" by simp_all
    have "unat (ucast ms :: u32) * unat (1000 :: u32) < 2 ^ LENGTH(32)" unfolding um n using ms by linarith
    from unat_mult_lem [THEN iffD1, OF this] um show ?thesis by simp
  qed
  obtain c e where b: "best_interval (ucast ms * 1000) [1..<17] (1, 0xFFFFFFFF) = (c, e)" by fastforce
  have s: "(\<forall>x \<in> set [1..<17]. unat e \<le> interval_error (1000 * unat ms) x)
    \<and> (c = 1 \<and> e = 0xFFFFFFFF \<or> c \<in> set [1..<17] \<and> unat e = interval_error (1000 * unat ms) c)"
  proof -
    have "\<forall>c \<in> set [1..<17]. c - 1 \<le> (15 :: nat)" by auto
    from best_interval_spec [OF this, of "ucast ms * 1000" 1 "0xFFFFFFFF"] show ?thesis
      unfolding b t Let_def prod.case by blast
  qed
  have "unat ms \<le> 255" using ms by linarith
  then have "interval_error (1000 * unat ms) 1 \<le> 255000" by (auto simp: interval_error_def)
  moreover have "unat e \<le> interval_error (1000 * unat ms) 1" using s by simp
  ultimately have "e \<noteq> 0xFFFFFFFF" by auto
  with s have c: "c \<in> {1..16}" "unat e = interval_error (1000 * unat ms) c" by auto
  have "unat (hid_encode_interval sp ms) = c"
    using assms c(1) b by (auto simp: hid_encode_interval_def unat_of_nat)
  with c s show ?thesis by auto
qed

theorem hid_interval_is_nearest_witness:
  "interval_error 10000 (unat (hid_encode_interval USB_SPEED_HIGH 10)) \<le> 2000"
proof -
  have "interval_error 10000 (unat (hid_encode_interval USB_SPEED_HIGH 10)) \<le> interval_error 10000 7"
    using hid_interval_is_nearest [of USB_SPEED_HIGH 10] by simp
  then show ?thesis by (simp add: interval_error_def)
qed

section \<open>Reports and settings are read back\<close>

definition hid_req :: "u8 \<Rightarrow> u8 \<Rightarrow> u16 \<Rightarrow> u16 \<Rightarrow> usb_setup" where
  "hid_req ty r v len = \<lparr>bmRequestType = ty, bRequest = r, wValue = v, wIndex = 0, wLength = len\<rparr>"

text \<open>What goes into a HID interface comes out of it. The last Input report sent (its first 64
  bytes) is what GET_REPORT returns, cut to the length asked for, where the application does not
  answer itself; the idle rate and the protocol the host sets are the ones it reads back; and the
  report descriptor is returned whole to a host that asks for at least its length.\<close>

theorem hid_settings_roundtrip:
  assumes "hs_in st = Some i" "ho_get_report (hs_opts st) = None" "d \<noteq> []"
    and "length (ho_report_desc (hs_opts st)) = unat (ho_report_desc_len (hs_opts st))"
    and "unat (ho_report_desc_len (hs_opts st)) \<le> unat len" "unat len \<le> 4096"
  shows "\<exists>st1. hid_send_report st d = Inl (st1, [EpWrite i d])
     \<and> hid_control b st1 (hid_req 0xA1 0x01 0x0100 len) [] len
         = Ret ((b, st1), int (length (take (unat len) (take 64 d))), take (unat len) (take 64 d))
     \<and> (\<exists>st2. hid_control b st1 (hid_req 0x21 0x0A (v * 256) 0) [] 0 = Ret ((b, st2), 0, [])
         \<and> hid_control b st2 (hid_req 0xA1 0x02 0 1) [] 1 = Ret ((b, st2), 1, [USB_U16_MSB (v * 256)])
         \<and> (\<exists>st3. hid_control b st2 (hid_req 0x21 0x0B v 0) [] 0 = Ret ((b, st3), 0, [])
              \<and> hid_control b st3 (hid_req 0xA1 0x03 0 1) [] 1 = Ret ((b, st3), 1, [USB_U16_LSB v])
              \<and> hid_control b st3 (hid_req 0x81 0x06 0x2200 len) [] len
                  = Ret ((b, st3), int (length (ho_report_desc (hs_opts st))), ho_report_desc (hs_opts st))))"
  using assms
  by (simp add: hid_send_report_def hid_control_def hid_req_def Let_def hid_get_report_def hid_copy_def ctl_reply_def
      ctl_room_def req_is_in_def USB_REQ_TYPE_def min_def)

definition demo_hid :: "unit hid_state" where
  "demo_hid = \<lparr>hs_pub = \<lparr>hi_index = 0, hi_name = [], hi_interface_number = 0, hi_in_ep = 0, hi_out_ep = 0, hi_protocol = 1, hi_idle = 0\<rparr>,
     hs_opts = \<lparr>ho_report_desc = [5, 1, 9, 6], ho_report_desc_len = 4, ho_subclass = 0, ho_protocol = 0, ho_in_ep = 0x81,
       ho_in_mps = 64, ho_in_interval = 10, ho_out_ep = 0, ho_out_mps = 0, ho_out_interval = 0, ho_country = 0,
       ho_name = None, ho_get_report = None, ho_set_report = None, ho_on_output = None\<rparr>,
     hs_in = Some 0, hs_out = None, hs_last_input = []\<rparr>"

theorem hid_settings_roundtrip_witness:
  "\<exists>st1. hid_send_report demo_hid [1, 2, 3] = Inl (st1, [EpWrite 0 [1, 2, 3]])
     \<and> hid_control () st1 (hid_req 0xA1 0x01 0x0100 64) [] 64 = Ret (((), st1), 3, [1, 2, 3])"
  using hid_settings_roundtrip [of demo_hid 0 "[1, 2, 3]" 64 "()" 5] by (auto simp: demo_hid_def)

end
