(* ===== verification/Host.thy ===== *)
theory Host
  imports Server_Props Dispatch_Props
begin

text \<open>
  The host library (\<open>src/usbip_host.c\<close>): the context and its transport, enumeration, opening a
  device, and the transfers of an open handle over \<open>usbip_client_submit\<close>. Connecting is a
  parameter: the socket, or nothing where \<open>usbip_connect\<close> fails. Allocations are taken to succeed.
  A caller's buffer is the list of its bytes; it holds the \<open>wLength\<close> or \<open>length\<close> bytes that the
  call names.
\<close>

section \<open>The context\<close>

record usbip_host_context =
  hc_t :: "usb_transport option"
  hc_owns_t :: bool

definition usbip_host_init :: usbip_host_context where
  "usbip_host_init = \<lparr>hc_t = None, hc_owns_t = False\<rparr>"

text \<open>What is freed, if anything.\<close>

definition usbip_host_exit :: "usbip_host_context option \<Rightarrow> usb_transport option" where
  "usbip_host_exit ctx = (case ctx of None \<Rightarrow> None | Some c \<Rightarrow> (if hc_owns_t c then hc_t c else None))"

definition usbip_host_set_transport :: "usb_transport option \<Rightarrow> usbip_host_context \<Rightarrow> usbip_host_context \<times> usb_transport option" where
  "usbip_host_set_transport t c =
     (c\<lparr>hc_t := t, hc_owns_t := False\<rparr>, if hc_owns_t c then hc_t c else None)"

definition ctx_transport :: "usbip_host_context \<Rightarrow> usbip_host_context \<times> usb_transport" where
  "ctx_transport c = (case hc_t c of
       Some t \<Rightarrow> (c, t)
     | None \<Rightarrow> (let t = usbip_transport None 0 in (c\<lparr>hc_t := Some t, hc_owns_t := True\<rparr>, t)))"

section \<open>Enumeration\<close>

record usb_device_descriptor =
  dd_bLength :: u8
  dd_bDescriptorType :: u8
  dd_bcdUSB :: u16
  dd_bDeviceClass :: u8
  dd_bDeviceSubClass :: u8
  dd_bDeviceProtocol :: u8
  dd_bMaxPacketSize0 :: u8
  dd_idVendor :: u16
  dd_idProduct :: u16
  dd_bcdDevice :: u16
  dd_iManufacturer :: u8
  dd_iProduct :: u8
  dd_iSerialNumber :: u8
  dd_bNumConfigurations :: u8

text \<open>The struct is packed: its bytes in memory.\<close>

definition device_descriptor_bytes :: "usb_device_descriptor \<Rightarrow> bytes" where
  "device_descriptor_bytes d = [dd_bLength d, dd_bDescriptorType d] @ le_bytes 2 (dd_bcdUSB d)
     @ [dd_bDeviceClass d, dd_bDeviceSubClass d, dd_bDeviceProtocol d, dd_bMaxPacketSize0 d]
     @ le_bytes 2 (dd_idVendor d) @ le_bytes 2 (dd_idProduct d) @ le_bytes 2 (dd_bcdDevice d)
     @ [dd_iManufacturer d, dd_iProduct d, dd_iSerialNumber d, dd_bNumConfigurations d]"

definition usbip_host_get_device_descriptor :: "usbip_devinfo \<Rightarrow> usb_device_descriptor" where
  "usbip_host_get_device_descriptor i = \<lparr>dd_bLength = 18, dd_bDescriptorType = 1, dd_bcdUSB = 0x0200,
     dd_bDeviceClass = di_dclass i, dd_bDeviceSubClass = di_dsub i, dd_bDeviceProtocol = di_dproto i,
     dd_bMaxPacketSize0 = 64, dd_idVendor = di_vid i, dd_idProduct = di_pid i, dd_bcdDevice = di_bcdDevice i,
     dd_iManufacturer = 0, dd_iProduct = 0, dd_iSerialNumber = 0, dd_bNumConfigurations = di_n_cfg i\<rparr>"

text \<open>The count or the error, and the devices.\<close>

definition usbip_host_get_device_list :: "sock option \<Rightarrow> int \<times> usbip_devinfo list" where
  "usbip_host_get_device_list c =
     (case c of
        None \<Rightarrow> (USB_ERROR_IO, [])
      | Some s \<Rightarrow> (let ((count, infos), s) = usbip_client_devlist 16 s
                   in if count < 0 then (count, []) else (count, infos)))"

section \<open>Open\<close>

record usbip_host_handle =
  hh_devid :: u32
  hh_seq :: u32
  hh_desc :: usb_device_descriptor
  hh_sock :: sock

definition usbip_host_open :: "sock option \<Rightarrow> usbip_devinfo \<Rightarrow> int \<times> usbip_host_handle option" where
  "usbip_host_open c dev =
     (case c of
        None \<Rightarrow> (USB_ERROR_IO, None)
      | Some s \<Rightarrow>
          (case usbip_client_import (di_busid dev) s of
             ((rc, Some info), s) \<Rightarrow>
               (if rc \<noteq> USB_SUCCESS then (USB_ERROR_NO_DEVICE, None)
                else (USB_SUCCESS, Some \<lparr>hh_devid = push_bit 16 (di_busnum info) OR di_devnum info, hh_seq = 0,
                  hh_desc = usbip_host_get_device_descriptor dev, hh_sock = s\<rparr>))
           | ((rc, None), s) \<Rightarrow> (USB_ERROR_NO_DEVICE, None)))"

text \<open>The first match is opened, over a connection of its own.\<close>

definition usbip_host_open_vid_pid :: "sock option \<Rightarrow> sock option \<Rightarrow> u16 \<Rightarrow> u16 \<Rightarrow> usbip_host_handle option" where
  "usbip_host_open_vid_pid c1 c2 v p =
     (let (count, infos) = usbip_host_get_device_list c1 in
      if count < 0 then None
      else (case find (\<lambda>i. di_vid i = v \<and> di_pid i = p) infos of
          None \<Rightarrow> None
        | Some i \<Rightarrow> (case usbip_host_open c2 i of (rc, h) \<Rightarrow> if rc = USB_SUCCESS then h else None)))"

section \<open>Transfers\<close>

text \<open>The return value, the buffer and the handle.\<close>

definition usbip_host_control_transfer ::
  "u8 \<Rightarrow> u8 \<Rightarrow> u16 \<Rightarrow> u16 \<Rightarrow> bytes \<Rightarrow> u16 \<Rightarrow> usbip_host_handle \<Rightarrow> int \<times> bytes \<times> usbip_host_handle" where
  "usbip_host_control_transfer rt r v i data len h =
     (let dir = (if rt AND 0x80 \<noteq> 0 then USB_IN else USB_OUT);
          res = usbip_client_submit (hh_devid h) (hh_seq h) dir 0 (Some (USB_SETUP_BYTES rt r v i len)) 0
                  data (uint len) (hh_sock h);
          actual = (case sr_actual res of None \<Rightarrow> 0 | Some n \<Rightarrow> n)
      in (if sr_rc res < 0 then sr_rc res else actual, sr_buf res,
          h\<lparr>hh_seq := sr_seq res, hh_sock := sr_sock res\<rparr>))"

text \<open>The return value, the count, the buffer and the handle.\<close>

definition data_transfer :: "u8 \<Rightarrow> bytes \<Rightarrow> int \<Rightarrow> int \<Rightarrow> usbip_host_handle \<Rightarrow> int \<times> int \<times> bytes \<times> usbip_host_handle" where
  "data_transfer endpoint data len interval h =
     (let dir = (if endpoint AND 0x80 \<noteq> 0 then USB_IN else USB_OUT);
          res = usbip_client_submit (hh_devid h) (hh_seq h) dir (ucast (endpoint AND 0x0f)) None interval
                  data len (hh_sock h);
          actual = (case sr_actual res of None \<Rightarrow> 0 | Some n \<Rightarrow> n)
      in (if sr_rc res < 0 then sr_rc res else USB_SUCCESS, actual, sr_buf res,
          h\<lparr>hh_seq := sr_seq res, hh_sock := sr_sock res\<rparr>))"

definition usbip_host_bulk_transfer :: "u8 \<Rightarrow> bytes \<Rightarrow> int \<Rightarrow> usbip_host_handle \<Rightarrow> int \<times> int \<times> bytes \<times> usbip_host_handle" where
  "usbip_host_bulk_transfer endpoint data len h = data_transfer endpoint data len 0 h"

definition usbip_host_interrupt_transfer :: "u8 \<Rightarrow> bytes \<Rightarrow> int \<Rightarrow> usbip_host_handle \<Rightarrow> int \<times> int \<times> bytes \<times> usbip_host_handle" where
  "usbip_host_interrupt_transfer endpoint data len h = data_transfer endpoint data len 1 h"

definition usbip_host_set_configuration :: "int \<Rightarrow> usbip_host_handle \<Rightarrow> int \<times> usbip_host_handle" where
  "usbip_host_set_configuration cfg h =
     (let (rc, b, h) = usbip_host_control_transfer 0x00 0x09 (of_int cfg) 0 [] 0 h
      in (if rc < 0 then rc else USB_SUCCESS, h))"

definition usbip_host_set_interface_alt_setting :: "int \<Rightarrow> int \<Rightarrow> usbip_host_handle \<Rightarrow> int \<times> usbip_host_handle" where
  "usbip_host_set_interface_alt_setting iface alt h =
     (let (rc, b, h) = usbip_host_control_transfer 0x01 0x0B (of_int alt) (of_int iface) [] 0 h
      in (if rc < 0 then rc else USB_SUCCESS, h))"

definition usbip_host_clear_halt :: "u8 \<Rightarrow> usbip_host_handle \<Rightarrow> int \<times> usbip_host_handle" where
  "usbip_host_clear_halt endpoint h =
     (let (rc, b, h) = usbip_host_control_transfer 0x02 0x01 0 (ucast endpoint) [] 0 h
      in (if rc < 0 then rc else USB_SUCCESS, h))"

text \<open>USB/IP has no kernel driver to detach: both succeed and do nothing.\<close>

definition usbip_host_claim_interface :: "int \<Rightarrow> int" where
  "usbip_host_claim_interface iface = USB_SUCCESS"

definition usbip_host_release_interface :: "int \<Rightarrow> int" where
  "usbip_host_release_interface iface = USB_SUCCESS"

section \<open>Isochronous transfers\<close>

record usbip_host_iso_packet_descriptor =
  hp_length :: u32
  hp_actual_length :: u32
  hp_status :: int

record usbip_host_transfer =
  ht_endpoint :: u8
  ht_status :: int
  ht_buffer :: bytes
  ht_length :: int
  ht_actual_length :: int
  ht_packets :: "usbip_host_iso_packet_descriptor list"

definition usbip_host_alloc_transfer :: "nat \<Rightarrow> usbip_host_transfer" where
  "usbip_host_alloc_transfer n = \<lparr>ht_endpoint = 0, ht_status = 0, ht_buffer = [], ht_length = 0,
     ht_actual_length = 0, ht_packets = replicate n \<lparr>hp_length = 0, hp_actual_length = 0, hp_status = 0\<rparr>\<rparr>"

text \<open>The number of packets is the one the transfer was allocated with.\<close>

definition usbip_host_fill_iso_transfer :: "u8 \<Rightarrow> bytes \<Rightarrow> int \<Rightarrow> usbip_host_transfer \<Rightarrow> usbip_host_transfer" where
  "usbip_host_fill_iso_transfer endpoint buf len t = t\<lparr>ht_endpoint := endpoint, ht_buffer := buf, ht_length := len\<rparr>"

definition usbip_host_set_iso_packet_lengths :: "u32 \<Rightarrow> usbip_host_transfer \<Rightarrow> usbip_host_transfer" where
  "usbip_host_set_iso_packet_lengths len t = t\<lparr>ht_packets := map (\<lambda>p. p\<lparr>hp_length := len\<rparr>) (ht_packets t)\<rparr>"

text \<open>The offset of the packet in the buffer. The packet number is compared as a signed \<open>int\<close>; the
  product is of \<open>unsigned\<close>, and the division is the signed one of C.\<close>

definition usbip_host_get_iso_packet_buffer_simple :: "u32 \<Rightarrow> usbip_host_transfer \<Rightarrow> u32 option" where
  "usbip_host_get_iso_packet_buffer_simple packet t =
     (let n = int (length (ht_packets t)) in
      if i32 packet \<ge> n \<or> n = 0 then None
      else Some (packet * u32_of_int (sgn (ht_length t) * (\<bar>ht_length t\<bar> div n))))"

text \<open>Each packet's slot begins where the requested lengths before it end.\<close>

fun iso_slots :: "u32 \<Rightarrow> usbip_host_iso_packet_descriptor list \<Rightarrow> iso_pkt list" where
  "iso_slots off [] = []"
| "iso_slots off (p # ps) = \<lparr>ip_offset = off, ip_length = hp_length p, ip_actual = 0, ip_status = 0\<rparr>
     # iso_slots (off + hp_length p) ps"

definition usbip_host_submit_transfer ::
  "(nat \<Rightarrow> bool) \<Rightarrow> usbip_host_transfer \<Rightarrow> usbip_host_handle \<Rightarrow> (int \<times> usbip_host_transfer \<times> usbip_host_handle) cresult" where
  "usbip_host_submit_transfer mem t h =
     (let dir = (if ht_endpoint t AND 0x80 \<noteq> 0 then USB_IN else USB_OUT) in
      if \<not> mem (16 * length (ht_packets t)) then Ret (USB_ERROR_NO_MEM, t, h)
      else (case usbip_client_submit_iso mem (hh_devid h) (hh_seq h) dir (ucast (ht_endpoint t AND 0x0f)) 0
                 (ht_buffer t) (iso_slots 0 (ht_packets t)) (hh_sock h) of
          Err e \<Rightarrow> Err e
        | Undefined \<Rightarrow> Undefined
        | Ret res \<Rightarrow>
            (let rc = ir_rc res in
             Ret (if rc < 0 then rc else USB_SUCCESS,
               t\<lparr>ht_packets := map2 (\<lambda>p k. p\<lparr>hp_actual_length := ip_actual k, hp_status := i32 (ip_status k)\<rparr>)
                    (ht_packets t) (ir_pkts res),
                 ht_buffer := ir_buf res,
                 ht_actual_length := (case ir_total res of None \<Rightarrow> 0 | Some n \<Rightarrow> n),
                 ht_status := (if rc < 0 then rc else 0)\<rparr>,
               h\<lparr>hh_seq := ir_seq res, hh_sock := ir_sock res\<rparr>))))"

end
