(* ===== verification/Host_Props.thy ===== *)
theory Host_Props
  imports Host
begin

text \<open>
  The two libraries together: what an application on the host side gets for a transfer it asks for is
  what the device library made of it, over the wire in both directions.
\<close>

section \<open>A device with nothing parked\<close>

definition quiet :: "usbip_device \<Rightarrow> bool" where
  "quiet dev \<longleftrightarrow> list_all (\<lambda>ep. q_items (e_pend ep) = []) (eps dev)"

lemma quiet_nth: "quiet dev \<Longrightarrow> i < length (eps dev) \<Longrightarrow> q_items (e_pend (eps dev ! i)) = []"
  by (simp add: quiet_def list_all_length)

lemma quiet_set_ep:
  "quiet (w_dev w) \<Longrightarrow> q_items (e_pend ep) = [] \<Longrightarrow> quiet (w_dev (set_ep i ep w))"
  by (auto simp: quiet_def set_ep_def upd_ep_def list_all_iff dest!: set_update_subset_insert [THEN subsetD])

lemma w_out_set_ep [simp]: "w_out (set_ep i ep w) = w_out w"
  by (simp add: set_ep_def)

lemma emit_nil [simp]: "emit [] w = w"
  by (simp add: emit_def)

lemma write_quiet:
  "q_items (e_pend ep) = [] \<Longrightarrow> usbip_device_write bs ep =
     Ret (if bs \<noteq> [] then ep\<lparr>e_in := enq_dbuf bs (e_in ep)\<rparr> else ep, [])"
  by (simp add: usbip_device_write_def feed_parked.simps [of bs ep "[]"])

lemma do_acts_quiet:
  "quiet (w_dev w) \<Longrightarrow> do_acts as w = Ret w' \<Longrightarrow> quiet (w_dev w') \<and> w_out w' = w_out w"
proof (induction as arbitrary: w)
  case (Cons a as)
  have "quiet (w_dev w1) \<and> w_out w1 = w_out w" if "do_act a w = Ret w1" for w1
  proof (cases a)
    case (EpWrite i bs)
    with that Cons.prems(1) show ?thesis
      by (auto simp: write_quiet quiet_nth intro!: quiet_set_ep split: if_splits)
  next
    case (EpStall i)
    with that Cons.prems(1) show ?thesis
      by (auto simp: usbip_ep_stall_def quiet_nth intro!: quiet_set_ep split: if_splits)
  qed
  with Cons show ?case by (auto split: cresult.splits)
qed simp

lemma set_halt_quiet:
  assumes "dev_ok (w_dev w)" "quiet (w_dev w)"
  shows "w_out (set_halt stp w) = w_out w"
proof -
  have "q_items (e_pend (eps (w_dev w) ! i)) = []" if "ep_by_addr (w_dev w) a = Some i" for i a
    using assms that by (intro quiet_nth) (auto simp: dev_ok_def map_inv_def ep_by_addr_def)
  then show ?thesis
    by (auto simp: set_halt_def usbip_ep_stall_def split: option.splits)
qed

text \<open>With nothing parked, a control transfer's answer is the only message.\<close>

lemma handle_control_quiet:
  assumes "dev_ok (w_dev w)" "quiet (w_dev w)" "handle_control cb conn u w = Ret w'"
  shows "\<exists>m. w_out w' = w_out w @ [m]"
proof -
  define stp where "stp = setup_of_bytes (u_setup u)"
  have out: "w_out w1 = w_out w" if "quiet (w_dev w0)" "w_out w0 = w_out w" "delegate cb u stp w0 = Ret (w1, r)" for w0 w1 r
    using that do_acts_quiet [of "w0\<lparr>w_app := s\<rparr>" for s]
    by (auto simp: delegate_def Let_def split: option.splits prod.splits cresult.splits if_splits)
  have std: "w_out w1 = w_out w" if "standard_request cb stp w = Ret (w1, r)" for w1 r
    using that set_halt_quiet [OF assms(1,2)] do_acts_quiet [of "w\<lparr>w_app := s\<rparr>" for s] assms(2)
    by (auto simp: standard_request_def Let_def set_interface_def set_configuration_def
        split: option.splits prod.splits cresult.splits if_splits)
  have std': "w1 = w" if "standard_request cb stp w = Ret (w1, Delegate)" for w1
    using that by (auto simp: standard_request_def Let_def split: cresult.splits if_splits)
  define core where "core = (if USB_REQ_TYPE (bmRequestType stp) = USB_STANDARD then standard_request cb stp w
      else if req_is_in (bmRequestType stp) \<and> USB_REQ_TYPE (bmRequestType stp) = USB_VENDOR
      then Ret (w, vendor_request (w_dev w) stp) else Ret (w, Delegate))"
  have core: "w_out w1 = w_out w \<and> (r = Delegate \<longrightarrow> w1 = w)" if "core = Ret (w1, r)" for w1 r
    using that std std' by (auto simp: core_def split: if_splits)
  define step where "step = (case core of Ret (w, Delegate) \<Rightarrow> delegate cb u stp w | _ \<Rightarrow> core)"
  have step: "w_out w1 = w_out w" if s: "step = Ret (w1, r)" for w1 r
  proof (cases core)
    case (Ret x)
    obtain w2 r2 where x: "x = (w2, r2)" by fastforce
    show ?thesis
    proof (cases "r2 = Delegate")
      case True
      with s Ret x core [of w2 r2] show ?thesis using out [OF assms(2) refl] by (simp add: step_def)
    next
      case False
      with s Ret x have "core = Ret (w1, r)" by (cases r2) (simp_all add: step_def)
      with core show ?thesis by blast
    qed
  qed (use s in \<open>simp_all add: step_def\<close>)
  have h: "handle_control cb conn u w = (case step of Err e \<Rightarrow> Err e | Undefined \<Rightarrow> Undefined
      | Ret (w, Reply d) \<Rightarrow> (if length d > 4096 then Undefined
          else if req_is_in (bmRequestType stp) then
            Ret (emit [urb_ret conn u 0 (take (unat (wLength stp)) d) (int (length (take (unat (wLength stp)) d)))] w)
          else Ret (emit [urb_ret conn u 0 [] (int (length (u_data u)))] w))
      | Ret (w, _) \<Rightarrow> Ret (emit [urb_ret conn u USBIP_STATUS_STALL [] 0] w))"
    unfolding handle_control_def Let_def stp_def [symmetric] core_def [symmetric] step_def [symmetric] by (rule refl)
  show ?thesis
  proof (cases step)
    case (Ret x)
    obtain w1 r where x: "x = (w1, r)" by fastforce
    with Ret step have "w_out w1 = w_out w" by simp
    with Ret x h assms(3) show ?thesis by (cases r) (auto simp: emit_def split: if_splits)
  qed (use h assms(3) in simp_all)
qed

section \<open>One command on a connection\<close>

lemma read_cmd_end: "avail t = [] \<Longrightarrow> usbip_read_cmd mem dev t = Err (- 1)"
  using readn_short [of t 48] by (simp add: usbip_read_cmd_def)

lemma serve_one:
  assumes "usbip_read_cmd (ev_mem e) (w_dev w) t = Ret (u, t')" "avail t' = []" "u_command u = USBIP_CMD_SUBMIT"
    and "usbip_device_dispatch cb e conn u w = Ret w'"
  shows "serve_loop cb e conn t w = Ret w'"
proof -
  have "serve_loop cb e conn t' w' = Ret w'"
    using read_cmd_end [OF assms(2)] by (simp add: serve_loop.simps [of cb e conn t'])
  with assms(1,3,4) show ?thesis by (simp add: serve_loop.simps [of cb e conn t])
qed

text \<open>What the connection carries back for the messages of the device library.\<close>

definition reply_bytes :: "msg list \<Rightarrow> bytes" where
  "reply_bytes ms = sent (fold (send_msg (\<lambda>_. True)) ms \<lparr>segs = [], sent = [], caps = []\<rparr>)"

lemma reply_bytes_submit: "reply_bytes [RetSubmit r] = ret_submit_bytes r"
  by (simp add: reply_bytes_def send_msg_def usbip_send_ret_def ret_submit_bytes_def Let_def writen_caps_nil)

section \<open>Control transfers end to end\<close>

definition control_urb :: "u8 \<Rightarrow> u8 \<Rightarrow> u16 \<Rightarrow> u16 \<Rightarrow> bytes \<Rightarrow> u16 \<Rightarrow> usbip_host_handle \<Rightarrow> urb" where
  "control_urb rt r v i data len h = \<lparr>u_command = USBIP_CMD_SUBMIT, u_seqnum = hh_seq h + 1, u_devid = hh_devid h,
     u_direction = (if req_is_in rt then DIR_IN else DIR_OUT), u_ep = 0, u_flags = 0, u_unlink_seqnum = 0,
     u_length = uint len, u_interval = 0, u_npkts = 0, u_iso = [], u_setup = USB_SETUP_BYTES rt r v i len,
     u_data = (if req_is_in rt then [] else data)\<rparr>"

text \<open>The answer as the caller sees it: the return value and the buffer.\<close>

definition seen_by_caller :: "bytes \<Rightarrow> ret_submit \<Rightarrow> int \<times> bytes" where
  "seen_by_caller data a =
     (if r_status a \<noteq> 0 then (USB_ERROR_PIPE, data)
      else (r_actual a, r_data a @ drop (length (r_data a)) data))"

lemma control_answer_submit:
  assumes "control_answer conn u m" "u_setup u = USB_SETUP_BYTES rt r v i len"
  obtains d n st where "m = urb_ret conn u st d n"
    "st = USBIP_STATUS_STALL \<and> d = [] \<and> n = 0
     \<or> st = 0 \<and> n = int (if req_is_in rt then length d else length (u_data u))
       \<and> (if req_is_in rt then length d \<le> unat len else d = [])"
proof (cases "m = urb_ret conn u USBIP_STATUS_STALL [] 0")
  case False
  show ?thesis
  proof (cases "req_is_in rt")
    case True
    with False assms obtain d where "m = urb_ret conn u 0 d (int (length d))" "length d \<le> unat len"
      unfolding control_answer_def Let_def assms(2) setup_of_SETUP_BYTES by auto
    with True that show ?thesis by force
  next
    case nin: False
    with False assms have "m = urb_ret conn u 0 [] (int (length (u_data u)))"
      unfolding control_answer_def Let_def assms(2) setup_of_SETUP_BYTES by auto
    with nin that show ?thesis by force
  qed
qed (use that in force)

lemma control_call:
  assumes "usbip_host_control_transfer rt r v i data len h = (rc, data', h')"
  defines "res \<equiv> usbip_client_submit (hh_devid h) (hh_seq h) (if rt AND 0x80 \<noteq> 0 then USB_IN else USB_OUT) 0
     (Some (USB_SETUP_BYTES rt r v i len)) 0 data (uint len) (hh_sock h)"
  shows "rc = (if sr_rc res < 0 then sr_rc res else case sr_actual res of None \<Rightarrow> 0 | Some n \<Rightarrow> n)"
    "data' = sr_buf res" "hh_sock h' = sr_sock res"
  using assms(1) by (auto simp: usbip_host_control_transfer_def res_def Let_def)

lemma uint_length: "length data = unat (len :: u16) \<Longrightarrow> uint len = int (length data) \<and> uint len < 2 ^ 31"
  using unsigned_less [of len, where ?'a = int] by (simp only: uint_nat) simp

text \<open>What the caller gets when the answer of the device is next on its stream.\<close>

lemma caller_gets_answer:
  assumes h: "caps (hh_sock h) = []" and data: "length data = unat len"
    and call: "usbip_host_control_transfer rt r v i data len h = (rc, data', h')"
    and av: "avail (hh_sock h) = reply_bytes [RetSubmit a] @ rest"
    and dir: "r_direction a = usb_dir_code (if req_is_in rt then USB_IN else USB_OUT)" "0 \<le> r_actual a" "r_actual a \<le> int (length data)"
    and st: "r_status a = 0 \<or> r_status a = USBIP_STATUS_STALL \<and> r_data a = [] \<and> r_actual a = 0"
      "if req_is_in rt then length (r_data a) = nat (r_actual a) else r_data a = []"
  shows "(rc, data') = seen_by_caller data a \<and> avail (hh_sock h') = rest"
proof -
  define dir where "dir = (if rt AND 0x80 \<noteq> 0 then USB_IN else USB_OUT)"
  define res where "res = usbip_client_submit (hh_devid h) (hh_seq h) dir 0 (Some (USB_SETUP_BYTES rt r v i len)) 0 data (uint len) (hh_sock h)"
  have d: "dir = USB_IN \<longleftrightarrow> req_is_in rt" by (simp add: dir_def req_is_in_def)
  then have f: "r_direction a = usb_dir_code dir" using dir(1) by (cases dir) (auto simp: dir_def req_is_in_def split: if_splits)
  have g: "if dir = USB_IN then length (r_data a) = nat (r_actual a) else r_data a = []" using st(2) d by simp
  have "sr_rc res = (if r_status a = 0 then USB_SUCCESS else client_status_error (r_status a))
    \<and> sr_actual res = Some (if dir = USB_IN then int (min (nat (r_actual a)) (length data)) else r_actual a)
    \<and> sr_buf res = (if dir = USB_IN then take (min (nat (r_actual a)) (length data)) (r_data a)
          @ drop (min (nat (r_actual a)) (length data)) data else data)
    \<and> sr_seq res = hh_seq h + 1 \<and> avail (sr_sock res) = rest"
    unfolding res_def using f g dir(2,3) st(1) uint_length [OF data]
    by (intro submit_reads_reply [OF h av [unfolded reply_bytes_submit]]) (auto split: if_splits)
  with f g dir(2,3) st(1) show ?thesis
    by (auto simp: seen_by_caller_def control_call [OF call, folded dir_def, folded res_def] client_status_error_def min_def nat_le_iff split: if_splits)
qed


text \<open>GET_DESCRIPTOR(device) of a device with no parked URB.\<close>

definition demo_answer :: ret_submit where
  "demo_answer = \<lparr>r_conn = 0, r_seqnum = 1, r_devid = 0x10002, r_direction = DIR_IN, r_ep = 0, r_status = 0,
     r_data = build_device_desc (w_dev demo_world), r_actual = 18\<rparr>"

definition demo_handle :: usbip_host_handle where
  "demo_handle = \<lparr>hh_devid = 0x10002, hh_seq = 0, hh_desc = usbip_host_get_device_descriptor (devinfo_of (w_dev demo_world)),
     hh_sock = \<lparr>segs = [ret_submit_bytes demo_answer, [9]], sent = [], caps = []\<rparr>\<rparr>"

lemma demo_descriptor_request:
  "handle_control demo_callbacks 0 (control_urb 0x80 6 0x0100 0 (replicate 18 0) 18 demo_handle) demo_world
     = Ret (emit [RetSubmit demo_answer] demo_world)"
proof -
  have l: "length (build_device_desc d) = 18" for d by (simp add: build_device_desc_def)
  show ?thesis
    by (simp add: handle_control_def control_urb_def setup_of_SETUP_BYTES Let_def req_is_in_def USB_REQ_TYPE_def
        standard_request_def get_descriptor_def USB_U16_MSB_def l urb_ret_def demo_answer_def demo_handle_def)
qed


section \<open>Opening a device\<close>

text \<open>Opening a device by the identity that enumeration gave connects to that device. Where the server
  answers the import with a device's record, the handle carries that device's bus and device number as
  the server packed them, and the descriptor the host library reports agrees with the device's own
  descriptor except for the USB version and the three string indices, which the wire does not carry and
  the library makes up (2.00 and 0).\<close>

theorem opened_descriptor_is_the_devices:
  assumes "busid_ok (busid dev)" "caps c = []"
    and "avail c = op_hdr USBIP_OP_REP_IMPORT 0 @ pack_usbip_device dev @ rest"
  shows "\<exists>h. usbip_host_open (Some c) (devinfo_of dev) = (USB_SUCCESS, Some h) \<and> avail (hh_sock h) = rest
     \<and> hh_devid h = push_bit 16 (if busnum dev \<noteq> 0 then busnum dev else 1) OR (if devnum dev \<noteq> 0 then devnum dev else 2)
     \<and> device_descriptor_bytes (hh_desc h) = take 2 (build_device_desc dev) @ [0x00, 0x02]
         @ drop 4 (take 14 (build_device_desc dev)) @ [0, 0, 0, 1]"
proof -
  from import_client_reads [OF assms(2,3,1), of "busid dev"] obtain c' where
    "usbip_client_import (busid dev) c = ((USB_SUCCESS, Some (devinfo_of dev)), c')" "avail c' = rest" by blast
  moreover have u: "USB_U16LE x = le_bytes 2 x" for x by (simp add: USB_U16LE_eq)
  moreover have l: "le_bytes 2 x = [ucast x, ucast (drop_bit 8 x)]" for x :: u16
    by (simp add: numeral_2_eq_2)
  moreover have "le_bytes 2 (0x0200 :: u16) = [0x00, 0x02]" by (simp add: l)
  ultimately show ?thesis
    by (simp add: usbip_host_open_def devinfo_of_def usbip_host_get_device_descriptor_def device_descriptor_bytes_def
        build_device_desc_def del: replicate.simps)
qed

theorem opened_descriptor_is_the_devices_witness:
  "\<exists>h. usbip_host_open (Some \<lparr>segs = [op_hdr USBIP_OP_REP_IMPORT 0 @ pack_usbip_device (named_dev (cstr ''1-2''))], sent = [], caps = []\<rparr>)
       (devinfo_of (named_dev (cstr ''1-2''))) = (USB_SUCCESS, Some h) \<and> avail (hh_sock h) = [] \<and> hh_devid h = 0x10003"
proof -
  let ?d = "named_dev (cstr ''1-2'')"
  let ?c = "\<lparr>segs = [op_hdr USBIP_OP_REP_IMPORT 0 @ pack_usbip_device ?d], sent = [], caps = []\<rparr>"
  have b: "busid_ok (busid ?d)" by (simp add: busid_ok_def cstr_def named_dev_def)
  have c: "caps ?c = []" "avail ?c = op_hdr USBIP_OP_REP_IMPORT 0 @ pack_usbip_device ?d @ []" by (simp_all add: avail_def)
  from opened_descriptor_is_the_devices [OF b c]
  obtain h where "usbip_host_open (Some ?c) (devinfo_of ?d) = (USB_SUCCESS, Some h)" "avail (hh_sock h) = []"
    "hh_devid h = push_bit 16 1 OR 3" by (auto simp: named_dev_def)
  then show ?thesis by simp
qed

end
