(* ===== verification/Class_Safety.thy ===== *)
theory Class_Safety
  imports Msc_Correct Dfu Cdc_Acm Hid
begin

text \<open>
  What the class handlers have in common: they write their reply behind \<open>buf\<close> whatever the
  direction of the request, and for an OUT request \<open>buf\<close> is the data stage the host sent, NULL
  when there was none.
\<close>

lemma ctl_reply_undefined_iff:
  "length r \<le> 4096 \<Longrightarrow> ctl_reply stp d x r = Undefined \<longleftrightarrow> \<not> req_is_in (bmRequestType stp) \<and> length d < length r"
  by (auto simp: ctl_reply_def ctl_room_def)

lemma bindc_Undefined_iff:
  "(\<And>x. k x \<noteq> Undefined) \<Longrightarrow> bindc r k = Undefined \<longleftrightarrow> r = Undefined"
  by (cases r) simp_all

text \<open>The class requests that read a value are answered when they come as IN requests, and have no
  defined result exactly when they come as OUT requests with a data stage shorter than the answer:
  the handlers look at the request code and not at its direction, so a host that sends DFU_GETSTATUS,
  Get Max LUN, GET_LINE_CODING or GET_PROTOCOL as an OUT request without data makes the device write
  through a NULL pointer.\<close>

theorem answers_need_an_in_request:
  assumes "USB_REQ_TYPE (bmRequestType stp) = USB_CLASS"
  shows "(dfu_control b fd (stp\<lparr>bRequest := 3\<rparr>) d len = Undefined \<longleftrightarrow> \<not> req_is_in (bmRequestType stp) \<and> length d < 6)
    \<and> (msc_control ms (stp\<lparr>bRequest := 0xFE\<rparr>) d = Undefined \<longleftrightarrow> \<not> req_is_in (bmRequestType stp) \<and> length d < 1)
    \<and> (cdc_control cs (stp\<lparr>bRequest := 0x21\<rparr>) d len = Undefined \<longleftrightarrow> \<not> req_is_in (bmRequestType stp) \<and> length d < 7)
    \<and> (hid_control hb hs (stp\<lparr>bRequest := 3\<rparr>) d len = Undefined \<longleftrightarrow> \<not> req_is_in (bmRequestType stp) \<and> length d < 1)"
proof (intro conjI)
  obtain fd' s where s: "dfu_getstatus fd = (fd', s)" by fastforce
  then have "length s = 6" by (auto simp: dfu_getstatus_def Let_def)
  with s assms show "dfu_control b fd (stp\<lparr>bRequest := 3\<rparr>) d len = Undefined \<longleftrightarrow> \<not> req_is_in (bmRequestType stp) \<and> length d < 6"
    by (simp add: dfu_control_def bindc_Undefined_iff ctl_reply_undefined_iff split_beta)
  show "msc_control ms (stp\<lparr>bRequest := 0xFE\<rparr>) d = Undefined \<longleftrightarrow> \<not> req_is_in (bmRequestType stp) \<and> length d < 1"
    by (simp add: msc_control_def ctl_reply_undefined_iff)
  show "cdc_control cs (stp\<lparr>bRequest := 0x21\<rparr>) d len = Undefined \<longleftrightarrow> \<not> req_is_in (bmRequestType stp) \<and> length d < 7"
    by (simp add: cdc_control_def Let_def bindc_Undefined_iff ctl_reply_undefined_iff coding_to_wire_bytes split_beta)
  show "hid_control hb hs (stp\<lparr>bRequest := 3\<rparr>) d len = Undefined \<longleftrightarrow> \<not> req_is_in (bmRequestType stp) \<and> length d < 1"
    using assms by (simp add: hid_control_def ctl_reply_undefined_iff)
qed

theorem answers_need_an_in_request_witness:
  "dfu_control demo_fw demo_dfu \<lparr>bmRequestType = 0x21, bRequest = 3, wValue = 0, wIndex = 0, wLength = 0\<rparr> [] 0 = Undefined
    \<and> hid_control () demo_hid \<lparr>bmRequestType = 0x21, bRequest = 3, wValue = 0, wIndex = 0, wLength = 0\<rparr> [] 0 = Undefined
    \<and> cdc_control demo_port \<lparr>bmRequestType = 0xA1, bRequest = 0x21, wValue = 0, wIndex = 0, wLength = 7\<rparr> [] 7 \<noteq> Undefined"
proof -
  have t: "USB_REQ_TYPE 0x21 = USB_CLASS" "USB_REQ_TYPE 0xA1 = USB_CLASS" "\<not> req_is_in 0x21" "req_is_in 0xA1"
    by (simp_all add: USB_REQ_TYPE_def req_is_in_def)
  show ?thesis
    using answers_need_an_in_request [where stp = "\<lparr>bmRequestType = 0x21, bRequest = 0, wValue = 0, wIndex = 0, wLength = 0\<rparr>"
        and b = demo_fw and fd = demo_dfu and d = "[]" and len = 0 and ms = demo_msc
        and cs = demo_port and hb = "()" and hs = demo_hid]
      answers_need_an_in_request [where stp = "\<lparr>bmRequestType = 0xA1, bRequest = 0, wValue = 0, wIndex = 0, wLength = 7\<rparr>"
        and b = demo_fw and fd = demo_dfu and d = "[]" and len = 7 and ms = demo_msc
        and cs = demo_port and hb = "()" and hs = demo_hid]
    by (simp add: t)
qed

end
