(* ===== verification/Mtp.thy ===== *)
theory Mtp
  imports Usb_Class "HOL-Library.List_Lexorder"
begin

text \<open>
  The media transfer class (\<open>src/classes/device/mtp.c\<close>): its object table over the storages of an
  application, the datasets it builds, and the containers it sends. \<open>Mtp_Ops\<close> has the operations.

  The backend is the parameter record \<open>mtp_backend\<close> over the application's state \<open>'b\<close>; a storage
  context is its index. Strings are the bytes before their NUL; \<open>long\<close> has 64 bits. Allocations are taken
  to succeed, and a buffer that only grows is a list. Log lines are left out.
\<close>

section \<open>Codes\<close>

abbreviation (input) MTP_ALL :: u32 where "MTP_ALL \<equiv> 0xFFFFFFFF"

abbreviation (input) RC_OK :: u16 where "RC_OK \<equiv> 0x2001"
abbreviation (input) RC_GENERAL_ERROR :: u16 where "RC_GENERAL_ERROR \<equiv> 0x2002"
abbreviation (input) RC_SESSION_NOT_OPEN :: u16 where "RC_SESSION_NOT_OPEN \<equiv> 0x2003"
abbreviation (input) RC_OPERATION_NOT_SUPPORTED :: u16 where "RC_OPERATION_NOT_SUPPORTED \<equiv> 0x2005"
abbreviation (input) RC_INVALID_STORAGE_ID :: u16 where "RC_INVALID_STORAGE_ID \<equiv> 0x2008"
abbreviation (input) RC_INVALID_OBJECT_HANDLE :: u16 where "RC_INVALID_OBJECT_HANDLE \<equiv> 0x2009"
abbreviation (input) RC_DEVICEPROP_NOT_SUPPORTED :: u16 where "RC_DEVICEPROP_NOT_SUPPORTED \<equiv> 0x200A"
abbreviation (input) RC_STORE_READ_ONLY :: u16 where "RC_STORE_READ_ONLY \<equiv> 0x200E"
abbreviation (input) RC_NO_VALID_OBJECT_INFO :: u16 where "RC_NO_VALID_OBJECT_INFO \<equiv> 0x2015"
abbreviation (input) RC_INVALID_PARENT :: u16 where "RC_INVALID_PARENT \<equiv> 0x201A"
abbreviation (input) RC_INVALID_PARAMETER :: u16 where "RC_INVALID_PARAMETER \<equiv> 0x201D"
abbreviation (input) RC_SESSION_ALREADY_OPEN :: u16 where "RC_SESSION_ALREADY_OPEN \<equiv> 0x201E"
abbreviation (input) RC_INVALID_OBJECT_PROP_CODE :: u16 where "RC_INVALID_OBJECT_PROP_CODE \<equiv> 0xA801"
abbreviation (input) RC_OBJECT_PROP_NOT_SUPPORTED :: u16 where "RC_OBJECT_PROP_NOT_SUPPORTED \<equiv> 0xA80A"

abbreviation (input) CT_DATA :: u16 where "CT_DATA \<equiv> 2"
abbreviation (input) CT_RESPONSE :: u16 where "CT_RESPONSE \<equiv> 3"
abbreviation (input) CT_EVENT :: u16 where "CT_EVENT \<equiv> 4"

abbreviation (input) EV_OBJECT_ADDED :: u16 where "EV_OBJECT_ADDED \<equiv> 0x4002"
abbreviation (input) EV_OBJECT_REMOVED :: u16 where "EV_OBJECT_REMOVED \<equiv> 0x4003"
abbreviation (input) EV_STORE_ADDED :: u16 where "EV_STORE_ADDED \<equiv> 0x4004"

abbreviation (input) FMT_UNDEFINED :: u16 where "FMT_UNDEFINED \<equiv> 0x3000"
abbreviation (input) FMT_ASSOCIATION :: u16 where "FMT_ASSOCIATION \<equiv> 0x3001"
abbreviation (input) FMT_TEXT :: u16 where "FMT_TEXT \<equiv> 0x3004"

abbreviation (input) T_U16 :: u16 where "T_U16 \<equiv> 0x0004"
abbreviation (input) T_U32 :: u16 where "T_U32 \<equiv> 0x0006"
abbreviation (input) T_U64 :: u16 where "T_U64 \<equiv> 0x0008"
abbreviation (input) T_U128 :: u16 where "T_U128 \<equiv> 0x000A"
abbreviation (input) T_STR :: u16 where "T_STR \<equiv> 0xFFFF"

abbreviation (input) DPC_SYNC_PARTNER :: u32 where "DPC_SYNC_PARTNER \<equiv> 0xD401"
abbreviation (input) DPC_FRIENDLY_NAME :: u32 where "DPC_FRIENDLY_NAME \<equiv> 0xD402"

abbreviation (input) OPC_STORAGE_ID :: u16 where "OPC_STORAGE_ID \<equiv> 0xDC01"
abbreviation (input) OPC_OBJECT_FORMAT :: u16 where "OPC_OBJECT_FORMAT \<equiv> 0xDC02"
abbreviation (input) OPC_PROTECTION :: u16 where "OPC_PROTECTION \<equiv> 0xDC03"
abbreviation (input) OPC_OBJECT_SIZE :: u16 where "OPC_OBJECT_SIZE \<equiv> 0xDC04"
abbreviation (input) OPC_FILENAME :: u16 where "OPC_FILENAME \<equiv> 0xDC07"
abbreviation (input) OPC_DATE_MODIFIED :: u16 where "OPC_DATE_MODIFIED \<equiv> 0xDC09"
abbreviation (input) OPC_PARENT :: u16 where "OPC_PARENT \<equiv> 0xDC0B"
abbreviation (input) OPC_PUID :: u16 where "OPC_PUID \<equiv> 0xDC41"
abbreviation (input) OPC_NAME :: u16 where "OPC_NAME \<equiv> 0xDC44"

definition PROP_LIST :: "u16 list" where
  "PROP_LIST = [OPC_STORAGE_ID, OPC_OBJECT_FORMAT, OPC_PROTECTION, OPC_OBJECT_SIZE, OPC_FILENAME,
     OPC_DATE_MODIFIED, OPC_PARENT, OPC_PUID, OPC_NAME]"

text \<open>The operations, in the order of \<open>MTP_OP_LIST\<close>.\<close>

definition DEV_OPS :: "u16 list" where
  "DEV_OPS = [0x1001, 0x1002, 0x1003, 0x1004, 0x1005, 0x1006, 0x1007, 0x1008, 0x1009, 0x100B, 0x100C,
     0x100D, 0x101B, 0x1014, 0x1015, 0x1016, 0x9801, 0x9802, 0x9803, 0x9805, 0x9810, 0x1019, 0x101A,
     0x9804, 0x95C1, 0x95C2, 0x95C3, 0x95C4, 0x95C5]"

section \<open>Backend and state\<close>

text \<open>
  \<open>mb_get_info\<close> is \<open>None\<close> where \<open>get_info\<close> fails. \<open>mb_read\<close> gives the return value and the bytes
  it has written to the buffer. The results of \<open>write\<close>, \<open>make_dir\<close> and \<open>pwrite\<close> are not looked at by the
  code. \<open>mb_local_time\<close> is \<open>localtime\<close> and \<open>strftime\<close> of the C library.
\<close>

record 'b mtp_backend =
  mb_listdir :: "'b \<Rightarrow> nat \<Rightarrow> bytes \<Rightarrow> bytes list"
  mb_get_info :: "'b \<Rightarrow> nat \<Rightarrow> bytes \<Rightarrow> (bool \<times> u64 \<times> u32) option"
  mb_read :: "'b \<Rightarrow> nat \<Rightarrow> bytes \<Rightarrow> int \<Rightarrow> int \<Rightarrow> int \<times> bytes"
  mb_write :: "'b \<Rightarrow> nat \<Rightarrow> bytes \<Rightarrow> bytes \<Rightarrow> 'b"
  mb_make_dir :: "'b \<Rightarrow> nat \<Rightarrow> bytes \<Rightarrow> 'b"
  mb_remove :: "'b \<Rightarrow> nat \<Rightarrow> bytes \<Rightarrow> 'b \<times> int"
  mb_rename :: "'b \<Rightarrow> nat \<Rightarrow> bytes \<Rightarrow> bytes \<Rightarrow> 'b \<times> int"
  mb_pwrite :: "('b \<Rightarrow> nat \<Rightarrow> bytes \<Rightarrow> int \<Rightarrow> bytes \<Rightarrow> 'b) option"
  mb_truncate :: "('b \<Rightarrow> nat \<Rightarrow> bytes \<Rightarrow> u64 \<Rightarrow> 'b \<times> int) option"
  mb_disk_usage :: "('b \<Rightarrow> nat \<Rightarrow> u64 \<times> u64) option"
  mb_description :: "('b \<Rightarrow> nat \<Rightarrow> bytes option) option"
  mb_local_time :: "u32 \<Rightarrow> bytes"

record 'b mtp_opts =
  mo_read_only :: bool
  mo_name :: "bytes option"
  mo_manufacturer :: "bytes option"
  mo_serial :: "bytes option"
  mo_winusb :: bool
  mo_n_stores :: int
  mo_backend :: "'b mtp_backend"

record obj =
  ob_handle :: u32
  ob_parent :: u32
  ob_size :: u64
  ob_mtime :: u32
  ob_fmt :: u16
  ob_is_dir :: bool
  ob_alive :: bool
  ob_si :: nat
  ob_storage :: u32
  ob_path :: bytes
  ob_name :: bytes

text \<open>\<open>mt_rx_buf\<close> is the first \<open>rx_len\<close> bytes of the receive buffer.\<close>

record 'b mtp_state =
  mt_bk :: "'b mtp_backend"
  mt_n_stores :: nat
  mt_read_only :: bool
  mt_model :: bytes
  mt_manufacturer :: bytes
  mt_serial :: bytes
  mt_friendly :: bytes
  mt_sync_partner :: bytes
  mt_objs :: "obj list"
  mt_next_handle :: u32
  mt_send_target :: u32
  mt_session :: u32
  mt_rx_active :: bool
  mt_rx_code :: u16
  mt_rx_txid :: u32
  mt_rx_p :: "u32 list"
  mt_rx_buf :: bytes
  mt_rx_need :: int
  mt_in :: "nat option"
  mt_out :: "nat option"
  mt_intr :: "nat option"

section \<open>Names and paths\<close>

definition STORAGE_ID :: "nat \<Rightarrow> u32" where
  "STORAGE_ID si = push_bit 16 (of_nat (si + 1)) OR 1"

definition si_of :: "'b mtp_state \<Rightarrow> u32 \<Rightarrow> nat option" where
  "si_of st sid = find (\<lambda>i. STORAGE_ID i = sid) [0..<mt_n_stores st]"

definition tolower :: "u8 \<Rightarrow> u8" where
  "tolower c = (if 65 \<le> c \<and> c \<le> 90 then c + 32 else c)"

definition ext_formats :: "(bytes \<times> u16) list" where
  "ext_formats = [(cstr ''txt'', FMT_TEXT), (cstr ''htm'', 0x3005), (cstr ''html'', 0x3005), (cstr ''wav'', 0x3008),
     (cstr ''mp3'', 0x3009), (cstr ''avi'', 0x300A), (cstr ''mpg'', 0x300B), (cstr ''mpeg'', 0x300B),
     (cstr ''jpg'', 0x3801), (cstr ''jpeg'', 0x3801), (cstr ''bmp'', 0x3804), (cstr ''gif'', 0x3807),
     (cstr ''png'', 0x380B), (cstr ''tif'', 0x380D), (cstr ''tiff'', 0x380D), (cstr ''wma'', 0xB901),
     (cstr ''ogg'', 0xB902), (cstr ''aac'', 0xB903), (cstr ''flac'', 0xB906), (cstr ''wmv'', 0xB981),
     (cstr ''mp4'', 0xB982), (cstr ''m4a'', 0xB982), (cstr ''3gp'', 0xB984), (cstr ''xml'', 0xBA82)]"

text \<open>The first seven characters after the last dot decide.\<close>

definition fmt_of :: "bytes \<Rightarrow> u16" where
  "fmt_of name =
     (if 46 \<notin> set name then FMT_UNDEFINED
      else (let ext = map tolower (take 7 (rev (takeWhile (\<lambda>c. c \<noteq> 46) (rev name))))
            in case map_of ext_formats ext of Some f \<Rightarrow> f | None \<Rightarrow> FMT_UNDEFINED))"

definition puid_of :: "nat \<Rightarrow> bytes \<Rightarrow> bytes" where
  "puid_of si path =
     (let h1 = fold (\<lambda>c h. (h XOR ucast c) * 1099511628211) path (1469598103934665603 XOR of_nat si) :: u64;
          h2 = fold (\<lambda>c h. push_bit 5 h + h + ucast c) path (h1 XOR 0x9e3779b97f4a7c15)
      in le_bytes 8 h1 @ le_bytes 8 h2)"

definition path_join :: "nat \<Rightarrow> bytes \<Rightarrow> bytes \<Rightarrow> bytes" where
  "path_join sz dir name = snprintf_s sz (if dir \<noteq> [] then dir @ 0x2F # name else name)"

text \<open>The characters of a UTF-16LE string, low bytes only, while there are characters, bytes and room.\<close>

fun ptp_chars :: "nat \<Rightarrow> bytes \<Rightarrow> nat \<Rightarrow> bytes" where
  "ptp_chars 0 raw room = []"
| "ptp_chars (Suc nc) raw room =
     (if room = 0 \<or> raw = [] \<or> hd raw = 0 then [] else hd raw # ptp_chars nc (drop 2 raw) (room - 1))"

definition ptp_str_ascii :: "bytes \<Rightarrow> nat \<Rightarrow> bytes" where
  "ptp_str_ascii raw outsz = (case raw of [] \<Rightarrow> [] | nc # rest \<Rightarrow> ptp_chars (unat nc) rest (outsz - 1))"

section \<open>The object table\<close>

definition obj_by_path :: "'b mtp_state \<Rightarrow> nat \<Rightarrow> bytes \<Rightarrow> nat option" where
  "obj_by_path st si path = find_index (\<lambda>x. ob_si x = si \<and> ob_path x = path) (mt_objs st)"

definition obj_by_handle :: "'b mtp_state \<Rightarrow> u32 \<Rightarrow> obj option" where
  "obj_by_handle st h = find (\<lambda>x. ob_alive x \<and> ob_handle x = h) (mt_objs st)"

text \<open>The entry of a path, made on first sight; its handle stays.\<close>

definition obj_upsert :: "nat \<Rightarrow> bytes \<Rightarrow> bytes \<Rightarrow> u32 \<Rightarrow> bool \<Rightarrow> u64 \<Rightarrow> u32 \<Rightarrow> 'b mtp_state \<Rightarrow> 'b mtp_state \<times> u32" where
  "obj_upsert si full name parent is_dir sz mtime st =
     (let (st, i) = (case obj_by_path st si full of
            Some i \<Rightarrow> (st, i)
          | None \<Rightarrow> (st\<lparr>mt_next_handle := mt_next_handle st + 1,
              mt_objs := mt_objs st @ [\<lparr>ob_handle = mt_next_handle st, ob_parent = 0, ob_size = 0, ob_mtime = 0,
                ob_fmt = 0, ob_is_dir = False, ob_alive = False, ob_si = si, ob_storage = STORAGE_ID si,
                ob_path = snprintf_s 4096 full, ob_name = []\<rparr>]\<rparr>, length (mt_objs st)));
          x = (mt_objs st ! i)\<lparr>ob_name := snprintf_s 256 name, ob_parent := parent, ob_is_dir := is_dir,
            ob_size := (if is_dir then 0 else sz), ob_mtime := mtime,
            ob_fmt := (if is_dir then FMT_ASSOCIATION else fmt_of name), ob_alive := True\<rparr>
      in (st\<lparr>mt_objs := (mt_objs st)[i := x]\<rparr>, ob_handle x))"

definition list_names :: "'b mtp_backend \<Rightarrow> 'b \<Rightarrow> nat \<Rightarrow> bytes \<Rightarrow> bytes list" where
  "list_names bk b si path = sort (map (snprintf_s 256) (mb_listdir bk b si path))"

text \<open>
  The entries of a directory in order, each directory scanned before the next entry. A directory
  whose joined path is no longer than its parent's is the parent itself (an empty name, or a path at
  the limit of the buffer): the recursion has no end.
\<close>

function scan_names :: "'b \<Rightarrow> nat \<Rightarrow> bytes \<Rightarrow> u32 \<Rightarrow> bytes list \<Rightarrow> 'b mtp_state \<Rightarrow> 'b mtp_state cresult" where
  "scan_names b si rel parent [] st = Ret st"
| "scan_names b si rel parent (n # ns) st =
     (let full = path_join 4096 rel n in
      case mb_get_info (mt_bk st) b si full of
        None \<Rightarrow> scan_names b si rel parent ns st
      | Some (is_dir, sz, mtime) \<Rightarrow>
          (let (st, h) = obj_upsert si full n parent is_dir sz mtime st
           in if \<not> is_dir then scan_names b si rel parent ns st
              else if length full \<le> length rel then Undefined
              else (case scan_names b si full h (list_names (mt_bk st) b si full) st of
                  Ret st \<Rightarrow> scan_names b si rel parent ns st
                | Err e \<Rightarrow> Err e | Undefined \<Rightarrow> Undefined)))"
  by pat_completeness auto
termination
  by (relation "measures [\<lambda>(b, si, rel, parent, ns, st). 4096 - length rel, \<lambda>(b, si, rel, parent, ns, st). length ns]")
    (auto simp: path_join_def)

definition scan_dir :: "'b \<Rightarrow> nat \<Rightarrow> bytes \<Rightarrow> u32 \<Rightarrow> 'b mtp_state \<Rightarrow> 'b mtp_state cresult" where
  "scan_dir b si rel parent st = scan_names b si rel parent (list_names (mt_bk st) b si rel) st"

fun scan_stores :: "'b \<Rightarrow> nat list \<Rightarrow> 'b mtp_state \<Rightarrow> 'b mtp_state cresult" where
  "scan_stores b [] st = Ret st"
| "scan_stores b (si # sis) st = bindc (scan_dir b si [] 0 st) (scan_stores b sis)"

definition rescan :: "'b \<Rightarrow> 'b mtp_state \<Rightarrow> 'b mtp_state cresult" where
  "rescan b st = scan_stores b [0..<mt_n_stores st]
     (st\<lparr>mt_objs := map (\<lambda>x. x\<lparr>ob_alive := False\<rparr>) (mt_objs st)\<rparr>)"

text \<open>The store and directory a write goes to.\<close>

definition target :: "'b mtp_state \<Rightarrow> u32 \<Rightarrow> u32 \<Rightarrow> (nat \<times> bytes) option" where
  "target st sid parent =
     (if parent = 0 \<or> parent = MTP_ALL then Some (case si_of st sid of Some si \<Rightarrow> si | None \<Rightarrow> 0, [])
      else (case obj_by_handle st parent of
          None \<Rightarrow> None
        | Some x \<Rightarrow> (if ob_is_dir x then Some (ob_si x, ob_path x) else None)))"

text \<open>The walk up the parents, which does not end when they form a cycle: then the value is \<open>None\<close>.\<close>

partial_function (option) up_to :: "'b mtp_state \<Rightarrow> u32 \<Rightarrow> obj option \<Rightarrow> bool option" where
  "up_to st ancestor x = (case x of
       None \<Rightarrow> Some False
     | Some y \<Rightarrow> (if ob_parent y = 0 then Some False
         else if ob_parent y = ancestor then Some True
         else up_to st ancestor (obj_by_handle st (ob_parent y))))"

definition is_descendant :: "'b mtp_state \<Rightarrow> u32 \<Rightarrow> u32 \<Rightarrow> bool option" where
  "is_descendant st h ancestor = up_to st ancestor (obj_by_handle st h)"

text \<open>After a rename in a store the paths at and below \<open>old\<close> are repointed, dead entries too.\<close>

definition retag :: "nat \<Rightarrow> bytes \<Rightarrow> bytes \<Rightarrow> obj \<Rightarrow> obj" where
  "retag si old neu x =
     (if ob_si x \<noteq> si then x
      else if ob_path x = old then x\<lparr>ob_path := snprintf_s 4096 neu\<rparr>
      else if take (length old) (ob_path x) = old \<and> length old < length (ob_path x) \<and> ob_path x ! length old = 0x2F
      then x\<lparr>ob_path := snprintf_s 4096 (snprintf_s 4096 (neu @ drop (length old) (ob_path x)))\<rparr>
      else x)"

definition retag_paths :: "nat \<Rightarrow> bytes \<Rightarrow> bytes \<Rightarrow> 'b mtp_state \<Rightarrow> 'b mtp_state" where
  "retag_paths si old neu st = st\<lparr>mt_objs := map (retag si old neu) (mt_objs st)\<rparr>"

end
