(* ===== verification/Mtp_Data.thy ===== *)
theory Mtp_Data
  imports Mtp
begin

text \<open>
  The datasets of the media transfer class and the containers that carry them (\<open>mtp.c\<close>): a
  dataset is the list of its bytes, a container a write to one of the function's IN pipes.
\<close>

section \<open>Fields\<close>

definition bstr :: "bytes \<Rightarrow> bytes" where
  "bstr s = (let n = min (length s) 254 in
     [of_nat (if n \<noteq> 0 then n + 1 else 0)] @ concat (map (\<lambda>c. [c, 0]) (take n s)) @ (if n \<noteq> 0 then [0, 0] else []))"

definition barr16 :: "u16 list \<Rightarrow> bytes" where
  "barr16 vs = le_bytes 4 (of_nat (length vs) :: u32) @ concat (map (le_bytes 2) vs)"

section \<open>Containers\<close>

definition mtp_container :: "u16 \<Rightarrow> u16 \<Rightarrow> u32 \<Rightarrow> bytes \<Rightarrow> bytes" where
  "mtp_container type code txid payload = le_bytes 4 (of_nat (12 + length payload) :: u32) @ le_bytes 2 type
     @ le_bytes 2 code @ le_bytes 4 txid @ payload"

text \<open>
  \<open>plen\<close> is an \<open>int\<close> that may come from the backend. Below \<open>-12\<close> the allocation of a negative size fails
  and nothing is sent; from \<open>-12\<close> to \<open>-1\<close> the header is written past the end of what was allocated; and
  more than the payload holds is read past its end.
\<close>

definition send_one :: "nat option \<Rightarrow> u16 \<Rightarrow> u16 \<Rightarrow> u32 \<Rightarrow> bytes \<Rightarrow> int \<Rightarrow> ep_act list cresult" where
  "send_one ep type code txid payload plen =
     (if plen < - 12 then Ret []
      else if plen < 0 \<or> plen + 12 \<ge> 2 ^ 31 \<or> nat plen > length payload then Undefined
      else Ret (ep_write ep (mtp_container type code txid (take (nat plen) payload))))"

definition send_data :: "'b mtp_state \<Rightarrow> u16 \<Rightarrow> u32 \<Rightarrow> bytes \<Rightarrow> int \<Rightarrow> ep_act list cresult" where
  "send_data st code txid payload len = send_one (mt_in st) CT_DATA code txid payload len"

definition respond :: "'b mtp_state \<Rightarrow> u16 \<Rightarrow> u32 \<Rightarrow> u32 list \<Rightarrow> ep_act list" where
  "respond st rc txid values = ep_write (mt_in st) (mtp_container CT_RESPONSE rc txid (concat (map (le_bytes 4) values)))"

definition send_event :: "'b mtp_state \<Rightarrow> u16 \<Rightarrow> u32 \<Rightarrow> ep_act list" where
  "send_event st code param = ep_write (mt_intr st) (mtp_container CT_EVENT code MTP_ALL (le_bytes 4 param))"

definition data_ok :: "'b mtp_state \<Rightarrow> u16 \<Rightarrow> u32 \<Rightarrow> bytes \<Rightarrow> ep_act list cresult" where
  "data_ok st code txid ds =
     bindc (send_data st code txid ds (int (length ds))) (\<lambda>acts. Ret (acts @ respond st RC_OK txid []))"

section \<open>Device and storage\<close>

definition build_device_info :: "'b mtp_state \<Rightarrow> bytes" where
  "build_device_info st = le_bytes 2 (100 :: u16) @ le_bytes 4 (6 :: u32) @ le_bytes 2 (100 :: u16)
     @ bstr (cstr ''microsoft.com: 1.0; android.com: 1.0;'') @ le_bytes 2 (0 :: u16)
     @ barr16 DEV_OPS @ barr16 [EV_OBJECT_ADDED, EV_OBJECT_REMOVED, EV_STORE_ADDED]
     @ barr16 [0xD402, 0xD401] @ barr16 []
     @ barr16 [FMT_UNDEFINED, FMT_ASSOCIATION, FMT_TEXT, 0x3009, 0x3801, 0x380B, 0xB982]
     @ bstr (mt_manufacturer st) @ bstr (mt_model st) @ bstr (cstr ''1.0'') @ bstr (mt_serial st)"

definition hex_digit :: "u32 \<Rightarrow> u8" where
  "hex_digit d = (if d < 10 then 48 + ucast d else 87 + ucast d)"

definition hex8 :: "u32 \<Rightarrow> bytes" where
  "hex8 v = map (\<lambda>i. hex_digit (drop_bit (4 * (7 - i)) v AND 0xF)) [0..<8]"

definition build_storage_info :: "'b \<Rightarrow> 'b mtp_state \<Rightarrow> u32 \<Rightarrow> bytes" where
  "build_storage_info b st sid =
     (let si = si_of st sid;
          (total, freeb) = (case (si, mb_disk_usage (mt_bk st)) of (Some i, Some f) \<Rightarrow> f b i | _ \<Rightarrow> (0, 0));
          desc = (case (si, mb_description (mt_bk st)) of
              (Some i, Some f) \<Rightarrow> (case f b i of Some d \<Rightarrow> d | None \<Rightarrow> cstr ''USB over IP'')
            | _ \<Rightarrow> cstr ''USB over IP'')
      in le_bytes 2 (3 :: u16) @ le_bytes 2 (2 :: u16) @ le_bytes 2 ((if mt_read_only st then 1 else 0) :: u16)
         @ le_bytes 8 total @ le_bytes 8 freeb @ le_bytes 4 MTP_ALL @ bstr desc @ bstr (cstr ''vol-'' @ hex8 sid))"

section \<open>Objects\<close>

definition build_object_info :: "'b mtp_state \<Rightarrow> obj \<Rightarrow> bytes" where
  "build_object_info st x =
     (let sz = (if ob_size x > 0xFFFFFFFF then MTP_ALL else ucast (ob_size x));
          dt = mb_local_time (mt_bk st) (ob_mtime x)
      in le_bytes 4 (ob_storage x) @ le_bytes 2 (ob_fmt x) @ le_bytes 2 (0 :: u16) @ le_bytes 4 sz
         @ le_bytes 2 (0 :: u16) @ le_bytes 4 (0 :: u32) @ le_bytes 4 (0 :: u32) @ le_bytes 4 (0 :: u32)
         @ le_bytes 4 (0 :: u32) @ le_bytes 4 (0 :: u32) @ le_bytes 4 (0 :: u32) @ le_bytes 4 (ob_parent x)
         @ le_bytes 2 ((if ob_is_dir x then 1 else 0) :: u16) @ le_bytes 4 (0 :: u32) @ le_bytes 4 (0 :: u32)
         @ bstr (ob_name x) @ bstr dt @ bstr dt @ bstr [])"

text \<open>The datatype and the value; \<open>None\<close> for a property the class does not have.\<close>

definition build_prop :: "'b mtp_state \<Rightarrow> obj \<Rightarrow> u16 \<Rightarrow> (u16 \<times> bytes) option" where
  "build_prop st x pc =
     (if pc = OPC_STORAGE_ID then Some (T_U32, le_bytes 4 (ob_storage x))
      else if pc = OPC_OBJECT_FORMAT then Some (T_U16, le_bytes 2 (ob_fmt x))
      else if pc = OPC_PROTECTION then Some (T_U16, le_bytes 2 ((if mt_read_only st then 1 else 0) :: u16))
      else if pc = OPC_OBJECT_SIZE then Some (T_U64, le_bytes 8 (ob_size x))
      else if pc = OPC_PARENT then Some (T_U32, le_bytes 4 (ob_parent x))
      else if pc = OPC_PUID then Some (T_U128, puid_of (ob_si x) (ob_path x))
      else if pc = OPC_FILENAME \<or> pc = OPC_NAME then Some (T_STR, bstr (ob_name x))
      else if pc = OPC_DATE_MODIFIED then Some (T_STR, bstr (mb_local_time (mt_bk st) (ob_mtime x)))
      else None)"

definition build_prop_value :: "'b mtp_state \<Rightarrow> obj \<Rightarrow> u16 \<Rightarrow> bytes option" where
  "build_prop_value st x pc = map_option snd (build_prop st x pc)"

definition datatype_of :: "u16 \<Rightarrow> u16" where
  "datatype_of pc =
     (if pc = OPC_OBJECT_FORMAT \<or> pc = OPC_PROTECTION then T_U16
      else if pc = OPC_STORAGE_ID \<or> pc = OPC_PARENT then T_U32
      else if pc = OPC_OBJECT_SIZE then T_U64
      else if pc = OPC_PUID then T_U128
      else T_STR)"

definition build_prop_desc :: "u16 \<Rightarrow> bytes" where
  "build_prop_desc pc =
     (let dt = datatype_of pc
      in le_bytes 2 pc @ le_bytes 2 dt @ [if pc = OPC_FILENAME \<or> pc = OPC_NAME then 1 else 0]
         @ (if dt = T_U16 then le_bytes 2 (0 :: u16)
            else if dt = T_U32 then le_bytes 4 (0 :: u32)
            else if dt = T_U64 then le_bytes 8 (0 :: u64)
            else if dt = T_U128 then replicate 16 0
            else [0])
         @ le_bytes 4 (0 :: u32) @ [0])"

text \<open>Which objects a property list is about; \<open>None\<close> where the walk up the parents does not end.\<close>

definition prop_list_has :: "'b mtp_state \<Rightarrow> u32 \<Rightarrow> u32 \<Rightarrow> u32 \<Rightarrow> obj \<Rightarrow> bool option" where
  "prop_list_has st h fmt depth x =
     (if \<not> ob_alive x then Some False
      else
        (case (if h = MTP_ALL then Some True
               else if h = 0 then Some (ob_parent x = 0)
               else if ob_handle x = h then Some True
               else if depth = MTP_ALL then is_descendant st (ob_handle x) h
               else Some False) of
           None \<Rightarrow> None
         | Some m \<Rightarrow> Some (m \<and> (fmt = 0 \<or> ucast (ob_fmt x) = fmt))))"

definition prop_entry :: "'b mtp_state \<Rightarrow> obj \<Rightarrow> u16 \<Rightarrow> bytes list" where
  "prop_entry st x pc = (case build_prop st x pc of
     None \<Rightarrow> [] | Some (dt, v) \<Rightarrow> [le_bytes 4 (ob_handle x) @ le_bytes 2 pc @ le_bytes 2 dt @ v])"

fun prop_entries :: "'b mtp_state \<Rightarrow> u32 list \<Rightarrow> obj list \<Rightarrow> bytes list option" where
  "prop_entries st ps [] = Some []"
| "prop_entries st ps (x # xs) =
     (case prop_list_has st (ps ! 0) (ps ! 1) (ps ! 4) x of
        None \<Rightarrow> None
      | Some m \<Rightarrow>
          (let propcode = ps ! 2;
               es = (if \<not> m then []
                     else if propcode = 0 \<or> propcode = MTP_ALL then concat (map (prop_entry st x) PROP_LIST)
                     else prop_entry st x (ucast propcode))
           in map_option (\<lambda>r. es @ r) (prop_entries st ps xs)))"

definition build_prop_list :: "'b mtp_state \<Rightarrow> u32 list \<Rightarrow> bytes option" where
  "build_prop_list st ps = map_option (\<lambda>es. le_bytes 4 (of_nat (length es) :: u32) @ concat es)
     (prop_entries st ps (mt_objs st))"

definition handle_matches :: "u32 \<Rightarrow> u32 \<Rightarrow> u32 \<Rightarrow> obj \<Rightarrow> bool" where
  "handle_matches sid fmt parent x \<longleftrightarrow> ob_alive x
     \<and> (sid = 0 \<or> sid = MTP_ALL \<or> ob_storage x = sid)
     \<and> (if parent = MTP_ALL then ob_parent x = 0 else parent = 0 \<or> ob_parent x = parent)
     \<and> (fmt = 0 \<or> ucast (ob_fmt x) = fmt)"

definition list_handles :: "'b mtp_state \<Rightarrow> u32 \<Rightarrow> u32 \<Rightarrow> u32 \<Rightarrow> bytes" where
  "list_handles st sid fmt parent =
     (let xs = filter (handle_matches sid fmt parent) (mt_objs st)
      in le_bytes 4 (of_nat (length xs) :: u32) @ concat (map (\<lambda>x. le_bytes 4 (ob_handle x)) xs))"

definition count_handles :: "'b mtp_state \<Rightarrow> u32 \<Rightarrow> u32 \<Rightarrow> u32 \<Rightarrow> u32" where
  "count_handles st sid fmt parent = of_nat (length (filter (handle_matches sid fmt parent) (mt_objs st)))"

section \<open>Object data\<close>

text \<open>
  The buffer holds \<open>want\<close> bytes (one for none); the request to the backend is cut to an \<open>int\<close>. A
  difference outside \<open>long\<close>, or a backend that writes more than the buffer holds, has no defined result.
\<close>

definition read_object :: "'b \<Rightarrow> 'b mtp_state \<Rightarrow> obj \<Rightarrow> int \<Rightarrow> int \<Rightarrow> (bytes \<times> int) cresult" where
  "read_object b st x off want =
     (let avail = sint (ob_size x) - off in
      if avail \<ge> 2 ^ 63 \<or> avail < - (2 ^ 63) then Undefined
      else
        (let avail = max avail 0;
             want = (if want < 0 \<or> want > avail then avail else want);
             (got, r) = mb_read (mt_bk st) b (ob_si x) (ob_path x) off (signed_take_bit 31 want)
         in if int (length r) > max want 1 then Undefined else Ret (r, got)))"

text \<open>
  Copying a tree into a store. The recursion is over the objects of the table by their parent: with one
  more level than there are objects, running out means that the parents form a cycle, and the recursion of
  the code has no end.
\<close>

fun copy_tree :: "nat \<Rightarrow> 'b mtp_state \<Rightarrow> nat \<Rightarrow> bytes \<Rightarrow> bytes \<Rightarrow> obj \<Rightarrow> 'b \<Rightarrow> 'b cresult" where
  "copy_tree 0 st dsi dest name x b = Undefined"
| "copy_tree (Suc n) st dsi dest name x b =
     (let neu = path_join 8192 dest name; bk = mt_bk st in
      if ob_is_dir x then
        fold (\<lambda>c r. bindc r (copy_tree n st dsi neu (ob_name c) c))
          (filter (\<lambda>c. ob_alive c \<and> ob_parent c = ob_handle x) (mt_objs st)) (Ret (mb_make_dir bk b dsi neu))
      else bindc (read_object b st x 0 (- 1)) (\<lambda>(r, got).
        if got < 0 \<or> nat got > length r then Undefined
        else Ret (mb_write bk b dsi neu (take (nat got) r))))"

end
