(* ===== verification/Mtp_Ops.thy ===== *)
theory Mtp_Ops
  imports Mtp_Data
begin

text \<open>
  The operations of the media transfer class (\<open>mtp.c\<close>): the command dispatcher, the data phase from
  the host and what completes it, control requests and the build. Each maps the application's state
  and the class's to the new ones and the writes it makes, in order.
\<close>

type_synonym 'b mtp_result = "('b \<times> 'b mtp_state \<times> ep_act list) cresult"

definition bits64 :: "u32 \<Rightarrow> u32 \<Rightarrow> u64" where
  "bits64 lo hi = ucast lo OR push_bit 32 (ucast hi)"

section \<open>The data phase from the host\<close>

text \<open>After a change in the backend: rescan, then go on.\<close>

definition rescanned :: "'b \<Rightarrow> 'b mtp_state \<Rightarrow> ('b mtp_state \<Rightarrow> ep_act list) \<Rightarrow> 'b mtp_result" where
  "rescanned b st k = bindc (rescan b st) (\<lambda>st. Ret (b, st, k st))"

definition live_handle :: "'b mtp_state \<Rightarrow> nat \<Rightarrow> bytes \<Rightarrow> u32" where
  "live_handle st si path = (case obj_by_path st si path of
     None \<Rightarrow> 0 | Some i \<Rightarrow> (if ob_alive (mt_objs st ! i) then ob_handle (mt_objs st ! i) else 0))"

definition recv_object_info :: "bytes \<Rightarrow> 'b \<Rightarrow> 'b mtp_state \<Rightarrow> 'b mtp_result" where
  "recv_object_info payload b st =
     (let txid = mt_rx_txid st; bk = mt_bk st in
      if length payload < 53 then Ret (b, st, respond st RC_GENERAL_ERROR txid [])
      else
        (let fmt = usb_get_le16 payload 4; name = ptp_str_ascii (drop 52 payload) 256
         in case target st (mt_rx_p st ! 0) (mt_rx_p st ! 1) of
              None \<Rightarrow> Ret (b, st, respond st RC_INVALID_PARENT txid [])
            | Some (si, pdir) \<Rightarrow>
                (if name = [] then Ret (b, st, respond st RC_INVALID_PARENT txid [])
                 else
                   (let full = path_join 4400 pdir name;
                        b = (if fmt = FMT_ASSOCIATION then mb_make_dir bk b si full else mb_write bk b si full []);
                        st = (if fmt = FMT_ASSOCIATION then st\<lparr>mt_send_target := 0\<rparr> else st)
                    in bindc (rescan b st) (\<lambda>st.
                         let h = live_handle st si full;
                             st = (if fmt = FMT_ASSOCIATION then st else st\<lparr>mt_send_target := h\<rparr>)
                         in Ret (b, st, respond st RC_OK txid [STORAGE_ID si, mt_rx_p st ! 1, h]
                              @ (if h \<noteq> 0 then send_event st EV_OBJECT_ADDED h else [])))))))"

definition recv_object :: "bytes \<Rightarrow> 'b \<Rightarrow> 'b mtp_state \<Rightarrow> 'b mtp_result" where
  "recv_object payload b st =
     (let txid = mt_rx_txid st; h = mt_send_target st; st = st\<lparr>mt_send_target := 0\<rparr>
      in case obj_by_handle st h of
           None \<Rightarrow> Ret (b, st, respond st RC_NO_VALID_OBJECT_INFO txid [])
         | Some x \<Rightarrow> rescanned (mb_write (mt_bk st) b (ob_si x) (ob_path x) payload) st
             (\<lambda>st. respond st RC_OK txid [] @ send_event st EV_OBJECT_ADDED h))"

definition recv_device_prop :: "bytes \<Rightarrow> 'b \<Rightarrow> 'b mtp_state \<Rightarrow> 'b mtp_result" where
  "recv_device_prop payload b st =
     (let v = ptp_str_ascii payload 64;
          st = (if mt_rx_p st ! 0 = DPC_FRIENDLY_NAME then st\<lparr>mt_friendly := snprintf_s 64 v\<rparr>
                else if mt_rx_p st ! 0 = DPC_SYNC_PARTNER then st\<lparr>mt_sync_partner := snprintf_s 64 v\<rparr> else st)
      in Ret (b, st, respond st RC_OK (mt_rx_txid st) []))"

text \<open>Moving a path in a store, and what the host is told.\<close>

definition mtp_rename :: "u32 \<Rightarrow> nat \<Rightarrow> bytes \<Rightarrow> bytes \<Rightarrow> 'b \<Rightarrow> 'b mtp_state \<Rightarrow> 'b mtp_result" where
  "mtp_rename txid si old neu b st =
     (case mb_rename (mt_bk st) b si old neu of
        (b, rc) \<Rightarrow> (if rc = 0 then rescanned b (retag_paths si old neu st) (\<lambda>st. respond st RC_OK txid [])
                   else Ret (b, st, respond st RC_GENERAL_ERROR txid [])))"

definition recv_set_object_prop :: "bytes \<Rightarrow> 'b \<Rightarrow> 'b mtp_state \<Rightarrow> 'b mtp_result" where
  "recv_set_object_prop payload b st =
     (let txid = mt_rx_txid st; propcode = mt_rx_p st ! 1
      in case obj_by_handle st (mt_rx_p st ! 0) of
           None \<Rightarrow> Ret (b, st, respond st RC_INVALID_OBJECT_HANDLE txid [])
         | Some x \<Rightarrow>
             (if propcode \<noteq> ucast OPC_FILENAME \<and> propcode \<noteq> ucast OPC_NAME
              then Ret (b, st, respond st RC_OBJECT_PROP_NOT_SUPPORTED txid [])
              else
                (let name = ptp_str_ascii payload 256;
                     pdir = (if ob_parent x = 0 then [] else case obj_by_handle st (ob_parent x) of
                        None \<Rightarrow> [] | Some p \<Rightarrow> ob_path p)
                 in if name = [] then Ret (b, st, respond st RC_GENERAL_ERROR txid [])
                    else mtp_rename txid (ob_si x) (ob_path x) (path_join 4400 pdir name) b st)))"

text \<open>The offset is a \<open>long\<close>. The callback is called without a check for NULL.\<close>

definition recv_send_partial :: "bytes \<Rightarrow> 'b \<Rightarrow> 'b mtp_state \<Rightarrow> 'b mtp_result" where
  "recv_send_partial payload b st =
     (let txid = mt_rx_txid st
      in case obj_by_handle st (mt_rx_p st ! 0) of
           None \<Rightarrow> Ret (b, st, respond st RC_INVALID_OBJECT_HANDLE txid [])
         | Some x \<Rightarrow>
             (if ob_is_dir x then Ret (b, st, respond st RC_INVALID_OBJECT_HANDLE txid [])
              else (case mb_pwrite (mt_bk st) of
                  None \<Rightarrow> Undefined
                | Some f \<Rightarrow> rescanned (f b (ob_si x) (ob_path x) (sint (bits64 (mt_rx_p st ! 1) (mt_rx_p st ! 2))) payload) st
                    (\<lambda>st. respond st RC_OK txid [of_nat (length payload)]))))"

definition complete_rx :: "'b \<Rightarrow> 'b mtp_state \<Rightarrow> 'b mtp_result" where
  "complete_rx b st =
     (let plen = max 0 (signed_take_bit 31 (mt_rx_need st - 12));
          payload = take (nat plen) (drop 12 (mt_rx_buf st)); c = mt_rx_code st in
      if c = 0x100C then recv_object_info payload b st
      else if c = 0x100D then recv_object payload b st
      else if c = 0x1016 then recv_device_prop payload b st
      else if c = 0x9804 then recv_set_object_prop payload b st
      else if c = 0x95C2 then recv_send_partial payload b st
      else Ret (b, st, []))"

definition begin_rx :: "u16 \<Rightarrow> u32 \<Rightarrow> u32 list \<Rightarrow> 'b mtp_state \<Rightarrow> 'b mtp_state" where
  "begin_rx code txid params st = st\<lparr>mt_rx_active := True, mt_rx_code := code, mt_rx_txid := txid,
     mt_rx_p := params, mt_rx_buf := [], mt_rx_need := - 1\<rparr>"

section \<open>The operations\<close>

text \<open>The guards that answer the host themselves.\<close>

definition require_obj :: "'b \<Rightarrow> 'b mtp_state \<Rightarrow> u32 \<Rightarrow> u32 \<Rightarrow> bool \<Rightarrow> (obj \<Rightarrow> 'b mtp_result) \<Rightarrow> 'b mtp_result" where
  "require_obj b st h txid need_file k =
     (case obj_by_handle st h of
        None \<Rightarrow> Ret (b, st, respond st RC_INVALID_OBJECT_HANDLE txid [])
      | Some x \<Rightarrow> (if need_file \<and> ob_is_dir x then Ret (b, st, respond st RC_INVALID_OBJECT_HANDLE txid []) else k x))"

definition require_writable :: "'b \<Rightarrow> 'b mtp_state \<Rightarrow> u32 \<Rightarrow> 'b mtp_result \<Rightarrow> 'b mtp_result" where
  "require_writable b st txid k = (if mt_read_only st then Ret (b, st, respond st RC_STORE_READ_ONLY txid []) else k)"

definition send_dataset :: "'b \<Rightarrow> 'b mtp_state \<Rightarrow> u16 \<Rightarrow> u32 \<Rightarrow> bytes \<Rightarrow> 'b mtp_result" where
  "send_dataset b st code txid ds = bindc (data_ok st code txid ds) (\<lambda>acts. Ret (b, st, acts))"

text \<open>The data of an object, with the response parameters that follow its length.\<close>

definition send_object :: "'b \<Rightarrow> 'b mtp_state \<Rightarrow> u16 \<Rightarrow> u32 \<Rightarrow> obj \<Rightarrow> int \<Rightarrow> int \<Rightarrow> bool \<Rightarrow> 'b mtp_result" where
  "send_object b st code txid x off want report =
     bindc (read_object b st x off want) (\<lambda>(r, got).
       bindc (send_data st code txid r got) (\<lambda>acts.
         Ret (b, st, acts @ respond st RC_OK txid (if report then [word_of_int got] else []))))"

definition get_partial :: "'b \<Rightarrow> 'b mtp_state \<Rightarrow> u16 \<Rightarrow> u32 \<Rightarrow> u32 list \<Rightarrow> 'b mtp_result" where
  "get_partial b st code txid ps = require_obj b st (ps ! 0) txid True (\<lambda>x.
     let off = (if code = 0x95C1 then sint (bits64 (ps ! 1) (ps ! 2)) else uint (ps ! 1));
         want = (if code = 0x95C1 then uint (ps ! 3) else if ps ! 2 = MTP_ALL then - 1 else uint (ps ! 2))
     in send_object b st code txid x off want True)"

definition delete_object :: "'b \<Rightarrow> 'b mtp_state \<Rightarrow> u32 \<Rightarrow> u32 list \<Rightarrow> 'b mtp_result" where
  "delete_object b st txid ps = require_obj b st (ps ! 0) txid False (\<lambda>x.
     case mb_remove (mt_bk st) b (ob_si x) (ob_path x) of
       (b, rc) \<Rightarrow> (if rc = 0 then rescanned b st (\<lambda>st. respond st RC_OK txid [] @ send_event st EV_OBJECT_REMOVED (ps ! 0))
                  else Ret (b, st, respond st RC_GENERAL_ERROR txid [])))"

definition copy_levels :: "'b mtp_state \<Rightarrow> nat" where
  "copy_levels st = Suc (length (mt_objs st))"

definition move_object :: "'b \<Rightarrow> 'b mtp_state \<Rightarrow> u32 \<Rightarrow> u32 list \<Rightarrow> 'b mtp_result" where
  "move_object b st txid ps = require_obj b st (ps ! 0) txid False (\<lambda>x.
     case target st (ps ! 1) (ps ! 2) of
       None \<Rightarrow> Ret (b, st, respond st RC_INVALID_PARENT txid [])
     | Some (dsi, dest) \<Rightarrow>
         (if dsi = ob_si x then mtp_rename txid (ob_si x) (ob_path x) (path_join 4400 dest (ob_name x)) b st
          else bindc (copy_tree (copy_levels st) st dsi dest (ob_name x) x b) (\<lambda>b.
            rescanned (fst (mb_remove (mt_bk st) b (ob_si x) (ob_path x))) st (\<lambda>st. respond st RC_OK txid []))))"

definition copy_object :: "'b \<Rightarrow> 'b mtp_state \<Rightarrow> u32 \<Rightarrow> u32 list \<Rightarrow> 'b mtp_result" where
  "copy_object b st txid ps = require_obj b st (ps ! 0) txid False (\<lambda>x.
     case target st (ps ! 1) (ps ! 2) of
       None \<Rightarrow> Ret (b, st, respond st RC_INVALID_PARENT txid [])
     | Some (dsi, dest) \<Rightarrow>
         bindc (copy_tree (copy_levels st) st dsi dest (ob_name x) x b) (\<lambda>b.
           rescanned b st (\<lambda>st. respond st RC_OK txid [live_handle st dsi (path_join 8192 dest (ob_name x))])))"

definition truncate_object :: "'b \<Rightarrow> 'b mtp_state \<Rightarrow> u32 \<Rightarrow> u32 list \<Rightarrow> 'b mtp_result" where
  "truncate_object b st txid ps = require_obj b st (ps ! 0) txid True (\<lambda>x.
     case mb_truncate (mt_bk st) of
       None \<Rightarrow> Undefined
     | Some f \<Rightarrow> (case f b (ob_si x) (ob_path x) (bits64 (ps ! 1) (ps ! 2)) of
         (b, rc) \<Rightarrow> (if rc = 0 then rescanned b st (\<lambda>st. respond st RC_OK txid [])
                    else Ret (b, st, respond st RC_GENERAL_ERROR txid []))))"

definition open_session :: "'b \<Rightarrow> 'b mtp_state \<Rightarrow> u32 \<Rightarrow> u32 list \<Rightarrow> 'b mtp_result" where
  "open_session b st txid ps =
     (if mt_session st \<noteq> 0 then Ret (b, st, respond st RC_SESSION_ALREADY_OPEN txid [mt_session st])
      else if ps ! 0 = 0 then Ret (b, st, respond st RC_INVALID_PARAMETER txid [])
      else Ret (b, st\<lparr>mt_session := ps ! 0\<rparr>, respond st RC_OK txid []))"

definition device_prop :: "'b mtp_state \<Rightarrow> u32 \<Rightarrow> bytes option" where
  "device_prop st p = (if p = DPC_FRIENDLY_NAME then Some (mt_friendly st)
     else if p = DPC_SYNC_PARTNER then Some (mt_sync_partner st) else None)"

definition reading_op :: "'b \<Rightarrow> 'b mtp_state \<Rightarrow> u16 \<Rightarrow> u32 \<Rightarrow> u32 list \<Rightarrow> 'b mtp_result" where
  "reading_op b st code txid ps =
     (if code = 0x1001 then send_dataset b st code txid (build_device_info st)
      else if code = 0x1002 then open_session b st txid ps
      else if code = 0x1003 then Ret (b, st\<lparr>mt_session := 0\<rparr>, respond st RC_OK txid [])
      else if code = 0x1004 then send_dataset b st code txid (le_bytes 4 (of_nat (mt_n_stores st) :: u32)
          @ concat (map (\<lambda>si. le_bytes 4 (STORAGE_ID si)) [0..<mt_n_stores st]))
      else if code = 0x1005 then
        (if si_of st (ps ! 0) = None then Ret (b, st, respond st RC_INVALID_STORAGE_ID txid [])
         else send_dataset b st code txid (build_storage_info b st (ps ! 0)))
      else if code = 0x1006 then Ret (b, st, respond st RC_OK txid [count_handles st (ps ! 0) (ps ! 1) (ps ! 2)])
      else if code = 0x1007 then send_dataset b st code txid (list_handles st (ps ! 0) (ps ! 1) (ps ! 2))
      else if code = 0x1008 then require_obj b st (ps ! 0) txid False (\<lambda>x. send_dataset b st code txid (build_object_info st x))
      else if code = 0x1009 then require_obj b st (ps ! 0) txid True (\<lambda>x. send_object b st code txid x 0 (- 1) False)
      else if code = 0x101B \<or> code = 0x95C1 then get_partial b st code txid ps
      else if code = 0x95C4 \<or> code = 0x95C5 then
        Ret (b, st, respond st (if obj_by_handle st (ps ! 0) \<noteq> None then RC_OK else RC_INVALID_OBJECT_HANDLE) txid [])
      else if code = 0x1014 then
        (case device_prop st (ps ! 0) of
           None \<Rightarrow> Ret (b, st, respond st RC_DEVICEPROP_NOT_SUPPORTED txid [])
         | Some cur \<Rightarrow> send_dataset b st code txid (le_bytes 2 (ucast (ps ! 0) :: u16) @ le_bytes 2 T_STR @ [1] @ bstr [] @ bstr cur @ [0]))
      else if code = 0x1015 then
        (case device_prop st (ps ! 0) of
           None \<Rightarrow> Ret (b, st, respond st RC_DEVICEPROP_NOT_SUPPORTED txid [])
         | Some cur \<Rightarrow> send_dataset b st code txid (bstr cur))
      else if code = 0x9801 then send_dataset b st code txid (barr16 PROP_LIST)
      else if code = 0x9802 then
        (if ps ! 0 \<notin> ucast ` set PROP_LIST then Ret (b, st, respond st RC_INVALID_OBJECT_PROP_CODE txid [])
         else send_dataset b st code txid (build_prop_desc (ucast (ps ! 0))))
      else if code = 0x9803 then require_obj b st (ps ! 0) txid False (\<lambda>x.
         case build_prop_value st x (ucast (ps ! 1)) of
           None \<Rightarrow> Ret (b, st, respond st RC_OBJECT_PROP_NOT_SUPPORTED txid [])
         | Some v \<Rightarrow> send_dataset b st code txid v)
      else if code = 0x9805 then
        (case build_prop_list st ps of None \<Rightarrow> Undefined | Some ds \<Rightarrow> send_dataset b st code txid ds)
      else if code = 0x9810 then send_dataset b st code txid (le_bytes 4 (0 :: u32))
      else Ret (b, st, respond st RC_OPERATION_NOT_SUPPORTED txid []))"

definition writing_op :: "'b \<Rightarrow> 'b mtp_state \<Rightarrow> u16 \<Rightarrow> u32 \<Rightarrow> u32 list \<Rightarrow> 'b mtp_result" where
  "writing_op b st code txid ps =
     (if code = 0x100B then require_writable b st txid (delete_object b st txid ps)
      else if code = 0x100C \<or> code = 0x9804 then require_writable b st txid (Ret (b, begin_rx code txid ps st, []))
      else if code = 0x100D then require_writable b st txid
        (if mt_send_target st = 0 then Ret (b, st, respond st RC_NO_VALID_OBJECT_INFO txid [])
         else Ret (b, begin_rx code txid ps st, []))
      else if code = 0x1019 then require_writable b st txid (move_object b st txid ps)
      else if code = 0x101A then require_writable b st txid (copy_object b st txid ps)
      else if code = 0x95C2 then require_writable b st txid
        (require_obj b st (ps ! 0) txid True (\<lambda>x. Ret (b, begin_rx code txid ps st, [])))
      else if code = 0x95C3 then require_writable b st txid (truncate_object b st txid ps)
      else Ret (b, begin_rx code txid ps st, []))"

text \<open>The operations that change a storage, and \<open>SetDevicePropValue\<close> (last).\<close>

definition writing_ops :: "u16 list" where
  "writing_ops = [0x100B, 0x100C, 0x9804, 0x100D, 0x1019, 0x101A, 0x95C2, 0x95C3, 0x1016]"

text \<open>The five parameters: those not sent are 0.\<close>

definition mtp_params :: "bytes \<Rightarrow> u32 list" where
  "mtp_params d = (let np = min ((length d - 12) div 4) 5 in
     map (\<lambda>i. if i < np then usb_get_le32 d (12 + 4 * i) else 0) [0..<5])"

definition mtp_dispatch :: "bytes \<Rightarrow> 'b \<Rightarrow> 'b mtp_state \<Rightarrow> 'b mtp_result" where
  "mtp_dispatch d b st =
     (if length d < 12 then Ret (b, st, [])
      else (let code = usb_get_le16 d 6; txid = usb_get_le32 d 8; ps = mtp_params d in
        if code \<noteq> 0x1001 \<and> code \<noteq> 0x1002 \<and> mt_session st = 0 then Ret (b, st, respond st RC_SESSION_NOT_OPEN txid [])
        else if code \<in> set writing_ops then writing_op b st code txid ps
        else reading_op b st code txid ps))"

section \<open>The class\<close>

definition mtp_on_out :: "bytes \<Rightarrow> 'b \<Rightarrow> 'b mtp_state \<Rightarrow> 'b mtp_result" where
  "mtp_on_out d b st =
     (if \<not> mt_rx_active st then mtp_dispatch d b st
      else
        (let st = st\<lparr>mt_rx_buf := mt_rx_buf st @ d\<rparr>;
             st = (if mt_rx_need st < 0 \<and> length (mt_rx_buf st) \<ge> 12
                   then st\<lparr>mt_rx_need := uint (usb_get_le32 (mt_rx_buf st) 0)\<rparr> else st)
         in if mt_rx_need st \<ge> 0 \<and> int (length (mt_rx_buf st)) \<ge> mt_rx_need st
            then complete_rx b (st\<lparr>mt_rx_active := False\<rparr>) else Ret (b, st, [])))"

definition mtp_control :: "'b mtp_state \<Rightarrow> usb_setup \<Rightarrow> bytes \<Rightarrow> ('b mtp_state \<times> int \<times> bytes) cresult" where
  "mtp_control st stp d =
     (if USB_REQ_TYPE (bmRequestType stp) \<noteq> USB_CLASS then Ret (st, - 1, [])
      else if bRequest stp = 0x67 then ctl_reply stp d st (le_bytes 2 (4 :: u16) @ le_bytes 2 RC_OK)
      else if bRequest stp = 0x66 then Ret (st\<lparr>mt_session := 0, mt_rx_active := False, mt_send_target := 0\<rparr>, 0, [])
      else if bRequest stp = 0x64 then Ret (st, 0, [])
      else Ret (st, - 1, []))"

text \<open>What the build sets up before the first scan.\<close>

definition mtp_fresh :: "'b mtp_opts \<Rightarrow> 'b mtp_state" where
  "mtp_fresh opts =
     (let model = snprintf_s 64 (case mo_name opts of Some s \<Rightarrow> s | None \<Rightarrow> cstr ''USBIP MTP'') in
      \<lparr>mt_bk = mo_backend opts, mt_n_stores = nat (min 8 (max 1 (mo_n_stores opts))), mt_read_only = mo_read_only opts,
       mt_model = model,
       mt_manufacturer = snprintf_s 64 (case mo_manufacturer opts of Some s \<Rightarrow> s | None \<Rightarrow> cstr ''USB over IP''),
       mt_serial = snprintf_s 40 (case mo_serial opts of Some s \<Rightarrow> if length s = 32 then s else cstr ''JW30'' | None \<Rightarrow> cstr ''JW30''),
       mt_friendly = snprintf_s 64 model, mt_sync_partner = [], mt_objs = [], mt_next_handle = 1, mt_send_target = 0,
       mt_session = 0, mt_rx_active = False, mt_rx_code = 0, mt_rx_txid = 0, mt_rx_p = replicate 5 0, mt_rx_buf = [],
       mt_rx_need = 0, mt_in = None, mt_out = None, mt_intr = None\<rparr>)"

definition mtp_build :: "'b mtp_opts \<Rightarrow> 'b \<Rightarrow> ('s, 'b mtp_state) uc_build" where
  "mtp_build opts b uc func dev =
     bindc (rescan b (mtp_fresh opts)) (\<lambda>st.
       let dev = (if mo_winusb opts then fst (usbip_function_enable_msos (Some (cstr ''MTP'')) None func dev) else dev);
           mps = (if speed_code (speed dev) \<ge> speed_code USB_SPEED_HIGH then 512 else 64) :: u16
       in bindc (usbip_function_add_interface 0x06 0x01 0x01 func dev) (\<lambda>(func, dev, iface).
            let (func, dev, ep_out) = usbip_interface_add_endpoint (ep_desc 0x01 2 mps 0) func dev;
                (func, dev, ep_in) = usbip_interface_add_endpoint (ep_desc 0x81 2 mps 0) func dev;
                (func, dev, ep_intr) = usbip_interface_add_endpoint (ep_desc 0x82 3 28 6) func dev
            in Ret (func, dev, Some (st\<lparr>mt_in := ep_in, mt_out := ep_out, mt_intr := ep_intr\<rparr>))))"

definition usbip_device_mtp :: "('b \<times> (handler \<Rightarrow> 'b mtp_state)) usbip_device_class" where
  "usbip_device_mtp = \<lparr>c_id = 7,
     c_control = Some (\<lambda>f (b, sts) stp d len. case mtp_control (sts f) stp d of
        Ret (st, rc, r) \<Rightarrow> ((b, sts(f := st)), [], rc, r) | _ \<Rightarrow> ((b, sts), [], - 1, [])),
     c_set_alt = None,
     c_on_out = Some (\<lambda>f (b, sts) ep d. case mtp_on_out d b (sts f) of
        Ret (b, st, acts) \<Rightarrow> ((b, sts(f := st)), acts) | _ \<Rightarrow> ((b, sts), [])),
     c_on_iso = None\<rparr>"

definition mtp_add :: "'b mtp_opts \<Rightarrow> 'b \<Rightarrow> 's usbip_device_class \<Rightarrow> nat \<Rightarrow> 's uc \<Rightarrow> usbip_device \<Rightarrow> ('s uc \<times> usbip_device \<times> (handler \<times> 'b mtp_state) option) cresult" where
  "mtp_add opts b cls dv uc dev = usbip_device_add_class (mtp_build opts b) cls dv uc dev"

end
