(* ===== verification/Mtp_Store.thy ===== *)
theory Mtp_Store
  imports Mtp_Ops "HOL-Library.Code_Target_Nat"
begin

text \<open>
  The storage backend of the example device (\<open>examples/device/mtp_device.c\<close>): one directory of a
  file system per storage. The file system is a list of its nodes by their components; a node has its
  modification time. Paths are resolved as POSIX does, from the root directory, up to \<open>PATH_MAX\<close> and without
  symbolic links; other limits, permissions and full disks are left out, and a file is written whole.
\<close>

section \<open>The file system\<close>

datatype node = Directory u32 | Regular u32 bytes

record fs =
  fs_nodes :: "(bytes list \<times> node) list"
  fs_now :: u32

definition node_at :: "fs \<Rightarrow> bytes list \<Rightarrow> node option" where
  "node_at f p = (if p = [] then Some (Directory 0) else map_of (fs_nodes f) p)"

fun is_directory :: "node option \<Rightarrow> bool" where
  "is_directory (Some (Directory t)) = True"
| "is_directory _ = False"

fun components :: "bytes \<Rightarrow> bytes list" where
  "components [] = [[]]"
| "components (c # cs) = (if c = 0x2F then [] # components cs
     else (case components cs of [] \<Rightarrow> [[c]] | d # ds \<Rightarrow> (c # d) # ds))"

fun walk :: "fs \<Rightarrow> bytes list \<Rightarrow> bytes list \<Rightarrow> bytes list option" where
  "walk f cur [] = Some cur"
| "walk f cur (c # cs) =
     (if \<not> is_directory (node_at f cur) then None
      else if c = [] \<or> c = [46] then walk f cur cs
      else if c = [46, 46] then walk f (butlast cur) cs
      else walk f (cur @ [c]) cs)"

definition resolve :: "fs \<Rightarrow> bytes \<Rightarrow> bytes list option" where
  "resolve f path = (if length path \<ge> 4096 then None else walk f [] (components path))"

text \<open>A node is written in place, or added; its directory is touched when it is added.\<close>

definition put_node :: "bytes list \<Rightarrow> node \<Rightarrow> fs \<Rightarrow> fs" where
  "put_node p nd f =
     (if map_of (fs_nodes f) p \<noteq> None
      then f\<lparr>fs_nodes := map (\<lambda>(q, m). (q, if q = p then nd else m)) (fs_nodes f)\<rparr>
      else f\<lparr>fs_nodes := map (\<lambda>(q, m). (q, if q = butlast p then Directory (fs_now f) else m)) (fs_nodes f) @ [(p, nd)]\<rparr>)"

definition entries :: "fs \<Rightarrow> bytes list \<Rightarrow> bytes list" where
  "entries f p = map (last \<circ> fst) (filter (\<lambda>(q, m). q \<noteq> [] \<and> butlast q = p) (fs_nodes f))"

definition del_node :: "bytes list \<Rightarrow> fs \<Rightarrow> fs" where
  "del_node p f = f\<lparr>fs_nodes := filter (\<lambda>(q, m). q \<noteq> p) (fs_nodes f)\<rparr>"

section \<open>The backend\<close>

definition real_path :: "bytes \<Rightarrow> bytes \<Rightarrow> bytes" where
  "real_path root path = snprintf_s 8192 (if path \<noteq> [] then root @ 0x2F # path else root)"

definition store_listdir :: "bytes list \<Rightarrow> fs \<Rightarrow> nat \<Rightarrow> bytes \<Rightarrow> bytes list" where
  "store_listdir roots f si path =
     (case resolve f (real_path (roots ! si) path) of
        None \<Rightarrow> []
      | Some p \<Rightarrow> (if is_directory (node_at f p) then entries f p else []))"

definition store_get_info :: "bytes list \<Rightarrow> fs \<Rightarrow> nat \<Rightarrow> bytes \<Rightarrow> (bool \<times> u64 \<times> u32) option" where
  "store_get_info roots f si path =
     (case Option.bind (resolve f (real_path (roots ! si) path)) (node_at f) of
        None \<Rightarrow> None
      | Some (Directory t) \<Rightarrow> Some (True, 0, t)
      | Some (Regular t d) \<Rightarrow> Some (False, of_nat (length d), t))"

definition store_read :: "bytes list \<Rightarrow> fs \<Rightarrow> nat \<Rightarrow> bytes \<Rightarrow> int \<Rightarrow> int \<Rightarrow> int \<times> bytes" where
  "store_read roots f si path off want =
     (case Option.bind (resolve f (real_path (roots ! si) path)) (node_at f) of
        Some (Regular t d) \<Rightarrow>
          (let r = (if want > 0 then take (nat want) (drop (nat off) d) else []) in (int (length r), r))
      | _ \<Rightarrow> (0, []))"

definition store_write :: "bytes list \<Rightarrow> fs \<Rightarrow> nat \<Rightarrow> bytes \<Rightarrow> bytes \<Rightarrow> fs" where
  "store_write roots f si path data =
     (case resolve f (real_path (roots ! si) path) of
        None \<Rightarrow> f
      | Some p \<Rightarrow> (if is_directory (node_at f p) then f else put_node p (Regular (fs_now f) data) f))"

definition store_make_dir :: "bytes list \<Rightarrow> fs \<Rightarrow> nat \<Rightarrow> bytes \<Rightarrow> fs" where
  "store_make_dir roots f si path =
     (case resolve f (real_path (roots ! si) path) of
        None \<Rightarrow> f
      | Some p \<Rightarrow> (if node_at f p \<noteq> None then f else put_node p (Directory (fs_now f)) f))"

text \<open>\<open>rmtree\<close>, its levels bounded by the number of nodes. A directory that is not empty stays.\<close>

fun rmtree :: "nat \<Rightarrow> bytes \<Rightarrow> fs \<Rightarrow> fs \<times> int" where
  "rmtree 0 path f = (f, - 1)"
| "rmtree (Suc n) path f =
     (case Option.bind (resolve f path) (\<lambda>p. map_option (Pair p) (node_at f p)) of
        None \<Rightarrow> (f, - 1)
      | Some (p, Regular t d) \<Rightarrow> (del_node p f, 0)
      | Some (p, Directory t) \<Rightarrow>
          (let f = fold (\<lambda>name f. fst (rmtree n (snprintf_s 8192 (path @ 0x2F # name)) f)) (entries f p) f
           in if p = [] \<or> entries f p \<noteq> [] then (f, - 1) else (del_node p f, 0)))"

definition store_remove :: "bytes list \<Rightarrow> fs \<Rightarrow> nat \<Rightarrow> bytes \<Rightarrow> fs \<times> int" where
  "store_remove roots f si path = rmtree (Suc (length (fs_nodes f))) (real_path (roots ! si) path) f"

text \<open>\<open>rename\<close>: an empty directory gives way to a directory, a file to a file; never into itself.\<close>

definition fs_rename :: "bytes list \<Rightarrow> bytes list \<Rightarrow> fs \<Rightarrow> fs \<times> int" where
  "fs_rename p q f =
     (if p = [] \<or> q = [] \<or> node_at f p = None then (f, - 1)
      else if p = q then (f, 0)
      else if take (length p) q = p then (f, - 1)
      else if node_at f q \<noteq> None \<and> (is_directory (node_at f p) \<noteq> is_directory (node_at f q) \<or> entries f q \<noteq> [])
      then (f, - 1)
      else (f\<lparr>fs_nodes := map (\<lambda>(r, m). (if take (length p) r = p then q @ drop (length p) r else r, m))
          (filter (\<lambda>(r, m). r \<noteq> q) (fs_nodes f))\<rparr>, 0))"

definition store_rename :: "bytes list \<Rightarrow> fs \<Rightarrow> nat \<Rightarrow> bytes \<Rightarrow> bytes \<Rightarrow> fs \<times> int" where
  "store_rename roots f si path newpath =
     (case (resolve f (real_path (roots ! si) path), resolve f (real_path (roots ! si) newpath)) of
        (Some p, Some q) \<Rightarrow> fs_rename p q f
      | _ \<Rightarrow> (f, - 1))"

text \<open>A failed seek leaves the file at its start; a gap reads as zeros.\<close>

definition patch :: "nat \<Rightarrow> bytes \<Rightarrow> bytes \<Rightarrow> bytes" where
  "patch off data d = (if data = [] then d else put_at off data (d @ replicate (off - length d) 0))"

definition store_pwrite :: "bytes list \<Rightarrow> fs \<Rightarrow> nat \<Rightarrow> bytes \<Rightarrow> int \<Rightarrow> bytes \<Rightarrow> fs" where
  "store_pwrite roots f si path off data =
     (case resolve f (real_path (roots ! si) path) of
        None \<Rightarrow> f
      | Some p \<Rightarrow> (case node_at f p of
            Some (Directory t) \<Rightarrow> f
          | Some (Regular t d) \<Rightarrow> put_node p (Regular (fs_now f) (patch (nat off) data d)) f
          | None \<Rightarrow> put_node p (Regular (fs_now f) (patch (nat off) data [])) f))"

definition store_truncate :: "bytes list \<Rightarrow> fs \<Rightarrow> nat \<Rightarrow> bytes \<Rightarrow> u64 \<Rightarrow> fs \<times> int" where
  "store_truncate roots f si path sz =
     (case Option.bind (resolve f (real_path (roots ! si) path)) (\<lambda>p. map_option (Pair p) (node_at f p)) of
        Some (p, Regular t d) \<Rightarrow>
          (if sint sz < 0 then (f, - 1)
           else (put_node p (Regular (fs_now f) (take (unat sz) d @ replicate (unat sz - length d) 0)) f, 0))
      | _ \<Rightarrow> (f, - 1))"

text \<open>The base name of the directory.\<close>

definition store_description :: "bytes list \<Rightarrow> nat \<Rightarrow> bytes option" where
  "store_description roots si =
     (let root = roots ! si; base = last (components root)
      in Some (if 0x2F \<in> set root \<and> base \<noteq> [] then base else root))"

text \<open>The options of the example; \<open>statvfs\<close> and the local time are parameters.\<close>

definition store_backend :: "bytes list \<Rightarrow> (fs \<Rightarrow> nat \<Rightarrow> u64 \<times> u64) \<Rightarrow> (u32 \<Rightarrow> bytes) \<Rightarrow> fs mtp_backend" where
  "store_backend roots usage tm = \<lparr>mb_listdir = store_listdir roots, mb_get_info = store_get_info roots,
     mb_read = store_read roots, mb_write = store_write roots, mb_make_dir = store_make_dir roots,
     mb_remove = store_remove roots, mb_rename = store_rename roots, mb_pwrite = Some (store_pwrite roots),
     mb_truncate = Some (store_truncate roots), mb_disk_usage = Some usage,
     mb_description = Some (\<lambda>f. store_description roots), mb_local_time = tm\<rparr>"

definition example_opts :: "bool \<Rightarrow> bytes \<Rightarrow> bytes list \<Rightarrow> (fs \<Rightarrow> nat \<Rightarrow> u64 \<times> u64) \<Rightarrow> (u32 \<Rightarrow> bytes) \<Rightarrow> fs mtp_opts" where
  "example_opts ro name roots usage tm = \<lparr>mo_read_only = ro, mo_name = Some name, mo_manufacturer = Some (cstr ''USB over IP''),
     mo_serial = None, mo_winusb = True, mo_n_stores = int (length roots), mo_backend = store_backend roots usage tm\<rparr>"

section \<open>A small share\<close>

definition demo_fs :: fs where
  "demo_fs = \<lparr>fs_nodes = [([cstr ''s''], Directory 0), ([cstr ''s'', cstr ''d''], Directory 0),
     ([cstr ''s'', cstr ''d'', cstr ''f''], Regular 0 [1, 2, 3])], fs_now = 7\<rparr>"

definition demo_opts :: "bool \<Rightarrow> fs mtp_opts" where
  "demo_opts ro = example_opts ro (cstr ''X'') [cstr ''/s''] (\<lambda>f si. (0, 0)) (\<lambda>t. [])"

text \<open>The state after the build.\<close>

definition demo_state :: "bool \<Rightarrow> fs mtp_state" where
  "demo_state ro = (case rescan demo_fs (mtp_fresh (demo_opts ro)) of
     Ret st \<Rightarrow> st\<lparr>mt_in := Some 1, mt_out := Some 0, mt_intr := Some 2\<rparr> | _ \<Rightarrow> mtp_fresh (demo_opts ro))"

end
