(* ===== verification/Mtp_Values.thy ===== *)
theory Mtp_Values
  imports Mtp_Store
begin

text \<open>
  The values of object properties: each has the datatype its descriptor declares, and a list of them
  is read back by a host that knows the datatypes only.
\<close>

section \<open>Strings\<close>

lemma length_bstr: "length (bstr s) = 1 + 2 * unat (hd (bstr s))"
proof -
  define n where "n = min (length s) 254"
  have l: "length (concat (map (\<lambda>c. [c, 0 :: u8]) xs)) = 2 * length xs" for xs :: bytes
    by (induction xs) simp_all
  have n: "n < 255" by (simp add: n_def)
  then have "unat (of_nat (if n \<noteq> 0 then n + 1 else 0) :: u8) = (if n \<noteq> 0 then n + 1 else 0)"
    by (simp add: unat_of_nat take_bit_nat_eq_self del: of_nat_add of_nat_Suc)
  then show ?thesis by (simp add: bstr_def Let_def l flip: n_def) (simp add: n_def)
qed

lemma bstr_not_Nil: "bstr s \<noteq> []"
  by (simp add: bstr_def Let_def)

lemma le_bytes_not_Nil: "0 < n \<Longrightarrow> le_bytes n v \<noteq> []"
  by (cases n) simp_all

section \<open>Elements of a property list\<close>

definition value_len :: "u16 \<Rightarrow> bytes \<Rightarrow> nat" where
  "value_len dt v = (if dt = T_U16 then 2 else if dt = T_U32 then 4 else if dt = T_U64 then 8 else if dt = T_U128 then 16
     else 1 + 2 * unat (hd v))"

type_synonym element = "u32 \<times> u16 \<times> u16 \<times> bytes"

text \<open>What a host does: it reads the handle, the code and the datatype, and by the datatype the value.\<close>

fun read_elements :: "nat \<Rightarrow> bytes \<Rightarrow> element list option" where
  "read_elements 0 bs = (if bs = [] then Some [] else None)"
| "read_elements (Suc n) bs =
     (let k = 8 + value_len (usb_get_le16 bs 6) (drop 8 bs) in
      if length bs < 9 \<or> length bs < k then None
      else map_option ((#) (usb_get_le32 bs 0, usb_get_le16 bs 4, usb_get_le16 bs 6, drop 8 (take k bs)))
        (read_elements n (drop k bs)))"

definition elements_of :: "'b mtp_state \<Rightarrow> u16 list \<Rightarrow> obj \<Rightarrow> element list" where
  "elements_of st pcs x = concat (map (\<lambda>pc. case build_prop st x pc of None \<Rightarrow> [] | Some (dt, v) \<Rightarrow> [(ob_handle x, pc, dt, v)]) pcs)"

text \<open>The elements a request asks for: the chosen properties of the chosen objects.\<close>

definition listed :: "'b mtp_state \<Rightarrow> u32 list \<Rightarrow> element list" where
  "listed st ps = concat (map (elements_of st (if ps ! 2 = 0 \<or> ps ! 2 = MTP_ALL then PROP_LIST else [ucast (ps ! 2)]))
     (filter (\<lambda>x. prop_list_has st (ps ! 0) (ps ! 1) (ps ! 4) x = Some True) (mt_objs st)))"

definition element_bytes :: "element \<Rightarrow> bytes" where
  "element_bytes e = (case e of (h, pc, dt, v) \<Rightarrow> le_bytes 4 h @ le_bytes 2 pc @ le_bytes 2 dt @ v)"

definition well_typed :: "element \<Rightarrow> bool" where
  "well_typed e \<longleftrightarrow> (case e of (h, pc, dt, v) \<Rightarrow> v \<noteq> [] \<and> length v = value_len dt v)"

lemma length_puid_of [simp]: "length (puid_of si p) = 16" "puid_of si p \<noteq> []"
  by (simp_all add: puid_of_def Let_def le_bytes_not_Nil)

lemma build_prop_typed:
  "build_prop st x pc = Some (dt, v) \<Longrightarrow> pc \<in> set PROP_LIST \<and> dt = datatype_of pc \<and> v \<noteq> [] \<and> length v = value_len dt v"
proof -
  assume b: "build_prop st x pc = Some (dt, v)"
  then have "pc \<in> set PROP_LIST" by (auto simp: build_prop_def PROP_LIST_def split: if_splits)
  then consider "pc = OPC_STORAGE_ID" | "pc = OPC_OBJECT_FORMAT" | "pc = OPC_PROTECTION" | "pc = OPC_OBJECT_SIZE" | "pc = OPC_FILENAME"
    | "pc = OPC_DATE_MODIFIED" | "pc = OPC_PARENT" | "pc = OPC_PUID" | "pc = OPC_NAME"
    by (auto simp: PROP_LIST_def)
  then have "dt = datatype_of pc \<and> v \<noteq> [] \<and> length v = value_len dt v"
    by cases (use b in \<open>auto simp: build_prop_def datatype_of_def value_len_def bstr_not_Nil length_bstr le_bytes_not_Nil\<close>)
  with \<open>pc \<in> set PROP_LIST\<close> show ?thesis by simp
qed

lemma elements_well_typed: "list_all well_typed (elements_of st pcs x)"
  using build_prop_typed [OF sym] by (fastforce simp: elements_of_def list_all_iff well_typed_def split: option.splits)

lemma prop_entries_elements: "prop_entries st ps xs = Some es \<Longrightarrow> es = map element_bytes (concat (map (elements_of st (if ps ! 2 = 0 \<or> ps ! 2 = MTP_ALL then PROP_LIST else [ucast (ps ! 2)]))
     (filter (\<lambda>x. prop_list_has st (ps ! 0) (ps ! 1) (ps ! 4) x = Some True) xs)))"
proof (induction xs arbitrary: es)
  case Nil
  then show ?case by simp
next
  case (Cons x xs)
  have e: "prop_entry st x pc = map element_bytes (elements_of st [pc] x)" for pc
    by (simp add: prop_entry_def elements_of_def element_bytes_def split: option.split prod.split)
  have a: "concat (map (prop_entry st x) pcs) = map element_bytes (elements_of st pcs x)" for pcs
    by (induction pcs) (simp_all add: e elements_of_def)
  from Cons show ?case by (auto simp: Let_def a e split: option.splits if_splits)
qed

lemma read_elements_step:
  assumes v: "v \<noteq> []" "length v = value_len dt v"
  shows "read_elements (Suc n) (element_bytes (h, pc, dt, v) @ r) = map_option ((#) (h, pc, dt, v)) (read_elements n r)"
proof -
  let ?bs = "element_bytes (h, pc, dt, v) @ r"
  have g: "usb_get_le32 ?bs 0 = h" "usb_get_le16 ?bs 4 = pc" "usb_get_le16 ?bs 6 = dt"
    by (simp_all add: element_bytes_def wire_defs bytes_at_def)
  have d: "drop 8 ?bs = v @ r" "length ?bs = 8 + length v + length r"
    "take (8 + length v) ?bs = element_bytes (h, pc, dt, v)" "drop (8 + length v) ?bs = r"
    "drop 8 (element_bytes (h, pc, dt, v)) = v" by (simp_all add: element_bytes_def)
  have l: "value_len dt (v @ r) = length v" using v by (simp add: value_len_def)
  have "0 < length v" using v(1) by simp
  then show ?thesis unfolding read_elements.simps Let_def g d l by simp
qed

lemma read_elements_bytes:
  "list_all well_typed es \<Longrightarrow> read_elements (length es) (concat (map element_bytes es)) = Some es"
proof (induction es)
  case Nil
  then show ?case by simp
next
  case (Cons e es)
  obtain h pc dt v where e: "e = (h, pc, dt, v)" by (metis prod_cases4)
  with Cons show ?case by (simp add: well_typed_def read_elements_step del: read_elements.simps(2))
qed

text \<open>C24: A property list that the class sends is read back by a host that knows the datatypes only, element by element to the end:
  the chosen properties of the chosen live objects, each value with the datatype that its property descriptor
  declares and of its length, and only properties the class announces.\<close>

theorem prop_list_is_typed:
  assumes "build_prop_list st ps = Some ds" and "length (listed st ps) < 2 ^ 32"
  shows "read_elements (unat (usb_get_le32 ds 0)) (drop 4 ds) = Some (listed st ps)
    \<and> list_all (\<lambda>(h, pc, dt, v). pc \<in> set PROP_LIST \<and> dt = datatype_of pc) (listed st ps)"
proof -
  from assms(1) obtain es where es: "prop_entries st ps (mt_objs st) = Some es"
    "ds = le_bytes 4 (of_nat (length es) :: u32) @ concat es" by (auto simp: build_prop_list_def)
  have "es = map element_bytes (listed st ps)" unfolding listed_def by (rule prop_entries_elements [OF es(1)])
  with es(2) have ds: "ds = le_bytes 4 (of_nat (length (listed st ps)) :: u32) @ concat (map element_bytes (listed st ps))"
    by simp
  have "usb_get_le32 ds 0 = of_nat (length (listed st ps))" by (simp add: ds wire_defs bytes_at_def)
  then have "unat (usb_get_le32 ds 0) = length (listed st ps)"
    using assms(2) by (simp add: unat_of_nat take_bit_nat_eq_self)
  moreover have "list_all well_typed (listed st ps)"
    using elements_well_typed by (auto simp: listed_def list_all_iff)
  moreover have "list_all (\<lambda>(h, pc, dt, v). pc \<in> set PROP_LIST \<and> dt = datatype_of pc) (elements_of st pcs x)" for pcs x
    using build_prop_typed [OF sym] by (fastforce simp: elements_of_def list_all_iff split: option.splits)
  then have "list_all (\<lambda>(h, pc, dt, v). pc \<in> set PROP_LIST \<and> dt = datatype_of pc) (listed st ps)"
    unfolding listed_def by (simp add: list_all_iff)
  ultimately show ?thesis using read_elements_bytes by (simp add: ds)
qed

theorem prop_list_is_typed_witness:
  "\<exists>ds. build_prop_list (demo_state False) [0xFFFFFFFF, 0, 0xDC04, 0, 0] = Some ds \<and> unat (usb_get_le32 ds 0) = 2
     \<and> read_elements 2 (drop 4 ds) = Some [(1, 0xDC04, 8, [0, 0, 0, 0, 0, 0, 0, 0]), (2, 0xDC04, 8, [3, 0, 0, 0, 0, 0, 0, 0])]"
proof -
  let ?ps = "[0xFFFFFFFF, 0, 0xDC04, 0, 0] :: u32 list"
  have l: "listed (demo_state False) ?ps = [(1, 0xDC04, 8, [0, 0, 0, 0, 0, 0, 0, 0]), (2, 0xDC04, 8, [3, 0, 0, 0, 0, 0, 0, 0])]"
    by code_simp
  have "case build_prop_list (demo_state False) ?ps of Some ds \<Rightarrow> unat (usb_get_le32 ds 0) = 2 | None \<Rightarrow> False"
    by code_simp
  then obtain ds where ds: "build_prop_list (demo_state False) ?ps = Some ds" "unat (usb_get_le32 ds 0) = 2"
    by (auto split: option.splits)
  from prop_list_is_typed [OF ds(1)] ds show ?thesis by (auto simp: l)
qed

end
