(* ===== verification/Mtp_Table.thy ===== *)
theory Mtp_Table
  imports Mtp_Ops
begin

text \<open>
  The object table under the operations of the media transfer class: the steps of the class as a
  relation, what a scan keeps, the numbering of the handles, and the order of the parents by their
  paths, which ends the walks up and down the tree.
\<close>

section \<open>Steps\<close>

text \<open>
  A packet, a control request, or a change that the application makes to its storages between two
  of them.
\<close>

inductive mtp_step :: "'b \<times> 'b mtp_state \<Rightarrow> 'b \<times> 'b mtp_state \<Rightarrow> bool" where
  packet: "mtp_on_out d b st = Ret (b', st', acts) \<Longrightarrow> mtp_step (b, st) (b', st')"
| request: "mtp_control st stp d = Ret (st', rc, r) \<Longrightarrow> mtp_step (b, st) (b, st')"
| changed: "mtp_step (b, st) (b', st)"

inductive_cases mtp_stepE: "mtp_step (b, st) (b', st')"

lemmas mtp_step_cases = mtp_stepE [consumes 1, case_names packet request changed]

text \<open>The function as it is built, over what the storages hold then.\<close>

inductive mtp_built :: "'b mtp_opts \<Rightarrow> 'b \<times> 'b mtp_state \<Rightarrow> bool" for opts where
  built: "rescan b (mtp_fresh opts) = Ret st \<Longrightarrow>
    mtp_built opts (b, st\<lparr>mt_in := i, mt_out := e, mt_intr := v\<rparr>)"

inductive mtp_reach :: "'b mtp_opts \<Rightarrow> 'b \<times> 'b mtp_state \<Rightarrow> bool" for opts where
  start: "mtp_built opts s \<Longrightarrow> mtp_reach opts s"
| step: "mtp_reach opts s \<Longrightarrow> mtp_step s s' \<Longrightarrow> mtp_reach opts s'"

section \<open>What a scan keeps\<close>

text \<open>All but the table.\<close>

definition same_rest :: "'b mtp_state \<Rightarrow> 'b mtp_state \<Rightarrow> bool" where
  "same_rest st st' \<longleftrightarrow> st' = st\<lparr>mt_objs := mt_objs st', mt_next_handle := mt_next_handle st'\<rparr>"

lemma same_rest_refl [simp]: "same_rest st st"
  by (simp add: same_rest_def)

lemma same_rest_trans: "same_rest a b \<Longrightarrow> same_rest b c \<Longrightarrow> same_rest a c"
  by (cases a, cases b, cases c) (simp add: same_rest_def)

lemma same_restD:
  assumes "same_rest st st'"
  shows "mt_bk st' = mt_bk st" "mt_n_stores st' = mt_n_stores st" "mt_read_only st' = mt_read_only st"
    "mt_send_target st' = mt_send_target st" "mt_session st' = mt_session st" "mt_rx_active st' = mt_rx_active st"
    "mt_rx_code st' = mt_rx_code st" "mt_rx_txid st' = mt_rx_txid st" "mt_rx_p st' = mt_rx_p st"
    "mt_in st' = mt_in st" "mt_out st' = mt_out st" "mt_intr st' = mt_intr st"
  using assms by (cases st; cases st'; simp add: same_rest_def)+

lemma same_rest_table: "same_rest st (st\<lparr>mt_objs := xs, mt_next_handle := n\<rparr>)" "same_rest st (st\<lparr>mt_objs := xs\<rparr>)"
  by (simp_all add: same_rest_def)

text \<open>The identity of an entry: its handle, its store and its path.\<close>

definition ident :: "obj \<Rightarrow> u32 \<times> nat \<times> bytes" where
  "ident x = (ob_handle x, ob_si x, ob_path x)"

definition grown :: "'b mtp_state \<Rightarrow> 'b mtp_state \<Rightarrow> bool" where
  "grown st st' \<longleftrightarrow> (\<exists>more. map ident (mt_objs st') = map ident (mt_objs st) @ more)"

lemma grown_refl [simp]: "grown st st"
  by (simp add: grown_def)

lemma grown_trans: "grown a b \<Longrightarrow> grown b c \<Longrightarrow> grown a c"
  by (auto simp: grown_def)

lemma grown_length: "grown st st' \<Longrightarrow> length (mt_objs st) \<le> length (mt_objs st')"
proof -
  assume "grown st st'"
  then obtain more where "map ident (mt_objs st') = map ident (mt_objs st) @ more" by (auto simp: grown_def)
  then have "length (mt_objs st') = length (mt_objs st) + length more" by (metis length_append length_map)
  then show ?thesis by simp
qed

lemma grown_nth: "grown st st' \<Longrightarrow> i < length (mt_objs st) \<Longrightarrow> ident (mt_objs st' ! i) = ident (mt_objs st ! i)"
  unfolding grown_def by (metis length_append length_map nth_append nth_map trans_less_add1)

text \<open>Entry \<open>i\<close> has the handle \<open>i + 1\<close>.\<close>

definition numbered :: "'b mtp_state \<Rightarrow> bool" where
  "numbered st \<longleftrightarrow> map ob_handle (mt_objs st) = map (\<lambda>i. of_nat (Suc i)) [0..<length (mt_objs st)]
     \<and> mt_next_handle st = of_nat (Suc (length (mt_objs st)))"

lemma numbered_nth: "numbered st \<Longrightarrow> i < length (mt_objs st) \<Longrightarrow> ob_handle (mt_objs st ! i) = of_nat (Suc i)"
  unfolding numbered_def by (metis (no_types, lifting) add_0 diff_zero length_map length_upt nth_map nth_upt)

section \<open>One entry of a scan\<close>

text \<open>Entry \<open>i\<close> is the one of the path; the others stay.\<close>

definition upserted :: "nat \<Rightarrow> bytes \<Rightarrow> u32 \<Rightarrow> bool \<Rightarrow> u64 \<Rightarrow> u32 \<Rightarrow> 'b mtp_state \<Rightarrow> 'b mtp_state \<Rightarrow> nat \<Rightarrow> bool" where
  "upserted si full parent is_dir sz h st st' i \<longleftrightarrow>
     i < length (mt_objs st') \<and> length (mt_objs st') = max (length (mt_objs st)) (Suc i)
     \<and> (\<forall>j < length (mt_objs st'). j \<noteq> i \<longrightarrow> j < length (mt_objs st) \<and> mt_objs st' ! j = mt_objs st ! j)
     \<and> ident (mt_objs st' ! i) = (h, si, full) \<and> ob_alive (mt_objs st' ! i)
     \<and> ob_parent (mt_objs st' ! i) = parent \<and> ob_is_dir (mt_objs st' ! i) = is_dir
     \<and> ob_size (mt_objs st' ! i) = (if is_dir then 0 else sz)
     \<and> obj_by_path st' si full = Some i"

lemma find_index_map: "find_index P (map f xs) = find_index (\<lambda>x. P (f x)) xs"
  by (induction xs) auto

lemma obj_by_path_ident: "obj_by_path st si path = find_index (\<lambda>p. snd p = (si, path)) (map ident (mt_objs st))"
  by (simp add: obj_by_path_def find_index_map ident_def)

lemma map_update_same: "i < length xs \<Longrightarrow> f y = f (xs ! i) \<Longrightarrow> map f (xs[i := y]) = map f xs"
  by (metis list_update_id map_update)

text \<open>The entry found or made, before its fields are set.\<close>

lemma obj_upsert_slot:
  assumes u: "obj_upsert si full n parent is_dir sz mtime st = (st', h)" and len: "length full < 4096"
  obtains xs i x where
    "i < length xs" "snd (ident (xs ! i)) = (si, full)" "ident x = ident (xs ! i)" "h = ob_handle x"
    "ob_alive x" "ob_parent x = parent" "ob_is_dir x = is_dir" "ob_size x = (if is_dir then 0 else sz)"
    "mt_objs st' = xs[i := x]" "same_rest st st'" "find_index (\<lambda>p. snd p = (si, full)) (map ident xs) = Some i"
    "xs = mt_objs st \<and> mt_next_handle st' = mt_next_handle st
     \<or> i = length (mt_objs st) \<and> (\<exists>y. xs = mt_objs st @ [y] \<and> ob_handle y = mt_next_handle st)
       \<and> mt_next_handle st' = mt_next_handle st + 1"
proof (cases "obj_by_path st si full")
  case (Some i)
  then have "i < length (mt_objs st)" "snd (ident (mt_objs st ! i)) = (si, full)"
    using find_index_Some [of _ "mt_objs st" i] by (auto simp: obj_by_path_def ident_def)
  moreover define x where "x = (mt_objs st ! i)\<lparr>ob_name := snprintf_s 256 n, ob_parent := parent, ob_is_dir := is_dir,
      ob_size := (if is_dir then 0 else sz), ob_mtime := mtime,
      ob_fmt := (if is_dir then FMT_ASSOCIATION else fmt_of n), ob_alive := True\<rparr>"
  moreover from this u Some have "st' = st\<lparr>mt_objs := (mt_objs st)[i := x]\<rparr>" "h = ob_handle x"
    by (simp_all add: obj_upsert_def Let_def)
  ultimately show thesis
    using Some by (intro that [of i "mt_objs st" x]) (simp_all add: same_rest_table ident_def obj_by_path_ident x_def)
next
  case None
  define y where "y = \<lparr>ob_handle = mt_next_handle st, ob_parent = 0, ob_size = 0, ob_mtime = 0,
      ob_fmt = 0, ob_is_dir = False, ob_alive = False, ob_si = si, ob_storage = STORAGE_ID si,
      ob_path = full, ob_name = []\<rparr>"
  have "find_index (\<lambda>p. snd p = (si, full)) (map ident (mt_objs st @ [y])) = Some (length (mt_objs st))"
    using None by (simp add: obj_by_path_ident find_index_append y_def ident_def)
  moreover define x where "x = y\<lparr>ob_name := snprintf_s 256 n, ob_parent := parent, ob_is_dir := is_dir,
      ob_size := (if is_dir then 0 else sz), ob_mtime := mtime,
      ob_fmt := (if is_dir then FMT_ASSOCIATION else fmt_of n), ob_alive := True\<rparr>"
  moreover have "st' = st\<lparr>mt_next_handle := mt_next_handle st + 1, mt_objs := (mt_objs st @ [y])[length (mt_objs st) := x]\<rparr>"
    "h = ob_handle x"
    using u None len by (auto simp: obj_upsert_def Let_def x_def y_def snprintf_s_def)
  ultimately show thesis
    by (intro that [of "length (mt_objs st)" "mt_objs st @ [y]" x])
      (simp_all add: same_rest_def ident_def y_def x_def)
qed

lemma obj_upsert_spec:
  assumes u: "obj_upsert si full n parent is_dir sz mtime st = (st', h)" and len: "length full < 4096"
  shows "same_rest st st'" "grown st st'" "numbered st \<Longrightarrow> numbered st'"
    "\<exists>i. upserted si full parent is_dir sz h st st' i"
proof -
  obtain xs i x where s: "i < length xs" "snd (ident (xs ! i)) = (si, full)" "ident x = ident (xs ! i)" "h = ob_handle x"
    "ob_alive x" "ob_parent x = parent" "ob_is_dir x = is_dir" "ob_size x = (if is_dir then 0 else sz)"
    "mt_objs st' = xs[i := x]" "same_rest st st'" "find_index (\<lambda>p. snd p = (si, full)) (map ident xs) = Some i"
    and xs: "xs = mt_objs st \<and> mt_next_handle st' = mt_next_handle st
     \<or> i = length (mt_objs st) \<and> (\<exists>y. xs = mt_objs st @ [y] \<and> ob_handle y = mt_next_handle st)
       \<and> mt_next_handle st' = mt_next_handle st + 1"
    by (rule obj_upsert_slot [OF u len])
  have m: "map ident (mt_objs st') = map ident xs" using s by (simp add: map_update_same)
  have "ob_handle x = ob_handle (xs ! i)" using s(3) by (simp add: ident_def)
  then have hd: "map ob_handle (mt_objs st') = map ob_handle xs" using s by (simp add: map_update_same)
  show "same_rest st st'" by fact
  show "grown st st'" using xs m by (auto simp: grown_def)
  show "numbered st'" if "numbered st"
    using xs that unfolding numbered_def hd by (auto simp: s(9))
  have "upserted si full parent is_dir sz h st st' i"
    unfolding upserted_def obj_by_path_ident m s(11)
    using s xs by (auto simp: ident_def nth_append less_Suc_eq)
  then show "\<exists>i. upserted si full parent is_dir sz h st st' i" ..
qed

section \<open>A whole scan\<close>

lemma path_join_bound [simp]: "length (path_join 4096 rel n) < 4096"
  by (auto simp: path_join_def)

lemma path_join_longer: "rel \<noteq> [] \<Longrightarrow> length rel < 4095 \<Longrightarrow> length rel < length (path_join 4096 rel n)"
  by (simp add: path_join_def)

lemma path_join_limit: "length rel = 4095 \<Longrightarrow> path_join 4096 rel n = rel"
  by (auto simp: path_join_def snprintf_s_def)

text \<open>The directory scanned has an entry with the handle given, but for the root.\<close>

definition has_entry :: "'b mtp_state \<Rightarrow> u32 \<Rightarrow> nat \<Rightarrow> bytes \<Rightarrow> bool" where
  "has_entry st h si path \<longleftrightarrow> (h, si, path) \<in> set (map ident (mt_objs st))"

lemma has_entry_grown: "grown st st' \<Longrightarrow> has_entry st h si path \<Longrightarrow> has_entry st' h si path"
  unfolding grown_def has_entry_def by (elim exE) simp

definition scanned_dir :: "'b \<Rightarrow> 'b mtp_state \<Rightarrow> nat \<Rightarrow> bytes \<Rightarrow> u32 \<Rightarrow> bool" where
  "scanned_dir b st si rel parent \<longleftrightarrow> rel = [] \<and> parent = 0 \<or> rel \<noteq> [] \<and> has_entry st parent si rel \<and> length rel < 4096
     \<and> (\<exists>sz t. mb_get_info (mt_bk st) b si rel = Some (True, sz, t))"

lemma scanned_dir_later: "scanned_dir b st si rel parent \<Longrightarrow> grown st st' \<Longrightarrow> same_rest st st' \<Longrightarrow> scanned_dir b st' si rel parent"
  using has_entry_grown [of st st'] same_restD(1) [of st st'] by (auto simp: scanned_dir_def)

text \<open>The induction over a scan that ends: a name that is gone, a file, a directory.\<close>

lemma scan_names_induct [consumes 1, case_names Nil Gone File Dir]:
  assumes "scan_names b si rel parent ns st = Ret st'"
    and "\<And>rel parent st. P rel parent [] st st"
    and "\<And>rel parent n ns st st'. mb_get_info (mt_bk st) b si (path_join 4096 rel n) = None
      \<Longrightarrow> P rel parent ns st st' \<Longrightarrow> P rel parent (n # ns) st st'"
    and "\<And>rel parent n ns st st' full sz mtime st1 h. full = path_join 4096 rel n
      \<Longrightarrow> mb_get_info (mt_bk st) b si full = Some (False, sz, mtime)
      \<Longrightarrow> obj_upsert si full n parent False sz mtime st = (st1, h)
      \<Longrightarrow> P rel parent ns st1 st' \<Longrightarrow> P rel parent (n # ns) st st'"
    and "\<And>rel parent n ns st st' full sz mtime st1 h st2. full = path_join 4096 rel n
      \<Longrightarrow> mb_get_info (mt_bk st) b si full = Some (True, sz, mtime)
      \<Longrightarrow> obj_upsert si full n parent True sz mtime st = (st1, h) \<Longrightarrow> length rel < length full
      \<Longrightarrow> P full h (list_names (mt_bk st1) b si full) st1 st2
      \<Longrightarrow> P rel parent ns st2 st' \<Longrightarrow> P rel parent (n # ns) st st'"
  shows "P rel parent ns st st'"
  using assms
proof (induction b si rel parent ns st arbitrary: st' rule: scan_names.induct)
  case (1 b si rel parent st)
  from "1.prems"(1) have "st' = st" by simp
  with "1.prems"(2) show ?case by simp
next
  case (2 b si rel parent n ns st)
  note skip = "2.prems"(3) and file1 = "2.prems"(4) and dir = "2.prems"(5)
  define full where "full = path_join 4096 rel n"
  show ?case
  proof (cases "mb_get_info (mt_bk st) b si full")
    case None
    then have "scan_names b si rel parent ns st = Ret st'"
      using "2.prems"(1) by (simp only: scan_names.simps(2) Let_def full_def option.case)
    from skip [OF None [unfolded full_def] "2.IH"(1) [OF full_def None this "2.prems"(2-5)]] show ?thesis .
  next
    case (Some info)
    obtain is_dir sz mtime where "info = (is_dir, sz, mtime)" by (cases info)
    with Some have info: "mb_get_info (mt_bk st) b si full = Some (is_dir, sz, mtime)" by simp
    obtain st1 h where u: "obj_upsert si full n parent is_dir sz mtime st = (st1, h)" by fastforce
    have run: "(if \<not> is_dir then scan_names b si rel parent ns st1
        else if length full \<le> length rel then Undefined
        else (case scan_names b si full h (list_names (mt_bk st1) b si full) st1 of
            Ret st \<Rightarrow> scan_names b si rel parent ns st
          | Err e \<Rightarrow> Err e | Undefined \<Rightarrow> Undefined)) = Ret st'"
      using "2.prems"(1) by (simp only: scan_names.simps(2) Let_def full_def [symmetric] info u option.case prod.case)
    note ih = full_def info refl refl u [symmetric] refl
    show ?thesis
    proof (cases is_dir)
      case False
      with run have r: "scan_names b si rel parent ns st1 = Ret st'" by simp
      have "P rel parent ns st1 st'" by (rule "2.IH"(2) [OF ih False r "2.prems"(2-5)])
      with file1 [OF full_def, of st sz mtime parent st1 h] info u False show ?thesis by simp
    next
      case True
      with run obtain st2 where deeper: "\<not> length full \<le> length rel"
        and r2: "scan_names b si full h (list_names (mt_bk st1) b si full) st1 = Ret st2"
        and r3: "scan_names b si rel parent ns st2 = Ret st'"
        by (auto split: if_splits cresult.splits)
      have nn: "\<not> \<not> is_dir" using True by simp
      have p2: "P full h (list_names (mt_bk st1) b si full) st1 st2" by (rule "2.IH"(3) [OF ih nn deeper r2 "2.prems"(2-5)])
      have p3: "P rel parent ns st2 st'" by (rule "2.IH"(4) [OF ih nn deeper r2 r3 "2.prems"(2-5)])
      have "mb_get_info (mt_bk st) b si full = Some (True, sz, mtime)"
        "obj_upsert si full n parent True sz mtime st = (st1, h)" using info u True by simp_all
      then show ?thesis using deeper by (intro dir [OF full_def _ _ _ p2 p3]) simp_all
    qed
  qed
qed

text \<open>
  What every entry set by a scan keeps, the scan keeps: an entry lies below the directory scanned, which
  has an entry with a shorter path.
\<close>

lemma scanned_dir_below:
  assumes d: "scanned_dir b st si rel parent" and f: "full = path_join 4096 rel n"
    and i: "mb_get_info (mt_bk st) b si full = Some (is_dir, sz, mtime)" and l: "is_dir \<Longrightarrow> length rel < length full"
  shows "parent = 0 \<or> has_entry st parent si rel \<and> length rel < length full"
proof (cases "rel = []")
  case True
  with d show ?thesis by (simp add: scanned_dir_def)
next
  case False
  with d have h: "has_entry st parent si rel" "length rel < 4096" "\<exists>sz t. mb_get_info (mt_bk st) b si rel = Some (True, sz, t)"
    by (auto simp: scanned_dir_def)
  have "length rel \<noteq> 4095"
  proof
    assume "length rel = 4095"
    then have "full = rel" using path_join_limit by (simp add: f)
    with h i l show False by auto
  qed
  with False h path_join_longer [of rel n] show ?thesis by (simp add: f)
qed

lemma upserted_has_entry: "upserted si full parent is_dir sz h st st' i \<Longrightarrow> has_entry st' h si full"
  unfolding has_entry_def upserted_def by (metis length_map nth_map nth_mem)

lemma scan_names_rule:
  assumes "scan_names b si rel parent ns st = Ret st'"
    and I: "\<And>st st1 rel n parent is_dir sz mtime h full. I st \<Longrightarrow> full = path_join 4096 rel n
      \<Longrightarrow> mb_get_info (mt_bk st) b si full = Some (is_dir, sz, mtime)
      \<Longrightarrow> parent = 0 \<or> has_entry st parent si rel \<and> length rel < length full
      \<Longrightarrow> obj_upsert si full n parent is_dir sz mtime st = (st1, h) \<Longrightarrow> I st1"
  shows "scanned_dir b st si rel parent \<Longrightarrow> I st \<Longrightarrow> I st' \<and> same_rest st st' \<and> grown st st'"
  using assms(1)
proof (induction rel parent ns st st' rule: scan_names_induct)
  case (Nil rel parent st)
  then show ?case by simp
next
  case (Gone rel parent n ns st st')
  then show ?case by simp
next
  case (File rel parent n ns st st' full sz mtime st1 h)
  note spec = obj_upsert_spec [OF File(3), unfolded File(1), OF path_join_bound, folded File(1)]
  have "I st1" using I [OF File(6,1,2) scanned_dir_below [OF File(5,1,2)] File(3)] by simp
  with File(4) [OF scanned_dir_later [OF File(5) spec(2,1)]] spec show ?case
    using same_rest_trans grown_trans by blast
next
  case (Dir rel parent n ns st st' full sz mtime st1 h st2)
  note spec = obj_upsert_spec [OF Dir(3), unfolded Dir(1), OF path_join_bound, folded Dir(1)]
  have I1: "I st1" using I [OF Dir(8,1,2) scanned_dir_below [OF Dir(7,1,2)] Dir(3)] Dir(4) by simp
  have "has_entry st1 h si full" using spec(4) upserted_has_entry by blast
  then have "scanned_dir b st1 si full h"
    using Dir(1,2,4) same_restD(1) [OF spec(1)] by (auto simp: scanned_dir_def)
  note r2 = Dir(5) [OF this I1]
  have "scanned_dir b st2 si rel parent"
    using scanned_dir_later [OF scanned_dir_later [OF Dir(7) spec(2,1)]] r2 by blast
  with Dir(6) r2 spec show ?case using same_rest_trans grown_trans by blast
qed

text \<open>A rescan starts with all entries dead.\<close>

definition all_dead :: "'b mtp_state \<Rightarrow> 'b mtp_state" where
  "all_dead st = st\<lparr>mt_objs := map (\<lambda>x. x\<lparr>ob_alive := False\<rparr>) (mt_objs st)\<rparr>"

lemma all_dead_ident [simp]: "map ident (mt_objs (all_dead st)) = map ident (mt_objs st)"
  "map ob_handle (mt_objs (all_dead st)) = map ob_handle (mt_objs st)"
  by (simp_all add: all_dead_def ident_def)

lemma all_dead_frame: "same_rest st (all_dead st)" "grown st (all_dead st)" "mt_next_handle (all_dead st) = mt_next_handle st"
  unfolding grown_def all_dead_ident by (simp_all add: all_dead_def same_rest_table)

lemma all_dead_not_alive: "x \<in> set (mt_objs (all_dead st)) \<Longrightarrow> \<not> ob_alive x"
  by (auto simp: all_dead_def)

lemma rescan_rule:
  assumes r: "rescan b st = Ret st'" and I0: "I (all_dead st)"
    and I: "\<And>st st1 si rel n parent is_dir sz mtime h full. I st \<Longrightarrow> si < mt_n_stores st \<Longrightarrow> full = path_join 4096 rel n
      \<Longrightarrow> mb_get_info (mt_bk st) b si full = Some (is_dir, sz, mtime)
      \<Longrightarrow> parent = 0 \<or> has_entry st parent si rel \<and> length rel < length full
      \<Longrightarrow> obj_upsert si full n parent is_dir sz mtime st = (st1, h) \<Longrightarrow> I st1"
  shows "I st' \<and> same_rest st st' \<and> grown st st'"
proof -
  have stores: "I st' \<and> same_rest st0 st' \<and> grown st0 st'"
    if "scan_stores b sis st0 = Ret st'" "I st0" "\<forall>si \<in> set sis. si < mt_n_stores st0" for sis st0
    using that
  proof (induction sis arbitrary: st0)
    case Nil
    then show ?case by simp
  next
    case (Cons si sis)
    define N where "N = mt_n_stores st0"
    from Cons.prems(1) obtain st1 where s: "scan_names b si [] 0 (list_names (mt_bk st0) b si []) st0 = Ret st1"
      "scan_stores b sis st1 = Ret st'" by (auto simp: scan_dir_def bindc_def split: cresult.splits)
    have "(I st1 \<and> mt_n_stores st1 = N) \<and> same_rest st0 st1 \<and> grown st0 st1"
    proof (rule scan_names_rule [OF s(1)])
      show "scanned_dir b st0 si [] 0" by (simp add: scanned_dir_def)
      show "I st0 \<and> mt_n_stores st0 = N" using Cons.prems by (simp add: N_def)
      fix st st1 :: "'a mtp_state" and rel n parent is_dir sz mtime h full
      assume a: "I st \<and> mt_n_stores st = N" "full = path_join 4096 rel n"
        "mb_get_info (mt_bk st) b si full = Some (is_dir, sz, mtime)"
        "parent = 0 \<or> has_entry st parent si rel \<and> length rel < length full"
        and u: "obj_upsert si full n parent is_dir sz mtime st = (st1, h)"
      have "mt_n_stores st1 = mt_n_stores st" using obj_upsert_spec(1) [OF u] a(2) same_restD(2) by auto
      with a show "I st1 \<and> mt_n_stores st1 = N" using I [OF _ _ a(2-4) u] Cons.prems(3) by (simp add: N_def)
    qed
    then have s1: "I st1" "mt_n_stores st1 = mt_n_stores st0" "same_rest st0 st1" "grown st0 st1" by (auto simp: N_def)
    with Cons.IH [OF s(2)] Cons.prems(3) have "I st' \<and> same_rest st1 st' \<and> grown st1 st'" by simp
    with s1 show ?case using same_rest_trans grown_trans by blast
  qed
  have "scan_stores b [0..<mt_n_stores st] (all_dead st) = Ret st'" using r by (simp add: rescan_def all_dead_def)
  from stores [OF this I0] same_restD(2) [OF all_dead_frame(1) [of st]]
  have "I st' \<and> same_rest (all_dead st) st' \<and> grown (all_dead st) st'" by simp
  with all_dead_frame [of st] show ?thesis using same_rest_trans grown_trans by blast
qed

section \<open>The table after a rescan\<close>

text \<open>The parent of a live entry, where it has one, is an entry with a shorter path.\<close>

definition parents_shorter :: "'b mtp_state \<Rightarrow> bool" where
  "parents_shorter st \<longleftrightarrow> (\<forall>x \<in> set (mt_objs st). ob_alive x \<longrightarrow> ob_parent x = 0
     \<or> (\<exists>p. has_entry st (ob_parent x) (ob_si x) p \<and> length p < length (ob_path x)))"

lemma upserted_parents:
  assumes u: "upserted si full parent is_dir sz h st st1 i" and g: "grown st st1" and p: "parents_shorter st"
    and b: "parent = 0 \<or> has_entry st parent si rel \<and> length rel < length full"
  shows "parents_shorter st1"
  unfolding parents_shorter_def
proof (intro ballI impI)
  fix x assume "x \<in> set (mt_objs st1)" "ob_alive x"
  then obtain j where j: "j < length (mt_objs st1)" "x = mt_objs st1 ! j" by (auto simp: in_set_conv_nth)
  show "ob_parent x = 0 \<or> (\<exists>p. has_entry st1 (ob_parent x) (ob_si x) p \<and> length p < length (ob_path x))"
  proof (cases "j = i")
    case True
    with u j have "ob_parent x = parent" "ob_si x = si" "ob_path x = full" by (auto simp: upserted_def ident_def)
    with b has_entry_grown [OF g] show ?thesis by auto
  next
    case False
    with u j have "j < length (mt_objs st)" "x = mt_objs st ! j" by (auto simp: upserted_def)
    then have "x \<in> set (mt_objs st)" by simp
    with p \<open>ob_alive x\<close> has_entry_grown [OF g] show ?thesis unfolding parents_shorter_def by blast
  qed
qed

text \<open>A live entry is the first one of its path.\<close>

definition live_first :: "'b mtp_state \<Rightarrow> bool" where
  "live_first st \<longleftrightarrow> (\<forall>i < length (mt_objs st). ob_alive (mt_objs st ! i)
     \<longrightarrow> obj_by_path st (ob_si (mt_objs st ! i)) (ob_path (mt_objs st ! i)) = Some i)"

lemma obj_by_path_grown: "grown st st' \<Longrightarrow> obj_by_path st si p = Some i \<Longrightarrow> obj_by_path st' si p = Some i"
  by (auto simp: obj_by_path_ident grown_def find_index_append)

lemma upserted_live_first:
  assumes u: "upserted si full parent is_dir sz h st st1 i" and g: "grown st st1" and p: "live_first st"
  shows "live_first st1"
  unfolding live_first_def
proof (intro allI impI)
  fix j assume j: "j < length (mt_objs st1)" "ob_alive (mt_objs st1 ! j)"
  show "obj_by_path st1 (ob_si (mt_objs st1 ! j)) (ob_path (mt_objs st1 ! j)) = Some j"
  proof (cases "j = i")
    case True
    with u show ?thesis by (simp add: upserted_def ident_def)
  next
    case False
    with u j have "j < length (mt_objs st)" "mt_objs st1 ! j = mt_objs st ! j" by (auto simp: upserted_def)
    with p j obj_by_path_grown [OF g] show ?thesis by (simp add: live_first_def)
  qed
qed

lemma rescan_table:
  assumes "rescan b st = Ret st'" "numbered st"
  shows "numbered st'" "parents_shorter st'" "live_first st'" "same_rest st st'" "grown st st'"
proof -
  have "(numbered st' \<and> parents_shorter st' \<and> live_first st') \<and> same_rest st st' \<and> grown st st'"
  proof (rule rescan_rule [OF assms(1)])
    have "length (mt_objs (all_dead st)) = length (mt_objs st)" by (simp add: all_dead_def)
    then have "numbered (all_dead st)" using assms(2) unfolding numbered_def by (simp add: all_dead_frame(3))
    moreover have "parents_shorter (all_dead st)"
      unfolding parents_shorter_def using all_dead_not_alive [of _ st] by blast
    moreover have "live_first (all_dead st)"
      unfolding live_first_def using all_dead_not_alive [of _ st] nth_mem by blast
    ultimately show "numbered (all_dead st) \<and> parents_shorter (all_dead st) \<and> live_first (all_dead st)" by blast
  next
    fix st st1 :: "'a mtp_state" and si rel n parent is_dir sz mtime h full
    assume a: "numbered st \<and> parents_shorter st \<and> live_first st" "full = path_join 4096 rel n"
      "parent = 0 \<or> has_entry st parent si rel \<and> length rel < length full"
      "obj_upsert si full n parent is_dir sz mtime st = (st1, h)"
    note spec = obj_upsert_spec [OF a(4), unfolded a(2), OF path_join_bound, folded a(2)]
    from spec(4) obtain i where u: "upserted si full parent is_dir sz h st st1 i" ..
    show "numbered st1 \<and> parents_shorter st1 \<and> live_first st1"
      using a spec(3) upserted_parents [OF u spec(2) _ a(3)] upserted_live_first [OF u spec(2)] by blast
  qed
  then show "numbered st'" "parents_shorter st'" "live_first st'" "same_rest st st'" "grown st st'" by auto
qed

section \<open>Walks along the parents\<close>

text \<open>With distinct handles, the entry of a parent is a shorter path away.\<close>

definition handles_distinct :: "'b mtp_state \<Rightarrow> bool" where
  "handles_distinct st \<longleftrightarrow> distinct (map ob_handle (mt_objs st))"

lemma numbered_distinct:
  assumes n: "numbered st" and l: "length (mt_objs st) < 2 ^ 32"
  shows "handles_distinct st" "0 \<notin> ob_handle ` set (mt_objs st)"
proof -
  have lt: "i < length (mt_objs st) \<Longrightarrow> unat (of_nat (Suc i) :: u32) = Suc i" for i
    using l by (simp add: unat_of_nat take_bit_nat_eq_self del: of_nat_Suc)
  have "inj_on (\<lambda>i. of_nat (Suc i) :: u32) (set [0..<length (mt_objs st)])"
    by (rule inj_onI) (metis atLeastLessThan_iff set_upt lt nat.inject)
  then have "distinct (map (\<lambda>i. of_nat (Suc i) :: u32) [0..<length (mt_objs st)])"
    unfolding distinct_map by simp
  with n show "handles_distinct st" by (simp add: handles_distinct_def numbered_def)
  show "0 \<notin> ob_handle ` set (mt_objs st)"
  proof
    assume "0 \<in> ob_handle ` set (mt_objs st)"
    then obtain i where "i < length (mt_objs st)" "ob_handle (mt_objs st ! i) = 0" by (auto simp: in_set_conv_nth)
    with numbered_nth [OF n] lt [of i] show False by (metis nat.distinct(1) unat_0)
  qed
qed

lemma distinct_handle: "handles_distinct st \<Longrightarrow> x \<in> set (mt_objs st) \<Longrightarrow> y \<in> set (mt_objs st)
  \<Longrightarrow> ob_handle x = ob_handle y \<Longrightarrow> x = y"
  by (simp add: handles_distinct_def distinct_map inj_on_def)

lemma obj_by_handle_Some: "obj_by_handle st h = Some x \<Longrightarrow> x \<in> set (mt_objs st) \<and> ob_alive x \<and> ob_handle x = h"
  by (auto simp: obj_by_handle_def find_Some_iff)

text \<open>The live parent of a live entry has a shorter path.\<close>

lemma parent_shorter:
  assumes p: "parents_shorter st" and d: "handles_distinct st" and x: "x \<in> set (mt_objs st)" "ob_alive x"
    and y: "y \<in> set (mt_objs st)" "ob_handle y = ob_parent x" "ob_parent x \<noteq> 0"
  shows "length (ob_path y) < length (ob_path x)"
proof -
  obtain q where "has_entry st (ob_parent x) (ob_si x) q" and l: "length q < length (ob_path x)"
    using p x y(3) unfolding parents_shorter_def by blast
  then obtain z where z: "z \<in> set (mt_objs st)" "ob_handle z = ob_parent x" "ob_path z = q"
    by (auto simp: has_entry_def ident_def)
  with distinct_handle [OF d z(1) y(1)] y l show ?thesis by simp
qed

lemma up_to_ends:
  assumes p: "parents_shorter st" and d: "handles_distinct st"
  shows "x \<in> set (mt_objs st) \<Longrightarrow> ob_alive x \<Longrightarrow> up_to st a (Some x) \<noteq> None"
proof (induction "length (ob_path x)" arbitrary: x rule: less_induct)
  case less
  show ?case
  proof (cases "obj_by_handle st (ob_parent x)")
    case None
    then show ?thesis by (simp add: up_to.simps [of st a "Some x"] up_to.simps [of st a None] del: not_None_eq)
  next
    case (Some y)
    with obj_by_handle_Some have y: "y \<in> set (mt_objs st)" "ob_alive y" "ob_handle y = ob_parent x" by auto
    show ?thesis
    proof (cases "ob_parent x = 0 \<or> ob_parent x = a")
      case True
      then show ?thesis by (auto simp: up_to.simps [of st a "Some x"])
    next
      case False
      with less.hyps [OF parent_shorter [OF p d less.prems y(1,3)] y(1,2)] Some
      show ?thesis by (simp add: up_to.simps [of st a "Some x"])
    qed
  qed
qed

lemma is_descendant_ends:
  assumes p: "parents_shorter st" and d: "handles_distinct st"
  shows "is_descendant st h a \<noteq> None"
proof (cases "obj_by_handle st h")
  case None
  then show ?thesis by (simp add: is_descendant_def up_to.simps [of st a None])
next
  case (Some x)
  with obj_by_handle_Some up_to_ends [OF p d] show ?thesis by (metis is_descendant_def)
qed

text \<open>A tree is copied in as many levels as there are entries with a longer path.\<close>

definition longer :: "'b mtp_state \<Rightarrow> obj \<Rightarrow> nat" where
  "longer st x = length (filter (\<lambda>y. length (ob_path x) < length (ob_path y)) (mt_objs st))"

lemma longer_less:
  assumes "y \<in> set (mt_objs st)" "length (ob_path x) < length (ob_path y)"
  shows "longer st y < longer st x"
proof -
  have "filter (\<lambda>z. length (ob_path y) < length (ob_path z)) (mt_objs st)
      = filter (\<lambda>z. length (ob_path y) < length (ob_path z)) (filter (\<lambda>z. length (ob_path x) < length (ob_path z)) (mt_objs st))"
    using assms(2) by (auto simp: filter_filter intro: filter_cong)
  also have "length \<dots> < length (filter (\<lambda>z. length (ob_path x) < length (ob_path z)) (mt_objs st))"
    using assms by (intro length_filter_less [of y]) auto
  finally show ?thesis by (simp add: longer_def)
qed

lemma copy_tree_enough:
  assumes p: "parents_shorter st" and d: "handles_distinct st" "0 \<notin> ob_handle ` set (mt_objs st)"
  shows "x \<in> set (mt_objs st) \<Longrightarrow> longer st x < n \<Longrightarrow> longer st x < m
    \<Longrightarrow> copy_tree n st dsi dest name x b = copy_tree m st dsi dest name x b"
proof (induction n arbitrary: m dest name x b)
  case 0
  then show ?case by simp
next
  case (Suc n)
  then obtain k where k: "m = Suc k" by (cases m) auto
  let ?cs = "filter (\<lambda>c. ob_alive c \<and> ob_parent c = ob_handle x) (mt_objs st)"
  have "copy_tree n st dsi neu (ob_name c) c b = copy_tree k st dsi neu (ob_name c) c b"
    if c: "c \<in> set ?cs" for neu c b
  proof -
    have "ob_parent c \<noteq> 0" using c d(2) Suc.prems(1) by auto
    then have "length (ob_path x) < length (ob_path c)"
      using c Suc.prems(1) by (intro parent_shorter [OF p d(1)]) auto
    with c Suc.prems k show ?thesis using longer_less [of c st x] by (intro Suc.IH) auto
  qed
  then have "fold (\<lambda>c r. bindc r (copy_tree n st dsi neu (ob_name c) c)) ?cs r
      = fold (\<lambda>c r. bindc r (copy_tree k st dsi neu (ob_name c) c)) ?cs r" for neu r
    by (intro fold_cong) (auto simp: bindc_def split: cresult.splits)
  then show ?case by (simp add: k Let_def)
qed

end
