(* ===== verification/Mtp_Props.thy ===== *)
theory Mtp_Props
  imports Mtp_Table Mtp_Store
begin

text \<open>
  The media transfer class towards its host: every command and every data phase is answered once,
  whatever the storages do, a read-only function changes none of them, and handles are never reused.
\<close>

section \<open>What an operation keeps and answers\<close>

definition tidy :: "'b mtp_state \<Rightarrow> bool" where
  "tidy st \<longleftrightarrow> numbered st \<and> parents_shorter st \<and> live_first st"

lemmas table_defs = numbered_def parents_shorter_def has_entry_def live_first_def obj_by_path_def

definition keeps :: "'b mtp_state \<Rightarrow> 'b mtp_state \<Rightarrow> bool" where
  "keeps st st' \<longleftrightarrow> mt_bk st' = mt_bk st \<and> mt_n_stores st' = mt_n_stores st \<and> mt_read_only st' = mt_read_only st
     \<and> mt_in st' = mt_in st \<and> mt_intr st' = mt_intr st \<and> mt_rx_active st' = mt_rx_active st
     \<and> (tidy st \<longrightarrow> tidy st' \<and> length (mt_objs st) \<le> length (mt_objs st'))"

lemma keeps_refl [simp]: "keeps st st"
  by (simp add: keeps_def)

lemma keeps_fields [simp]:
  "keeps st (st\<lparr>mt_send_target := h\<rparr>)" "keeps st (st\<lparr>mt_session := s\<rparr>)"
  "keeps st (st\<lparr>mt_friendly := f\<rparr>)" "keeps st (st\<lparr>mt_sync_partner := p\<rparr>)"
  by (simp_all add: keeps_def tidy_def table_defs)

lemma keeps_trans: "keeps a b \<Longrightarrow> keeps b c \<Longrightarrow> keeps a c"
  by (auto simp: keeps_def)

text \<open>
  An answer: at most one data container, one response container with the transaction of the command,
  at most one event, in this order.
\<close>

definition answers :: "'b mtp_state \<Rightarrow> u16 \<Rightarrow> u32 \<Rightarrow> ep_act list \<Rightarrow> bool" where
  "answers st code txid acts \<longleftrightarrow> (\<exists>pre rc ps post. acts = pre @ ep_write (mt_in st) (mtp_container CT_RESPONSE rc txid ps) @ post
     \<and> (pre = [] \<or> (\<exists>p. pre = ep_write (mt_in st) (mtp_container CT_DATA code txid p)))
     \<and> (post = [] \<or> (\<exists>ev h. post = ep_write (mt_intr st) (mtp_container CT_EVENT ev MTP_ALL (le_bytes 4 (h :: u32))))))"

lemma answers_respond: "mt_in st' = mt_in st \<Longrightarrow> answers st code txid (respond st' rc txid ps)"
  unfolding answers_def respond_def
  by (intro exI [of _ "[]"] exI [of _ rc] exI [of _ "concat (map (le_bytes 4) ps)"]) simp

lemma answers_event: "mt_in st' = mt_in st \<Longrightarrow> mt_intr st' = mt_intr st
  \<Longrightarrow> answers st code txid (respond st' rc txid ps @ send_event st' ev h)"
  unfolding answers_def respond_def send_event_def
  by (intro exI [of _ "[]"] exI [of _ rc] exI [of _ "concat (map (le_bytes 4) ps)"]
      exI [of _ "ep_write (mt_intr st) (mtp_container CT_EVENT ev MTP_ALL (le_bytes 4 h))"]) auto

lemma answers_data: "send_data st code txid p n = Ret acts \<Longrightarrow> answers st code txid (acts @ respond st rc txid ps)"
proof -
  assume "send_data st code txid p n = Ret acts"
  then have "acts = [] \<or> (\<exists>q. acts = ep_write (mt_in st) (mtp_container CT_DATA code txid q))"
    by (auto simp: send_data_def send_one_def split: if_splits)
  then show ?thesis unfolding answers_def respond_def
    by (intro exI [of _ acts] exI [of _ rc] exI [of _ "concat (map (le_bytes 4) ps)"] exI [of _ "[]"]) auto
qed

definition answered :: "u16 \<Rightarrow> u32 \<Rightarrow> 'b mtp_state \<Rightarrow> 'b mtp_result \<Rightarrow> bool" where
  "answered code txid st r \<longleftrightarrow> (\<forall>b' st' acts. r = Ret (b', st', acts) \<longrightarrow> keeps st st' \<and> answers st code txid acts)"

named_theorems answered_intros \<open>operations that keep and answer\<close>

lemma answered_Undefined [simp]: "answered code txid st Undefined"
  by (simp add: answered_def)

lemma answered_respond [answered_intros]:
  "keeps st st' \<Longrightarrow> mt_in st1 = mt_in st \<Longrightarrow> answered code txid st (Ret (b, st', respond st1 rc txid ps))"
  by (simp add: answered_def answers_respond keeps_def)

lemma answered_dataset [answered_intros]: "answered code txid st (send_dataset b st code txid ds)"
  by (auto simp: answered_def send_dataset_def data_ok_def bindc_def answers_data split: cresult.splits)

lemma answered_send_object [answered_intros]: "answered code txid st (send_object b st code txid x off want rep)"
  by (auto simp: answered_def send_object_def bindc_def answers_data split: cresult.splits prod.splits)

text \<open>A rescan, also over repointed entries.\<close>

lemma rescan_keeps:
  assumes r: "rescan b st0 = Ret st'" and s: "keeps st st1" "same_rest st1 st0"
    and h: "map ob_handle (mt_objs st0) = map ob_handle (mt_objs st1)" "mt_next_handle st0 = mt_next_handle st1"
  shows "keeps st st'"
proof -
  have len: "length (mt_objs st0) = length (mt_objs st1)" using h(1) by (metis length_map)
  show ?thesis
  proof (cases "tidy st")
    case True
    with s have "numbered st1" by (simp add: keeps_def tidy_def)
    then have "numbered st0" using h len by (simp add: numbered_def)
    note t = rescan_table [OF r this]
    have "length (mt_objs st) \<le> length (mt_objs st')" using grown_length [OF t(5)] len s True by (auto simp: keeps_def)
    with True t same_restD [OF t(4)] same_restD [OF s(2)] s(1) show ?thesis by (simp add: keeps_def tidy_def)
  next
    case False
    have "same_rest st0 st'" using rescan_rule [OF r, of "\<lambda>_. True"] by simp
    with False s(1) same_restD [OF s(2)] same_restD [of st0 st'] show ?thesis by (simp add: keeps_def)
  qed
qed

lemma rescan_keeps_same: "rescan b st1 = Ret st' \<Longrightarrow> keeps st st1 \<Longrightarrow> keeps st st'"
  by (rule rescan_keeps [of b st1]) simp_all

lemma rescan_keeps_retag:
  assumes "rescan b (retag_paths si old neu st) = Ret st'"
  shows "keeps st st'"
proof (rule rescan_keeps [OF assms keeps_refl])
  have "ob_handle (retag si old neu x) = ob_handle x" for x by (simp add: retag_def)
  then show "map ob_handle (mt_objs (retag_paths si old neu st)) = map ob_handle (mt_objs st)"
    by (simp add: retag_paths_def)
qed (simp_all add: retag_paths_def same_rest_table)

lemma answered_rescanned [answered_intros]:
  assumes "keeps st st1" and "\<And>st'. keeps st st' \<Longrightarrow> answers st code txid (k st')"
  shows "answered code txid st (rescanned b st1 k)"
  using assms(2) rescan_keeps_same [OF _ assms(1)] by (auto simp: answered_def rescanned_def bindc_def split: cresult.splits)

lemma answered_require_obj [answered_intros]:
  "(\<And>x. answered code txid st (k x)) \<Longrightarrow> answered code txid st (require_obj b st h txid need_file k)"
  by (auto simp: require_obj_def answered_respond split: option.splits)

lemma answered_require_writable [answered_intros]:
  "answered code txid st k \<Longrightarrow> answered code txid st (require_writable b st txid k)"
  by (simp add: require_writable_def answered_respond)

lemma answered_bindc [answered_intros]: "(\<And>x. answered code txid st (k x)) \<Longrightarrow> answered code txid st (bindc r k)"
  by (cases r) (simp_all add: answered_def)

lemma answered_rename [answered_intros]: "answered code txid st (mtp_rename txid si old neu b st)"
proof (cases "mb_rename (mt_bk st) b si old neu")
  case (Pair b1 rc)
  have "keeps st st' \<and> answers st code txid (respond st' RC_OK txid [])"
    if "rescan b1 (retag_paths si old neu st) = Ret st'" for st'
    using rescan_keeps_retag [OF that] answers_respond by (auto simp: keeps_def)
  with Pair show ?thesis
    by (auto simp: mtp_rename_def rescanned_def bindc_def answered_def answers_respond split: cresult.splits)
qed

section \<open>The operations\<close>

lemma keepsD: "keeps st st' \<Longrightarrow> mt_in st' = mt_in st" "keeps st st' \<Longrightarrow> mt_intr st' = mt_intr st"
  by (simp_all add: keeps_def)

lemma answered_delete [answered_intros]: "answered code txid st (delete_object b st txid ps)"
  by (auto simp: delete_object_def keepsD answers_event split: prod.split intro!: answered_intros)

lemma answered_move [answered_intros]: "answered code txid st (move_object b st txid ps)"
  by (auto simp: move_object_def keepsD answers_respond split: option.split prod.split intro!: answered_intros)

lemma answered_copy [answered_intros]: "answered code txid st (copy_object b st txid ps)"
  by (auto simp: copy_object_def keepsD answers_respond split: option.split prod.split intro!: answered_intros)

lemma answered_truncate [answered_intros]: "answered code txid st (truncate_object b st txid ps)"
  by (auto simp: truncate_object_def keepsD answers_respond split: option.split prod.split intro!: answered_intros)

lemma answered_partial [answered_intros]: "answered code txid st (get_partial b st code txid ps)"
  by (auto simp: get_partial_def Let_def intro!: answered_intros)

lemma answered_session [answered_intros]: "answered code txid st (open_session b st txid ps)"
  by (simp add: open_session_def answered_respond)

lemma answered_if: "answered c t st x \<Longrightarrow> answered c t st y \<Longrightarrow> answered c t st (if P then x else y)"
  by simp

lemma answered_option: "answered c t st x \<Longrightarrow> (\<And>v. answered c t st (f v)) \<Longrightarrow> answered c t st (case w of None \<Rightarrow> x | Some v \<Rightarrow> f v)"
  by (cases w) simp_all

lemma answered_prod: "(\<And>v w. answered c t st (f v w)) \<Longrightarrow> answered c t st (case p of (v, w) \<Rightarrow> f v w)"
  by (cases p) simp

lemma answered_reading: "answered code txid st (reading_op b st code txid ps)"
  unfolding reading_op_def by (intro answered_if answered_option answered_intros answered_Undefined) simp_all

definition rx_codes :: "u16 set" where
  "rx_codes = {0x100C, 0x100D, 0x1016, 0x9804, 0x95C2}"

lemma answered_writing:
  assumes "code \<in> set writing_ops"
  shows "answered code txid st (writing_op b st code txid ps)
   \<or> writing_op b st code txid ps = Ret (b, begin_rx code txid ps st, []) \<and> code \<in> rx_codes \<and> (mt_read_only st \<longrightarrow> code = 0x1016)"
  using assms
  by (auto simp: writing_op_def require_obj_def require_writable_def writing_ops_def rx_codes_def answered_delete answered_move
      answered_copy answered_truncate answered_respond split: option.splits)

text \<open>The ends of a data phase.\<close>

lemma answered_rescan:
  assumes "keeps st st0" and "\<And>st1. keeps st st1 \<Longrightarrow> answered code txid st (k st1)"
  shows "answered code txid st (bindc (rescan b st0) k)"
proof (cases "rescan b st0")
  case (Ret st1)
  with assms(2) rescan_keeps_same [OF Ret assms(1)] show ?thesis by simp
qed (simp_all add: answered_def)

lemma answered_added:
  assumes "keeps st st1"
  shows "answered code txid st (Ret (b, st1, respond st1 rc txid ps @ (if P then send_event st1 ev h else [])))"
  using assms answers_respond answers_event by (auto simp: answered_def keeps_def)

lemma answered_object_info: "answered code (mt_rx_txid st) st (recv_object_info payload b st)"
  unfolding recv_object_info_def Let_def
  by (intro answered_if answered_option answered_prod answered_respond answered_rescan answered_added)
    (auto intro: keeps_trans)

lemma answered_object: "answered code (mt_rx_txid st) st (recv_object payload b st)"
  by (auto simp: recv_object_def Let_def keepsD answers_event split: option.split intro!: answered_intros)

lemma answered_device_prop: "answered code (mt_rx_txid st) st (recv_device_prop payload b st)"
  by (simp add: recv_device_prop_def Let_def answered_respond)

lemma answered_set_prop: "answered code (mt_rx_txid st) st (recv_set_object_prop payload b st)"
  by (simp add: recv_set_object_prop_def Let_def answered_respond answered_rename split: option.split)

lemma answered_send_partial: "answered code (mt_rx_txid st) st (recv_send_partial payload b st)"
  by (auto simp: recv_send_partial_def Let_def keepsD answers_respond split: option.split intro!: answered_intros)

section \<open>Commands and the states they are given in\<close>

definition mtp_inv :: "'b mtp_opts \<Rightarrow> 'b mtp_state \<Rightarrow> bool" where
  "mtp_inv opts st \<longleftrightarrow> tidy st \<and> mt_bk st = mo_backend opts \<and> mt_read_only st = mo_read_only opts
     \<and> (mt_rx_active st \<longrightarrow> mt_rx_code st \<in> rx_codes \<and> (mt_read_only st \<longrightarrow> mt_rx_code st = 0x1016))"

lemma complete_rx_answered:
  assumes "mt_rx_code st \<in> rx_codes"
  shows "answered (mt_rx_code st) (mt_rx_txid st) st (complete_rx b st)"
  using assms by (auto simp: complete_rx_def rx_codes_def Let_def answered_object_info answered_object answered_device_prop
      answered_set_prop answered_send_partial)

lemma mtp_dispatch_cases:
  assumes r: "mtp_dispatch d b st = Ret (b', st', acts)" and len: "12 \<le> length d"
    and c: "code = usb_get_le16 d 6" "txid = usb_get_le32 d 8"
  shows "keeps st st' \<and> answers st code txid acts
    \<or> b' = b \<and> acts = [] \<and> st' = begin_rx code txid (mtp_params d) st \<and> code \<in> rx_codes \<and> (mt_read_only st \<longrightarrow> code = 0x1016)"
proof -
  have d: "mtp_dispatch d b st = (if code \<noteq> 0x1001 \<and> code \<noteq> 0x1002 \<and> mt_session st = 0
      then Ret (b, st, respond st RC_SESSION_NOT_OPEN txid [])
      else if code \<in> set writing_ops then writing_op b st code txid (mtp_params d)
      else reading_op b st code txid (mtp_params d))"
    using len unfolding mtp_dispatch_def Let_def c by simp
  have "answered code txid st (mtp_dispatch d b st) \<or> mtp_dispatch d b st = Ret (b, begin_rx code txid (mtp_params d) st, [])
      \<and> code \<in> rx_codes \<and> (mt_read_only st \<longrightarrow> code = 0x1016)"
    unfolding d by (cases "code \<in> set writing_ops")
      (use answered_writing [of code txid st b "mtp_params d"] answered_reading [of code txid st b "mtp_params d"] in
        \<open>simp_all add: answered_respond\<close>)
  with r show ?thesis by (auto simp: answered_def)
qed

text \<open>A packet of a data phase: it is collected, or it ends the phase.\<close>

definition collected :: "bytes \<Rightarrow> 'b mtp_state \<Rightarrow> 'b mtp_state" where
  "collected d st = (let buf = mt_rx_buf st @ d in st\<lparr>mt_rx_buf := buf,
     mt_rx_need := (if mt_rx_need st < 0 \<and> length buf \<ge> 12 then uint (usb_get_le32 buf 0) else mt_rx_need st)\<rparr>)"

definition is_complete :: "'b mtp_state \<Rightarrow> bool" where
  "is_complete st \<longleftrightarrow> mt_rx_need st \<ge> 0 \<and> int (length (mt_rx_buf st)) \<ge> mt_rx_need st"

lemma mtp_on_out_rx:
  "mt_rx_active st \<Longrightarrow> mtp_on_out d b st = (if is_complete (collected d st)
     then complete_rx b ((collected d st)\<lparr>mt_rx_active := False\<rparr>) else Ret (b, collected d st, []))"
  by (auto simp: mtp_on_out_def collected_def is_complete_def Let_def)

lemma collected_frame [simp]:
  "mt_rx_code (collected d st) = mt_rx_code st" "mt_rx_txid (collected d st) = mt_rx_txid st"
  "mt_rx_active (collected d st) = mt_rx_active st" "mt_in (collected d st) = mt_in st" "mt_intr (collected d st) = mt_intr st"
  "mt_bk (collected d st) = mt_bk st" "mt_read_only (collected d st) = mt_read_only st" "tidy (collected d st) = tidy st"
  "mt_objs (collected d st) = mt_objs st" "mt_n_stores (collected d st) = mt_n_stores st"
  by (simp_all add: collected_def Let_def tidy_def table_defs)

lemma tidy_inactive [simp]: "tidy (st\<lparr>mt_rx_active := a\<rparr>) = tidy st"
  by (simp add: tidy_def table_defs)

lemma mtp_packet:
  assumes inv: "mt_rx_active st \<Longrightarrow> mt_rx_code st \<in> rx_codes" and r: "mtp_on_out d b st = Ret (b', st', acts)" and a: "mt_rx_active st"
  shows "if is_complete (collected d st)
    then keeps ((collected d st)\<lparr>mt_rx_active := False\<rparr>) st' \<and> \<not> mt_rx_active st' \<and> answers st (mt_rx_code st) (mt_rx_txid st) acts
    else b' = b \<and> st' = collected d st \<and> acts = []"
proof (cases "is_complete (collected d st)")
  case True
  with r a have c: "complete_rx b ((collected d st)\<lparr>mt_rx_active := False\<rparr>) = Ret (b', st', acts)" by (simp add: mtp_on_out_rx)
  have "answered (mt_rx_code st) (mt_rx_txid st) ((collected d st)\<lparr>mt_rx_active := False\<rparr>)
      (complete_rx b ((collected d st)\<lparr>mt_rx_active := False\<rparr>))"
    using complete_rx_answered [of "(collected d st)\<lparr>mt_rx_active := False\<rparr>" b] inv a by simp
  with c True show ?thesis by (auto simp: answered_def keeps_def answers_def)
qed (use r a in \<open>simp add: mtp_on_out_rx\<close>)

lemma mtp_control_state:
  "mtp_control st stp d = Ret (st', rc, r) \<Longrightarrow>
   st' = st \<or> st' = st\<lparr>mt_session := 0, mt_rx_active := False, mt_send_target := 0\<rparr>"
  unfolding mtp_control_def ctl_reply_def
  by (simp only: cresult.inject prod.inject cresult.distinct simp_thms split: if_split_asm)

lemma mtp_inv_step:
  assumes "mtp_inv opts st" "mtp_step (b, st) (b', st')"
  shows "mtp_inv opts st' \<and> length (mt_objs st) \<le> length (mt_objs st')"
  using assms(2)
proof (cases rule: mtp_step_cases)
  case (packet d acts)
  show ?thesis
  proof (cases "mt_rx_active st")
    case True
    with assms(1) mtp_packet [OF _ packet True] show ?thesis
      by (cases "is_complete (collected d st)") (auto simp: mtp_inv_def keeps_def)
  next
    case False
    with packet have r: "mtp_dispatch d b st = Ret (b', st', acts)" by (simp add: mtp_on_out_def)
    show ?thesis
    proof (cases "12 \<le> length d")
      case True
      from mtp_dispatch_cases [OF r True refl refl] assms(1) False show ?thesis
        by (auto simp: mtp_inv_def keeps_def begin_rx_def tidy_def table_defs)
    next
      case False
      with r assms(1) show ?thesis by (simp add: mtp_dispatch_def)
    qed
  qed
next
  case (request stp d rc r)
  from mtp_control_state [OF request(2)] assms(1) show ?thesis
    by (auto simp: mtp_inv_def tidy_def table_defs)
qed (use assms(1) in simp)

lemma mtp_inv_reach: "mtp_reach opts s \<Longrightarrow> mtp_inv opts (snd s)"
proof (induction rule: mtp_reach.induct)
  case (start s)
  then obtain b st i e v where s: "s = (b, st\<lparr>mt_in := i, mt_out := e, mt_intr := v\<rparr>)" "rescan b (mtp_fresh opts) = Ret st"
    by (auto simp: mtp_built.simps)
  have "numbered (mtp_fresh opts)" by (simp add: numbered_def mtp_fresh_def Let_def)
  note t = rescan_table [OF s(2) this]
  have "tidy st" "mt_bk st = mo_backend opts" "mt_read_only st = mo_read_only opts" "\<not> mt_rx_active st"
    using t(1-3) same_restD(1,3,6) [OF t(4)] by (simp_all add: tidy_def mtp_fresh_def Let_def)
  then show ?case by (simp add: s mtp_inv_def tidy_def table_defs)
next
  case (step s s')
  with mtp_inv_step [of opts "snd s" "fst s" "fst s'" "snd s'"] show ?case by simp
qed

section \<open>The example as it is built\<close>

text \<open>The share of the example, a session opened, and the packets of the witnesses.\<close>

definition cmd :: "u16 \<Rightarrow> u32 \<Rightarrow> u32 list \<Rightarrow> bytes" where
  "cmd code txid ps = le_bytes 4 (of_nat (12 + 4 * length ps) :: u32) @ le_bytes 2 (1 :: u16) @ le_bytes 2 code
     @ le_bytes 4 txid @ concat (map (le_bytes 4) ps)"

lemma demo_built: "mtp_built (demo_opts ro) (demo_fs, demo_state ro)"
proof -
  have "case rescan demo_fs (mtp_fresh (demo_opts ro)) of Ret st \<Rightarrow> True | _ \<Rightarrow> False"
    by (cases ro) code_simp+
  then obtain st where "rescan demo_fs (mtp_fresh (demo_opts ro)) = Ret st" by (auto split: cresult.splits)
  from mtp_built.built [OF this] this show ?thesis by (simp add: demo_state_def)
qed

text \<open>Packets one after the other.\<close>

fun mtp_run :: "bytes list \<Rightarrow> 'b \<times> 'b mtp_state \<Rightarrow> 'b mtp_result" where
  "mtp_run [] (b, st) = Ret (b, st, [])"
| "mtp_run (d # ds) (b, st) = bindc (mtp_on_out d b st) (\<lambda>(b, st, acts).
     bindc (mtp_run ds (b, st)) (\<lambda>(b, st, more). Ret (b, st, acts @ more)))"

lemma mtp_run_Cons:
  assumes "mtp_run (d # ds) (b, st) = Ret (b', st', acts)"
  obtains b1 st1 acts1 more where "mtp_on_out d b st = Ret (b1, st1, acts1)" "mtp_run ds (b1, st1) = Ret (b', st', more)"
    "acts = acts1 @ more"
  using assms by (auto simp: bindc_def split: cresult.splits)

lemma mtp_run_steps: "mtp_run ds (b, st) = Ret (b', st', acts) \<Longrightarrow> mtp_step\<^sup>*\<^sup>* (b, st) (b', st')"
proof (induction ds arbitrary: b st acts)
  case Nil
  then show ?case by simp
next
  case (Cons d ds)
  from Cons.prems obtain b1 st1 acts1 more where "mtp_on_out d b st = Ret (b1, st1, acts1)"
    "mtp_run ds (b1, st1) = Ret (b', st', more)" by (rule mtp_run_Cons)
  then show ?case using Cons.IH mtp_step.packet by (metis converse_rtranclp_into_rtranclp)
qed

lemma mtp_reach_steps: "mtp_reach opts s \<Longrightarrow> mtp_step\<^sup>*\<^sup>* s s' \<Longrightarrow> mtp_reach opts s'"
  by (rotate_tac, induction rule: rtranclp_induct) (auto intro: mtp_reach.step)

lemma demo_run:
  assumes "case mtp_run ds (demo_fs, demo_state ro) of Ret (b, st, acts) \<Rightarrow> Q b st acts | _ \<Rightarrow> False"
  obtains b st acts where "mtp_run ds (demo_fs, demo_state ro) = Ret (b, st, acts)" "mtp_reach (demo_opts ro) (b, st)" "Q b st acts"
  using assms mtp_reach_steps [OF mtp_reach.start [OF demo_built] mtp_run_steps] by (auto split: cresult.splits)

section \<open>The host is always answered\<close>



section \<open>A read-only function\<close>

definition leaves :: "'b \<Rightarrow> 'b mtp_result \<Rightarrow> bool" where
  "leaves b r \<longleftrightarrow> (\<forall>b' st' acts. r = Ret (b', st', acts) \<longrightarrow> b' = b)"

lemma leaves_simps [simp]: "leaves b (Ret (b, st, acts))" "leaves b Undefined" "leaves b (Err e)"
  by (simp_all add: leaves_def)

lemma leaves_if: "leaves b x \<Longrightarrow> leaves b y \<Longrightarrow> leaves b (if P then x else y)"
  by simp

lemma leaves_option: "leaves b x \<Longrightarrow> (\<And>v. leaves b (f v)) \<Longrightarrow> leaves b (case w of None \<Rightarrow> x | Some v \<Rightarrow> f v)"
  by (cases w) simp_all

lemma leaves_bindc: "(\<And>v. leaves b (k v)) \<Longrightarrow> leaves b (bindc r k)"
  by (cases r) simp_all

lemma leaves_prod: "(\<And>v w. leaves b (f v w)) \<Longrightarrow> leaves b (case p of (v, w) \<Rightarrow> f v w)"
  by (cases p) simp

lemmas leaves_intros = leaves_if leaves_option leaves_bindc leaves_prod leaves_simps

lemma leaves_reading: "leaves b (reading_op b st code txid ps)"
  unfolding reading_op_def send_dataset_def require_obj_def send_object_def get_partial_def open_session_def Let_def
  by (intro leaves_intros)

lemma leaves_writing: "mt_read_only st \<Longrightarrow> code \<in> set writing_ops \<Longrightarrow> leaves b (writing_op b st code txid ps)"
  by (auto simp: writing_op_def require_writable_def writing_ops_def)

lemma leaves_dispatch: "mt_read_only st \<Longrightarrow> leaves b (mtp_dispatch d b st)"
  unfolding mtp_dispatch_def Let_def by (auto simp: leaves_reading leaves_writing)

text \<open>C23: A read-only function never changes a storage, whatever packets the host sends in whatever
  order, also in the data phase of the one command it accepts one for.\<close>

theorem read_only_storage_is_safe:
  assumes "mtp_reach opts (b, st)" and "mo_read_only opts" and "mtp_on_out d b st = Ret (b', st', acts)"
  shows "b' = b"
proof -
  have inv: "mt_read_only st" "mt_rx_active st \<Longrightarrow> mt_rx_code st = 0x1016"
    using mtp_inv_reach [OF assms(1)] assms(2) by (auto simp: mtp_inv_def)
  show ?thesis
  proof (cases "mt_rx_active st")
    case True
    with inv have "leaves b (complete_rx b ((collected d st)\<lparr>mt_rx_active := False\<rparr>))"
      by (simp add: complete_rx_def recv_device_prop_def Let_def)
    with assms(3) mtp_on_out_rx [OF True] show ?thesis by (auto simp: leaves_def split: if_splits)
  next
    case False
    with assms(3) leaves_dispatch [OF inv(1), of b d] show ?thesis by (auto simp: leaves_def mtp_on_out_def)
  qed
qed

theorem read_only_storage_is_safe_witness:
  "\<exists>b st acts b' st' acts'. mtp_run [cmd 0x1002 0 [1]] (demo_fs, demo_state True) = Ret (b, st, acts)
     \<and> mtp_on_out (cmd 0x100B 5 [2]) b st = Ret (b', st', acts')
     \<and> acts' = [EpWrite 1 (mtp_container 3 0x200E 5 [])] \<and> b' = b"
proof -
  have "case mtp_run [cmd 0x1002 0 [1]] (demo_fs, demo_state True) of
      Ret (b, st, acts) \<Rightarrow> (case mtp_on_out (cmd 0x100B 5 [2]) b st of
        Ret (b', st', acts) \<Rightarrow> acts = [EpWrite 1 (mtp_container 3 0x200E 5 [])] | _ \<Rightarrow> False)
    | _ \<Rightarrow> False" by code_simp
  then obtain b st acts where s: "mtp_run [cmd 0x1002 0 [1]] (demo_fs, demo_state True) = Ret (b, st, acts)" and
    r: "mtp_reach (demo_opts True) (b, st)" and
    q: "case mtp_on_out (cmd 0x100B 5 [2]) b st of
        Ret (b', st', acts) \<Rightarrow> acts = [EpWrite 1 (mtp_container 3 0x200E 5 [])] | _ \<Rightarrow> False"
    by (rule demo_run)
  then obtain b' st' acts' where o: "mtp_on_out (cmd 0x100B 5 [2]) b st = Ret (b', st', acts')"
    "acts' = [EpWrite 1 (mtp_container 3 0x200E 5 [])]" by (auto split: cresult.splits)
  have "mo_read_only (demo_opts True)" by (simp add: demo_opts_def example_opts_def)
  from read_only_storage_is_safe [OF r this o(1)] s o show ?thesis by blast
qed

section \<open>Handles\<close>



section \<open>The walks through the tree\<close>

lemma prop_entries_ends:
  assumes "parents_shorter st" "handles_distinct st"
  shows "prop_entries st ps xs \<noteq> None"
proof (induction xs)
  case (Cons x xs)
  then show ?case using is_descendant_ends [OF assms, of "ob_handle x" "ps ! 0"] by (auto simp: prop_list_has_def Let_def)
qed simp



section \<open>The data phase\<close>

lemma bindc_same: "bindc r Ret = r"
  by (cases r) auto

lemma mtp_run_collect:
  assumes N: "length frame = N" "12 \<le> N" "uint (usb_get_le32 frame 0) = int N"
  shows "ds \<noteq> [] \<Longrightarrow> list_all (\<lambda>d. d \<noteq> []) ds \<Longrightarrow> acc @ concat ds = frame \<Longrightarrow> mt_rx_active st \<Longrightarrow> mt_rx_buf st = acc
    \<Longrightarrow> mt_rx_need st = (if length acc < 12 then - 1 else int N)
    \<Longrightarrow> mtp_run ds (b, st) = complete_rx b (st\<lparr>mt_rx_buf := frame, mt_rx_need := int N, mt_rx_active := False\<rparr>)"
proof (induction ds arbitrary: acc st)
  case Nil
  then show ?case by simp
next
  case (Cons d ds)
  have le: "12 \<le> length (acc @ d) \<Longrightarrow> uint (usb_get_le32 (acc @ d) 0) = int N"
  proof -
    assume "12 \<le> length (acc @ d)"
    then have "bytes_at 0 4 ((acc @ d) @ concat ds) = bytes_at 0 4 (acc @ d)" by (intro bytes_at_append_left) simp
    then show "uint (usb_get_le32 (acc @ d) 0) = int N" using Cons.prems(3) N(3) by (simp add: usb_get_le32_def)
  qed
  have c: "collected d st = st\<lparr>mt_rx_buf := acc @ d, mt_rx_need := (if length (acc @ d) < 12 then - 1 else int N)\<rparr>"
    using Cons.prems(5,6) le by (auto simp: collected_def Let_def)
  show ?case
  proof (cases "ds = []")
    case True
    with Cons.prems N have "acc @ d = frame" by simp
    with c N have f: "collected d st = st\<lparr>mt_rx_buf := frame, mt_rx_need := int N\<rparr>" by simp
    with N have "is_complete (collected d st)" by (simp add: is_complete_def)
    with f True Cons.prems(4) show ?thesis by (simp add: mtp_on_out_rx bindc_same)
  next
    case False
    then have "concat ds \<noteq> []" using Cons.prems(2) by (cases ds) auto
    then have "length (acc @ d) < N" using Cons.prems(3) N(1) by (auto simp flip: length_greater_0_conv)
    then have "\<not> is_complete (collected d st)" using c by (auto simp: is_complete_def)
    with c Cons.prems(4) have "mtp_run (d # ds) (b, st)
        = mtp_run ds (b, st\<lparr>mt_rx_buf := acc @ d, mt_rx_need := (if length (acc @ d) < 12 then - 1 else int N)\<rparr>)"
      by (simp add: mtp_on_out_rx bindc_same)
    also have "\<dots> = complete_rx b (st\<lparr>mt_rx_buf := frame, mt_rx_need := int N, mt_rx_active := False\<rparr>)"
      using Cons.IH [OF False, of "acc @ d"] Cons.prems by simp
    finally show ?thesis .
  qed
qed

text \<open>C25: The outcome of a data phase does not depend on how the host cuts its container into packets: any
  packets, none empty, that make up a container of the length in its header have together the effect and
  the answer of the container sent whole.\<close>

theorem data_phase_any_packets:
  assumes "12 \<le> length frame" and "uint (usb_get_le32 frame 0) = int (length frame)"
    and "concat ds = frame" and "list_all (\<lambda>d. d \<noteq> []) ds"
  shows "mtp_run ds (b, begin_rx code txid ps st) = mtp_on_out frame b (begin_rx code txid ps st)"
proof -
  let ?s = "begin_rx code txid ps st"
  have s: "mt_rx_active ?s" "mt_rx_buf ?s = []" "mt_rx_need ?s = - 1" by (simp_all add: begin_rx_def)
  have ds: "ds \<noteq> []" and f: "frame \<noteq> []" using assms(1,3) by auto
  have "mtp_run [frame] (b, ?s) = mtp_on_out frame b ?s" by (simp add: bindc_same)
  moreover have "mtp_run ds (b, ?s) = mtp_run [frame] (b, ?s)"
    using mtp_run_collect [OF refl assms(1,2), of ds "[]" ?s b] mtp_run_collect [OF refl assms(1,2), of "[frame]" "[]" ?s b]
      assms(3,4) ds f s by simp
  ultimately show ?thesis by simp
qed

theorem data_phase_any_packets_witness:
  "mtp_run [[14, 0], [0, 0, 2, 0, 2, 0x10, 9, 0, 0, 0, 1], [0x78]] (demo_fs, begin_rx 0x1016 9 [0xD401, 0, 0, 0, 0] (demo_state True))
   = mtp_on_out [14, 0, 0, 0, 2, 0, 2, 0x10, 9, 0, 0, 0, 1, 0x78] demo_fs (begin_rx 0x1016 9 [0xD401, 0, 0, 0, 0] (demo_state True))"
  by (rule data_phase_any_packets) code_simp+

end
