(* ===== verification/Mtp_Transfer.thy ===== *)
theory Mtp_Transfer
  imports Mtp_Props
begin

text \<open>
  What a rescan finds, the contract of a storage backend, its fulfilment by the example's, and the
  transfer of a file to the device and back.
\<close>

section \<open>What a rescan finds\<close>

text \<open>The paths below a directory that the backend shows.\<close>

inductive visible :: "'b mtp_backend \<Rightarrow> 'b \<Rightarrow> nat \<Rightarrow> bytes \<Rightarrow> bytes \<Rightarrow> bool" for bk b si where
  here: "n \<in> set (list_names bk b si rel) \<Longrightarrow> mb_get_info bk b si (path_join 4096 rel n) \<noteq> None
    \<Longrightarrow> visible bk b si rel (path_join 4096 rel n)"
| below: "n \<in> set (list_names bk b si rel) \<Longrightarrow> mb_get_info bk b si (path_join 4096 rel n) = Some (True, sz, t)
    \<Longrightarrow> visible bk b si (path_join 4096 rel n) p \<Longrightarrow> visible bk b si rel p"

inductive_cases visibleE: "visible bk b si rel p"

lemmas visible_cases = visibleE [consumes 1, case_names here below]

definition live :: "'b mtp_state \<Rightarrow> nat \<Rightarrow> bytes \<Rightarrow> bool" where
  "live st si p \<longleftrightarrow> (\<exists>x \<in> set (mt_objs st). ob_alive x \<and> ob_si x = si \<and> ob_path x = p)"

lemma upserted_live:
  assumes u: "upserted si full parent is_dir sz h st st1 i" and g: "grown st st1"
  shows "live st1 si full" "live st sj p \<Longrightarrow> live st1 sj p"
proof -
  have i: "i < length (mt_objs st1)" "ob_alive (mt_objs st1 ! i)" "ob_si (mt_objs st1 ! i) = si" "ob_path (mt_objs st1 ! i) = full"
    using u by (simp_all add: upserted_def ident_def)
  then show "live st1 si full" unfolding live_def using nth_mem by blast
  show "live st1 sj p" if l: "live st sj p"
  proof -
    obtain j where j: "j < length (mt_objs st)" "ob_alive (mt_objs st ! j)" "ob_si (mt_objs st ! j) = sj" "ob_path (mt_objs st ! j) = p"
      using l unfolding live_def by (metis in_set_conv_nth)
    have id: "ident (mt_objs st1 ! j) = ident (mt_objs st ! j)" by (rule grown_nth [OF g j(1)])
    have jl: "j < length (mt_objs st1)" using grown_length [OF g] j(1) by simp
    have "ob_alive (mt_objs st1 ! j)" using u i j jl by (cases "j = i") (auto simp: upserted_def)
    with id j jl show ?thesis unfolding live_def ident_def using nth_mem by fastforce
  qed
qed

lemma scan_finds:
  assumes "scan_names b si rel parent ns st = Ret st'"
  shows "mt_bk st' = mt_bk st \<and> (\<forall>sj p. live st sj p \<longrightarrow> live st' sj p)
    \<and> (\<forall>n \<in> set ns. mb_get_info (mt_bk st) b si (path_join 4096 rel n) \<noteq> None \<longrightarrow> live st' si (path_join 4096 rel n))
    \<and> (\<forall>n \<in> set ns. \<forall>sz t p. mb_get_info (mt_bk st) b si (path_join 4096 rel n) = Some (True, sz, t)
         \<longrightarrow> visible (mt_bk st) b si (path_join 4096 rel n) p \<longrightarrow> live st' si p)"
  using assms
proof (induction rel parent ns st st' rule: scan_names_induct)
  case (Nil rel parent st)
  then show ?case by simp
next
  case (Gone rel parent n ns st st')
  then show ?case by simp
next
  case (File rel parent n ns st st' full sz mtime st1 h)
  note spec = obj_upsert_spec [OF File(3), unfolded File(1), OF path_join_bound, folded File(1)]
  obtain i where u: "upserted si full parent False sz h st st1 i" using spec(4) ..
  note l = upserted_live [OF u spec(2)] and bk = same_restD(1) [OF spec(1)]
  from File l bk show ?case by auto
next
  case (Dir rel parent n ns st st' full sz mtime st1 h st2)
  note spec = obj_upsert_spec [OF Dir(3), unfolded Dir(1), OF path_join_bound, folded Dir(1)]
  obtain i where u: "upserted si full parent True sz h st st1 i" using spec(4) ..
  note l = upserted_live [OF u spec(2)] and bk = same_restD(1) [OF spec(1)]
  have sub: "live st2 si p" if "visible (mt_bk st) b si full p" for p
    using that
  proof (cases rule: visible_cases)
    case (here m)
    with Dir(5) bk show ?thesis by auto
  next
    case (below m sz' t')
    with Dir(5) bk show ?thesis by auto
  qed
  from Dir(5,6) sub l bk Dir(1) show ?case by auto
qed

lemma rescan_finds:
  assumes r: "rescan b st = Ret st'" and si: "si < mt_n_stores st" and v: "visible (mt_bk st) b si [] p"
  shows "live st' si p"
proof -
  have stores: "mt_bk st' = mt_bk st0 \<and> (\<forall>sj p. live st0 sj p \<longrightarrow> live st' sj p)
      \<and> (\<forall>si \<in> set sis. \<forall>p. visible (mt_bk st0) b si [] p \<longrightarrow> live st' si p)"
    if "scan_stores b sis st0 = Ret st'" for sis st0
    using that
  proof (induction sis arbitrary: st0)
    case Nil
    then show ?case by simp
  next
    case (Cons sj sis)
    from Cons.prems obtain st1 where s: "scan_names b sj [] 0 (list_names (mt_bk st0) b sj []) st0 = Ret st1"
      "scan_stores b sis st1 = Ret st'" by (auto simp: scan_dir_def bindc_def split: cresult.splits)
    note f = scan_finds [OF s(1)]
    have "live st1 sj p" if "visible (mt_bk st0) b sj [] p" for p
      using that by (cases rule: visible_cases) (use f in auto)
    with Cons.IH [OF s(2)] f show ?case by auto
  qed
  have "scan_stores b [0..<mt_n_stores st] (all_dead st) = Ret st'" using r by (simp add: rescan_def all_dead_def)
  from stores [OF this] si v show ?thesis by (simp add: same_restD(1) [OF all_dead_frame(1)])
qed

text \<open>A live entry has the attributes the backend gives.\<close>

definition attributes_of :: "'b mtp_backend \<Rightarrow> 'b \<Rightarrow> obj \<Rightarrow> bool" where
  "attributes_of bk b x \<longleftrightarrow> (\<exists>sz t. mb_get_info bk b (ob_si x) (ob_path x) = Some (ob_is_dir x, sz, t)
     \<and> ob_size x = (if ob_is_dir x then 0 else sz))"

lemma rescan_attributes:
  assumes "rescan b st = Ret st'" and "x \<in> set (mt_objs st')" and "ob_alive x"
  shows "attributes_of (mt_bk st) b x"
proof -
  define I :: "'a mtp_state \<Rightarrow> bool" where "I = (\<lambda>s. mt_bk s = mt_bk st \<and> (\<forall>x \<in> set (mt_objs s). ob_alive x \<longrightarrow> attributes_of (mt_bk st) b x))"
  have "I st' \<and> same_rest st st' \<and> grown st st'"
  proof (rule rescan_rule [OF assms(1)])
    show "I (all_dead st)" using all_dead_not_alive [of _ st] same_restD(1) [OF all_dead_frame(1)] unfolding I_def by blast
  next
    fix s s1 :: "'a mtp_state" and si rel n parent is_dir sz mtime h full
    assume a: "I s" "full = path_join 4096 rel n" "mb_get_info (mt_bk s) b si full = Some (is_dir, sz, mtime)"
      "obj_upsert si full n parent is_dir sz mtime s = (s1, h)"
    note spec = obj_upsert_spec [OF a(4), unfolded a(2), OF path_join_bound, folded a(2)]
    from spec(4) obtain i where u: "upserted si full parent is_dir sz h s s1 i" ..
    have "attributes_of (mt_bk st) b x" if x: "x \<in> set (mt_objs s1)" "ob_alive x" for x
    proof -
      obtain j where j: "j < length (mt_objs s1)" "x = mt_objs s1 ! j" using x(1) by (auto simp: in_set_conv_nth)
      show ?thesis
      proof (cases "j = i")
        case True
        with u a(1,3) j show ?thesis by (simp add: I_def attributes_of_def upserted_def ident_def)
      next
        case False
        with u j have "x \<in> set (mt_objs s)" by (auto simp: upserted_def)
        with a(1) x(2) show ?thesis by (simp add: I_def)
      qed
    qed
    with a(1) same_restD(1) [OF spec(1)] show "I s1" by (simp add: I_def)
  qed
  with assms(2,3) show ?thesis by (simp add: I_def)
qed

section \<open>What a storage backend promises\<close>

text \<open>
  \<open>ok\<close> is what the backend keeps of its state, \<open>content\<close> the bytes of a file. Names are not empty and directories
  not deeper than the buffers of the class; a file has the size of its content and is read in one piece;
  writing a file that is there changes its content and nothing else that a scan sees.
\<close>

locale mtp_files =
  fixes bk :: "'b mtp_backend" and ok :: "'b \<Rightarrow> bool" and content :: "'b \<Rightarrow> nat \<Rightarrow> bytes \<Rightarrow> bytes option"
  assumes names: "ok b \<Longrightarrow> [] \<notin> set (mb_listdir bk b si p)"
    and dirs: "ok b \<Longrightarrow> mb_get_info bk b si p = Some (True, sz, t) \<Longrightarrow> length p < 4095"
    and info: "ok b \<Longrightarrow> content b si p = Some d \<Longrightarrow> \<exists>t. mb_get_info bk b si p = Some (False, of_nat (length d), t)"
    and read: "ok b \<Longrightarrow> content b si p = Some d \<Longrightarrow> 0 \<le> want
      \<Longrightarrow> mb_read bk b si p 0 want = (int (length (take (nat want) d)), take (nat want) d)"
    and write_ok: "ok b \<Longrightarrow> ok (mb_write bk b si p d)"
    and write_content: "ok b \<Longrightarrow> content b si p \<noteq> None \<Longrightarrow> content (mb_write bk b si p d) si p = Some d"
    and write_listdir: "ok b \<Longrightarrow> content b si p \<noteq> None \<Longrightarrow> mb_listdir bk (mb_write bk b si p d) sj q = mb_listdir bk b sj q"
    and write_kind: "ok b \<Longrightarrow> content b si p \<noteq> None
      \<Longrightarrow> map_option fst (mb_get_info bk (mb_write bk b si p d) sj q) = map_option fst (mb_get_info bk b sj q)"
begin

lemma list_names_not_Nil: "ok b \<Longrightarrow> [] \<notin> set (list_names bk b si p)"
  using names [of b si p] by (auto simp: list_names_def snprintf_s_def)

text \<open>A scan never enters a directory again: it ends.\<close>

lemma deeper:
  assumes "ok b" "n \<noteq> []" "mb_get_info bk b si (path_join 4096 rel n) = Some (True, sz, t)"
  shows "length rel < length (path_join 4096 rel n)"
  using dirs [OF assms(1,3)] assms(2) by (auto simp: path_join_def split: if_splits)

lemma scan_returns:
  assumes "ok b" "mt_bk st = bk" "[] \<notin> set ns"
  shows "\<exists>st'. scan_names b si rel parent ns st = Ret st' \<and> mt_bk st' = bk"
  using assms
proof (induction b si rel parent ns st rule: scan_names.induct)
  case (1 b si rel parent st)
  then show ?case by simp
next
  case (2 b si rel parent n ns st)
  define full where "full = path_join 4096 rel n"
  have n: "n \<noteq> []" "[] \<notin> set ns" using "2.prems"(3) by auto
  show ?case
  proof (cases "mb_get_info (mt_bk st) b si full")
    case None
    from "2.IH"(1) [OF full_def None "2.prems"(1,2) n(2)] None show ?thesis
      by (simp only: scan_names.simps(2) Let_def full_def option.case)
  next
    case (Some info)
    obtain is_dir sz mtime where "info = (is_dir, sz, mtime)" by (cases info)
    with Some have info: "mb_get_info (mt_bk st) b si full = Some (is_dir, sz, mtime)" by simp
    obtain st1 h where u: "obj_upsert si full n parent is_dir sz mtime st = (st1, h)" by fastforce
    note run = scan_names.simps(2) Let_def full_def [symmetric] info u option.case prod.case
    note ih = full_def info refl refl u [symmetric] refl
    have "length full < 4096" by (simp add: full_def)
    then have bk1: "mt_bk st1 = bk" using same_restD(1) [OF obj_upsert_spec(1) [OF u]] "2.prems"(2) by simp
    show ?thesis
    proof (cases is_dir)
      case False
      then have nd: "\<not> is_dir" .
      from "2.IH"(2) [OF ih nd "2.prems"(1) bk1 n(2)] show ?thesis unfolding run by (simp only: False if_True simp_thms)
    next
      case True
      then have nn: "\<not> \<not> is_dir" by simp
      have d: "\<not> length full \<le> length rel"
        using deeper [OF "2.prems"(1) n(1), of si rel sz mtime] info True "2.prems"(2) by (simp add: full_def)
      have "[] \<notin> set (list_names (mt_bk st1) b si full)" using list_names_not_Nil [OF "2.prems"(1)] bk1 by simp
      from "2.IH"(3) [OF ih nn d "2.prems"(1) bk1 this] obtain st2 where
        s2: "scan_names b si full h (list_names (mt_bk st1) b si full) st1 = Ret st2" "mt_bk st2 = bk" by blast
      from "2.IH"(4) [OF ih nn d s2(1) "2.prems"(1) s2(2) n(2)] show ?thesis
        unfolding run by (simp only: True d s2 cresult.case simp_thms if_False)
    qed
  qed
qed

lemma rescan_returns:
  assumes "ok b" "mt_bk st = bk"
  shows "\<exists>st'. rescan b st = Ret st'"
proof -
  have "\<exists>st'. scan_stores b sis st0 = Ret st'" if "mt_bk st0 = bk" for sis st0
    using that
  proof (induction sis arbitrary: st0)
    case (Cons si sis)
    obtain st1 where "scan_names b si [] 0 (list_names bk b si []) st0 = Ret st1" "mt_bk st1 = bk"
      using scan_returns [OF assms(1) Cons.prems list_names_not_Nil [OF assms(1)]] by blast
    with Cons show ?case by (simp add: scan_dir_def)
  qed simp
  then show ?thesis using assms(2) by (simp add: rescan_def)
qed

lemma visible_write:
  assumes w: "ok b" "content b si p \<noteq> None" and v: "visible bk b sj rel q"
  shows "visible bk (mb_write bk b si p d) sj rel q"
proof -
  have ln: "list_names bk (mb_write bk b si p d) sj r = list_names bk b sj r" for r
    unfolding list_names_def write_listdir [OF w] ..
  from v show ?thesis
  proof (induction rule: visible.induct)
    case (here n rel)
    have "mb_get_info bk (mb_write bk b si p d) sj (path_join 4096 rel n) \<noteq> None"
      using write_kind [OF w, of d sj "path_join 4096 rel n"] here(2) by (metis map_option_is_None)
    with here(1) show ?case unfolding ln [symmetric] by (rule visible.here)
  next
    case (below n rel sz t q)
    have "map_option fst (mb_get_info bk (mb_write bk b si p d) sj (path_join 4096 rel n)) = Some True"
      using write_kind [OF w, of d sj "path_join 4096 rel n"] below(2) by simp
    then obtain sz' t' where "mb_get_info bk (mb_write bk b si p d) sj (path_join 4096 rel n) = Some (True, sz', t')"
      by (cases "mb_get_info bk (mb_write bk b si p d) sj (path_join 4096 rel n)") auto
    from below(1) [folded ln] this below.IH show ?case by (rule visible.below)
  qed
qed

text \<open>A file that is still there is written, and its entry has the new size under the old handle.\<close>

lemma recv_object_writes:
  assumes w: "ok b" "mt_bk st = bk" "tidy st" and h: "obj_by_handle st h = Some x" "mt_send_target st = h"
    and si: "ob_si x < mt_n_stores st" and c: "content b (ob_si x) (ob_path x) \<noteq> None"
    and v: "visible bk b (ob_si x) [] (ob_path x)"
  obtains st' where
    "recv_object d b st = Ret (mb_write bk b (ob_si x) (ob_path x) d, st',
       respond st RC_OK (mt_rx_txid st) [] @ send_event st EV_OBJECT_ADDED h)"
    "keeps st st'" "same_rest (st\<lparr>mt_send_target := 0\<rparr>) st'"
    "length (mt_objs st') < 2 ^ 32 \<longrightarrow> (\<exists>y. obj_by_handle st' h = Some y \<and> ob_si y = ob_si x \<and> ob_path y = ob_path x
      \<and> \<not> ob_is_dir y \<and> ob_size y = of_nat (length d))"
proof -
  define b' where "b' = mb_write bk b (ob_si x) (ob_path x) d"
  define st0 where "st0 = st\<lparr>mt_send_target := 0\<rparr>"
  have ok': "ok b'" and c': "content b' (ob_si x) (ob_path x) = Some d"
    using write_ok [OF w(1)] write_content [OF w(1) c] by (simp_all add: b'_def)
  obtain st' where r: "rescan b' st0 = Ret st'" using rescan_returns [OF ok', of st0] w(2) by (auto simp: st0_def)
  have keep: "keeps st st'" using rescan_keeps_same [OF r] by (simp add: st0_def)
  have n0: "numbered st0" using w(3) by (simp add: tidy_def st0_def numbered_def)
  note tab = rescan_table [OF r n0]
  obtain i where i: "i < length (mt_objs st)" "mt_objs st ! i = x"
    using obj_by_handle_Some [OF h(1)] by (auto simp: in_set_conv_nth)
  have gi: "obj_by_path st (ob_si x) (ob_path x) = Some i"
    using w(3) i obj_by_handle_Some [OF h(1)] by (auto simp: tidy_def live_first_def)
  have "grown st st'" using tab(5) by (simp add: st0_def grown_def)
  from obj_by_path_grown [OF this gi] have gi': "obj_by_path st' (ob_si x) (ob_path x) = Some i" .
  have "live st' (ob_si x) (ob_path x)"
    using rescan_finds [OF r] si visible_write [OF w(1) c v] w(2) by (simp add: st0_def b'_def)
  then obtain k where k: "k < length (mt_objs st')" "ob_alive (mt_objs st' ! k)" "ob_si (mt_objs st' ! k) = ob_si x"
    "ob_path (mt_objs st' ! k) = ob_path x" unfolding live_def by (metis in_set_conv_nth)
  with tab(3) gi' have "k = i" by (auto simp: live_first_def)
  let ?y = "mt_objs st' ! i"
  have hy: "ob_handle ?y = h"
    using numbered_nth [OF tab(1)] numbered_nth [of st i] k(1) \<open>k = i\<close> w(3) i obj_by_handle_Some [OF h(1)]
    by (simp add: tidy_def)
  have "attributes_of bk b' ?y" using rescan_attributes [OF r nth_mem [OF k(1)] k(2)] \<open>k = i\<close> w(2) by (simp add: st0_def)
  with k \<open>k = i\<close> info [OF ok' c'] have y: "\<not> ob_is_dir ?y" "ob_size ?y = of_nat (length d)"
    by (auto simp: attributes_of_def)
  have "obj_by_handle st' h = Some ?y" if l: "length (mt_objs st') < 2 ^ 32"
  proof -
    have "find (\<lambda>x. ob_alive x \<and> ob_handle x = h) (mt_objs st') \<noteq> None"
      using k \<open>k = i\<close> hy nth_mem [OF k(1)] by (auto simp: find_None_iff)
    then obtain z where z: "obj_by_handle st' h = Some z" by (auto simp: obj_by_handle_def)
    have "z = ?y"
      using distinct_handle [OF numbered_distinct(1) [OF tab(1) l], of z ?y] obj_by_handle_Some [OF z] hy k(1) \<open>k = i\<close> by simp
    with z show ?thesis by simp
  qed
  with y k \<open>k = i\<close> have y': "\<exists>y. obj_by_handle st' h = Some y \<and> ob_si y = ob_si x \<and> ob_path y = ob_path x
      \<and> \<not> ob_is_dir y \<and> ob_size y = of_nat (length d)" if "length (mt_objs st') < 2 ^ 32" using that by auto
  have "recv_object d b st = Ret (b', st', respond st RC_OK (mt_rx_txid st) [] @ send_event st EV_OBJECT_ADDED h)"
  proof -
    have "obj_by_handle st0 h = Some x" using h(1) by (simp add: st0_def obj_by_handle_def)
    then show ?thesis
      using h(2) w(2) r keepsD [OF keep] same_restD(1) [OF tab(4)]
      by (simp add: recv_object_def Let_def rescanned_def respond_def send_event_def b'_def flip: st0_def) (simp add: st0_def)
  qed
  from that [OF this [unfolded b'_def] keep] y' tab(4) show thesis by (simp add: st0_def)
qed

lemma get_object_sends:
  assumes "ok b" "mt_bk st = bk" "obj_by_handle st h = Some y" "\<not> ob_is_dir y" "ob_size y = of_nat (length d)"
    and c: "content b (ob_si y) (ob_path y) = Some d" and l: "length d + 12 < 2 ^ 31" and ps: "ps ! 0 = h"
  shows "reading_op b st 0x1009 txid ps
    = Ret (b, st, ep_write (mt_in st) (mtp_container CT_DATA 0x1009 txid d) @ respond st RC_OK txid [])"
proof -
  have s: "sint (of_nat (length d) :: u64) = int (length d)"
    using l sint_sbintrunc' [of "int (length d)", where 'a = 64] by (simp add: signed_take_bit_int_eq_self)
  have t: "signed_take_bit 31 (int (length d)) = int (length d)" using l by (simp add: signed_take_bit_int_eq_self)
  have "read_object b st y 0 (- 1) = Ret (d, int (length d))"
    using assms(2,5) read [OF assms(1) c, of "int (length d)"] l by (simp add: read_object_def Let_def s t)
  then show ?thesis
    using assms l by (simp add: reading_op_def require_obj_def send_object_def send_data_def send_one_def)
qed

end

section \<open>The storage of the example\<close>

definition fs_ok :: "fs \<Rightarrow> bool" where
  "fs_ok f \<longleftrightarrow> list_all (\<lambda>(p, m). p \<noteq> [] \<and> [] \<notin> set p) (fs_nodes f)"

definition store_content :: "bytes list \<Rightarrow> fs \<Rightarrow> nat \<Rightarrow> bytes \<Rightarrow> bytes option" where
  "store_content roots f si path =
     (case Option.bind (resolve f (real_path (roots ! si) path)) (node_at f) of Some (Regular t d) \<Rightarrow> Some d | _ \<Rightarrow> None)"

lemma store_contentE:
  assumes "store_content roots f si path = Some d"
  obtains p t where "resolve f (real_path (roots ! si) path) = Some p" "node_at f p = Some (Regular t d)" "p \<noteq> []"
    "map_of (fs_nodes f) p = Some (Regular t d)"
  using assms by (auto simp: store_content_def node_at_def split: option.splits node.splits if_splits bind_splits)

lemma walk_names: "walk f cur cs = Some p \<Longrightarrow> [] \<notin> set cur \<Longrightarrow> [] \<notin> set p"
  by (induction f cur cs rule: walk.induct) (auto split: if_splits dest: in_set_butlastD)

lemma entries_keys: "entries f p = map last (filter (\<lambda>q. q \<noteq> [] \<and> butlast q = p) (map fst (fs_nodes f)))"
  by (simp add: entries_def filter_map comp_def case_prod_unfold)

text \<open>Overwriting a file.\<close>

lemma overwrite:
  fixes u d
  assumes "map_of (fs_nodes f) p = Some (Regular t d0)"
  defines "f' \<equiv> put_node p (Regular u d) f"
  shows "map fst (fs_nodes f') = map fst (fs_nodes f)"
    "map_of (fs_nodes f') q = (if q = p then Some (Regular u d) else map_of (fs_nodes f) q)"
proof -
  have f': "fs_nodes f' = map (\<lambda>(q, m). (q, if q = p then Regular u d else m)) (fs_nodes f)"
    using assms(1) by (simp add: f'_def put_node_def)
  show "map fst (fs_nodes f') = map fst (fs_nodes f)" by (simp add: f' case_prod_unfold)
  have "map_of (map (\<lambda>(q, m). (q, if q = p then Regular u d else m)) xs) q
      = (case map_of xs q of None \<Rightarrow> None | Some m \<Rightarrow> Some (if q = p then Regular u d else m))" for xs
    by (induction xs) auto
  then show "map_of (fs_nodes f') q = (if q = p then Some (Regular u d) else map_of (fs_nodes f) q)"
    using assms(1) by (auto simp: f' split: option.split)
qed

lemma overwrite_walk:
  assumes "map_of (fs_nodes f) p = Some (Regular t d0)" "p \<noteq> []"
  shows "walk (put_node p (Regular u d) f) cur cs = walk f cur cs"
    "is_directory (node_at (put_node p (Regular u d) f) q) = is_directory (node_at f q)"
    "(node_at (put_node p (Regular u d) f) q = None) = (node_at f q = None)"
proof -
  show k: "is_directory (node_at (put_node p (Regular u d) f) q) = is_directory (node_at f q)" for q
    using assms by (simp add: node_at_def overwrite(2) [OF assms(1)])
  show "walk (put_node p (Regular u d) f) cur cs = walk f cur cs"
    by (induction cs arbitrary: cur) (simp_all add: k)
  show "(node_at (put_node p (Regular u d) f) q = None) = (node_at f q = None)"
    using assms by (simp add: node_at_def overwrite(2) [OF assms(1)])
qed

lemma store_write_overwrites:
  assumes "store_content roots f si path = Some d0"
  obtains p t where "resolve f (real_path (roots ! si) path) = Some p" "map_of (fs_nodes f) p = Some (Regular t d0)" "p \<noteq> []"
    "store_write roots f si path d = put_node p (Regular (fs_now f) d) f"
proof -
  obtain p t where p: "resolve f (real_path (roots ! si) path) = Some p" "node_at f p = Some (Regular t d0)" "p \<noteq> []"
    "map_of (fs_nodes f) p = Some (Regular t d0)" using assms by (rule store_contentE)
  then show thesis using that by (simp add: store_write_def)
qed

lemma overwrite_resolve:
  "map_of (fs_nodes f) p = Some (Regular t d0) \<Longrightarrow> p \<noteq> [] \<Longrightarrow> resolve (put_node p (Regular u d) f) path = resolve f path"
  by (simp add: resolve_def overwrite_walk)

lemma put_node_ok: "fs_ok f \<Longrightarrow> p \<noteq> [] \<Longrightarrow> [] \<notin> set p \<Longrightarrow> fs_ok (put_node p nd f)"
  by (auto simp: fs_ok_def put_node_def list_all_iff)

interpretation share: mtp_files "store_backend roots usage tm" fs_ok "store_content roots"
proof unfold_locales
  fix f :: fs and si p sz t d and want :: int and sj q
  assume ok: "fs_ok f"
  show "[] \<notin> set (mb_listdir (store_backend roots usage tm) f si p)"
    using ok last_in_set by (fastforce simp: store_backend_def store_listdir_def entries_def fs_ok_def list_all_iff split: option.splits)
  show "length p < 4095" if "mb_get_info (store_backend roots usage tm) f si p = Some (True, sz, t)"
    using that by (auto simp: store_backend_def store_get_info_def resolve_def real_path_def bind_eq_Some_conv split: if_splits option.splits)
  show "\<exists>t. mb_get_info (store_backend roots usage tm) f si p = Some (False, of_nat (length d), t)"
    if "store_content roots f si p = Some d"
    using that by (auto simp: store_backend_def store_get_info_def elim!: store_contentE)
  show "mb_read (store_backend roots usage tm) f si p 0 want = (int (length (take (nat want) d)), take (nat want) d)"
    if "store_content roots f si p = Some d" "0 \<le> want"
    using that by (auto simp: store_backend_def store_read_def Let_def elim!: store_contentE)
  show "fs_ok (mb_write (store_backend roots usage tm) f si p d)"
    using ok walk_names [of f "[]"]
    by (auto simp: store_backend_def store_write_def resolve_def node_at_def put_node_ok split: option.split)
  assume c: "store_content roots f si p \<noteq> None"
  then obtain d0 where d0: "store_content roots f si p = Some d0" by auto
  obtain r u where w: "resolve f (real_path (roots ! si) p) = Some r" "map_of (fs_nodes f) r = Some (Regular u d0)" "r \<noteq> []"
    "store_write roots f si p d = put_node r (Regular (fs_now f) d) f" by (rule store_write_overwrites [OF d0])
  note ow = overwrite_resolve [OF w(2,3)] overwrite(1) [OF w(2)] overwrite_walk(2) [OF w(2,3)]
  show "store_content roots (mb_write (store_backend roots usage tm) f si p d) si p = Some d"
    using w by (simp add: store_backend_def store_content_def ow node_at_def overwrite(2) [OF w(2)])
  show "mb_listdir (store_backend roots usage tm) (mb_write (store_backend roots usage tm) f si p d) sj q
      = mb_listdir (store_backend roots usage tm) f sj q"
    by (simp add: store_backend_def store_listdir_def w(4) ow entries_keys split: option.split)
  show "map_option fst (mb_get_info (store_backend roots usage tm) (mb_write (store_backend roots usage tm) f si p d) sj q)
      = map_option fst (mb_get_info (store_backend roots usage tm) f sj q)"
    using w by (auto simp: store_backend_def store_get_info_def ow node_at_def overwrite(2) [OF w(2)] bind_eq_Some_conv
        split: option.splits node.splits bind_splits)
qed

section \<open>A file sent and fetched\<close>

text \<open>The containers of the host.\<close>

lemma container_facts:
  assumes "length d + 12 < 2 ^ 31"
  shows "length (mtp_container ty code txid d) = 12 + length d" "drop 12 (mtp_container ty code txid d) = d"
    "uint (usb_get_le32 (mtp_container ty code txid d) 0) = int (12 + length d)"
proof -
  show "length (mtp_container ty code txid d) = 12 + length d" "drop 12 (mtp_container ty code txid d) = d"
    by (simp_all add: mtp_container_def)
  have "usb_get_le32 (mtp_container ty code txid d) 0 = of_nat (12 + length d)"
    by (simp add: mtp_container_def wire_defs bytes_at_def)
  then show "uint (usb_get_le32 (mtp_container ty code txid d) 0) = int (12 + length d)"
    using assms by (simp only: uint_nat unat_of_nat) (simp add: take_bit_nat_eq_self)
qed

lemma cmd_facts:
  "12 \<le> length (cmd code txid ps)" "usb_get_le16 (cmd code txid ps) 6 = code" "usb_get_le32 (cmd code txid ps) 8 = txid"
  "mtp_params (cmd code txid [h]) ! 0 = h"
proof -
  show "12 \<le> length (cmd code txid ps)" "usb_get_le16 (cmd code txid ps) 6 = code" "usb_get_le32 (cmd code txid ps) 8 = txid"
    by (simp_all add: cmd_def wire_defs bytes_at_def)
  show "mtp_params (cmd code txid [h]) ! 0 = h"
    by (simp add: mtp_params_def cmd_def wire_defs bytes_at_def Let_def)
qed

lemma command:
  assumes "\<not> mt_rx_active st" "mt_session st \<noteq> 0"
  shows "mtp_on_out (cmd code txid ps) b st = (if code \<in> set writing_ops
    then writing_op b st code txid (mtp_params (cmd code txid ps)) else reading_op b st code txid (mtp_params (cmd code txid ps)))"
  using assms cmd_facts(1-3) [where code = code and txid = txid and ps = ps] by (simp add: mtp_on_out_def mtp_dispatch_def Let_def)

text \<open>The data phase of \<open>SendObject\<close>, in any packets, ends with the object being written.\<close>

lemma data_phase_writes:
  fixes ps :: "u32 list" and st :: "'b mtp_state"
  assumes "length d + 12 < 2 ^ 31" "concat ds = mtp_container 2 0x100D txid d" "list_all (\<lambda>p. p \<noteq> []) ds"
  defines "s \<equiv> begin_rx 0x100D txid ps st"
  shows "mtp_run ds (f, s) = recv_object d f (s\<lparr>mt_rx_buf := mtp_container 2 0x100D txid d,
     mt_rx_need := int (12 + length d), mt_rx_active := False\<rparr>)" (is "_ = recv_object d f ?t")
proof -
  note frame = container_facts [OF assms(1), of 2 "0x100D" txid]
  have ds: "ds \<noteq> []" using assms(2) frame(1) by auto
  have "mtp_run ds (f, s) = complete_rx f ?t"
    using mtp_run_collect [OF frame(1) _ frame(3) ds assms(3), of "[]" s f] assms(2) by (simp add: s_def begin_rx_def)
  also have "\<dots> = recv_object d f ?t"
  proof -
    have "signed_take_bit 31 (int (length d)) = int (length d)" using assms(1) by (simp add: signed_take_bit_int_eq_self)
    then show ?thesis using frame(2) by (simp add: s_def complete_rx_def Let_def begin_rx_def)
  qed
  finally show ?thesis .
qed

text \<open>C19: A file that a host sends is the file it fetches: on the storage of the example, a host that has
  announced an object (its file exists and shows in the directory tree) and sends its content, the container cut into
  packets at will, is answered OK and told that the object is there; the file has that content, and
  \<open>GetObject\<close> under the same handle then returns exactly it.\<close>

theorem sent_object_is_fetched:
  assumes "mtp_reach opts (f, st)" and "mo_backend opts = store_backend roots usage tm" and "fs_ok f"
    and "mt_session st \<noteq> 0" and "\<not> mo_read_only opts" and "\<not> mt_rx_active st"
    and "obj_by_handle st h = Some x" and "mt_send_target st = h" and "h \<noteq> 0" and "ob_si x < mt_n_stores st"
    and "store_content roots f (ob_si x) (ob_path x) \<noteq> None"
    and "visible (store_backend roots usage tm) f (ob_si x) [] (ob_path x)"
    and "length d + 12 < 2 ^ 31" and "concat ds = mtp_container 2 0x100D txid d" and "list_all (\<lambda>p. p \<noteq> []) ds"
  shows "\<exists>f' st'. mtp_run (cmd 0x100D txid [] # ds) (f, st)
      = Ret (f', st', respond st RC_OK txid [] @ send_event st EV_OBJECT_ADDED h)
    \<and> store_content roots f' (ob_si x) (ob_path x) = Some d
    \<and> (length (mt_objs st') < 2 ^ 32 \<longrightarrow> mtp_on_out (cmd 0x1009 txid' [h]) f' st'
         = Ret (f', st', ep_write (mt_in st) (mtp_container CT_DATA 0x1009 txid' d) @ respond st RC_OK txid' []))"
proof -
  let ?bk = "store_backend roots usage tm" and ?frame = "mtp_container 2 0x100D txid d"
  let ?s = "begin_rx 0x100D txid (mtp_params (cmd 0x100D txid [])) st"
  let ?n = "12 + length d"
  let ?t = "?s\<lparr>mt_rx_buf := ?frame, mt_rx_need := int ?n, mt_rx_active := False\<rparr>"
  have inv: "tidy st" "mt_bk st = ?bk" "\<not> mt_read_only st" using mtp_inv_reach [OF assms(1)] assms(2,5) by (simp_all add: mtp_inv_def)
  have start: "mtp_on_out (cmd 0x100D txid []) f st = Ret (f, ?s, [])"
    using assms(8,9) inv(3) by (simp add: command [OF assms(6,4)] writing_ops_def writing_op_def require_writable_def)
  note run = data_phase_writes [OF assms(13-15), where ps = "mtp_params (cmd 0x100D txid [])" and st = st and f = f]
  have t: "tidy ?t" "mt_bk ?t = ?bk" "obj_by_handle ?t h = Some x" "mt_send_target ?t = h" "ob_si x < mt_n_stores ?t"
    using inv assms(7,8,10) by (simp_all add: begin_rx_def tidy_def table_defs obj_by_handle_def)
  obtain st' where r: "recv_object d f ?t = Ret (mb_write ?bk f (ob_si x) (ob_path x) d, st',
       respond ?t RC_OK (mt_rx_txid ?t) [] @ send_event ?t EV_OBJECT_ADDED h)"
    "keeps ?t st'" "same_rest (?t\<lparr>mt_send_target := 0\<rparr>) st'"
    and y: "length (mt_objs st') < 2 ^ 32 \<longrightarrow> (\<exists>y. obj_by_handle st' h = Some y \<and> ob_si y = ob_si x \<and> ob_path y = ob_path x
      \<and> \<not> ob_is_dir y \<and> ob_size y = of_nat (length d))"
    by (rule share.recv_object_writes [OF assms(3) t(2,1,3,4,5) assms(11,12)])
  let ?f = "mb_write ?bk f (ob_si x) (ob_path x) d"
  have c: "store_content roots ?f (ob_si x) (ob_path x) = Some d" by (rule share.write_content [OF assms(3,11)])
  have s': "\<not> mt_rx_active st'" "mt_session st' \<noteq> 0" "mt_bk st' = ?bk" "mt_in st' = mt_in st"
    using same_restD [OF r(3)] assms(4) inv(2) by (simp_all add: begin_rx_def)
  have "mtp_on_out (cmd 0x1009 txid' [h]) ?f st'
      = Ret (?f, st', ep_write (mt_in st) (mtp_container CT_DATA 0x1009 txid' d) @ respond st RC_OK txid' [])"
    if l: "length (mt_objs st') < 2 ^ 32"
  proof -
    obtain y where y: "obj_by_handle st' h = Some y" "ob_si y = ob_si x" "ob_path y = ob_path x" "\<not> ob_is_dir y"
      "ob_size y = of_nat (length d)" using y l by blast
    have c': "store_content roots ?f (ob_si y) (ob_path y) = Some d" using c y(2,3) by simp
    from share.get_object_sends [OF share.write_ok [OF assms(3)] s'(3) y(1,4,5) c' assms(13) cmd_facts(4), of txid']
    show ?thesis using s'(4) by (simp add: command [OF s'(1,2)] writing_ops_def respond_def)
  qed
  moreover have "mtp_run (cmd 0x100D txid [] # ds) (f, st)
      = Ret (?f, st', respond st RC_OK txid [] @ send_event st EV_OBJECT_ADDED h)"
    using start run r(1) by (simp add: begin_rx_def respond_def send_event_def)
  ultimately show ?thesis using c by blast
qed

text \<open>A host that has announced a new file \<open>g\<close> in the root of the store.\<close>

definition demo_bk :: "fs mtp_backend" where
  "demo_bk = store_backend [cstr ''/s''] (\<lambda>f si. (0, 0)) (\<lambda>t. [])"

definition demo_announce :: "bytes list" where
  "demo_announce = [cmd 0x1002 0 [1], cmd 0x100C 1 [0x10001, 0xFFFFFFFF],
     mtp_container 2 0x100C 1 (replicate 5 0 @ [0x30] @ replicate 46 0 @ [2, 0x67, 0, 0, 0])]"

theorem sent_object_is_fetched_witness:
  "\<exists>f st acts f' st' acts'. mtp_run demo_announce (demo_fs, demo_state False) = Ret (f, st, acts)
     \<and> mtp_run [cmd 0x100D 2 [], [15, 0, 0, 0, 2, 0, 0x0D, 0x10, 2, 0, 0, 0, 7], [8, 9]] (f, st) = Ret (f', st', acts')
     \<and> store_content [cstr ''/s''] f' 0 (cstr ''g'') = Some [7, 8, 9]"
proof -
  have "case mtp_run demo_announce (demo_fs, demo_state False) of
      Ret (f, st, acts) \<Rightarrow> fs_ok f \<and> mt_session st = 1 \<and> \<not> mt_rx_active st \<and> mt_send_target st = 3 \<and> mt_n_stores st = 1
        \<and> (case obj_by_handle st 3 of None \<Rightarrow> False | Some x \<Rightarrow> ob_si x = 0 \<and> ob_path x = cstr ''g'')
        \<and> store_content [cstr ''/s''] f 0 (cstr ''g'') = Some []
        \<and> cstr ''g'' \<in> set (list_names demo_bk f 0 []) \<and> mb_get_info demo_bk f 0 (path_join 4096 [] (cstr ''g'')) \<noteq> None
    | _ \<Rightarrow> False" by code_simp
  then obtain f st acts where s: "mtp_run demo_announce (demo_fs, demo_state False) = Ret (f, st, acts)" and
    r: "mtp_reach (demo_opts False) (f, st)" and
    q: "fs_ok f \<and> mt_session st = 1 \<and> \<not> mt_rx_active st \<and> mt_send_target st = 3 \<and> mt_n_stores st = 1
        \<and> (case obj_by_handle st 3 of None \<Rightarrow> False | Some x \<Rightarrow> ob_si x = 0 \<and> ob_path x = cstr ''g'')
        \<and> store_content [cstr ''/s''] f 0 (cstr ''g'') = Some []
        \<and> cstr ''g'' \<in> set (list_names demo_bk f 0 []) \<and> mb_get_info demo_bk f 0 (path_join 4096 [] (cstr ''g'')) \<noteq> None"
    by (rule demo_run)
  from q obtain x where x: "obj_by_handle st 3 = Some x" "ob_si x = 0" "ob_path x = cstr ''g''"
    by (auto split: option.splits)
  have g: "path_join 4096 [] (cstr ''g'') = cstr ''g''" by code_simp
  have v: "visible demo_bk f 0 [] (cstr ''g'')"
    using visible.here [of "cstr ''g''" demo_bk f 0 "[]"] q g by simp
  have o: "mo_backend (demo_opts False) = demo_bk" "\<not> mo_read_only (demo_opts False)"
    by (simp_all add: demo_opts_def example_opts_def demo_bk_def)
  have p: "concat [[15, 0, 0, 0, 2, 0, 0x0D, 0x10, 2, 0, 0, 0, 7], [8, 9]] = mtp_container 2 0x100D 2 [7, 8, 9]"
    by code_simp
  show ?thesis
    using sent_object_is_fetched [OF r o(1) [unfolded demo_bk_def] _ _ o(2) _ x(1) _ _ _ _ _ _ p] q x v s
    unfolding demo_bk_def by (simp del: mtp_run.simps) blast
qed

section \<open>Names from the host\<close>

text \<open>
  A name the host sends is joined to the directory unchecked, and the backend follows it: announcing \<open>../e\<close>
  in the root of the share creates \<open>/e\<close>, outside of the exported directory, and is answered OK with the
  handle 0, as the scan does not see the file.
\<close>

lemma host_names_leave_the_share:
  "case mtp_run [cmd 0x1002 0 [1], cmd 0x100C 1 [0x10001, 0xFFFFFFFF],
      mtp_container 2 0x100C 1 (replicate 5 0 @ [0x30] @ replicate 46 0 @ [5, 46, 0, 46, 0, 47, 0, 101, 0, 0, 0])]
      (demo_fs, demo_state False) of
    Ret (f, st, acts) \<Rightarrow> node_at f [[101]] = Some (Regular 7 [])
      \<and> last acts = EpWrite 1 (mtp_container 3 0x2001 1 (concat (map (le_bytes 4) [0x10001 :: u32, 0xFFFFFFFF, 0])))
  | _ \<Rightarrow> False"
  by code_simp

end
