(* ===== verification/Uac.thy ===== *)
theory Uac
  imports Usb_Class
begin

text \<open>
  The audio class (\<open>src/classes/device/uac.c\<close>): a speaker and a microphone with their feature units, over
  isochronous endpoints. The application's callbacks are parameters over its state \<open>'b\<close>; log lines are left out.
  A sample is a 16-bit word, read with \<open>sint\<close>.
\<close>

section \<open>State\<close>

text \<open>The microphone source gives what it returns and the bytes it has written.\<close>

record 'b uac_opts =
  uo_mic_source :: "('b \<Rightarrow> nat \<Rightarrow> u32 \<Rightarrow> 'b \<times> int \<times> bytes) option"
  uo_spk_sink :: "('b \<Rightarrow> bytes \<Rightarrow> 'b) option"

record 'b uac_state =
  ua_opts :: "'b uac_opts"
  ua_spk_if :: u8
  ua_mic_if :: u8
  ua_spk_on :: bool
  ua_mic_on :: bool
  ua_mic_samples :: u32
  ua_spk_bytes :: u64
  ua_spk_peak :: int
  ua_mute :: "u8 list"
  ua_volume :: "u16 list"

section \<open>The tone\<close>

definition SINE256 :: "int list" where
  "SINE256 = [
     0, 393, 785, 1177, 1568, 1959, 2348, 2735, 3121, 3506, 3888, 4267, 4645, 5019, 5390, 5758,
     6123, 6484, 6841, 7194, 7542, 7886, 8226, 8560, 8889, 9213, 9531, 9844, 10150, 10451, 10745, 11033,
     11314, 11588, 11855, 12115, 12368, 12614, 12851, 13081, 13304, 13518, 13724, 13921, 14111, 14292, 14464, 14627,
     14782, 14928, 15065, 15192, 15311, 15420, 15521, 15611, 15693, 15764, 15827, 15880, 15923, 15957, 15981, 15995,
     16000, 15995, 15981, 15957, 15923, 15880, 15827, 15764, 15693, 15611, 15521, 15420, 15311, 15192, 15065, 14928,
     14782, 14627, 14464, 14292, 14111, 13921, 13724, 13518, 13304, 13081, 12851, 12614, 12368, 12115, 11855, 11588,
     11314, 11033, 10745, 10451, 10150, 9844, 9531, 9213, 8889, 8560, 8226, 7886, 7542, 7194, 6841, 6484,
     6123, 5758, 5390, 5019, 4645, 4267, 3888, 3506, 3121, 2735, 2348, 1959, 1568, 1177, 785, 393,
     0, - 393, - 785, - 1177, - 1568, - 1959, - 2348, - 2735, - 3121, - 3506, - 3888, - 4267, - 4645, - 5019, - 5390, - 5758,
     - 6123, - 6484, - 6841, - 7194, - 7542, - 7886, - 8226, - 8560, - 8889, - 9213, - 9531, - 9844, - 10150, - 10451, - 10745, - 11033,
     - 11314, - 11588, - 11855, - 12115, - 12368, - 12614, - 12851, - 13081, - 13304, - 13518, - 13724, - 13921, - 14111, - 14292, - 14464, - 14627,
     - 14782, - 14928, - 15065, - 15192, - 15311, - 15420, - 15521, - 15611, - 15693, - 15764, - 15827, - 15880, - 15923, - 15957, - 15981, - 15995,
     - 16000, - 15995, - 15981, - 15957, - 15923, - 15880, - 15827, - 15764, - 15693, - 15611, - 15521, - 15420, - 15311, - 15192, - 15065, - 14928,
     - 14782, - 14627, - 14464, - 14292, - 14111, - 13921, - 13724, - 13518, - 13304, - 13081, - 12851, - 12614, - 12368, - 12115, - 11855, - 11588,
     - 11314, - 11033, - 10745, - 10451, - 10150, - 9844, - 9531, - 9213, - 8889, - 8560, - 8226, - 7886, - 7542, - 7194, - 6841, - 6484,
     - 6123, - 5758, - 5390, - 5019, - 4645, - 4267, - 3888, - 3506, - 3121, - 2735, - 2348, - 1959, - 1568, - 1177, - 785, - 393]"

abbreviation (input) UAC_PHASE_INC :: u64 where "UAC_PHASE_INC \<equiv> 39370534"

definition tone_sample :: "u32 \<Rightarrow> u16" where
  "tone_sample i = (let phase = ucast ((ucast i :: u64) * UAC_PHASE_INC) :: u32
     in word_of_int (SINE256 ! unat (drop_bit 24 phase AND 0xff)))"

definition uac_tone :: "nat \<Rightarrow> u32 \<Rightarrow> bytes" where
  "uac_tone frames index = concat (map (\<lambda>k. le_bytes 2 (tone_sample (index + of_nat k))) [0..<frames])"

section \<open>Isochronous transfers\<close>

text \<open>
  The microphone: \<open>off\<close> is where the next packet goes in the buffer. What is written past the end of the
  buffer has no defined result.
\<close>

fun uac_in_pkts :: "'b \<Rightarrow> 'b uac_state \<Rightarrow> u32 \<Rightarrow> bytes \<Rightarrow> u32 list \<Rightarrow> ('b \<times> 'b uac_state \<times> u32 list \<times> bytes) cresult" where
  "uac_in_pkts b st off buf [] = Ret (b, st, [], buf)"
| "uac_in_pkts b st off buf (len # lens) =
     (let frames = unat (len div 2) in
      if \<not> ua_mic_on st \<or> frames = 0 then
        bindc (uac_in_pkts b st off buf lens) (\<lambda>(b, st, ls, buf). Ret (b, st, 0 # ls, buf))
      else
        (let (b, produced, data) =
           (if ua_mute st ! 1 \<noteq> 0 then (b, 2 * int frames, replicate (2 * frames) 0)
            else (case uo_mic_source (ua_opts st) of
                None \<Rightarrow> (b, 2 * int frames, uac_tone frames (ua_mic_samples st))
              | Some f \<Rightarrow> (case f b frames (ua_mic_samples st) of
                  (b, produced, data) \<Rightarrow> (if produced < 0 then (b, 2 * int frames, put_at 0 (uac_tone frames (ua_mic_samples st)) data)
                    else (b, produced, data)))));
             frames = of_nat (nat produced div 2) :: u32
         in if unat off + length data > length buf then Undefined
            else bindc (uac_in_pkts b (st\<lparr>ua_mic_samples := ua_mic_samples st + frames\<rparr>) (off + 2 * frames)
                  (put_at (unat off) data buf) lens)
                (\<lambda>(b, st, ls, buf). Ret (b, st, 2 * frames # ls, buf))))"

definition uac_in_iso :: "'b \<Rightarrow> 'b uac_state \<Rightarrow> u32 list \<Rightarrow> bytes \<Rightarrow> ('b \<times> 'b uac_state \<times> u32 list \<times> bytes) cresult" where
  "uac_in_iso b st lens buf = uac_in_pkts b st 0 buf lens"

text \<open>The speaker: the whole samples of a packet, the greatest magnitude of them.\<close>

fun samples :: "bytes \<Rightarrow> int list" where
  "samples (a # c # bs) = sint (le_of [a, c] :: u16) # samples bs"
| "samples bs = []"

definition peak :: "int \<Rightarrow> bytes \<Rightarrow> int" where
  "peak p d = fold (\<lambda>s p. max p \<bar>s\<bar>) (samples d) p"

fun uac_out_pkts :: "'b \<Rightarrow> 'b uac_state \<Rightarrow> u32 \<Rightarrow> bytes \<Rightarrow> u32 list \<Rightarrow> ('b \<times> 'b uac_state \<times> u32) cresult" where
  "uac_out_pkts b st off buf [] = Ret (b, st, off)"
| "uac_out_pkts b st off buf (len # lens) =
     (if unat off + unat len > length buf then Undefined
      else (let d = bytes_at (unat off) (unat len) buf;
                b = (case uo_spk_sink (ua_opts st) of
                    Some f \<Rightarrow> (if len \<noteq> 0 \<and> ua_mute st ! 0 = 0 then f b d else b) | None \<Rightarrow> b)
            in uac_out_pkts b (st\<lparr>ua_spk_peak := peak (ua_spk_peak st) d\<rparr>) (off + len) buf lens))"

text \<open>The offset at the end is also the total.\<close>

definition uac_out_iso :: "'b \<Rightarrow> 'b uac_state \<Rightarrow> u32 list \<Rightarrow> bytes \<Rightarrow> ('b \<times> 'b uac_state) cresult" where
  "uac_out_iso b st lens buf = bindc (uac_out_pkts b st 0 buf lens)
     (\<lambda>(b, st, total). Ret (b, st\<lparr>ua_spk_bytes := ua_spk_bytes st + ucast total\<rparr>))"

definition uac_on_iso :: "u8 \<Rightarrow> 'b \<Rightarrow> 'b uac_state \<Rightarrow> u32 list \<Rightarrow> bytes \<Rightarrow> ('b \<times> 'b uac_state \<times> u32 list \<times> bytes) cresult" where
  "uac_on_iso addr b st lens buf =
     (if addr AND 0x80 \<noteq> 0 then uac_in_iso b st lens buf
      else bindc (uac_out_iso b st lens buf) (\<lambda>(b, st). Ret (b, st, lens, buf)))"

section \<open>Requests\<close>

text \<open>The unit decides which pair of controls is meant. A value is read from \<open>buf\<close> whatever the direction.\<close>

definition unit_index :: "u8 \<Rightarrow> nat option" where
  "unit_index u = (if u = 2 then Some 0 else if u = 5 then Some 1 else None)"

definition uac_control :: "'b uac_state \<Rightarrow> usb_setup \<Rightarrow> bytes \<Rightarrow> u16 \<Rightarrow> ('b uac_state \<times> int \<times> bytes) cresult" where
  "uac_control st stp d len =
     (let cs = USB_U16_MSB (wValue stp); r = bRequest stp
      in case unit_index (USB_U16_MSB (wIndex stp)) of
           None \<Rightarrow> Ret (st, - 1, [])
         | Some i \<Rightarrow>
             (if cs = 1 then
                (if r = 0x01 then
                   (if len < 1 then Ret (st, 0, []) else if d = [] then Undefined
                    else Ret (st\<lparr>ua_mute := (ua_mute st)[i := if d ! 0 \<noteq> 0 then 1 else 0]\<rparr>, 0, []))
                 else if r = 0x81 then ctl_reply stp d st [ua_mute st ! i]
                 else Ret (st, - 1, []))
              else if cs = 2 then
                (if r = 0x01 then
                   (if len < 2 then Ret (st, 0, []) else if length d < 2 then Undefined
                    else Ret (st\<lparr>ua_volume := (ua_volume st)[i := usb_get_le16 d 0]\<rparr>, 0, []))
                 else if r = 0x81 then ctl_reply stp d st (le_bytes 2 (ua_volume st ! i))
                 else if r = 0x82 then ctl_reply stp d st (le_bytes 2 (0xC100 :: u16))
                 else if r = 0x83 then ctl_reply stp d st (le_bytes 2 (0x0000 :: u16))
                 else if r = 0x84 then ctl_reply stp d st (le_bytes 2 (0x0100 :: u16))
                 else Ret (st, - 1, []))
              else Ret (st, - 1, [])))"

definition uac_set_alt :: "'b uac_state \<Rightarrow> u8 \<Rightarrow> u8 \<Rightarrow> 'b uac_state" where
  "uac_set_alt st ifnum alt =
     (if ifnum = ua_spk_if st then
        (if alt = 1 \<and> \<not> ua_spk_on st then st\<lparr>ua_spk_on := True, ua_spk_bytes := 0, ua_spk_peak := 0\<rparr>
         else if alt = 0 \<and> ua_spk_on st then st\<lparr>ua_spk_on := False\<rparr> else st)
      else if ifnum = ua_mic_if st then
        (if alt = 1 \<and> \<not> ua_mic_on st then st\<lparr>ua_mic_on := True, ua_mic_samples := 0\<rparr>
         else if alt = 0 \<and> ua_mic_on st then st\<lparr>ua_mic_on := False\<rparr> else st)
      else st)"

section \<open>Building\<close>

text \<open>Descriptors one after the other.\<close>

definition add_all :: "bytes list \<Rightarrow> 's usbip_function \<times> usbip_device \<Rightarrow> 's usbip_function \<times> usbip_device" where
  "add_all ds s = fold (\<lambda>d (func, dev). usbip_interface_add_descriptor d func dev) ds s"

definition ac_total :: u16 where
  "ac_total = 10 + 12 + 10 + 9 + 12 + 9 + 9"

definition uac_ac_descs :: "u8 \<Rightarrow> u8 \<Rightarrow> bytes list" where
  "uac_ac_descs spk mic =
     [[10, 0x24, 1] @ USB_U16LE 0x0100 @ USB_U16LE ac_total @ [2, spk, mic],
      [12, 0x24, 2, 1] @ USB_U16LE 0x0101 @ [0, 2] @ USB_U16LE 0x0003 @ [0, 0],
      [10, 0x24, 6, 2, 1, 1, 3, 0, 0, 0],
      [9, 0x24, 3, 3] @ USB_U16LE 0x0301 @ [0, 2, 0],
      [12, 0x24, 2, 4] @ USB_U16LE 0x0201 @ [0, 1] @ USB_U16LE 0 @ [0, 0],
      [9, 0x24, 6, 5, 4, 1, 3, 0, 0],
      [9, 0x24, 3, 6] @ USB_U16LE 0x0101 @ [0, 5, 0]]"

text \<open>A streaming interface: its terminal, channels and 9-byte endpoint.\<close>

definition uac_as_descs :: "u8 \<Rightarrow> u8 \<Rightarrow> bytes list" where
  "uac_as_descs terminal ch = [[7, 0x24, 1, terminal, 1] @ USB_U16LE 1,
      [11, 0x24, 2, 1, ch, 2, 16, 1, 0x80, 0xBB, 0x00]]"

definition uac_ep_desc :: "u8 \<Rightarrow> u8 \<Rightarrow> u16 \<Rightarrow> bytes" where
  "uac_ep_desc a attr mps = [9, 5, a, attr] @ USB_U16LE mps @ [1, 0, 0]"

definition uac_stream :: "u8 \<Rightarrow> u8 \<Rightarrow> bytes \<Rightarrow> 's usbip_function \<Rightarrow> usbip_device \<Rightarrow> ('s usbip_function \<times> usbip_device) cresult" where
  "uac_stream terminal ch ep func dev =
     bindc (usbip_function_add_interface 0x01 0x02 0 func dev) (\<lambda>(func, dev, ifc).
       let (func, dev, rc) = usbip_interface_add_altsetting ifc 1 func dev;
           (func, dev) = add_all (uac_as_descs terminal ch) (func, dev);
           (func, dev, e) = usbip_interface_add_endpoint ep func dev
       in Ret (usbip_interface_add_descriptor ([7, 0x25, 1, 0, 0] @ USB_U16LE 0) func dev))"

definition uac_build :: "'b uac_opts \<Rightarrow> ('s, 'b uac_state) uc_build" where
  "uac_build opts uc func dev =
     (let base = f_base_ifnum func; spk = of_nat (base + 1) :: u8; mic = of_nat (base + 2) :: u8;
          frames_per_sec = (if speed_code (speed dev) \<ge> speed_code USB_SPEED_HIGH then 8000 else 1000) :: nat;
          spk_mps = of_nat (48000 div frames_per_sec * 2 * 2) :: u16;
          mic_mps = of_nat (48000 div frames_per_sec * 1 * 2) :: u16
      in bindc (usbip_function_add_interface 0x01 0x01 0 func dev) (\<lambda>(func, dev, acif).
           let (func, dev) = add_all (uac_ac_descs spk mic) (func, dev)
           in bindc (uac_stream 1 2 (uac_ep_desc 0x01 (1 OR 0x08 OR 0x00) spk_mps) func dev) (\<lambda>(func, dev).
             bindc (uac_stream 6 1 (uac_ep_desc 0x82 (1 OR 0x04 OR 0x00) mic_mps) func dev) (\<lambda>(func, dev).
               Ret (func, dev, Some \<lparr>ua_opts = opts, ua_spk_if = spk, ua_mic_if = mic, ua_spk_on = False, ua_mic_on = False,
                 ua_mic_samples = 0, ua_spk_bytes = 0, ua_spk_peak = 0, ua_mute = [0, 0], ua_volume = [0xF600, 0xF600]\<rparr>)))))"

text \<open>The address of the endpoint is read from the device.\<close>

definition usbip_device_uac :: "(nat \<Rightarrow> u8) \<Rightarrow> ('b \<times> (handler \<Rightarrow> 'b uac_state)) usbip_device_class" where
  "usbip_device_uac addr = \<lparr>c_id = 5,
     c_control = Some (\<lambda>f (b, sts) stp d len. case uac_control (sts f) stp d len of
        Ret (st, rc, r) \<Rightarrow> ((b, sts(f := st)), [], rc, r) | _ \<Rightarrow> ((b, sts), [], - 1, [])),
     c_set_alt = Some (\<lambda>f (b, sts) i a. ((b, sts(f := uac_set_alt (sts f) i a)), [])),
     c_on_out = None,
     c_on_iso = Some (\<lambda>f (b, sts) ep lens buf. case uac_on_iso (addr ep) b (sts f) lens buf of
        Ret (b, st, lens, buf) \<Rightarrow> ((b, sts(f := st)), [], lens, buf) | _ \<Rightarrow> ((b, sts), [], lens, buf))\<rparr>"

definition uac_add :: "'b uac_opts \<Rightarrow> 's usbip_device_class \<Rightarrow> nat \<Rightarrow> 's uc \<Rightarrow> usbip_device \<Rightarrow> ('s uc \<times> usbip_device \<times> (handler \<times> 'b uac_state) option) cresult" where
  "uac_add opts cls dv uc dev = usbip_device_add_class (uac_build opts) cls dv uc dev"

end
