(* ===== verification/Uac_Props.thy ===== *)
theory Uac_Props
  imports Uac
begin

text \<open>The microphone of the audio class is one continuous stream.\<close>

lemma put_at_append: "off + length a + length c \<le> length buf
   \<Longrightarrow> put_at (off + length a) c (put_at off a buf) = put_at off (a @ c) buf"
  by (simp add: put_at_def ac_simps)

lemma uac_tone_append: "uac_tone (m + n) i = uac_tone m i @ uac_tone n (i + of_nat m)"
proof (induction n)
  case 0
  then show ?case by (simp add: uac_tone_def)
next
  case (Suc n)
  then show ?case by (simp add: uac_tone_def add.assoc)
qed

lemma uac_tone_0 [simp]: "uac_tone 0 i = []"
  by (simp add: uac_tone_def)

lemma length_uac_tone [simp]: "length (uac_tone n i) = 2 * n"
  by (simp add: uac_tone_def length_concat comp_def sum_list_triv)

text \<open>The whole samples that fit the packets of a transfer.\<close>

definition frames_of :: "u32 list \<Rightarrow> nat" where
  "frames_of lens = sum_list (map (\<lambda>l. unat l div 2) lens)"

lemma unat_whole: "unat (2 * (l div 2) :: u32) = 2 * unat (l div 2)"
proof -
  have "unat l < 2 ^ 32" using unsigned_less [of l] by simp
  then have "2 * unat (l div 2) < 2 ^ 32" by (simp add: unat_div)
  then show ?thesis by (simp add: unat_word_ariths)
qed

lemma unat_add_lem': "unat a + unat b < 2 ^ 32 \<Longrightarrow> unat (a + b :: u32) = unat a + unat b"
  by (simp add: unat_word_ariths)

lemma uac_in_pkts_tone:
  assumes "ua_mic_on st" "ua_mute st ! 1 = 0" "uo_mic_source (ua_opts st) = None"
    and "unat off + 2 * frames_of lens \<le> length buf" "length buf < 2 ^ 32"
  shows "uac_in_pkts b st off buf lens = Ret (b, st\<lparr>ua_mic_samples := ua_mic_samples st + of_nat (frames_of lens)\<rparr>,
    map (\<lambda>l. 2 * (l div 2)) lens, put_at (unat off) (uac_tone (frames_of lens) (ua_mic_samples st)) buf)"
  using assms
proof (induction lens arbitrary: st off buf)
  case Nil
  then show ?case by (simp add: frames_of_def put_at_def)
next
  case (Cons l lens)
  define m where "m = unat (l div 2)"
  have m: "m = unat l div 2" by (simp add: m_def unat_div)
  have w: "(of_nat m :: u32) = l div 2" by (simp add: m_def)
  show ?case
  proof (cases "m = 0")
    case True
    then have "l div 2 = 0" using w by simp
    with Cons True m show ?thesis by (simp add: m_def [symmetric] frames_of_def)
  next
    case False
    have f: "frames_of (l # lens) = m + frames_of lens" by (simp add: frames_of_def m)
    let ?st = "st\<lparr>ua_mic_samples := ua_mic_samples st + l div 2\<rparr>"
    let ?buf = "put_at (unat off) (uac_tone m (ua_mic_samples st)) buf"
    have room: "unat off + 2 * m + 2 * frames_of lens \<le> length buf" using Cons.prems(4) f by simp
    have "unat (2 * (l div 2)) = 2 * m" by (simp only: unat_whole m_def)
    with room Cons.prems(5) have off: "unat (off + 2 * (l div 2)) = unat off + 2 * m"
      by (simp add: unat_add_lem')
    have "uac_in_pkts b ?st (off + 2 * (l div 2)) ?buf lens
        = Ret (b, ?st\<lparr>ua_mic_samples := ua_mic_samples ?st + of_nat (frames_of lens)\<rparr>, map (\<lambda>l. 2 * (l div 2)) lens,
            put_at (unat off + 2 * m) (uac_tone (frames_of lens) (ua_mic_samples ?st)) ?buf)"
      using Cons.IH [of ?st "off + 2 * (l div 2)" ?buf] Cons.prems room off by simp
    then show ?thesis
      using Cons.prems False room put_at_append [of "unat off" "uac_tone m (ua_mic_samples st)" "uac_tone (frames_of lens) (ua_mic_samples st + l div 2)" buf]
      by (simp add: Let_def m_def [symmetric] f w uac_tone_append add.assoc nat_mult_distrib)
  qed
qed

text \<open>Transfers one after the other, each with its packets and its buffer: what the host receives.\<close>

fun mic_run :: "'b \<Rightarrow> 'b uac_state \<Rightarrow> (u32 list \<times> bytes) list \<Rightarrow> ('b \<times> 'b uac_state \<times> bytes) cresult" where
  "mic_run b st [] = Ret (b, st, [])"
| "mic_run b st ((lens, buf) # ts) = bindc (uac_in_iso b st lens buf) (\<lambda>(b, st, lens, buf).
     bindc (mic_run b st ts) (\<lambda>(b, st, more). Ret (b, st, take (sum_list (map unat lens)) buf @ more)))"

text \<open>C30: The microphone is one stream without gaps or repetitions: however the host asks for it, in any
  transfers of any packets of any lengths, what it receives from switching the stream on is the tone of as many samples
  as the packets had room for whole ones, from the sample where it stood.\<close>

theorem mic_stream_is_gapless:
  assumes "ua_mic_on st" and "ua_mute st ! 1 = 0" and "uo_mic_source (ua_opts st) = None"
    and "list_all (\<lambda>(lens, buf). sum_list (map unat lens) \<le> length buf \<and> length buf < 2 ^ 32) ts"
  shows "\<exists>st'. mic_run b st ts = Ret (b, st', uac_tone (sum_list (map (frames_of \<circ> fst) ts)) (ua_mic_samples st))
    \<and> ua_mic_samples st' = ua_mic_samples st + of_nat (sum_list (map (frames_of \<circ> fst) ts))"
  using assms
proof (induction ts arbitrary: st)
  case Nil
  then show ?case by simp
next
  case (Cons t ts)
  obtain lens buf where t: "t = (lens, buf)" by (cases t)
  define n where "n = frames_of lens"
  have le: "2 * frames_of ls \<le> sum_list (map unat ls)" for ls :: "u32 list"
    by (induction ls) (simp_all add: frames_of_def)
  have "2 * n \<le> length buf" "length buf < 2 ^ 32" using Cons.prems(4) le [of lens] t by (auto simp: n_def)
  let ?st = "st\<lparr>ua_mic_samples := ua_mic_samples st + of_nat n\<rparr>"
  have r: "uac_in_iso b st lens buf = Ret (b, ?st, map (\<lambda>l. 2 * (l div 2)) lens, put_at 0 (uac_tone n (ua_mic_samples st)) buf)"
    using uac_in_pkts_tone [of st 0 lens buf b] Cons.prems(1-3) \<open>2 * n \<le> length buf\<close> \<open>length buf < 2 ^ 32\<close>
    by (simp add: uac_in_iso_def n_def)
  have s: "sum_list (map (unat \<circ> (\<lambda>l. 2 * (l div 2))) lens) = 2 * n"
    by (simp add: n_def frames_of_def unat_whole unat_div comp_def sum_list_const_mult)
  have rest: "list_all (\<lambda>(lens, buf). sum_list (map unat lens) \<le> length buf \<and> length buf < 2 ^ 32) ts"
    using Cons.prems(4) by simp
  have "take (2 * n) (put_at 0 (uac_tone n (ua_mic_samples st)) buf) = uac_tone n (ua_mic_samples st)"
    by (simp add: put_at_def)
  moreover obtain st' where "mic_run b ?st ts = Ret (b, st', uac_tone (sum_list (map (frames_of \<circ> fst) ts)) (ua_mic_samples ?st)) \<and>
    ua_mic_samples st' = ua_mic_samples ?st + of_nat (sum_list (map (frames_of \<circ> fst) ts))"
    using Cons.IH [of ?st] Cons.prems(1-3) rest by fastforce
  ultimately show ?case by (simp add: t r s [unfolded comp_def n_def] n_def uac_tone_append add.assoc comp_def)
qed

definition demo_mic :: "unit uac_state" where
  "demo_mic = \<lparr>ua_opts = \<lparr>uo_mic_source = None, uo_spk_sink = None\<rparr>, ua_spk_if = 1, ua_mic_if = 2, ua_spk_on = False,
     ua_mic_on = True, ua_mic_samples = 0xFFFFFFFE, ua_spk_bytes = 0, ua_spk_peak = 0, ua_mute = [1, 0], ua_volume = [0, 0]\<rparr>"

theorem mic_stream_is_gapless_witness:
  "case mic_run () demo_mic [([7, 0, 1], replicate 8 0), ([4], replicate 9 0)] of Ret (b, st, out) \<Rightarrow> length out = 10 \<and> ua_mic_samples st = 3
     | _ \<Rightarrow> False"
proof -
  have "\<exists>st'. mic_run () demo_mic [([7, 0, 1], replicate 8 0), ([4], replicate 9 0)]
      = Ret ((), st', uac_tone (sum_list (map (frames_of \<circ> fst) [([7, 0, 1], replicate 8 0 :: bytes), ([4], replicate 9 0)])) (ua_mic_samples demo_mic))
    \<and> ua_mic_samples st' = ua_mic_samples demo_mic + of_nat (sum_list (map (frames_of \<circ> fst) [([7, 0, 1], replicate 8 0 :: bytes), ([4], replicate 9 0)]))"
    by (rule mic_stream_is_gapless) (simp_all add: demo_mic_def)
  then show ?thesis by (auto simp: frames_of_def demo_mic_def)
qed

end
