(* ===== verification/Uvc.thy ===== *)
theory Uvc
  imports Usb_Class
begin

text \<open>
  The video class (\<open>src/classes/device/uvc.c\<close>): a camera whose frames are cut into payloads for an
  isochronous endpoint. The frame source is a parameter over the application's state \<open>'b\<close>; log lines are left
  out, but not what they read.
\<close>

section \<open>State\<close>

text \<open>
  The source gets the capacity, the format and the frame counter; it gives what it returns and the bytes it has
  written. \<open>uv_frame\<close> is the whole frame buffer, of \<open>frame_cap\<close> bytes.
\<close>

record 'b uvc_opts =
  uo_width :: u16
  uo_height :: u16
  uo_fps :: u32
  uo_formats :: u32
  uo_next_frame :: "('b \<Rightarrow> nat \<Rightarrow> u8 \<Rightarrow> u32 \<Rightarrow> 'b \<times> int \<times> bytes) option"

record 'b uvc_state =
  uv_opts :: "'b uvc_opts"
  uv_cur_format :: u8
  uv_cur_frame :: u8
  uv_cur_interval :: u32
  uv_max_frame_size :: u32
  uv_fmt_char :: "u8 list"
  uv_streaming :: bool
  uv_frame_index :: u32
  uv_frame :: bytes
  uv_frame_len :: u32
  uv_frame_pos :: u32
  uv_fid :: u8
  uv_iso_mps :: u16

section \<open>The colour bars\<close>

definition uvc_bars :: "u8 list list" where
  "uvc_bars = [[235,128,128], [210, 16,146], [170,166, 16], [145, 54, 34],
               [106,202,222], [ 81, 90,240], [ 41,240,110], [ 16,128,128]]"

definition bar_at :: "nat \<Rightarrow> nat \<Rightarrow> nat \<Rightarrow> u8 list" where
  "bar_at width shift x = uvc_bars ! ((((x + shift) * 8) div width) mod 8)"

text \<open>Two pixels share their colour.\<close>

definition bar_pair :: "nat \<Rightarrow> nat \<Rightarrow> nat \<Rightarrow> bytes" where
  "bar_pair width shift x = (let c0 = bar_at width shift x; c1 = bar_at width shift (x + 1)
     in [c0 ! 0, c0 ! 1, c1 ! 0, c0 ! 2])"

definition bar_row :: "nat \<Rightarrow> nat \<Rightarrow> nat \<Rightarrow> bytes \<Rightarrow> bytes" where
  "bar_row width shift y buf = fold (\<lambda>i. put_at (y * width * 2 + 4 * i) (bar_pair width shift (2 * i))) [0..<(width + 1) div 2] buf"

text \<open>
  A row of odd width ends two bytes into the next one; the last one ends past the frame. Writes past the buffer and
  products past an \<open>int\<close> have no defined result.
\<close>

definition uvc_color_bars_yuyv :: "bytes \<Rightarrow> int \<Rightarrow> int \<Rightarrow> u32 \<Rightarrow> bytes cresult" where
  "uvc_color_bars_yuyv buf width height idx =
     (let w = nat width; h = nat height; shift = unat idx mod (if w = 0 then 1 else w); pairs = (w + 1) div 2
      in if w = 0 \<or> h = 0 then Ret buf
         else if (2 * pairs - 1 + shift) * 8 \<ge> 2 ^ 31 \<or> (h - 1) * w * 2 + 4 * pairs > length buf then Undefined
         else Ret (fold (bar_row w shift) [0..<h] buf))"

section \<open>Frames\<close>

definition produce_frame :: "'b \<Rightarrow> 'b uvc_state \<Rightarrow> ('b \<times> 'b uvc_state) cresult" where
  "produce_frame b st =
     (if unat (uv_cur_format st) \<ge> length (uv_fmt_char st) then Undefined
      else (let fmt = uv_fmt_char st ! unat (uv_cur_format st);
                w = uint (uo_width (uv_opts st)); h = uint (uo_height (uv_opts st));
                (b, produced, data) = (case uo_next_frame (uv_opts st) of
                    Some f \<Rightarrow> f b (length (uv_frame st)) fmt (uv_frame_index st) | None \<Rightarrow> (b, - 1, []))
            in if length data > length (uv_frame st) then Undefined
               else (let frame = put_at 0 data (uv_frame st)
                     in if produced < 0 then
                          (if w * h * 2 \<ge> 2 ^ 31 then Undefined
                           else bindc (uvc_color_bars_yuyv frame w h (uv_frame_index st)) (\<lambda>frame.
                                  Ret (b, st\<lparr>uv_frame := frame, uv_frame_len := word_of_int (w * h * 2), uv_frame_pos := 0\<rparr>)))
                        else Ret (b, st\<lparr>uv_frame := frame, uv_frame_len := word_of_int produced, uv_frame_pos := 0\<rparr>))))"

text \<open>The frame has been sent: the next one starts fresh.\<close>

definition frame_done :: "'b uvc_state \<Rightarrow> 'b uvc_state" where
  "frame_done st = st\<lparr>uv_frame_len := 0, uv_fid := uv_fid st XOR 1, uv_frame_index := uv_frame_index st + 1\<rparr>"

text \<open>One packet: its payload, and the state after it.\<close>

definition uvc_packet :: "'b uvc_state \<Rightarrow> u32 \<Rightarrow> (bytes \<times> 'b uvc_state) cresult" where
  "uvc_packet st req =
     (let cap = req - 2; remain = uv_frame_len st - uv_frame_pos st; chunk = (if remain < cap then remain else cap);
          last = uv_frame_pos st + chunk \<ge> uv_frame_len st
      in if unat (uv_frame_pos st) + unat chunk > length (uv_frame st) then Undefined
         else Ret ([2, uv_fid st OR (if last then 2 else 0)] @ bytes_at (unat (uv_frame_pos st)) (unat chunk) (uv_frame st),
                (let st = st\<lparr>uv_frame_pos := uv_frame_pos st + chunk\<rparr> in if last then frame_done st else st)))"

fun uvc_pkts :: "'b \<Rightarrow> 'b uvc_state \<Rightarrow> u32 \<Rightarrow> bytes \<Rightarrow> u32 list \<Rightarrow> ('b \<times> 'b uvc_state \<times> u32 list \<times> bytes) cresult" where
  "uvc_pkts b st off buf [] = Ret (b, st, [], buf)"
| "uvc_pkts b st off buf (req # lens) =
     (if \<not> uv_streaming st \<or> req < 2 then
        bindc (uvc_pkts b st off buf lens) (\<lambda>(b, st, ls, buf). Ret (b, st, 0 # ls, buf))
      else bindc (if uv_frame_len st = 0 then produce_frame b st else Ret (b, st)) (\<lambda>(b, st).
           bindc (uvc_packet st req) (\<lambda>(pkt, st).
             if unat off + length pkt > length buf then Undefined
             else bindc (uvc_pkts b st (off + of_nat (length pkt)) (put_at (unat off) pkt buf) lens)
                (\<lambda>(b, st, ls, buf). Ret (b, st, of_nat (length pkt) # ls, buf)))))"

definition uvc_on_iso :: "'b \<Rightarrow> 'b uvc_state \<Rightarrow> u32 list \<Rightarrow> bytes \<Rightarrow> ('b \<times> 'b uvc_state \<times> u32 list \<times> bytes) cresult" where
  "uvc_on_iso b st lens buf = uvc_pkts b st 0 buf lens"

section \<open>Requests\<close>

abbreviation (input) UVC_PROBE_LEN :: nat where "UVC_PROBE_LEN \<equiv> 34"
abbreviation (input) UVC_CLOCK_HZ :: u32 where "UVC_CLOCK_HZ \<equiv> 48000000"
abbreviation (input) UVC_INTERVAL_HZ :: u32 where "UVC_INTERVAL_HZ \<equiv> 10000000"

definition fill_probe :: "'b uvc_state \<Rightarrow> bytes" where
  "fill_probe st = put_at 26 (le_bytes 4 UVC_CLOCK_HZ)
     (put_at 22 (le_bytes 4 (ucast (uv_iso_mps st) :: u32))
     (put_at 18 (le_bytes 4 (uv_max_frame_size st))
     (put_at 4 (le_bytes 4 (uv_cur_interval st))
     ((replicate UVC_PROBE_LEN 0)[0 := 1, 2 := uv_cur_format st, 3 := uv_cur_frame st]))))"

definition uvc_set_cur :: "'b uvc_state \<Rightarrow> bytes \<Rightarrow> u16 \<Rightarrow> 'b uvc_state" where
  "uvc_set_cur st d len =
     (let st = (if len \<ge> 4 \<and> d ! 2 \<noteq> 0 then st\<lparr>uv_cur_format := d ! 2\<rparr> else st);
          st = (if len \<ge> 4 \<and> d ! 3 \<noteq> 0 then st\<lparr>uv_cur_frame := d ! 3\<rparr> else st);
          iv = usb_get_le32 d 4
      in if len \<ge> 8 \<and> iv \<noteq> 0 then st\<lparr>uv_cur_interval := iv\<rparr> else st)"

text \<open>The log lines read \<open>fmt_char[cur_format]\<close>; past its four entries that has no defined result.\<close>

definition fmt_logged :: "'b uvc_state \<Rightarrow> bool" where
  "fmt_logged st \<longleftrightarrow> unat (uv_cur_format st) < length (uv_fmt_char st)"

definition uvc_control :: "'b uvc_state \<Rightarrow> usb_setup \<Rightarrow> bytes \<Rightarrow> u16 \<Rightarrow> ('b uvc_state \<times> int \<times> bytes) cresult" where
  "uvc_control st stp d len =
     (let cs = USB_U16_MSB (wValue stp); rq = bRequest stp
      in if cs \<noteq> 1 \<and> cs \<noteq> 2 then (if rq = 0x86 then ctl_reply stp d st [3] else Ret (st, - 1, []))
         else if rq = 0x86 then ctl_reply stp d st [3]
         else if rq = 0x85 then ctl_reply stp d st [of_nat UVC_PROBE_LEN, 0]
         else if rq \<in> {0x81, 0x82, 0x83, 0x87, 0x84} then ctl_reply stp d st (fill_probe st)
         else if rq = 0x01 then
           (if len \<ge> 4 \<and> length d < (if len \<ge> 8 then 8 else 4) then Undefined
            else (let st = uvc_set_cur st d len
                  in if cs = 2 \<and> \<not> fmt_logged st then Undefined else Ret (st, 0, [])))
         else Ret (st, - 1, []))"

definition uvc_set_alt :: "'b uvc_state \<Rightarrow> u8 \<Rightarrow> u8 \<Rightarrow> 'b uvc_state cresult" where
  "uvc_set_alt st ifnum alt =
     (if alt = 1 \<and> \<not> uv_streaming st then
        (if fmt_logged st then Ret (st\<lparr>uv_streaming := True, uv_frame_len := 0, uv_frame_pos := 0, uv_fid := 0, uv_frame_index := 0\<rparr>)
         else Undefined)
      else if alt = 0 \<and> uv_streaming st then Ret (st\<lparr>uv_streaming := False\<rparr>)
      else Ret st)"

section \<open>Building\<close>

definition USB_U32LE :: "u32 \<Rightarrow> bytes" where
  "USB_U32LE x = [ucast (x AND 0xff), ucast (drop_bit 8 x AND 0xff), ucast (drop_bit 16 x AND 0xff), ucast (drop_bit 24 x AND 0xff)]"

definition uvc_vc_descs :: "u8 \<Rightarrow> bytes list" where
  "uvc_vc_descs vs_if =
     [[13, 0x24, 1] @ USB_U16LE 0x0100 @ USB_U16LE (13 + 18 + 9) @ USB_U32LE UVC_CLOCK_HZ @ [1, vs_if],
      [18, 0x24, 2, 1] @ USB_U16LE 0x0201 @ [0, 0] @ USB_U16LE 0 @ USB_U16LE 0 @ USB_U16LE 0 @ [3, 0, 0, 0],
      [9, 0x24, 3, 2] @ USB_U16LE 0x0101 @ [0, 1, 0]]"

definition uvc_input_header :: "u8 \<Rightarrow> u16 \<Rightarrow> u8 \<Rightarrow> bytes" where
  "uvc_input_header nfmt vs_total vs_ep =
     [13 + nfmt, 0x24, 1, nfmt] @ USB_U16LE vs_total @ [vs_ep, 0, 2, 0, 0, 0, 1] @ replicate (unat nfmt) 0"

definition UVC_GUID_YUY2 :: bytes where
  "UVC_GUID_YUY2 = [89, 85, 89, 50, 0x00, 0x00, 0x10, 0x00, 0x80, 0x00, 0x00, 0xAA, 0x00, 0x38, 0x9B, 0x71]"

definition uvc_frame_desc :: "u8 \<Rightarrow> u32 \<Rightarrow> u32 \<Rightarrow> u32 \<Rightarrow> u32 \<Rightarrow> u32 \<Rightarrow> bytes" where
  "uvc_frame_desc subtype width height bitrate frame_bytes interval =
     [30, 0x24, subtype, 1, 0] @ USB_U16LE (ucast width) @ USB_U16LE (ucast height) @ USB_U32LE bitrate @ USB_U32LE bitrate
       @ USB_U32LE frame_bytes @ USB_U32LE interval @ [1] @ USB_U32LE interval"

definition uvc_color_desc :: bytes where
  "uvc_color_desc = [6, 0x24, 0x0D, 1, 1, 4]"

definition uvc_yuyv_descs :: "u8 \<Rightarrow> bytes \<Rightarrow> bytes list" where
  "uvc_yuyv_descs idx frame =
     [[27, 0x24, 4, idx, 1] @ UVC_GUID_YUY2 @ [16, 1, 0, 0, 0, 0], frame, uvc_color_desc]"

definition uvc_mjpeg_descs :: "u8 \<Rightarrow> bytes \<Rightarrow> bytes list" where
  "uvc_mjpeg_descs idx frame = [[11, 0x24, 6, idx, 1, 0, 1, 0, 0, 0, 0], frame, uvc_color_desc]"

text \<open>Descriptors one after the other.\<close>

definition add_descs :: "bytes list \<Rightarrow> 's usbip_function \<times> usbip_device \<Rightarrow> 's usbip_function \<times> usbip_device" where
  "add_descs ds s = fold (\<lambda>d (func, dev). usbip_interface_add_descriptor d func dev) ds s"

text \<open>
  The index of a format is its place among those offered, 0 without it; then the letters by index.
\<close>

definition uvc_formats :: "u32 \<Rightarrow> u8 \<times> u8 \<times> u8 \<times> u8 list" where
  "uvc_formats formats =
     (let yuyv = (if formats AND 1 \<noteq> 0 then 1 else 0 :: u8);
          mjpeg = (if formats AND 2 \<noteq> 0 then yuyv + 1 else 0);
          nfmt = (if mjpeg \<noteq> 0 then mjpeg else yuyv);
          cs = replicate 4 0;
          cs = (if yuyv \<noteq> 0 then cs[unat yuyv := 89] else cs);
          cs = (if mjpeg \<noteq> 0 then cs[unat mjpeg := 77] else cs)
      in (yuyv, mjpeg, nfmt, cs))"

text \<open>\<open>mem n\<close> is what \<open>malloc(n)\<close> gives: the block, with whatever it holds, or nothing.\<close>

definition uvc_build :: "(nat \<Rightarrow> bytes option) \<Rightarrow> 'b uvc_opts \<Rightarrow> ('s, 'b uvc_state) uc_build" where
  "uvc_build mem params uc func dev =
     (let opts = (if uo_formats params = 0 then params\<lparr>uo_formats := 1\<rparr> else params);
          width = ucast (uo_width opts) :: u32; height = ucast (uo_height opts) :: u32;
          fps = (if uo_fps opts \<noteq> 0 then uo_fps opts else 30);
          interval = UVC_INTERVAL_HZ div fps;
          frame_bytes = width * height * 2; bitrate = frame_bytes * 8 * fps;
          iso_mps = (if speed_code (speed dev) \<ge> speed_code USB_SPEED_HIGH then 1024 else 1023) :: u16;
          vs_if = of_nat (f_base_ifnum func + 1) :: u8;
          (yuyv, mjpeg, nfmt, fmts) = uvc_formats (uo_formats opts);
          vs_total = 13 + ucast nfmt + (if yuyv \<noteq> 0 then 27 + 30 + 6 else 0) + (if mjpeg \<noteq> 0 then 11 + 30 + 6 else 0) :: u16;
          dev = usbip_device_set_class 0xEF 0x02 0x01 dev;
          (func, dev, rc) = usbip_function_associate 2 0x0E 0x03 0x00 0 func dev
      in bindc (usbip_function_add_interface 0x0E 0x01 0 func dev) (\<lambda>(func, dev, vc).
         let (func, dev) = add_descs (uvc_vc_descs vs_if) (func, dev)
         in bindc (usbip_function_add_interface 0x0E 0x02 0 func dev) (\<lambda>(func, dev, vs).
         let (dev, vs_ep) = usbip_function_reserve_endpoint 0x81 func dev
         in if vs_ep = 0 then Ret (func, dev, None)
         else (let (func, dev) = add_descs (uvc_input_header nfmt vs_total vs_ep
                      # (if yuyv \<noteq> 0 then uvc_yuyv_descs yuyv (uvc_frame_desc 0x05 width height bitrate frame_bytes interval) else [])
                      @ (if mjpeg \<noteq> 0 then uvc_mjpeg_descs mjpeg (uvc_frame_desc 0x07 width height bitrate frame_bytes interval) else []))
                    (func, dev);
                   (func, dev, rc) = usbip_interface_add_altsetting vs 1 func dev;
                   (func, dev, e) = usbip_interface_add_endpoint (ep_desc vs_ep (1 OR 0x04 OR 0x00) iso_mps 1) func dev;
                   frame_cap = sint frame_bytes + 1024
               in if frame_cap \<ge> 2 ^ 31 then Undefined
                  else (case mem (unat (word_of_int frame_cap :: u64)) of
                      None \<Rightarrow> Ret (func, dev, None)
                    | Some frame \<Rightarrow> Ret (func, dev, Some \<lparr>uv_opts = opts, uv_cur_format = 1, uv_cur_frame = 1,
                        uv_cur_interval = interval, uv_max_frame_size = frame_bytes, uv_fmt_char = fmts, uv_streaming = False,
                        uv_frame_index = 0, uv_frame = frame, uv_frame_len = 0, uv_frame_pos = 0, uv_fid = 0,
                        uv_iso_mps = iso_mps\<rparr>))))))"

definition usbip_device_uvc :: "('b \<times> (handler \<Rightarrow> 'b uvc_state)) usbip_device_class" where
  "usbip_device_uvc = \<lparr>c_id = 6,
     c_control = Some (\<lambda>f (b, sts) stp d len. case uvc_control (sts f) stp d len of
        Ret (st, rc, r) \<Rightarrow> ((b, sts(f := st)), [], rc, r) | _ \<Rightarrow> ((b, sts), [], - 1, [])),
     c_set_alt = Some (\<lambda>f (b, sts) i a. case uvc_set_alt (sts f) i a of
        Ret st \<Rightarrow> ((b, sts(f := st)), []) | _ \<Rightarrow> ((b, sts), [])),
     c_on_out = None,
     c_on_iso = Some (\<lambda>f (b, sts) ep lens buf. case uvc_on_iso b (sts f) lens buf of
        Ret (b, st, lens, buf) \<Rightarrow> ((b, sts(f := st)), [], lens, buf) | _ \<Rightarrow> ((b, sts), [], lens, buf))\<rparr>"

definition uvc_add :: "(nat \<Rightarrow> bytes option) \<Rightarrow> 'b uvc_opts \<Rightarrow> 's usbip_device_class \<Rightarrow> nat \<Rightarrow> 's uc \<Rightarrow> usbip_device \<Rightarrow> ('s uc \<times> usbip_device \<times> (handler \<times> 'b uvc_state) option) cresult" where
  "uvc_add mem opts cls dv uc dev = usbip_device_add_class (uvc_build mem opts) cls dv uc dev"

end
