(* ===== verification/Uvc_Props.thy ===== *)
theory Uvc_Props
  imports Uvc
begin

text \<open>What a host puts together from the payloads of the video class is what the camera has produced.\<close>

lemma bindc_assoc: "bindc (bindc r f) g = bindc r (\<lambda>x. bindc (f x) g)"
  by (cases r) simp_all

lemma bytes_at_split: "k \<le> l \<Longrightarrow> bytes_at p l f = bytes_at p k f @ bytes_at (p + k) (l - k) f"
  using take_add [of k "l - k" "drop p f"] by (simp add: bytes_at_def add.commute)

section \<open>A host\<close>

text \<open>
  The receiver of the payload format: the first byte is the length of the payload header, bit 0 of the second one
  (FID) is the same throughout a frame and alternates from one to the next, bit 1 (EOF) marks the last payload of a
  frame. Anything else is refused. It gives the frames, the FID expected and what it has of the next frame.
\<close>

fun video_rx :: "u8 \<Rightarrow> bytes \<Rightarrow> bytes list \<Rightarrow> (bytes list \<times> u8 \<times> bytes) option" where
  "video_rx fid cur [] = Some ([], fid, cur)"
| "video_rx fid cur (p # ps) =
     (if length p < 2 \<or> p ! 0 \<noteq> 2 \<or> p ! 1 AND 1 \<noteq> fid then None
      else if p ! 1 AND 2 \<noteq> 0 then map_option (\<lambda>(fs, r). ((cur @ drop 2 p) # fs, r)) (video_rx (fid XOR 1) [] ps)
      else video_rx fid (cur @ drop 2 p) ps)"

text \<open>\<open>joined cur fs\<close>: what has arrived of a frame, before the rest of it.\<close>

fun joined :: "bytes \<Rightarrow> bytes list \<Rightarrow> bytes list" where
  "joined cur [] = []"
| "joined cur (f # fs) = (cur @ f) # fs"

lemma joined_Nil [simp]: "joined [] fs = fs"
  by (cases fs) simp_all

lemma joined_eq_Nil [simp]: "joined cur fs = [] \<longleftrightarrow> fs = []"
  by (cases fs) simp_all

lemma joined_joined [simp]: "joined a (joined c fs) = joined (a @ c) fs"
  by (cases fs) simp_all

lemma video_rx_append: "video_rx fid cur (ps @ qs)
   = Option.bind (video_rx fid cur ps) (\<lambda>(fs, fid, cur). map_option (\<lambda>(gs, r). (fs @ gs, r)) (video_rx fid cur qs))"
  by (induction fid cur ps rule: video_rx.induct)
    (auto simp: option.map_comp comp_def split_def map_option_bind bind_map_option option.map_ident split: option.splits)

section \<open>A camera\<close>

text \<open>
  The frames a camera in a state will still send: the rest of the one being sent, then those the source produces.
\<close>

primrec shoot :: "nat \<Rightarrow> 'b \<Rightarrow> 'b uvc_state \<Rightarrow> bytes list cresult" where
  "shoot 0 b st = Ret []"
| "shoot (Suc n) b st = bindc (if uv_frame_len st = 0 then produce_frame b st else Ret (b, st)) (\<lambda>(b, st).
     bindc (shoot n b (frame_done (st\<lparr>uv_frame_pos := uv_frame_len st\<rparr>))) (\<lambda>fs.
       Ret (bytes_at (unat (uv_frame_pos st)) (unat (uv_frame_len st) - unat (uv_frame_pos st)) (uv_frame st) # fs)))"

text \<open>
  A camera in order: a format it offers, a buffer of two bytes a pixel and the margin, and a source that stays within
  it; a frame being sent is within the buffer.
\<close>

definition source_fits :: "nat \<Rightarrow> ('b \<Rightarrow> nat \<Rightarrow> u8 \<Rightarrow> u32 \<Rightarrow> 'b \<times> int \<times> bytes) option \<Rightarrow> bool" where
  "source_fits cap src = (case src of None \<Rightarrow> True
     | Some f \<Rightarrow> (\<forall>b fmt i. case f b cap fmt i of (b, n, d) \<Rightarrow> n \<le> int cap \<and> length d \<le> cap))"

definition camera_ok :: "'b uvc_state \<Rightarrow> bool" where
  "camera_ok st \<longleftrightarrow> fmt_logged st
     \<and> unat (uo_width (uv_opts st)) * unat (uo_height (uv_opts st)) * 2 + 1024 = length (uv_frame st)
     \<and> length (uv_frame st) < 2 ^ 31 \<and> source_fits (length (uv_frame st)) (uo_next_frame (uv_opts st)) \<and> uv_fid st \<in> {0, 1}
     \<and> unat (uv_frame_len st) \<le> length (uv_frame st) \<and> (uv_frame_len st \<noteq> 0 \<longrightarrow> uv_frame_pos st < uv_frame_len st)"

lemma length_fold:
  "(\<And>x buf. x \<in> set xs \<Longrightarrow> length buf = n \<Longrightarrow> length (f x buf) = n) \<Longrightarrow> length buf = n \<Longrightarrow> length (fold f xs buf) = n"
  by (induction xs arbitrary: buf) simp_all

lemma length_bar_pair [simp]: "length (bar_pair w s x) = 4"
  by (simp add: bar_pair_def Let_def)

lemma length_bar_row:
  assumes "y < h" "(h - 1) * w * 2 + 4 * ((w + 1) div 2) \<le> length buf"
  shows "length (bar_row w s y buf) = length buf"
proof -
  have "y * w \<le> (h - 1) * w" using assms(1) by (intro mult_le_mono1) simp
  with assms(2) have "y * w * 2 + 4 * i + 4 \<le> length buf" if "i < (w + 1) div 2" for i using that by linarith
  then show ?thesis unfolding bar_row_def by (intro length_fold [where n = "length buf"]) (simp_all add: length_put_at)
qed

lemma bars_fit:
  assumes "w < 65536" "w * h * 2 + 1024 \<le> length buf"
  obtains buf' where "uvc_color_bars_yuyv buf (int w) (int h) idx = Ret buf'" "length buf' = length buf"
proof (cases "w = 0 \<or> h = 0")
  case True
  then show ?thesis using that by (auto simp: uvc_color_bars_yuyv_def Let_def)
next
  case False
  let ?p = "(w + 1) div 2" and ?s = "unat idx mod w"
  have s: "?s < w" using False by simp
  have "(h - 1) * w + w = h * w" using False by (cases h) simp_all
  then have fit: "(h - 1) * w * 2 + 4 * ?p \<le> length buf" using assms(2) by (simp add: mult.commute)
  have "(2 * ?p - 1 + ?s) * 8 < 2 ^ 31" using s assms(1) by simp
  moreover have "length (fold (bar_row w ?s) [0..<h] buf) = length buf"
    using fit by (intro length_fold) (simp_all add: length_bar_row)
  ultimately show ?thesis using that fit False by (simp add: uvc_color_bars_yuyv_def Let_def)
qed

lemma camera_ok_frame:
  assumes "camera_ok st" "length frame = length (uv_frame st)" "m \<le> length frame"
  shows "camera_ok (st\<lparr>uv_frame := frame, uv_frame_len := of_nat m, uv_frame_pos := 0\<rparr>)"
proof -
  have "unat (of_nat m :: u32) = m" using assms by (simp add: unat_of_nat camera_ok_def)
  then show ?thesis using assms
    by (simp add: camera_ok_def fmt_logged_def word_gt_0)
qed

lemma produce_frame_ok:
  assumes ok: "camera_ok st"
  obtains b' st' where "produce_frame b st = Ret (b', st')" "camera_ok st'" "uv_frame_pos st' = 0"
    "uv_streaming st' = uv_streaming st" "uv_fid st' = uv_fid st"
proof -
  let ?n = "length (uv_frame st)" and ?w = "unat (uo_width (uv_opts st))" and ?h = "unat (uo_height (uv_opts st))"
  obtain b' produced data where src: "(case uo_next_frame (uv_opts st) of
      Some f \<Rightarrow> f b ?n (uv_fmt_char st ! unat (uv_cur_format st)) (uv_frame_index st) | None \<Rightarrow> (b, - 1, [])) = (b', produced, data)"
    by (metis prod_cases3)
  have fits: "produced \<le> int ?n" "length data \<le> ?n"
    using src ok by (auto simp: camera_ok_def source_fits_def split: option.splits prod.splits)
  let ?frame = "put_at 0 data (uv_frame st)"
  have n: "?w * ?h * 2 + 1024 = ?n" "?n < 2 ^ 31" and logged: "unat (uv_cur_format st) < length (uv_fmt_char st)"
    using ok by (auto simp only: camera_ok_def fmt_logged_def)
  have n': "length ?frame = ?n" using fits by simp
  have i: "uint (uo_width (uv_opts st)) = int ?w" "uint (uo_height (uv_opts st)) = int ?h" by simp_all
  have w: "?w < 65536" using unsigned_less [of "uo_width (uv_opts st)"] by simp
  show ?thesis
  proof (cases "produced < 0")
    case True
    obtain frame where frame: "uvc_color_bars_yuyv ?frame (int ?w) (int ?h) (uv_frame_index st) = Ret frame" "length frame = ?n"
      using bars_fit [OF w, of ?h ?frame] n(1) n' by auto
    define m where "m = ?w * ?h * 2"
    have m: "uint (uo_width (uv_opts st)) * uint (uo_height (uv_opts st)) * 2 = int m" by (simp add: m_def)
    have small: "m < 2 ^ 31" "m \<le> ?n" using n unfolding m_def by linarith+
    have "produce_frame b st = Ret (b', st\<lparr>uv_frame := frame, uv_frame_len := of_nat m, uv_frame_pos := 0\<rparr>)"
      using True fits logged frame(1) small(1) unfolding i [symmetric] by (simp add: produce_frame_def Let_def src m)
    then show ?thesis by (rule that) (use ok frame(2) small(2) in \<open>simp_all add: camera_ok_frame\<close>)
  next
    case False
    define m where "m = nat produced"
    have m: "produced = int m" "m \<le> ?n" using False fits by (simp_all add: m_def)
    have "produce_frame b st = Ret (b', st\<lparr>uv_frame := ?frame, uv_frame_len := of_nat m, uv_frame_pos := 0\<rparr>)"
      using False fits logged by (simp add: produce_frame_def Let_def src m)
    then show ?thesis by (rule that) (use ok n' m(2) in \<open>simp_all add: camera_ok_frame\<close>)
  qed
qed

text \<open>A packet of a frame that has begun: the last one with the rest of it, or another one with a part.\<close>

lemma uvc_packet_ok:
  assumes "camera_ok st" "uv_frame_len st = 0 \<longrightarrow> uv_frame_pos st = 0" "2 \<le> req"
  obtains (last) "uvc_packet st req = Ret ([2, uv_fid st OR 2] @ bytes_at (unat (uv_frame_pos st))
        (unat (uv_frame_len st) - unat (uv_frame_pos st)) (uv_frame st), frame_done (st\<lparr>uv_frame_pos := uv_frame_len st\<rparr>))"
      "2 + (unat (uv_frame_len st) - unat (uv_frame_pos st)) \<le> unat req"
  | (part) k where "uvc_packet st req = Ret ([2, uv_fid st] @ bytes_at (unat (uv_frame_pos st)) k (uv_frame st),
        st\<lparr>uv_frame_pos := uv_frame_pos st + of_nat k\<rparr>)"
      "unat (uv_frame_pos st) + k < unat (uv_frame_len st)" "2 + k \<le> unat req"
proof -
  let ?p = "uv_frame_pos st" and ?l = "uv_frame_len st"
  have le: "?p \<le> ?l" "unat ?l \<le> length (uv_frame st)" using assms by (auto simp: camera_ok_def word_le_less_eq)
  have remain: "unat (?l - ?p) = unat ?l - unat ?p" by (rule unat_sub [OF le(1)])
  have room: "unat (req - 2) = unat req - 2" using unat_sub [OF assms(3)] by simp
  have "2 \<le> unat req" using assms(3) by (simp add: word_le_nat_alt)
  have l: "unat ?l < 2 ^ 32" using unsigned_less [of ?l] by simp
  have p: "unat ?p \<le> unat ?l" using le(1) by (simp add: word_le_nat_alt)
  show ?thesis
  proof (cases "?l - ?p \<le> req - 2")
    case True
    then have chunk: "(if ?l - ?p < req - 2 then ?l - ?p else req - 2) = ?l - ?p" by auto
    show ?thesis
    proof (rule last)
      show "2 + (unat ?l - unat ?p) \<le> unat req"
        using True remain room \<open>2 \<le> unat req\<close> by (simp add: word_le_nat_alt)
    qed (use le p remain in \<open>simp add: uvc_packet_def Let_def chunk\<close>)
  next
    case False
    define k where "k = unat (req - 2)"
    have k: "of_nat k = req - 2" by (simp add: k_def)
    have chunk: "(if ?l - ?p < req - 2 then ?l - ?p else req - 2) = of_nat k" using False k by auto
    have "k < unat ?l - unat ?p" using False remain by (simp add: k_def word_le_nat_alt)
    then have less: "unat ?p + k < unat ?l" by simp
    then have pos: "unat (?p + of_nat k) = unat ?p + k" "unat (of_nat k :: u32) = k"
      using l by (simp_all add: unat_word_ariths unat_of_nat k_def)
    then have "\<not> ?l \<le> ?p + of_nat k" using less by (simp add: word_le_nat_alt)
    then show ?thesis
      using less le pos room \<open>2 \<le> unat req\<close> by (intro part [of k]) (simp_all add: uvc_packet_def Let_def chunk k_def [symmetric])
  qed
qed

definition uvc_next :: "'b \<Rightarrow> 'b uvc_state \<Rightarrow> u32 \<Rightarrow> ('b \<times> bytes \<times> 'b uvc_state) cresult" where
  "uvc_next b st req = bindc (if uv_frame_len st = 0 then produce_frame b st else Ret (b, st)) (\<lambda>(b, st).
     bindc (uvc_packet st req) (\<lambda>(pkt, st). Ret (b, pkt, st)))"

text \<open>One packet moves the camera on by what the host gets.\<close>

lemma uvc_next_ok:
  assumes "camera_ok st" "2 \<le> req"
  obtains b' pkt st' fs cur where "uvc_next b st req = Ret (b', pkt, st')" "camera_ok st'" "uv_streaming st' = uv_streaming st"
    "2 \<le> length pkt" "length pkt \<le> unat req" "video_rx (uv_fid st) [] [pkt] = Some (fs, uv_fid st', cur)"
    "\<And>n. shoot (length fs + n) b st = bindc (shoot n b' st') (\<lambda>xs. Ret (fs @ joined cur xs))"
proof -
  obtain b1 st1 where s1: "(if uv_frame_len st = 0 then produce_frame b st else Ret (b, st)) = Ret (b1, st1)" "camera_ok st1"
    "uv_streaming st1 = uv_streaming st" "uv_fid st1 = uv_fid st" "uv_frame_len st1 = 0 \<longrightarrow> uv_frame_pos st1 = 0"
  proof (cases "uv_frame_len st = 0")
    case True
    then show ?thesis using produce_frame_ok [OF assms(1), of b] that by metis
  qed (use assms(1) that in auto)
  have fid: "uv_fid st \<in> {0, 1}" using assms(1) by (simp add: camera_ok_def)
  show ?thesis
  proof (cases rule: uvc_packet_ok [OF s1(2) s1(5) assms(2), case_names last part])
    case last
    let ?d = "bytes_at (unat (uv_frame_pos st1)) (unat (uv_frame_len st1) - unat (uv_frame_pos st1)) (uv_frame st1)"
    let ?st' = "frame_done (st1\<lparr>uv_frame_pos := uv_frame_len st1\<rparr>)"
    have len: "length ?d \<le> unat (uv_frame_len st1) - unat (uv_frame_pos st1)" by (simp add: bytes_at_def)
    show ?thesis
    proof (rule that [of b1 "[2, uv_fid st1 OR 2] @ ?d" ?st' "[?d]" "[]"])
      show "uvc_next b st req = Ret (b1, [2, uv_fid st1 OR 2] @ ?d, ?st')"
        by (simp only: uvc_next_def s1(1) bindc_simps split last(1))
      show "camera_ok ?st'" using s1(2) by (auto simp: camera_ok_def frame_done_def fmt_logged_def)
      show "video_rx (uv_fid st) [] [[2, uv_fid st1 OR 2] @ ?d] = Some ([?d], uv_fid ?st', [])"
        using fid s1(4) by (auto simp: frame_done_def)
      show "shoot (length [?d] + n) b st = bindc (shoot n b1 ?st') (\<lambda>xs. Ret ([?d] @ joined [] xs))" for n
        by (simp add: s1(1))
    qed (use last(2) len s1(3) in \<open>simp_all add: frame_done_def\<close>)
  next
    case (part k)
    let ?d = "bytes_at (unat (uv_frame_pos st1)) k (uv_frame st1)"
    let ?st' = "st1\<lparr>uv_frame_pos := uv_frame_pos st1 + of_nat k\<rparr>"
    have len: "length ?d \<le> k" by (simp add: bytes_at_def)
    have l: "unat (uv_frame_len st1) < 2 ^ 32" using unsigned_less [of "uv_frame_len st1"] by simp
    then have pos: "unat (uv_frame_pos st1 + of_nat k) = unat (uv_frame_pos st1) + k"
      using part(2) by (simp add: unat_word_ariths unat_of_nat)
    have "uv_frame_len st1 \<noteq> 0" using part(2) by auto
    show ?thesis
    proof (rule that [of b1 "[2, uv_fid st1] @ ?d" ?st' "[]" ?d])
      show "uvc_next b st req = Ret (b1, [2, uv_fid st1] @ ?d, ?st')"
        by (simp only: uvc_next_def s1(1) bindc_simps split part(1))
      show "camera_ok ?st'" using s1(2) part(2) pos
        by (auto simp: camera_ok_def fmt_logged_def word_less_nat_alt)
      show "video_rx (uv_fid st) [] [[2, uv_fid st1] @ ?d] = Some ([], uv_fid ?st', ?d)"
        using fid s1(4) by auto
      show "shoot (length [] + n) b st = bindc (shoot n b1 ?st') (\<lambda>xs. Ret ([] @ joined ?d xs))" for n
      proof (cases n)
        case (Suc m)
        have "bytes_at (unat (uv_frame_pos st1)) (unat (uv_frame_len st1) - unat (uv_frame_pos st1)) (uv_frame st1)
            = ?d @ bytes_at (unat (uv_frame_pos st1) + k) (unat (uv_frame_len st1) - (unat (uv_frame_pos st1) + k)) (uv_frame st1)"
          using bytes_at_split [of k "unat (uv_frame_len st1) - unat (uv_frame_pos st1)" "unat (uv_frame_pos st1)" "uv_frame st1"] part(2)
          by (simp add: diff_diff_eq)
        then show ?thesis using \<open>uv_frame_len st1 \<noteq> 0\<close> pos by (simp add: Suc s1(1) bindc_assoc)
      qed simp
    qed (use part(3) len s1(3) in simp_all)
  qed
qed

section \<open>Transfers\<close>

text \<open>The packets of a transfer follow one another in the buffer; a host passes over the empty ones.\<close>

fun payloads :: "u32 list \<Rightarrow> bytes \<Rightarrow> bytes list" where
  "payloads [] buf = []"
| "payloads (l # ls) buf = (if l = 0 then payloads ls buf else take (unat l) buf # payloads ls (drop (unat l) buf))"

text \<open>Transfers one after the other, each with its packets and its buffer: the payloads the host receives.\<close>

fun video_run :: "'b \<Rightarrow> 'b uvc_state \<Rightarrow> (u32 list \<times> bytes) list \<Rightarrow> ('b \<times> 'b uvc_state \<times> bytes list) cresult" where
  "video_run b st [] = Ret (b, st, [])"
| "video_run b st ((lens, buf) # ts) = bindc (uvc_on_iso b st lens buf) (\<lambda>(b, st, lens, buf).
     bindc (video_run b st ts) (\<lambda>(b, st, more). Ret (b, st, payloads lens buf @ more)))"

text \<open>What has been sent and received, from a state to a later one.\<close>

definition streamed :: "'b \<Rightarrow> 'b uvc_state \<Rightarrow> bytes list \<Rightarrow> bytes list \<Rightarrow> bytes \<Rightarrow> 'b \<Rightarrow> 'b uvc_state \<Rightarrow> bool" where
  "streamed b st ps fs cur b' st' \<longleftrightarrow> video_rx (uv_fid st) [] ps = Some (fs, uv_fid st', cur)
     \<and> (\<forall>n. shoot (length fs + n) b st = bindc (shoot n b' st') (\<lambda>xs. Ret (fs @ joined cur xs)))"

lemma streamed_refl: "streamed b st [] [] [] b st"
  by (simp add: streamed_def bindc_def split: cresult.split)

lemma video_rx_cur: "video_rx fid cur ps = map_option (\<lambda>(fs, f, c). if fs = [] then ([], f, cur @ c) else (joined cur fs, f, c)) (video_rx fid [] ps)"
proof (induction ps arbitrary: cur)
  case (Cons p ps)
  have "video_rx fid (cur @ drop 2 p) ps = map_option (\<lambda>(fs, f, c). if fs = [] then ([], f, cur @ c) else (joined cur fs, f, c))
      (video_rx fid (drop 2 p) ps)"
    unfolding Cons.IH [of "cur @ drop 2 p"] Cons.IH [of "drop 2 p"]
    by (auto simp: option.map_comp split_def intro!: option.map_cong)
  then show ?case by (auto simp: option.map_comp comp_def split_def)
qed simp

lemma joined_append: "joined cur (gs @ ys) = (if gs = [] then joined cur ys else joined cur gs @ ys)"
  by (cases gs) simp_all

lemma length_joined [simp]: "length (joined cur gs) = length gs"
  by (cases gs) simp_all

lemma streamed_trans:
  assumes "streamed b st ps fs cur b1 st1" "streamed b1 st1 qs gs c b2 st2"
  shows "streamed b st (ps @ qs) (fs @ joined cur gs) (if gs = [] then cur @ c else c) b2 st2"
proof -
  have "video_rx (uv_fid st) [] (ps @ qs) = Some (fs @ joined cur gs, uv_fid st2, if gs = [] then cur @ c else c)"
    using assms by (simp add: streamed_def video_rx_append video_rx_cur [of _ cur])
  moreover have "shoot (length (fs @ joined cur gs) + n) b st
      = bindc (shoot n b2 st2) (\<lambda>xs. Ret ((fs @ joined cur gs) @ joined (if gs = [] then cur @ c else c) xs))" for n
    using assms by (simp add: streamed_def add.assoc bindc_assoc joined_append)
  ultimately show ?thesis by (simp add: streamed_def)
qed

lemma uvc_pkts_next:
  assumes "uv_streaming st" "2 \<le> req"
  shows "uvc_pkts (b :: 'b) st off buf (req # lens) = bindc (uvc_next b st req) (\<lambda>(b, pkt, st).
     if unat off + length pkt > length buf then Undefined
     else bindc (uvc_pkts b st (off + of_nat (length pkt)) (put_at (unat off) pkt buf) lens)
       (\<lambda>(b, st, ls, buf). Ret (b, st, of_nat (length pkt) # ls, buf)))"
proof -
  have "\<not> (\<not> uv_streaming st \<or> req < 2)" using assms by simp
  moreover have "bindc r (\<lambda>(b, st). bindc (uvc_packet st req) (\<lambda>(pkt, st). k b pkt st))
      = bindc (bindc r (\<lambda>(b, st). bindc (uvc_packet st req) (\<lambda>(pkt, st). Ret (b, pkt, st)))) (\<lambda>(b, pkt, st). k b pkt st)"
    for r :: "('b \<times> 'b uvc_state) cresult" and k :: "'b \<Rightarrow> bytes \<Rightarrow> 'b uvc_state \<Rightarrow> ('b \<times> 'b uvc_state \<times> u32 list \<times> bytes) cresult"
    by (simp add: bindc_def split: cresult.split prod.split)
  ultimately show ?thesis by (simp only: uvc_pkts.simps uvc_next_def if_False)
qed

lemma uvc_pkts_ok:
  assumes "camera_ok st" "uv_streaming st" "unat off + sum_list (map unat lens) \<le> length buf" "length buf < 2 ^ 32"
  shows "\<exists>b' st' ls buf' fs cur. uvc_pkts b st off buf lens = Ret (b', st', ls, buf') \<and> camera_ok st' \<and> uv_streaming st'
    \<and> take (unat off) buf' = take (unat off) buf \<and> length buf' = length buf
    \<and> streamed b st (payloads ls (drop (unat off) buf')) fs cur b' st'"
  using assms
proof (induction lens arbitrary: b st off buf)
  case Nil
  then show ?case using streamed_refl by fastforce
next
  case (Cons req lens)
  show ?case
  proof (cases "req < 2")
    case True
    obtain b' st' ls buf' fs cur where "uvc_pkts b st off buf lens = Ret (b', st', ls, buf')" "camera_ok st'" "uv_streaming st'"
      "take (unat off) buf' = take (unat off) buf" "length buf' = length buf"
      "streamed b st (payloads ls (drop (unat off) buf')) fs cur b' st'"
      using Cons.IH [of st off buf b] Cons.prems by auto
    then show ?thesis using True by auto
  next
    case False
    then have "2 \<le> req" by simp
    obtain b1 pkt st1 fs1 cur1 where pkt: "uvc_next b st req = Ret (b1, pkt, st1)" "camera_ok st1" "uv_streaming st1 = uv_streaming st"
      "2 \<le> length pkt" "length pkt \<le> unat req" "video_rx (uv_fid st) [] [pkt] = Some (fs1, uv_fid st1, cur1)"
      "\<And>n. shoot (length fs1 + n) b st = bindc (shoot n b1 st1) (\<lambda>xs. Ret (fs1 @ joined cur1 xs))"
      by (rule uvc_next_ok [OF Cons.prems(1) \<open>2 \<le> req\<close>, of b]) (rule that)
    have one: "streamed b st [pkt] fs1 cur1 b1 st1" using pkt(6,7) by (simp add: streamed_def)
    let ?off = "off + of_nat (length pkt)" and ?buf = "put_at (unat off) pkt buf"
    have room: "unat off + unat req + sum_list (map unat lens) \<le> length buf" using Cons.prems(3) by simp
    have l: "unat (of_nat (length pkt) :: u32) = length pkt" using room pkt(5) Cons.prems(4) by (simp add: unat_of_nat)
    have off: "unat ?off = unat off + length pkt" using room pkt(5) Cons.prems(4) l by (simp add: unat_word_ariths)
    have buf: "length ?buf = length buf" using room pkt(5) by simp
    obtain b' st' ls buf' fs cur where r: "uvc_pkts b1 st1 ?off ?buf lens = Ret (b', st', ls, buf')" "camera_ok st'" "uv_streaming st'"
      "take (unat ?off) buf' = take (unat ?off) ?buf" "length buf' = length buf"
      "streamed b1 st1 (payloads ls (drop (unat ?off) buf')) fs cur b' st'"
      using Cons.IH [of st1 ?off ?buf b1] Cons.prems pkt(2,3,5) room off buf by auto
    have nz: "(of_nat (length pkt) :: u32) \<noteq> 0" using l pkt(4) by force
    have "take (unat ?off) buf' = take (unat off) buf @ pkt"
      using r(4) off room pkt(5) by (simp add: put_at_def)
    moreover have "buf' = take (unat ?off) buf' @ drop (unat ?off) buf'" by simp
    ultimately have e: "buf' = take (unat off) buf @ pkt @ drop (unat ?off) buf'" by simp
    have lo: "length (take (unat off) buf) = unat off" using room by simp
    have d: "drop (unat off) buf' = pkt @ drop (unat ?off) buf'" "take (unat off) buf' = take (unat off) buf"
      by (subst e, use lo in simp)+
    have "payloads (of_nat (length pkt) # ls) (drop (unat off) buf') = [pkt] @ payloads ls (drop (unat ?off) buf')"
      using nz l by (simp add: d(1))
    then have "streamed b st (payloads (of_nat (length pkt) # ls) (drop (unat off) buf')) (fs1 @ joined cur1 fs)
        (if fs = [] then cur1 @ cur else cur) b' st'"
      using streamed_trans [OF one r(6)] by simp
    moreover have "uvc_pkts b st off buf (req # lens) = Ret (b', st', of_nat (length pkt) # ls, buf')"
      using r(1) room pkt(5) by (simp add: uvc_pkts_next [OF Cons.prems(2) \<open>2 \<le> req\<close>] pkt(1) del: uvc_pkts.simps)
    ultimately show ?thesis using r(2,3,5) d(2) buf by blast
  qed
qed

lemma video_run_ok:
  assumes "camera_ok st" "uv_streaming st"
    and "list_all (\<lambda>(lens, buf). sum_list (map unat lens) \<le> length buf \<and> length buf < 2 ^ 32) ts"
  shows "\<exists>b' st' ps fs cur. video_run b st ts = Ret (b', st', ps) \<and> streamed b st ps fs cur b' st'"
  using assms
proof (induction ts arbitrary: b st)
  case Nil
  then show ?case using streamed_refl by fastforce
next
  case (Cons t ts)
  obtain lens buf where t: "t = (lens, buf)" by (cases t)
  obtain b1 st1 ls buf' fs cur where one: "uvc_on_iso b st lens buf = Ret (b1, st1, ls, buf')" "camera_ok st1" "uv_streaming st1"
    "streamed b st (payloads ls buf') fs cur b1 st1"
    using uvc_pkts_ok [of st 0 lens buf b] Cons.prems t by (auto simp: uvc_on_iso_def)
  obtain b' st' ps gs c where "video_run b1 st1 ts = Ret (b', st', ps)" "streamed b1 st1 ps gs c b' st'"
    using Cons.IH [OF one(2,3), of b1] Cons.prems(3) by auto
  then show ?case using streamed_trans [OF one(4)] one(1) by (fastforce simp: t)
qed

text \<open>C29: A host gets exactly the frames of the camera, in order: however it asks for them, in any transfers of any
  packets of any lengths, the payloads are well-formed, alternate their FID from frame to frame, and what the host has
  put together followed by what the camera still has to send is what the source gives, frame by frame.\<close>

theorem video_frames_are_reassembled:
  assumes "camera_ok st" and "uv_streaming st"
    and "list_all (\<lambda>(lens, buf). sum_list (map unat lens) \<le> length buf \<and> length buf < 2 ^ 32) ts"
  shows "\<exists>b' st' ps fs cur. video_run b st ts = Ret (b', st', ps) \<and> video_rx (uv_fid st) [] ps = Some (fs, uv_fid st', cur)
    \<and> (\<forall>n. shoot (length fs + n) b st = bindc (shoot n b' st') (\<lambda>xs. Ret (fs @ joined cur xs)))"
  using video_run_ok [OF assms, of b] by (simp add: streamed_def)

text \<open>A source of three bytes more in every frame than in the one before, starting with none.\<close>

definition demo_source :: "nat \<Rightarrow> nat \<Rightarrow> u8 \<Rightarrow> u32 \<Rightarrow> nat \<times> int \<times> bytes" where
  "demo_source b cap fmt i = (let n = min (3 * b) cap in (b + 1, int n, map of_nat [0..<n]))"

definition demo_camera :: "nat uvc_state" where
  "demo_camera = \<lparr>uv_opts = \<lparr>uo_width = 3, uo_height = 2, uo_fps = 0, uo_formats = 2, uo_next_frame = Some demo_source\<rparr>,
     uv_cur_format = 1, uv_cur_frame = 1, uv_cur_interval = 0, uv_max_frame_size = 12, uv_fmt_char = [0, 77, 0, 0],
     uv_streaming = True, uv_frame_index = 0, uv_frame = replicate 1036 9, uv_frame_len = 0, uv_frame_pos = 0,
     uv_fid = 0, uv_iso_mps = 1023\<rparr>"

definition demo_asks :: "(u32 list \<times> bytes) list" where
  "demo_asks = [([5, 1, 0, 4], replicate 10 0), ([6, 6, 2, 6], replicate 20 0)]"

lemma demo_camera_ok: "camera_ok demo_camera"
  by (simp add: camera_ok_def demo_camera_def fmt_logged_def source_fits_def demo_source_def Let_def)

theorem video_frames_are_reassembled_witness:
  "\<exists>ps fs cur. (case video_run 0 demo_camera demo_asks of Ret (b, st, qs) \<Rightarrow> qs = ps | _ \<Rightarrow> False) \<and> ps \<noteq> []
     \<and> video_rx 0 [] ps = Some (fs, fst (snd (the (video_rx 0 [] ps))), cur) \<and> shoot (length fs) 0 demo_camera = Ret fs"
proof -
  have asks: "list_all (\<lambda>(lens, buf). sum_list (map unat lens) \<le> length buf \<and> length buf < 2 ^ 32) demo_asks"
    by (simp add: demo_asks_def)
  have on: "uv_streaming demo_camera" by (simp add: demo_camera_def)
  obtain b' st' ps fs cur where r: "video_run 0 demo_camera demo_asks = Ret (b', st', ps)"
    "video_rx (uv_fid demo_camera) [] ps = Some (fs, uv_fid st', cur)"
    "\<forall>n. shoot (length fs + n) 0 demo_camera = bindc (shoot n b' st') (\<lambda>xs. Ret (fs @ joined cur xs))"
    using video_frames_are_reassembled [OF demo_camera_ok on asks] by blast
  have "shoot (length fs) 0 demo_camera = Ret fs" using spec [OF r(3), of 0] by simp
  moreover have "case video_run 0 demo_camera demo_asks of Ret (b, st, qs) \<Rightarrow> qs \<noteq> [] | _ \<Rightarrow> False" by code_simp
  ultimately show ?thesis using r(1,2) by (auto simp: demo_camera_def)
qed

end
