(* ===== verification/Libusb.thy ===== *)
theory Libusb
  imports Host Usb_Class
begin

text \<open>
  The libusb-1.0 library over USB/IP (\<open>wrapper/libusb-1.0/libusb.c\<close> and the inline helpers of its
  \<open>libusb.h\<close>), without the event machinery, which is \<open>Libusb_Async\<close>. A connection is a parameter, as in
  \<open>Host\<close>; a device is its index in the table of devices, a handle is a record. Allocations are taken to succeed.
  The calls that do nothing (options, kernel drivers, hotplug) are left out.
\<close>

section \<open>Errors, speeds and capabilities\<close>

abbreviation (input) LIBUSB_ERROR_IO :: int where "LIBUSB_ERROR_IO \<equiv> - 1"
abbreviation (input) LIBUSB_ERROR_INVALID_PARAM :: int where "LIBUSB_ERROR_INVALID_PARAM \<equiv> - 2"
abbreviation (input) LIBUSB_ERROR_NO_DEVICE :: int where "LIBUSB_ERROR_NO_DEVICE \<equiv> - 4"
abbreviation (input) LIBUSB_ERROR_NOT_FOUND :: int where "LIBUSB_ERROR_NOT_FOUND \<equiv> - 5"
abbreviation (input) LIBUSB_ERROR_OVERFLOW :: int where "LIBUSB_ERROR_OVERFLOW \<equiv> - 8"
abbreviation (input) LIBUSB_ERROR_OTHER :: int where "LIBUSB_ERROR_OTHER \<equiv> - 99"

definition libusb_error_name :: "int \<Rightarrow> string" where
  "libusb_error_name e =
     (if e = 0 then ''LIBUSB_SUCCESS'' else if e = - 1 then ''LIBUSB_ERROR_IO''
      else if e = - 2 then ''LIBUSB_ERROR_INVALID_PARAM'' else if e = - 3 then ''LIBUSB_ERROR_ACCESS''
      else if e = - 4 then ''LIBUSB_ERROR_NO_DEVICE'' else if e = - 5 then ''LIBUSB_ERROR_NOT_FOUND''
      else if e = - 6 then ''LIBUSB_ERROR_BUSY'' else if e = - 7 then ''LIBUSB_ERROR_TIMEOUT''
      else if e = - 8 then ''LIBUSB_ERROR_OVERFLOW'' else if e = - 9 then ''LIBUSB_ERROR_PIPE''
      else if e = - 10 then ''LIBUSB_ERROR_INTERRUPTED'' else if e = - 11 then ''LIBUSB_ERROR_NO_MEM''
      else if e = - 12 then ''LIBUSB_ERROR_NOT_SUPPORTED'' else if e = - 99 then ''LIBUSB_ERROR_OTHER''
      else ''LIBUSB_ERROR_UNKNOWN'')"

definition libusb_strerror :: "int \<Rightarrow> string" where
  "libusb_strerror e = usb_strerror e"

definition libusb_has_capability :: "u32 \<Rightarrow> int" where
  "libusb_has_capability c = (if c = 0x0000 then 1 else if c = 0x0100 then 1 else if c = 0x0001 then 0 else if c = 0x0101 then 0 else 0)"

datatype libusb_transfer_status = LIBUSB_TRANSFER_COMPLETED | LIBUSB_TRANSFER_ERROR | LIBUSB_TRANSFER_TIMED_OUT
  | LIBUSB_TRANSFER_CANCELLED | LIBUSB_TRANSFER_STALL | LIBUSB_TRANSFER_NO_DEVICE | LIBUSB_TRANSFER_OVERFLOW

definition map_status :: "int \<Rightarrow> libusb_transfer_status" where
  "map_status rc =
     (if rc = USB_SUCCESS then LIBUSB_TRANSFER_COMPLETED
      else if rc = USB_ERROR_PIPE then LIBUSB_TRANSFER_STALL
      else if rc = USB_ERROR_NO_DEVICE then LIBUSB_TRANSFER_NO_DEVICE
      else if rc = USB_ERROR_TIMEOUT then LIBUSB_TRANSFER_TIMED_OUT
      else LIBUSB_TRANSFER_ERROR)"

section \<open>Contexts\<close>

text \<open>\<open>atoi\<close>: blanks, a sign, digits.\<close>

fun digits_value :: "int \<Rightarrow> bytes \<Rightarrow> int" where
  "digits_value acc [] = acc"
| "digits_value acc (c # cs) = (if 48 \<le> c \<and> c \<le> 57 then digits_value (10 * acc + (uint c - 48)) cs else acc)"

definition atoi :: "bytes \<Rightarrow> int" where
  "atoi s = (case dropWhile (\<lambda>c. c = 32 \<or> (9 \<le> c \<and> c \<le> 13)) s of
       [] \<Rightarrow> 0
     | c # cs \<Rightarrow> (if c = 45 then - digits_value 0 cs else if c = 43 then digits_value 0 cs else digits_value 0 (c # cs)))"

text \<open>The server named by the environment.\<close>

definition ctx_new :: "bytes option \<Rightarrow> bytes option \<Rightarrow> usb_transport" where
  "ctx_new host ports = usbip_transport host (case ports of None \<Rightarrow> 0 | Some p \<Rightarrow> atoi p)"

text \<open>The default context and the number of its users.\<close>

record libusb_globals =
  g_default :: "usb_transport option"
  g_default_rc :: int

definition libusb_init_default :: "bytes option \<Rightarrow> bytes option \<Rightarrow> libusb_globals \<Rightarrow> libusb_globals" where
  "libusb_init_default host ports g =
     g\<lparr>g_default := (case g_default g of None \<Rightarrow> Some (ctx_new host ports) | Some c \<Rightarrow> Some c),
       g_default_rc := g_default_rc g + 1\<rparr>"

definition libusb_exit_default :: "libusb_globals \<Rightarrow> libusb_globals" where
  "libusb_exit_default g =
     (if g_default_rc g > 0 then
        (let g = g\<lparr>g_default_rc := g_default_rc g - 1\<rparr>
         in if g_default_rc g = 0 then g\<lparr>g_default := None\<rparr> else g)
      else g)"

definition resolve_ctx :: "usb_transport option \<Rightarrow> libusb_globals \<Rightarrow> usb_transport option" where
  "resolve_ctx ctx g = (case ctx of Some c \<Rightarrow> Some c | None \<Rightarrow> g_default g)"

section \<open>Devices and their references\<close>

text \<open>A freed device is \<open>None\<close>; what uses it afterwards has no defined result.\<close>

record libusb_device =
  lb_refcnt :: int
  lb_info :: usbip_devinfo
  lb_cfg_raw :: "bytes option"

type_synonym lu_devices = "libusb_device option list"

definition device_of :: "nat \<Rightarrow> lu_devices \<Rightarrow> libusb_device cresult" where
  "device_of d ds = (if d < length ds then (case ds ! d of Some x \<Rightarrow> Ret x | None \<Rightarrow> Undefined) else Undefined)"

text \<open>The count or the error, and the list.\<close>

definition libusb_get_device_list :: "sock option \<Rightarrow> lu_devices \<Rightarrow> int \<times> nat list \<times> lu_devices" where
  "libusb_get_device_list c ds =
     (case c of
        None \<Rightarrow> (LIBUSB_ERROR_IO, [], ds)
      | Some s \<Rightarrow> (let ((count, infos), s) = usbip_client_devlist 16 s
                   in if count < 0 then (count, [], ds)
                      else (count, map (\<lambda>i. length ds + i) [0..<length infos],
                        ds @ map (\<lambda>i. Some \<lparr>lb_refcnt = 1, lb_info = i, lb_cfg_raw = None\<rparr>) infos)))"

definition libusb_ref_device :: "nat \<Rightarrow> lu_devices \<Rightarrow> lu_devices cresult" where
  "libusb_ref_device d ds = bindc (device_of d ds) (\<lambda>x. Ret (ds[d := Some (x\<lparr>lb_refcnt := lb_refcnt x + 1\<rparr>)]))"

definition libusb_unref_device :: "nat \<Rightarrow> lu_devices \<Rightarrow> lu_devices cresult" where
  "libusb_unref_device d ds = bindc (device_of d ds) (\<lambda>x.
     let n = lb_refcnt x - 1 in Ret (ds[d := if n \<le> 0 then None else Some (x\<lparr>lb_refcnt := n\<rparr>)]))"

fun libusb_free_device_list :: "nat list \<Rightarrow> bool \<Rightarrow> lu_devices \<Rightarrow> lu_devices cresult" where
  "libusb_free_device_list [] unref ds = Ret ds"
| "libusb_free_device_list (d # l) unref ds =
     bindc (if unref then libusb_unref_device d ds else Ret ds) (libusb_free_device_list l unref)"

definition libusb_get_bus_number :: "usbip_devinfo \<Rightarrow> u8" where
  "libusb_get_bus_number i = ucast (di_busnum i)"

definition libusb_get_device_address :: "usbip_devinfo \<Rightarrow> u8" where
  "libusb_get_device_address i = ucast (di_devnum i)"

definition libusb_get_port_numbers :: "int \<Rightarrow> int \<times> bytes" where
  "libusb_get_port_numbers len = (if len > 0 then (1, [1]) else (LIBUSB_ERROR_OVERFLOW, []))"

definition libusb_get_device_speed :: "usbip_devinfo \<Rightarrow> int" where
  "libusb_get_device_speed i =
     (let s = di_speed i in if s = 1 then 1 else if s = 2 then 2 else if s = 3 then 3 else if s = 5 then 4 else if s = 6 then 5 else 0)"

section \<open>Open and close\<close>

record libusb_device_handle =
  lh_dev :: nat
  lh_devid :: u32
  lh_seq :: u32
  lh_sock :: sock

definition libusb_open :: "sock option \<Rightarrow> nat \<Rightarrow> lu_devices \<Rightarrow> (int \<times> libusb_device_handle option \<times> lu_devices) cresult" where
  "libusb_open c d ds = bindc (device_of d ds) (\<lambda>x.
     case c of
       None \<Rightarrow> Ret (LIBUSB_ERROR_IO, None, ds)
     | Some s \<Rightarrow>
         (case usbip_client_import (di_busid (lb_info x)) s of
            ((rc, Some imp), s) \<Rightarrow>
              (if rc \<noteq> USB_SUCCESS then Ret (LIBUSB_ERROR_NO_DEVICE, None, ds)
               else bindc (libusb_ref_device d ds) (\<lambda>ds. Ret (0,
                 Some \<lparr>lh_dev = d, lh_devid = push_bit 16 (di_busnum imp) OR di_devnum imp, lh_seq = 0, lh_sock = s\<rparr>, ds)))
          | ((rc, None), s) \<Rightarrow> Ret (LIBUSB_ERROR_NO_DEVICE, None, ds)))"

definition libusb_close :: "libusb_device_handle \<Rightarrow> lu_devices \<Rightarrow> lu_devices cresult" where
  "libusb_close h ds = libusb_unref_device (lh_dev h) ds"

text \<open>The list is only read while it is whole: the device matched is in it.\<close>

definition libusb_open_device_with_vid_pid ::
  "sock option \<Rightarrow> sock option \<Rightarrow> u16 \<Rightarrow> u16 \<Rightarrow> lu_devices \<Rightarrow> (libusb_device_handle option \<times> lu_devices) cresult" where
  "libusb_open_device_with_vid_pid c1 c2 v p ds =
     (let (count, l, ds) = libusb_get_device_list c1 ds in
      if count < 0 then Ret (None, ds)
      else bindc (case find (\<lambda>d. case ds ! d of Some x \<Rightarrow> di_vid (lb_info x) = v \<and> di_pid (lb_info x) = p | None \<Rightarrow> False) l of
             None \<Rightarrow> Ret (None, ds)
           | Some d \<Rightarrow> bindc (libusb_open c2 d ds) (\<lambda>(rc, h, ds). Ret (if rc = 0 then h else None, ds)))
         (\<lambda>(h, ds). bindc (libusb_free_device_list l True ds) (\<lambda>ds. Ret (h, ds))))"

section \<open>Control requests\<close>

text \<open>The return value, the count, the buffer and the handle's connection.\<close>

definition ctrl_raw :: "u32 \<Rightarrow> u32 \<Rightarrow> u8 \<Rightarrow> u8 \<Rightarrow> u16 \<Rightarrow> u16 \<Rightarrow> bytes \<Rightarrow> u16 \<Rightarrow> sock \<Rightarrow> int \<times> int \<times> bytes \<times> u32 \<times> sock" where
  "ctrl_raw devid seq rt r v i data len s =
     (let dir = (if rt AND 0x80 \<noteq> 0 then USB_IN else USB_OUT);
          res = usbip_client_submit devid seq dir 0 (Some (USB_SETUP_BYTES rt r v i len)) 0 data (uint len) s
      in (sr_rc res, case sr_actual res of None \<Rightarrow> 0 | Some n \<Rightarrow> n, sr_buf res, sr_seq res, sr_sock res))"

definition ctrl_io :: "u8 \<Rightarrow> u8 \<Rightarrow> u16 \<Rightarrow> u16 \<Rightarrow> bytes \<Rightarrow> u16 \<Rightarrow> libusb_device_handle \<Rightarrow> int \<times> int \<times> bytes \<times> libusb_device_handle" where
  "ctrl_io rt r v i data len h =
     (let (rc, act, buf, seq, s) = ctrl_raw (lh_devid h) (lh_seq h) rt r v i data len (lh_sock h)
      in (rc, act, buf, h\<lparr>lh_seq := seq, lh_sock := s\<rparr>))"

definition libusb_set_configuration :: "int \<Rightarrow> libusb_device_handle \<Rightarrow> int \<times> libusb_device_handle" where
  "libusb_set_configuration cfg h =
     (let (rc, act, buf, h) = ctrl_io 0x00 0x09 (word_of_int cfg) 0 [] 0 h in (if rc < 0 then rc else 0, h))"

text \<open>The value is 1 when the device does not answer.\<close>

definition libusb_get_configuration :: "libusb_device_handle \<Rightarrow> int \<times> int \<times> libusb_device_handle" where
  "libusb_get_configuration h =
     (let (rc, act, buf, h) = ctrl_io 0x80 0x08 0 0 [1] 1 h in (0, if rc < 0 then 1 else uint (buf ! 0), h))"

definition libusb_set_interface_alt_setting :: "int \<Rightarrow> int \<Rightarrow> libusb_device_handle \<Rightarrow> int \<times> libusb_device_handle" where
  "libusb_set_interface_alt_setting iface alt h =
     (let (rc, act, buf, h) = ctrl_io 0x01 0x0B (word_of_int alt) (word_of_int iface) [] 0 h in (if rc < 0 then rc else 0, h))"

definition libusb_clear_halt :: "u8 \<Rightarrow> libusb_device_handle \<Rightarrow> int \<times> libusb_device_handle" where
  "libusb_clear_halt endpoint h =
     (let (rc, act, buf, h) = ctrl_io 0x02 0x01 0 (ucast endpoint) [] 0 h in (if rc < 0 then rc else 0, h))"

definition libusb_control_transfer ::
  "u8 \<Rightarrow> u8 \<Rightarrow> u16 \<Rightarrow> u16 \<Rightarrow> bytes \<Rightarrow> u16 \<Rightarrow> libusb_device_handle \<Rightarrow> int \<times> bytes \<times> libusb_device_handle" where
  "libusb_control_transfer rt r v i data len h =
     (let (rc, act, buf, h) = ctrl_io rt r v i data len h
      in (if rc < 0 then rc else if rt AND 0x80 \<noteq> 0 then act else uint len, buf, h))"

definition libusb_get_descriptor :: "u8 \<Rightarrow> u8 \<Rightarrow> bytes \<Rightarrow> int \<Rightarrow> libusb_device_handle \<Rightarrow> int \<times> bytes \<times> libusb_device_handle" where
  "libusb_get_descriptor t i data len h =
     libusb_control_transfer 0x80 0x06 (push_bit 8 (ucast t) OR ucast i) 0 data (word_of_int len) h"

definition libusb_get_string_descriptor :: "u8 \<Rightarrow> u16 \<Rightarrow> bytes \<Rightarrow> int \<Rightarrow> libusb_device_handle \<Rightarrow> int \<times> bytes \<times> libusb_device_handle" where
  "libusb_get_string_descriptor i langid data len h =
     libusb_control_transfer 0x80 0x06 (push_bit 8 0x03 OR ucast i) langid data (word_of_int len) h"

text \<open>The characters of a string descriptor while there is room for one more and the terminator.\<close>

fun ascii_of :: "nat \<Rightarrow> bytes \<Rightarrow> bytes" where
  "ascii_of (Suc room) (lo # hi # cs) = (if hi \<noteq> 0 then 0x3F else lo) # ascii_of room cs"
| "ascii_of room cs = []"

definition libusb_get_string_descriptor_ascii :: "u8 \<Rightarrow> int \<Rightarrow> libusb_device_handle \<Rightarrow> int \<times> bytes \<times> libusb_device_handle" where
  "libusb_get_string_descriptor_ascii index len h =
     (if len < 1 then (LIBUSB_ERROR_INVALID_PARAM, [], h)
      else (let (rc, act, buf, h) = ctrl_io 0x80 0x06 (push_bit 8 0x03 OR ucast index) 0x0409 (replicate 256 0) 256 h
            in if rc < 0 then (rc, [], h)
               else if act < 2 \<or> buf ! 1 \<noteq> 0x03 then (LIBUSB_ERROR_IO, [], h)
               else (let count = min (unat (buf ! 0)) (nat act);
                         s = ascii_of (nat len - 1) (drop 2 (take count buf))
                     in (int (length s), s @ [0], h))))"

section \<open>Descriptors\<close>

text \<open>The extra bytes of an endpoint are always empty and are left out.\<close>

record libusb_endpoint_descriptor =
  lep_bLength :: u8
  lep_bDescriptorType :: u8
  lep_bEndpointAddress :: u8
  lep_bmAttributes :: u8
  lep_wMaxPacketSize :: u16
  lep_bInterval :: u8
  lep_bRefresh :: u8
  lep_bSynchAddress :: u8

record libusb_interface_descriptor =
  lif_bLength :: u8
  lif_bDescriptorType :: u8
  lif_bInterfaceNumber :: u8
  lif_bAlternateSetting :: u8
  lif_bNumEndpoints :: u8
  lif_bInterfaceClass :: u8
  lif_bInterfaceSubClass :: u8
  lif_bInterfaceProtocol :: u8
  lif_iInterface :: u8
  lif_endpoint :: "libusb_endpoint_descriptor list"
  lif_extra :: bytes

text \<open>An interface is the list of its alternate settings.\<close>

record libusb_config_descriptor =
  lcf_bLength :: u8
  lcf_bDescriptorType :: u8
  lcf_wTotalLength :: u16
  lcf_bNumInterfaces :: u8
  lcf_bConfigurationValue :: u8
  lcf_iConfiguration :: u8
  lcf_bmAttributes :: u8
  lcf_MaxPower :: u8
  lcf_interface :: "libusb_interface_descriptor list list"
  lcf_extra :: bytes

definition libusb_get_device_descriptor :: "usbip_devinfo \<Rightarrow> usb_device_descriptor" where
  "libusb_get_device_descriptor i = \<lparr>dd_bLength = 18, dd_bDescriptorType = 1, dd_bcdUSB = 0x0200,
     dd_bDeviceClass = di_dclass i, dd_bDeviceSubClass = di_dsub i, dd_bDeviceProtocol = di_dproto i,
     dd_bMaxPacketSize0 = 64, dd_idVendor = di_vid i, dd_idProduct = di_pid i, dd_bcdDevice = di_bcdDevice i,
     dd_iManufacturer = 0, dd_iProduct = 0, dd_iSerialNumber = 0,
     dd_bNumConfigurations = (if di_n_cfg i \<noteq> 0 then di_n_cfg i else 1)\<rparr>"

text \<open>
  The configuration descriptor, over a connection of its own: first nine bytes for the length, then all of it. The
  blob is what has been received.
\<close>

definition fetch_config_blob :: "sock option \<Rightarrow> libusb_device \<Rightarrow> int \<times> libusb_device" where
  "fetch_config_blob c x =
     (case lb_cfg_raw x of
        Some raw \<Rightarrow> (0, x)
      | None \<Rightarrow>
         (case c of
            None \<Rightarrow> (LIBUSB_ERROR_IO, x)
          | Some s \<Rightarrow>
             (case usbip_client_import (di_busid (lb_info x)) s of
                ((rc, None), s) \<Rightarrow> (LIBUSB_ERROR_NO_DEVICE, x)
              | ((rc, Some imp), s) \<Rightarrow>
                 (if rc \<noteq> USB_SUCCESS then (LIBUSB_ERROR_NO_DEVICE, x)
                  else (let devid = push_bit 16 (di_busnum imp) OR di_devnum imp;
                            (rc, act, hdr, seq, s) = ctrl_raw devid 0 0x80 0x06 0x0200 0 (replicate 9 0) 9 s
                        in if rc < 0 \<or> act < 4 then (LIBUSB_ERROR_IO, x)
                           else (let total = max 9 (usb_get_le16 hdr 2);
                                     (rc, act, buf, seq, s) = ctrl_raw devid seq 0x80 0x06 0x0200 0 (replicate (unat total) 0) total s
                                 in if rc < 0 \<or> act < 9 then (LIBUSB_ERROR_IO, x)
                                    else (0, x\<lparr>lb_cfg_raw := Some (take (nat act) buf)\<rparr>)))))))"

end
