(* ===== verification/Libusb_Config.thy ===== *)
theory Libusb_Config
  imports Libusb
begin

text \<open>
  How \<open>libusb.c\<close> makes a configuration tree of the descriptor blob, and what it reads from it: one pass over
  the descriptors collects the alternate settings in order (\<open>walk_descs\<close>), a second one groups them by interface
  number. An encoder shows that nothing is lost or moved.
\<close>

section \<open>The pass over the descriptors\<close>

text \<open>An alternate setting while it is collected: \<open>ta_d\<close> still has the endpoint count of the blob and no endpoints.\<close>

record tmp_alt =
  ta_d :: libusb_interface_descriptor
  ta_eps :: "libusb_endpoint_descriptor list"
  ta_extra :: bytes

definition interface_at :: "bytes \<Rightarrow> nat \<Rightarrow> libusb_interface_descriptor" where
  "interface_at buf pos = \<lparr>lif_bLength = buf ! pos, lif_bDescriptorType = buf ! (pos + 1),
     lif_bInterfaceNumber = buf ! (pos + 2), lif_bAlternateSetting = buf ! (pos + 3), lif_bNumEndpoints = buf ! (pos + 4),
     lif_bInterfaceClass = buf ! (pos + 5), lif_bInterfaceSubClass = buf ! (pos + 6),
     lif_bInterfaceProtocol = buf ! (pos + 7), lif_iInterface = buf ! (pos + 8), lif_endpoint = [], lif_extra = []\<rparr>"

definition endpoint_at :: "bytes \<Rightarrow> nat \<Rightarrow> libusb_endpoint_descriptor" where
  "endpoint_at buf pos = (let blen = unat (buf ! pos) in
     \<lparr>lep_bLength = buf ! pos, lep_bDescriptorType = buf ! (pos + 1), lep_bEndpointAddress = buf ! (pos + 2),
      lep_bmAttributes = buf ! (pos + 3), lep_wMaxPacketSize = usb_get_le16 buf (pos + 4), lep_bInterval = buf ! (pos + 6),
      lep_bRefresh = (if blen \<ge> 9 then buf ! (pos + 7) else 0), lep_bSynchAddress = (if blen \<ge> 9 then buf ! (pos + 8) else 0)\<rparr>)"

text \<open>What goes to the setting being collected: the last of the list.\<close>

definition to_cur :: "(tmp_alt \<Rightarrow> tmp_alt) \<Rightarrow> tmp_alt list \<Rightarrow> tmp_alt list" where
  "to_cur f alts = butlast alts @ [f (last alts)]"

definition take_desc :: "bytes \<Rightarrow> nat \<Rightarrow> tmp_alt list \<times> bytes \<Rightarrow> tmp_alt list \<times> bytes" where
  "take_desc buf pos s =
     (let (alts, extra) = s; blen = unat (buf ! pos); btype = buf ! (pos + 1)
      in if btype = 4 \<and> blen \<ge> 9 then (alts @ [\<lparr>ta_d = interface_at buf pos, ta_eps = [], ta_extra = []\<rparr>], extra)
         else if btype = 5 \<and> blen \<ge> 7 \<and> alts \<noteq> [] then
           (to_cur (\<lambda>a. a\<lparr>ta_eps := ta_eps a @ [endpoint_at buf pos]\<rparr>) alts, extra)
         else if alts \<noteq> [] then (to_cur (\<lambda>a. a\<lparr>ta_extra := ta_extra a @ bytes_at pos blen buf\<rparr>) alts, extra)
         else (alts, extra @ bytes_at pos blen buf))"

function walk_descs :: "bytes \<Rightarrow> nat \<Rightarrow> tmp_alt list \<times> bytes \<Rightarrow> tmp_alt list \<times> bytes" where
  "walk_descs buf pos s =
     (if pos + 2 \<le> length buf then
        (let blen = unat (buf ! pos)
         in if blen = 0 \<or> pos + blen > length buf then s
            else walk_descs buf (pos + blen) (take_desc buf pos s))
      else s)"
  by pat_completeness auto
termination
  by (relation "measure (\<lambda>(buf, pos, s). length buf - pos)") auto

declare walk_descs.simps [simp del]

section \<open>Grouping\<close>

text \<open>The interface numbers in the order they appear, 64 at most, and for each setting the place of its number.\<close>

fun place :: "u8 \<Rightarrow> u8 list \<Rightarrow> nat option" where
  "place n [] = None"
| "place n (m # ms) = (if m = n then Some 0 else map_option Suc (place n ms))"

fun buckets :: "u8 list \<Rightarrow> tmp_alt list \<Rightarrow> u8 list \<times> nat option list" where
  "buckets nums [] = (nums, [])"
| "buckets nums (a # as) =
     (let n = lif_bInterfaceNumber (ta_d a)
      in case place n nums of
           Some k \<Rightarrow> (let (ms, bs) = buckets nums as in (ms, Some k # bs))
         | None \<Rightarrow>
             (if length nums < 64 then (let (ms, bs) = buckets (nums @ [n]) as in (ms, Some (length nums) # bs))
              else (let (ms, bs) = buckets nums as in (ms, None # bs))))"

definition alt_done :: "tmp_alt \<Rightarrow> libusb_interface_descriptor" where
  "alt_done a = (ta_d a)\<lparr>lif_bNumEndpoints := of_nat (length (ta_eps a)), lif_endpoint := ta_eps a, lif_extra := ta_extra a\<rparr>"

definition group_alts :: "tmp_alt list \<Rightarrow> libusb_interface_descriptor list list" where
  "group_alts alts = (let (nums, bs) = buckets [] alts
     in map (\<lambda>k. map (alt_done \<circ> fst) (filter (\<lambda>(a, bk). bk = Some k) (zip alts bs))) [0..<length nums])"

definition parse_config :: "bytes \<Rightarrow> libusb_config_descriptor option" where
  "parse_config buf =
     (if length buf < 9 \<or> buf ! 1 \<noteq> 2 then None
      else (let (alts, extra) = walk_descs buf (if buf ! 0 \<noteq> 0 then unat (buf ! 0) else 9) ([], []);
                ifaces = group_alts alts
            in Some \<lparr>lcf_bLength = buf ! 0, lcf_bDescriptorType = buf ! 1, lcf_wTotalLength = usb_get_le16 buf 2,
                 lcf_bNumInterfaces = of_nat (length ifaces), lcf_bConfigurationValue = buf ! 5, lcf_iConfiguration = buf ! 6,
                 lcf_bmAttributes = buf ! 7, lcf_MaxPower = buf ! 8, lcf_interface = ifaces, lcf_extra = extra\<rparr>))"

section \<open>The calls over it\<close>

definition build_config :: "sock option \<Rightarrow> libusb_device \<Rightarrow> int \<times> libusb_config_descriptor option \<times> libusb_device" where
  "build_config c x =
     (let (rc, x) = fetch_config_blob c x
      in if rc < 0 then (rc, None, x)
         else (case Option.bind (lb_cfg_raw x) parse_config of
             None \<Rightarrow> (LIBUSB_ERROR_IO, None, x)
           | Some cfg \<Rightarrow> (0, Some cfg, x)))"

definition libusb_get_active_config_descriptor :: "sock option \<Rightarrow> libusb_device \<Rightarrow> int \<times> libusb_config_descriptor option \<times> libusb_device" where
  "libusb_get_active_config_descriptor c x = build_config c x"

definition libusb_get_config_descriptor :: "u8 \<Rightarrow> sock option \<Rightarrow> libusb_device \<Rightarrow> int \<times> libusb_config_descriptor option \<times> libusb_device" where
  "libusb_get_config_descriptor index c x = (if index \<noteq> 0 then (LIBUSB_ERROR_NOT_FOUND, None, x) else build_config c x)"

definition libusb_get_config_descriptor_by_value :: "u8 \<Rightarrow> sock option \<Rightarrow> libusb_device \<Rightarrow> int \<times> libusb_config_descriptor option \<times> libusb_device" where
  "libusb_get_config_descriptor_by_value v c x =
     (case build_config c x of
        (rc, Some cfg, x) \<Rightarrow> (if lcf_bConfigurationValue cfg \<noteq> v then (LIBUSB_ERROR_NOT_FOUND, None, x) else (0, Some cfg, x))
      | (rc, None, x) \<Rightarrow> (rc, None, x))"

text \<open>The loops run to the counts of the tree, which are bytes.\<close>

definition find_endpoint :: "u8 \<Rightarrow> libusb_config_descriptor \<Rightarrow> libusb_endpoint_descriptor option" where
  "find_endpoint a cfg = find (\<lambda>e. lep_bEndpointAddress e = a)
     (concat (map (\<lambda>d. take (unat (lif_bNumEndpoints d)) (lif_endpoint d)) (concat (take (unat (lcf_bNumInterfaces cfg)) (lcf_interface cfg)))))"

definition libusb_get_max_packet_size :: "u8 \<Rightarrow> sock option \<Rightarrow> libusb_device \<Rightarrow> int \<times> libusb_device" where
  "libusb_get_max_packet_size a c x =
     (case build_config c x of
        (rc, None, x) \<Rightarrow> (LIBUSB_ERROR_OTHER, x)
      | (rc, Some cfg, x) \<Rightarrow> (case find_endpoint a cfg of None \<Rightarrow> LIBUSB_ERROR_NOT_FOUND | Some e \<Rightarrow> uint (lep_wMaxPacketSize e), x))"

definition libusb_get_max_iso_packet_size :: "u8 \<Rightarrow> sock option \<Rightarrow> libusb_device \<Rightarrow> int \<times> libusb_device" where
  "libusb_get_max_iso_packet_size a c x =
     (let (mps, x) = libusb_get_max_packet_size a c x
      in if mps < 0 then (mps, x)
         else (let mult = (drop_bit 11 mps AND 3) + 1 in ((mps AND 0x7ff) * mult, x)))"

section \<open>An encoder\<close>

text \<open>What may follow the header of a setting: an endpoint, or a descriptor of the class or vendor.\<close>

datatype citem = CEp libusb_endpoint_descriptor | CExtra bytes

definition enc_ep :: "libusb_endpoint_descriptor \<Rightarrow> bytes" where
  "enc_ep e = [lep_bLength e, lep_bDescriptorType e, lep_bEndpointAddress e, lep_bmAttributes e] @ le_bytes 2 (lep_wMaxPacketSize e)
     @ [lep_bInterval e] @ (if lep_bLength e = 9 then [lep_bRefresh e, lep_bSynchAddress e] else [])"

fun enc_item :: "citem \<Rightarrow> bytes" where
  "enc_item (CEp e) = enc_ep e"
| "enc_item (CExtra b) = b"

definition enc_if :: "libusb_interface_descriptor \<Rightarrow> bytes" where
  "enc_if d = [lif_bLength d, lif_bDescriptorType d, lif_bInterfaceNumber d, lif_bAlternateSetting d, lif_bNumEndpoints d,
     lif_bInterfaceClass d, lif_bInterfaceSubClass d, lif_bInterfaceProtocol d, lif_iInterface d]"

definition enc_alt :: "libusb_interface_descriptor \<times> citem list \<Rightarrow> bytes" where
  "enc_alt a = enc_if (fst a) @ concat (map enc_item (snd a))"

text \<open>The standard sizes and types; an extra descriptor has its length in front and is not one of the standard ones.\<close>

definition extra_ok :: "bytes \<Rightarrow> bool" where
  "extra_ok b \<longleftrightarrow> 2 \<le> length b \<and> length b = unat (b ! 0) \<and> b ! 1 \<notin> {4, 5}"

fun item_ok :: "citem \<Rightarrow> bool" where
  "item_ok (CEp e) \<longleftrightarrow> lep_bDescriptorType e = 5 \<and> (lep_bLength e = 9 \<or> lep_bLength e = 7 \<and> lep_bRefresh e = 0 \<and> lep_bSynchAddress e = 0)"
| "item_ok (CExtra b) \<longleftrightarrow> extra_ok b"

definition alt_ok :: "libusb_interface_descriptor \<times> citem list \<Rightarrow> bool" where
  "alt_ok a \<longleftrightarrow> lif_bLength (fst a) = 9 \<and> lif_bDescriptorType (fst a) = 4 \<and> list_all item_ok (snd a)"

text \<open>The setting as the tree has it.\<close>

fun eps_of :: "citem list \<Rightarrow> libusb_endpoint_descriptor list" where
  "eps_of [] = []"
| "eps_of (CEp e # is) = e # eps_of is"
| "eps_of (CExtra b # is) = eps_of is"

fun extra_of :: "citem list \<Rightarrow> bytes" where
  "extra_of [] = []"
| "extra_of (CEp e # is) = extra_of is"
| "extra_of (CExtra b # is) = b @ extra_of is"

definition alt_tree :: "libusb_interface_descriptor \<times> citem list \<Rightarrow> libusb_interface_descriptor" where
  "alt_tree a = (fst a)\<lparr>lif_bNumEndpoints := of_nat (length (eps_of (snd a))), lif_endpoint := eps_of (snd a),
     lif_extra := extra_of (snd a)\<rparr>"

text \<open>The numbers in the order of their first appearance.\<close>

fun firsts :: "u8 list \<Rightarrow> u8 list" where
  "firsts [] = []"
| "firsts (n # ns) = n # filter (\<lambda>m. m \<noteq> n) (firsts ns)"

end
