(* ===== verification/Libusb_Config_Props.thy ===== *)
theory Libusb_Config_Props
  imports Libusb_Config
begin

text \<open>Reading back what was written as a configuration descriptor gives the tree, with nothing lost or moved.\<close>

section \<open>The pass goes descriptor by descriptor\<close>

definition framed :: "bytes \<Rightarrow> bool" where
  "framed d \<longleftrightarrow> 2 \<le> length d \<and> length d = unat (d ! 0)"

lemma bytes_at_mid: "off + n \<le> length d \<Longrightarrow> bytes_at (length pre + off) n (pre @ d @ post) = bytes_at off n d"
  by (simp add: bytes_at_def)

lemma take_desc_mid:
  assumes "framed d"
  shows "take_desc (pre @ d @ post) (length pre) s = take_desc d 0 s"
proof -
  have 0: "0 < length d" "1 < length d" using assms by (auto simp: framed_def)
  have i: "interface_at (pre @ d @ post) (length pre) = interface_at d 0" if "9 \<le> unat (d ! 0)"
    using that assms 0 by (auto simp: interface_at_def framed_def nth_append numeral_2_eq_2)
  have e: "endpoint_at (pre @ d @ post) (length pre) = endpoint_at d 0" if "7 \<le> unat (d ! 0)"
    using that assms 0 by (auto simp: endpoint_at_def framed_def nth_append numeral_2_eq_2 usb_get_le16_def bytes_at_mid Let_def)
  have b: "bytes_at (length pre) (unat (d ! 0)) (pre @ d @ post) = bytes_at 0 (unat (d ! 0)) d"
    using assms bytes_at_mid [of 0 "unat (d ! 0)" d pre post] by (simp add: framed_def)
  have n: "(pre @ d @ post) ! length pre = d ! 0" "(pre @ d @ post) ! (length pre + 1) = d ! 1"
    using 0 by (simp_all add: nth_append)
  show ?thesis unfolding take_desc_def n using i e b by (simp add: Let_def split_def)
qed

lemma walk_concat:
  "list_all framed ds \<Longrightarrow> walk_descs (pre @ concat ds) (length pre) s = fold (\<lambda>d. take_desc d 0) ds s"
proof (induction ds arbitrary: pre s)
  case Nil
  then show ?case by (simp add: walk_descs.simps)
next
  case (Cons d ds)
  have f: "2 \<le> length d" "length d = unat (d ! 0)" using Cons.prems by (simp_all add: framed_def)
  then have h: "(pre @ d @ concat ds) ! length pre = d ! 0" by (auto simp: nth_append)
  have "walk_descs (pre @ d @ concat ds) (length pre) s
      = walk_descs (pre @ d @ concat ds) (length pre + length d) (take_desc (pre @ d @ concat ds) (length pre) s)"
    by (subst walk_descs.simps, subst h) (use f in \<open>auto simp: Let_def\<close>)
  then show ?case
    using Cons.IH [of "pre @ d" "take_desc d 0 s"] Cons.prems by (simp add: take_desc_mid)
qed

section \<open>One setting\<close>

lemma framed_enc_if: "lif_bLength d = 9 \<Longrightarrow> framed (enc_if d)"
  by (simp add: framed_def enc_if_def)

lemma framed_enc_item: "item_ok i \<Longrightarrow> framed (enc_item i)"
  by (cases i) (auto simp: framed_def enc_ep_def extra_ok_def)

lemma endpoint_at_enc: "item_ok (CEp e) \<Longrightarrow> endpoint_at (enc_ep e) 0 = e"
  by (cases e) (auto simp: endpoint_at_def enc_ep_def usb_get_le16_def bytes_at_def nth_append le_of_le_bytes take_bit_word_eq_self)

lemma take_desc_item:
  assumes "item_ok i"
  shows "take_desc (enc_item i) 0 (as @ [a], x)
    = (as @ [a\<lparr>ta_eps := ta_eps a @ eps_of [i], ta_extra := ta_extra a @ extra_of [i]\<rparr>], x)"
proof (cases i)
  case (CEp e)
  then show ?thesis using assms endpoint_at_enc [of e]
    by (auto simp: take_desc_def to_cur_def enc_ep_def)
next
  case (CExtra b)
  then show ?thesis using assms by (auto simp: take_desc_def to_cur_def extra_ok_def Let_def)
qed

lemma eps_of_Cons: "eps_of (i # is) = eps_of [i] @ eps_of is"
  by (cases i) simp_all

lemma extra_of_Cons: "extra_of (i # is) = extra_of [i] @ extra_of is"
  by (cases i) simp_all

lemma take_items:
  "list_all item_ok is \<Longrightarrow> fold (\<lambda>d. take_desc d 0) (map enc_item is) (as @ [a], x)
    = (as @ [a\<lparr>ta_eps := ta_eps a @ eps_of is, ta_extra := ta_extra a @ extra_of is\<rparr>], x)"
proof (induction "is" arbitrary: a)
  case (Cons i "is")
  then show ?case by (simp add: take_desc_item eps_of_Cons [of i "is"] extra_of_Cons [of i "is"] del: eps_of.simps extra_of.simps)
qed simp

text \<open>What is collected_alt of a setting.\<close>

definition collected_alt :: "libusb_interface_descriptor \<times> citem list \<Rightarrow> tmp_alt" where
  "collected_alt a = \<lparr>ta_d = (fst a)\<lparr>lif_endpoint := [], lif_extra := []\<rparr>, ta_eps = eps_of (snd a), ta_extra = extra_of (snd a)\<rparr>"

lemma alt_done_collected: "alt_done (collected_alt a) = alt_tree a"
  by (simp add: alt_done_def collected_alt_def alt_tree_def)

lemma take_alt:
  assumes "alt_ok a"
  shows "fold (\<lambda>d. take_desc d 0) (enc_if (fst a) # map enc_item (snd a)) (as, x) = (as @ [collected_alt a], x)"
proof -
  have "take_desc (enc_if (fst a)) 0 (as, x)
      = (as @ [\<lparr>ta_d = (fst a)\<lparr>lif_endpoint := [], lif_extra := []\<rparr>, ta_eps = [], ta_extra = []\<rparr>], x)"
    using assms by (simp add: take_desc_def enc_if_def interface_at_def alt_ok_def)
  then show ?thesis using assms by (simp add: take_items alt_ok_def collected_alt_def)
qed

lemma take_alts:
  "list_all alt_ok alts \<Longrightarrow> fold (\<lambda>d. take_desc d 0) (concat (map (\<lambda>a. enc_if (fst a) # map enc_item (snd a)) alts)) (as, x)
    = (as @ map collected_alt alts, x)"
proof (induction alts arbitrary: as)
  case (Cons a alts)
  then show ?case using take_alt [of a as x] by (simp del: fold_simps)
qed simp

lemma take_extras:
  "list_all extra_ok es \<Longrightarrow> fold (\<lambda>d. take_desc d 0) es ([], x) = ([], x @ concat es)"
proof (induction es arbitrary: x)
  case (Cons e es)
  then show ?case by (auto simp: take_desc_def extra_ok_def Let_def)
qed simp

section \<open>Grouping\<close>

abbreviation num :: "tmp_alt \<Rightarrow> u8" where
  "num a \<equiv> lif_bInterfaceNumber (ta_d a)"

lemma set_firsts [simp]: "set (firsts ns) = set ns"
  by (induction ns) auto

lemma distinct_firsts [simp]: "distinct (firsts ns)"
  by (induction ns) auto

lemma place_None: "place n ms = None \<longleftrightarrow> n \<notin> set ms"
  by (induction ms) auto

lemma place_append: "n \<in> set ms \<Longrightarrow> place n (ms @ ks) = place n ms"
  by (induction ms) auto

lemma place_new: "n \<notin> set ms \<Longrightarrow> place n (ms @ n # ks) = Some (length ms)"
  by (induction ms) auto

lemma place_Some: "distinct ms \<Longrightarrow> place n ms = Some k \<longleftrightarrow> k < length ms \<and> ms ! k = n"
proof (induction ms arbitrary: k)
  case (Cons m ms)
  then have i: "place n ms = Some j \<longleftrightarrow> j < length ms \<and> ms ! j = n" for j by simp
  have "m \<notin> set ms" using Cons.prems by simp
  then have "m \<noteq> n" if "j < length ms" "ms ! j = n" for j using that by auto
  then show ?case by (cases k) (auto simp: i)
qed simp

lemma buckets_firsts:
  assumes "length (nums @ filter (\<lambda>m. m \<notin> set nums) (firsts (map num alts))) \<le> 64"
  shows "buckets nums alts = (nums @ filter (\<lambda>m. m \<notin> set nums) (firsts (map num alts)),
    map (\<lambda>a. place (num a) (nums @ filter (\<lambda>m. m \<notin> set nums) (firsts (map num alts)))) alts)"
  using assms
proof (induction alts arbitrary: nums)
  case Nil
  then show ?case by simp
next
  case (Cons a alts)
  let ?n = "num a"
  show ?case
  proof (cases "?n \<in> set nums")
    case True
    have e: "filter (\<lambda>m. m \<notin> set nums) (firsts (map num (a # alts))) = filter (\<lambda>m. m \<notin> set nums) (firsts (map num alts))"
      using True by (auto intro!: filter_cong)
    obtain k where k: "place ?n nums = Some k" using True place_None [of ?n nums] by (cases "place ?n nums") auto
    show ?thesis using Cons True k place_append [OF True] unfolding e by (simp add: Let_def)
  next
    case False
    let ?r = "filter (\<lambda>m. m \<notin> set (nums @ [?n])) (firsts (map num alts))"
    have e: "nums @ filter (\<lambda>m. m \<notin> set nums) (firsts (map num (a # alts))) = (nums @ [?n]) @ ?r"
      using False by (auto intro!: filter_cong)
    have p: "place ?n nums = None" using False by (simp add: place_None)
    have l: "length ((nums @ [?n]) @ ?r) \<le> 64" using Cons.prems unfolding e .
    then show ?thesis using Cons.IH [OF l] p place_new [OF False, of ?r] unfolding e by (simp add: Let_def)
  qed
qed

lemma map_fst_filter_zip: "map fst (filter (\<lambda>(a, b). b = y) (zip xs (map f xs))) = filter (\<lambda>a. f a = y) xs"
  by (induction xs) auto

lemma group_alts_firsts:
  assumes "length (firsts (map num alts)) \<le> 64"
  shows "group_alts alts = map (\<lambda>n. map alt_done (filter (\<lambda>a. num a = n) alts)) (firsts (map num alts))"
proof -
  let ?f = "firsts (map num alts)"
  have "group_alts alts = map (\<lambda>k. map alt_done (map fst (filter (\<lambda>(a, bk). bk = Some k) (zip alts (map (\<lambda>a. place (num a) ?f) alts))))) [0..<length ?f]"
    using buckets_firsts [of "[]" alts] assms by (simp add: group_alts_def)
  also have "\<dots> = map (\<lambda>k. map alt_done (filter (\<lambda>a. num a = ?f ! k) alts)) [0..<length ?f]"
    by (simp only: map_fst_filter_zip) (auto intro!: arg_cong [where f = "map alt_done"] filter_cong simp: place_Some)
  also have "\<dots> = map ((\<lambda>n. map alt_done (filter (\<lambda>a. num a = n) alts)) \<circ> (!) ?f) [0..<length ?f]" by simp
  finally show ?thesis by (simp only: map_map [symmetric] map_nth)
qed

section \<open>The whole descriptor\<close>

definition config_header :: "u16 \<Rightarrow> u8 \<Rightarrow> u8 \<Rightarrow> u8 \<Rightarrow> u8 \<Rightarrow> u8 \<Rightarrow> bytes" where
  "config_header tot n v i attr pw = [9, 2] @ le_bytes 2 tot @ [n, v, i, attr, pw]"

text \<open>C31: A configuration descriptor is read back whole: any settings in any order, each with its endpoints and class
  descriptors in any order, come out as the tree in which every interface, in the order of their first settings, has
  its settings in order, every setting its endpoints in order and its class descriptors one after the other, and the
  descriptors before the first setting are those of the configuration.\<close>

theorem config_tree_is_parsed:
  assumes "list_all extra_ok es" and "list_all alt_ok alts"
    and "length (firsts (map (lif_bInterfaceNumber \<circ> fst) alts)) \<le> 64"
  shows "parse_config (config_header tot n v i attr pw @ concat es @ concat (map enc_alt alts))
    = Some \<lparr>lcf_bLength = 9, lcf_bDescriptorType = 2, lcf_wTotalLength = tot,
        lcf_bNumInterfaces = of_nat (length (firsts (map (lif_bInterfaceNumber \<circ> fst) alts))),
        lcf_bConfigurationValue = v, lcf_iConfiguration = i, lcf_bmAttributes = attr, lcf_MaxPower = pw,
        lcf_interface = map (\<lambda>n. map alt_tree (filter (\<lambda>a. lif_bInterfaceNumber (fst a) = n) alts))
          (firsts (map (lif_bInterfaceNumber \<circ> fst) alts)),
        lcf_extra = concat es\<rparr>"
proof -
  let ?ds = "es @ concat (map (\<lambda>a. enc_if (fst a) # map enc_item (snd a)) alts)"
  let ?h = "config_header tot n v i attr pw"
  have "list_all framed ?ds" using assms(1,2)
    by (auto simp: list_all_iff alt_ok_def framed_enc_if framed_enc_item) (auto simp: framed_def extra_ok_def)
  moreover have "concat ?ds = concat es @ concat (map enc_alt alts)" by (induction alts) (simp_all add: enc_alt_def)
  moreover have "length ?h = 9" by (simp add: config_header_def)
  ultimately have "walk_descs (?h @ concat es @ concat (map enc_alt alts)) 9 ([], []) = fold (\<lambda>d. take_desc d 0) ?ds ([], [])"
    using walk_concat [of ?ds ?h "([], [])"] by simp
  then have w: "walk_descs (?h @ concat es @ concat (map enc_alt alts)) 9 ([], []) = (map collected_alt alts, concat es)"
    using assms(1,2) by (simp add: take_extras take_alts)
  have m: "map num (map collected_alt alts) = map (lif_bInterfaceNumber \<circ> fst) alts" by (simp add: collected_alt_def)
  have g: "group_alts (map collected_alt alts) = map (\<lambda>n. map alt_tree (filter (\<lambda>a. lif_bInterfaceNumber (fst a) = n) alts))
      (firsts (map (lif_bInterfaceNumber \<circ> fst) alts))"
    using group_alts_firsts [of "map collected_alt alts"] assms(3) unfolding m
    by (simp add: filter_map comp_def alt_done_collected) (simp add: collected_alt_def)
  let ?b = "?h @ concat es @ concat (map enc_alt alts)"
  have b: "\<not> (length ?b < 9 \<or> ?b ! 1 \<noteq> 2)" "?b ! 0 = 9" "?b ! 1 = 2" "usb_get_le16 ?b 2 = tot"
    "?b ! 5 = v" "?b ! 6 = i" "?b ! 7 = attr" "?b ! 8 = pw"
    by (simp_all add: config_header_def le_bytes_numeral nth_append usb_get_le16_def bytes_at_def
        le_of_le_bytes [of 2 tot, unfolded le_bytes_numeral, simplified] take_bit_word_eq_self)
  have "(if ?b ! 0 \<noteq> 0 then unat (?b ! 0) else 9) = 9" by (simp add: b(2))
  then show ?thesis unfolding parse_config_def if_not_P [OF b(1)] using w by (simp add: Let_def g b b [unfolded One_nat_def])
qed

text \<open>Interface 0 with two settings around the only one of interface 1.\<close>

definition demo_if :: "u8 \<Rightarrow> u8 \<Rightarrow> libusb_interface_descriptor" where
  "demo_if k alt = \<lparr>lif_bLength = 9, lif_bDescriptorType = 4, lif_bInterfaceNumber = k, lif_bAlternateSetting = alt,
     lif_bNumEndpoints = 1, lif_bInterfaceClass = 1, lif_bInterfaceSubClass = 2, lif_bInterfaceProtocol = 0,
     lif_iInterface = 0, lif_endpoint = [], lif_extra = []\<rparr>"

definition demo_iso_in :: libusb_endpoint_descriptor where
  "demo_iso_in = \<lparr>lep_bLength = 9, lep_bDescriptorType = 5, lep_bEndpointAddress = 0x81, lep_bmAttributes = 5,
     lep_wMaxPacketSize = 0x1400, lep_bInterval = 1, lep_bRefresh = 2, lep_bSynchAddress = 3\<rparr>"

definition demo_settings :: "(libusb_interface_descriptor \<times> citem list) list" where
  "demo_settings = [(demo_if 0 0, [CExtra [4, 0x24, 1, 2]]), (demo_if 1 0, []),
     (demo_if 0 1, [CExtra [3, 0x24, 9], CEp demo_iso_in, CExtra [2, 0x25]])]"

theorem config_tree_is_parsed_witness:
  "\<exists>cfg. parse_config (config_header 63 2 1 0 0x80 50 @ concat [[3, 11, 0]] @ concat (map enc_alt demo_settings)) = Some cfg
     \<and> map (map lif_extra) (lcf_interface cfg) = [[[4, 0x24, 1, 2], [3, 0x24, 9, 2, 0x25]], [[]]]
     \<and> map (map lif_endpoint) (lcf_interface cfg) = [[[], [demo_iso_in]], [[]]] \<and> lcf_extra cfg = [3, 11, 0]"
proof -
  have f: "firsts (map (lif_bInterfaceNumber \<circ> fst) demo_settings) = [0, 1]" by (simp add: demo_settings_def demo_if_def)
  have "list_all extra_ok [[3, 11, 0]]" "list_all alt_ok demo_settings"
    by (simp_all add: extra_ok_def alt_ok_def demo_settings_def demo_if_def demo_iso_in_def)
  moreover have "length (firsts (map (lif_bInterfaceNumber \<circ> fst) demo_settings)) \<le> 64" by (simp add: f)
  ultimately show ?thesis
    using config_tree_is_parsed [of "[[3, 11, 0]]" demo_settings "63" "2" "1" "0" "0x80" "50"] unfolding f
    by (simp add: demo_settings_def demo_if_def alt_tree_def)
qed

end
