(* ===== verification/Libusb_Async.thy ===== *)
theory Libusb_Async
  imports Libusb
begin

text \<open>
  Transfers and the event machinery of \<open>libusb.c\<close>: the application submits and cancels, one worker thread
  runs the transfers one after the other, and whoever handles the events calls the application back. The steps of the
  threads between two critical sections are the steps of \<open>astep\<close>. A transfer is a number; its allocation is
  \<open>None\<close> when it has been freed.
\<close>

section \<open>Transfers\<close>

record libusb_iso_packet_descriptor =
  lp_length :: u32
  lp_actual_length :: u32
  lp_status :: libusb_transfer_status

record libusb_transfer =
  lx_dev_handle :: "nat option"
  lx_flags :: u8
  lx_endpoint :: u8
  lx_type :: u8
  lx_status :: libusb_transfer_status
  lx_length :: int
  lx_actual_length :: int
  lx_buffer :: bytes
  lx_iso :: "libusb_iso_packet_descriptor list"

definition libusb_alloc_transfer :: "nat \<Rightarrow> libusb_transfer" where
  "libusb_alloc_transfer n = \<lparr>lx_dev_handle = None, lx_flags = 0, lx_endpoint = 0, lx_type = 0, lx_status = LIBUSB_TRANSFER_COMPLETED,
     lx_length = 0, lx_actual_length = 0, lx_buffer = [],
     lx_iso = replicate n \<lparr>lp_length = 0, lp_actual_length = 0, lp_status = LIBUSB_TRANSFER_COMPLETED\<rparr>\<rparr>"

definition libusb_fill_control_setup :: "u8 \<Rightarrow> u8 \<Rightarrow> u16 \<Rightarrow> u16 \<Rightarrow> u16 \<Rightarrow> bytes \<Rightarrow> bytes" where
  "libusb_fill_control_setup rt r v i len buf = put_at 0 ([rt, r] @ le_bytes 2 v @ le_bytes 2 i @ le_bytes 2 len) buf"

text \<open>A control buffer begins with the SETUP packet, which the length is taken from.\<close>

definition libusb_fill_control_transfer :: "nat \<Rightarrow> bytes \<Rightarrow> libusb_transfer \<Rightarrow> libusb_transfer" where
  "libusb_fill_control_transfer h buf x = x\<lparr>lx_dev_handle := Some h, lx_endpoint := 0, lx_type := 0, lx_buffer := buf,
     lx_length := (if buf \<noteq> [] then 8 + uint (usb_get_le16 buf 6) else lx_length x)\<rparr>"

definition libusb_fill_bulk_transfer :: "nat \<Rightarrow> u8 \<Rightarrow> bytes \<Rightarrow> int \<Rightarrow> libusb_transfer \<Rightarrow> libusb_transfer" where
  "libusb_fill_bulk_transfer h ep buf len x = x\<lparr>lx_dev_handle := Some h, lx_endpoint := ep, lx_type := 2, lx_buffer := buf, lx_length := len\<rparr>"

definition libusb_fill_interrupt_transfer :: "nat \<Rightarrow> u8 \<Rightarrow> bytes \<Rightarrow> int \<Rightarrow> libusb_transfer \<Rightarrow> libusb_transfer" where
  "libusb_fill_interrupt_transfer h ep buf len x = x\<lparr>lx_dev_handle := Some h, lx_endpoint := ep, lx_type := 3, lx_buffer := buf, lx_length := len\<rparr>"

text \<open>The number of packets is the one the transfer was allocated with.\<close>

definition libusb_fill_iso_transfer :: "nat \<Rightarrow> u8 \<Rightarrow> bytes \<Rightarrow> int \<Rightarrow> libusb_transfer \<Rightarrow> libusb_transfer" where
  "libusb_fill_iso_transfer h ep buf len x = x\<lparr>lx_dev_handle := Some h, lx_endpoint := ep, lx_type := 1, lx_buffer := buf, lx_length := len\<rparr>"

definition libusb_set_iso_packet_lengths :: "u32 \<Rightarrow> libusb_transfer \<Rightarrow> libusb_transfer" where
  "libusb_set_iso_packet_lengths len x = x\<lparr>lx_iso := map (\<lambda>p. p\<lparr>lp_length := len\<rparr>) (lx_iso x)\<rparr>"

definition libusb_get_iso_packet_buffer_simple :: "libusb_transfer \<Rightarrow> u32 \<Rightarrow> u32 option" where
  "libusb_get_iso_packet_buffer_simple x packet =
     (let n = int (length (lx_iso x)) in
      if i32 packet \<ge> n \<or> n = 0 then None
      else Some (packet * u32_of_int (sgn (lx_length x) * (\<bar>lx_length x\<bar> div n))))"

text \<open>A packet number that is negative as a signed \<open>int\<close> passes the check and reads past the packets.\<close>

definition libusb_get_iso_packet_buffer :: "libusb_transfer \<Rightarrow> u32 \<Rightarrow> u32 option cresult" where
  "libusb_get_iso_packet_buffer x packet =
     (if i32 packet \<ge> int (length (lx_iso x)) then Ret None
      else if unat packet > length (lx_iso x) then Undefined
      else Ret (Some (fold (\<lambda>p off. off + lp_length p) (take (unat packet) (lx_iso x)) 0)))"

section \<open>Synchronous transfers\<close>

definition data_xfer :: "u8 \<Rightarrow> bytes \<Rightarrow> int \<Rightarrow> int \<Rightarrow> libusb_device_handle \<Rightarrow> int \<times> int \<times> bytes \<times> libusb_device_handle" where
  "data_xfer endpoint data len interval h =
     (let dir = (if endpoint AND 0x80 \<noteq> 0 then USB_IN else USB_OUT);
          res = usbip_client_submit (lh_devid h) (lh_seq h) dir (ucast (endpoint AND 0x0f)) None interval data len (lh_sock h);
          actual = (case sr_actual res of None \<Rightarrow> 0 | Some n \<Rightarrow> n)
      in (if sr_rc res < 0 then sr_rc res else 0, actual, sr_buf res, h\<lparr>lh_seq := sr_seq res, lh_sock := sr_sock res\<rparr>))"

definition libusb_bulk_transfer :: "u8 \<Rightarrow> bytes \<Rightarrow> int \<Rightarrow> libusb_device_handle \<Rightarrow> int \<times> int \<times> bytes \<times> libusb_device_handle" where
  "libusb_bulk_transfer endpoint data len h = data_xfer endpoint data len 0 h"

definition libusb_interrupt_transfer :: "u8 \<Rightarrow> bytes \<Rightarrow> int \<Rightarrow> libusb_device_handle \<Rightarrow> int \<times> int \<times> bytes \<times> libusb_device_handle" where
  "libusb_interrupt_transfer endpoint data len h = data_xfer endpoint data len 1 h"

section \<open>Running a transfer\<close>

text \<open>The slots of an isochronous transfer follow one another.\<close>

fun lu_slots :: "u32 \<Rightarrow> libusb_iso_packet_descriptor list \<Rightarrow> iso_pkt list" where
  "lu_slots off [] = []"
| "lu_slots off (p # ps) = \<lparr>ip_offset = off, ip_length = lp_length p, ip_actual = 0, ip_status = 0\<rparr> # lu_slots (off + lp_length p) ps"

definition run_control :: "libusb_transfer \<Rightarrow> libusb_device_handle \<Rightarrow> (libusb_transfer \<times> libusb_device_handle) cresult" where
  "run_control x h =
     (let b = lx_buffer x in
      if length b < 8 \<or> length b < 8 + unat (usb_get_le16 b 6) then Undefined
      else (let (rc, act, data, h) = ctrl_io (b ! 0) (b ! 1) (usb_get_le16 b 2) (usb_get_le16 b 4) (drop 8 b) (usb_get_le16 b 6) h
            in Ret (x\<lparr>lx_buffer := take 8 b @ data, lx_actual_length := (if rc < 0 then 0 else act), lx_status := map_status rc\<rparr>, h)))"

definition run_data :: "libusb_transfer \<Rightarrow> libusb_device_handle \<Rightarrow> libusb_transfer \<times> libusb_device_handle" where
  "run_data x h =
     (let dir = (if lx_endpoint x AND 0x80 \<noteq> 0 then USB_IN else USB_OUT);
          res = usbip_client_submit (lh_devid h) (lh_seq h) dir (ucast (lx_endpoint x AND 0x0f)) None
                  (if lx_type x = 3 then 1 else 0) (lx_buffer x) (lx_length x) (lh_sock h)
      in (x\<lparr>lx_buffer := sr_buf res, lx_actual_length := (case sr_actual res of None \<Rightarrow> 0 | Some n \<Rightarrow> n), lx_status := map_status (sr_rc res)\<rparr>,
          h\<lparr>lh_seq := sr_seq res, lh_sock := sr_sock res\<rparr>))"

definition run_iso :: "(nat \<Rightarrow> bool) \<Rightarrow> libusb_transfer \<Rightarrow> libusb_device_handle \<Rightarrow> (libusb_transfer \<times> libusb_device_handle) cresult" where
  "run_iso mem x h =
     (if \<not> mem (16 * length (lx_iso x)) then Ret (x\<lparr>lx_status := LIBUSB_TRANSFER_ERROR\<rparr>, h)
      else (let dir = (if lx_endpoint x AND 0x80 \<noteq> 0 then USB_IN else USB_OUT)
            in bindc (usbip_client_submit_iso mem (lh_devid h) (lh_seq h) dir (ucast (lx_endpoint x AND 0x0f)) 0
                  (lx_buffer x) (lu_slots 0 (lx_iso x)) (lh_sock h)) (\<lambda>res.
               Ret (x\<lparr>lx_buffer := ir_buf res,
                 lx_iso := map2 (\<lambda>p k. p\<lparr>lp_actual_length := ip_actual k,
                    lp_status := (if ip_status k \<noteq> 0 then LIBUSB_TRANSFER_ERROR else LIBUSB_TRANSFER_COMPLETED)\<rparr>) (lx_iso x) (ir_pkts res),
                 lx_actual_length := (case ir_total res of None \<Rightarrow> 0 | Some n \<Rightarrow> n),
                 lx_status := (if ir_rc res < 0 then map_status (ir_rc res) else LIBUSB_TRANSFER_COMPLETED)\<rparr>,
                 h\<lparr>lh_seq := ir_seq res, lh_sock := ir_sock res\<rparr>))))"

type_synonym lu_handles = "nat \<Rightarrow> libusb_device_handle"

definition run_transfer :: "(nat \<Rightarrow> bool) \<Rightarrow> libusb_transfer \<Rightarrow> lu_handles \<Rightarrow> (libusb_transfer \<times> lu_handles) cresult" where
  "run_transfer mem x hs =
     (case lx_dev_handle x of
        None \<Rightarrow> Ret (x\<lparr>lx_status := LIBUSB_TRANSFER_ERROR, lx_actual_length := 0\<rparr>, hs)
      | Some i \<Rightarrow>
         (if lx_type x = 0 then bindc (run_control x (hs i)) (\<lambda>(x, h). Ret (x, hs(i := h)))
          else if lx_type x = 2 \<or> lx_type x = 3 then (case run_data x (hs i) of (x, h) \<Rightarrow> Ret (x, hs(i := h)))
          else if lx_type x = 1 then bindc (run_iso mem x (hs i)) (\<lambda>(x, h). Ret (x, hs(i := h)))
          else Ret (x\<lparr>lx_status := LIBUSB_TRANSFER_ERROR\<rparr>, hs)))"

section \<open>The event machinery\<close>

datatype it_state = ST_IDLE | ST_QUEUED | ST_INFLIGHT | ST_DONE

record itransfer =
  it_ctx :: bool
  it_state :: it_state
  it_cancelled :: bool
  it_pub :: libusb_transfer

text \<open>
  Where the threads are. The worker: not started, waiting, running a transfer with the cancellation it has seen,
  about to write its wakeup byte, ended. The handler: outside, past the wakeup bytes, with a list to deliver, and
  in or after the callback of a transfer with the rest of the list.
\<close>

datatype worker_pc = W_Off | W_Wait | W_Run nat bool | W_Wake | W_Exit
datatype handler_pc = H_Idle | H_Drained | H_List "nat list" | H_Called nat "nat list"

record libusb_context =
  lu_subq :: "nat list"
  lu_doneq :: "nat list"
  lu_worker_started :: bool
  lu_shutting :: bool
  lu_pipe :: nat
  lu_tr :: "nat \<Rightarrow> itransfer option"
  lu_handles :: lu_handles
  lu_worker :: worker_pc
  lu_handler :: handler_pc

definition context_new :: "lu_handles \<Rightarrow> libusb_context" where
  "context_new hs = \<lparr>lu_subq = [], lu_doneq = [], lu_worker_started = False, lu_shutting = False, lu_pipe = 0,
     lu_tr = (\<lambda>_. None), lu_handles = hs, lu_worker = W_Off, lu_handler = H_Idle\<rparr>"

text \<open>What has been submitted and not been called back, first the oldest.\<close>

definition in_flight :: "worker_pc \<Rightarrow> nat list" where
  "in_flight w = (case w of W_Run t c \<Rightarrow> [t] | _ \<Rightarrow> [])"

definition delivering :: "handler_pc \<Rightarrow> nat list" where
  "delivering h = (case h of H_List ts \<Rightarrow> ts | H_Called t ts \<Rightarrow> ts | _ \<Rightarrow> [])"

definition outstanding :: "libusb_context \<Rightarrow> nat list" where
  "outstanding s = delivering (lu_handler s) @ lu_doneq s @ in_flight (lu_worker s) @ lu_subq s"

text \<open>
  Submitting. A transfer that is still outstanding is linked into a second list through the same pointer, which
  leaves neither list defined.
\<close>

definition libusb_submit_transfer :: "nat \<Rightarrow> libusb_context \<Rightarrow> (int \<times> libusb_context) cresult" where
  "libusb_submit_transfer t s =
     (case lu_tr s t of
        None \<Rightarrow> Undefined
      | Some it \<Rightarrow>
         (if lx_dev_handle (it_pub it) = None then Ret (LIBUSB_ERROR_INVALID_PARAM, s)
          else if t \<in> set (outstanding s) then Undefined
          else Ret (0, s\<lparr>lu_tr := (lu_tr s)(t \<mapsto> it\<lparr>it_ctx := True, it_cancelled := False, it_state := ST_QUEUED,
                              it_pub := (it_pub it)\<lparr>lx_status := LIBUSB_TRANSFER_COMPLETED\<rparr>\<rparr>),
                         lu_worker_started := True,
                         lu_worker := (if lu_worker_started s then lu_worker s else W_Wait),
                         lu_subq := lu_subq s @ [t]\<rparr>)))"

text \<open>A transfer that waits for its callback still counts as in flight.\<close>

definition libusb_cancel_transfer :: "nat \<Rightarrow> libusb_context \<Rightarrow> (int \<times> libusb_context) cresult" where
  "libusb_cancel_transfer t s =
     (case lu_tr s t of
        None \<Rightarrow> Undefined
      | Some it \<Rightarrow>
         (if \<not> it_ctx it then Ret (LIBUSB_ERROR_NOT_FOUND, s)
          else if it_state it = ST_DONE then Ret (LIBUSB_ERROR_NOT_FOUND, s)
          else Ret (0, s\<lparr>lu_tr := (lu_tr s)(t \<mapsto> it\<lparr>it_cancelled := True\<rparr>)\<rparr>)))"

definition libusb_free_transfer :: "nat \<Rightarrow> libusb_context \<Rightarrow> libusb_context cresult" where
  "libusb_free_transfer t s = (if lu_tr s t = None \<or> t \<in> set (outstanding s) then Undefined else Ret (s\<lparr>lu_tr := (lu_tr s)(t := None)\<rparr>))"

text \<open>The worker: it takes the first transfer, or ends when it is told to and there is none; runs it; wakes the handler.\<close>

definition worker_take :: "libusb_context \<Rightarrow> libusb_context option" where
  "worker_take s =
     (if lu_worker s \<noteq> W_Wait then None
      else (case lu_subq s of
          [] \<Rightarrow> (if lu_shutting s then Some (s\<lparr>lu_worker := W_Exit\<rparr>) else None)
        | t # q \<Rightarrow> (case lu_tr s t of
            None \<Rightarrow> None
          | Some it \<Rightarrow> Some (s\<lparr>lu_subq := q, lu_tr := (lu_tr s)(t \<mapsto> it\<lparr>it_state := ST_INFLIGHT\<rparr>),
                                lu_worker := W_Run t (it_cancelled it)\<rparr>))))"

definition worker_run :: "(nat \<Rightarrow> bool) \<Rightarrow> libusb_context \<Rightarrow> libusb_context option" where
  "worker_run mem s =
     (case lu_worker s of
        W_Run t c \<Rightarrow> (case lu_tr s t of
            None \<Rightarrow> None
          | Some it \<Rightarrow>
             (case (if c then Ret ((it_pub it)\<lparr>lx_status := LIBUSB_TRANSFER_CANCELLED, lx_actual_length := 0\<rparr>, lu_handles s)
                    else run_transfer mem (it_pub it) (lu_handles s)) of
                Ret (x, hs) \<Rightarrow> Some (s\<lparr>lu_tr := (lu_tr s)(t \<mapsto> it\<lparr>it_pub := x\<rparr>), lu_handles := hs,
                    lu_doneq := lu_doneq s @ [t], lu_worker := W_Wake\<rparr>)
              | _ \<Rightarrow> None))
      | _ \<Rightarrow> None)"

text \<open>The write fails only when the pipe is full.\<close>

definition worker_wake :: "nat \<Rightarrow> libusb_context \<Rightarrow> libusb_context option" where
  "worker_wake cap s = (if lu_worker s = W_Wake then Some (s\<lparr>lu_pipe := (if lu_pipe s < cap then lu_pipe s + 1 else lu_pipe s), lu_worker := W_Wait\<rparr>) else None)"

text \<open>
  The handler: it waits until there is a wakeup byte or its time is over, and empties the pipe; takes the list of
  completions; calls back one after the other. The flags are read after the callback.
\<close>

definition handle_poll :: "libusb_context \<Rightarrow> libusb_context option" where
  "handle_poll s = (if lu_handler s = H_Idle then Some (s\<lparr>lu_pipe := 0, lu_handler := H_Drained\<rparr>) else None)"

definition after_list :: "nat list \<Rightarrow> handler_pc" where
  "after_list ts = (if ts = [] then H_Idle else H_List ts)"

definition handle_grab :: "libusb_context \<Rightarrow> libusb_context option" where
  "handle_grab s = (if lu_handler s = H_Drained then Some (s\<lparr>lu_doneq := [], lu_handler := after_list (lu_doneq s)\<rparr>) else None)"

definition handle_call :: "libusb_context \<Rightarrow> (nat \<times> libusb_transfer_status \<times> libusb_context) option" where
  "handle_call s =
     (case lu_handler s of
        H_List (t # ts) \<Rightarrow> (case lu_tr s t of
            None \<Rightarrow> None
          | Some it \<Rightarrow> Some (t, lx_status (it_pub it),
              s\<lparr>lu_tr := (lu_tr s)(t \<mapsto> it\<lparr>it_state := ST_DONE\<rparr>), lu_handler := H_Called t ts\<rparr>))
      | _ \<Rightarrow> None)"

abbreviation (input) LIBUSB_TRANSFER_FREE_TRANSFER :: u8 where "LIBUSB_TRANSFER_FREE_TRANSFER \<equiv> 4"

definition handle_return :: "libusb_context \<Rightarrow> libusb_context cresult" where
  "handle_return s =
     (case lu_handler s of
        H_Called t ts \<Rightarrow> (case lu_tr s t of
            None \<Rightarrow> Undefined
          | Some it \<Rightarrow> bindc (if lx_flags (it_pub it) AND LIBUSB_TRANSFER_FREE_TRANSFER \<noteq> 0 then libusb_free_transfer t s else Ret s)
              (\<lambda>s. Ret (s\<lparr>lu_handler := after_list ts\<rparr>)))
      | _ \<Rightarrow> Err 0)"

section \<open>Steps\<close>

datatype lu_event = Submitted nat | Called_back nat libusb_transfer_status | Application | Internal

text \<open>
  What the library asks of the application: a transfer is filled and submitted while it is not outstanding, and
  freed neither then nor in its own callback; one that is to be freed after the callback is not submitted from it.
\<close>

definition in_callback :: "nat \<Rightarrow> libusb_context \<Rightarrow> bool" where
  "in_callback t s \<longleftrightarrow> (case lu_handler s of H_Called u ts \<Rightarrow> u = t | _ \<Rightarrow> False)"

definition frees_itself :: "itransfer \<Rightarrow> bool" where
  "frees_itself it \<longleftrightarrow> lx_flags (it_pub it) AND LIBUSB_TRANSFER_FREE_TRANSFER \<noteq> 0"

inductive astep :: "(nat \<Rightarrow> bool) \<Rightarrow> nat \<Rightarrow> libusb_context \<Rightarrow> lu_event \<Rightarrow> libusb_context \<Rightarrow> bool" for mem cap where
  alloc: "lu_tr s t = None \<Longrightarrow> t \<notin> set (outstanding s) \<Longrightarrow> \<not> in_callback t s
    \<Longrightarrow> astep mem cap s Application (s\<lparr>lu_tr := (lu_tr s)(t \<mapsto> \<lparr>it_ctx = False, it_state = ST_IDLE, it_cancelled = False, it_pub = libusb_alloc_transfer n\<rparr>)\<rparr>)"
| fill: "lu_tr s t = Some it \<Longrightarrow> t \<notin> set (outstanding s) \<Longrightarrow> \<not> in_callback t s
    \<Longrightarrow> astep mem cap s Application (s\<lparr>lu_tr := (lu_tr s)(t \<mapsto> it\<lparr>it_pub := x\<rparr>)\<rparr>)"
| submit: "\<not> lu_shutting s \<Longrightarrow> lu_tr s t = Some it \<Longrightarrow> \<not> (in_callback t s \<and> frees_itself it)
    \<Longrightarrow> libusb_submit_transfer t s = Ret (0, s') \<Longrightarrow> astep mem cap s (Submitted t) s'"
| cancel: "libusb_cancel_transfer t s = Ret (rc, s') \<Longrightarrow> astep mem cap s Application s'"
| free: "\<not> in_callback t s \<Longrightarrow> libusb_free_transfer t s = Ret s' \<Longrightarrow> astep mem cap s Application s'"
| exit: "astep mem cap s Application (s\<lparr>lu_shutting := True\<rparr>)"
| take: "worker_take s = Some s' \<Longrightarrow> astep mem cap s Internal s'"
| run: "worker_run mem s = Some s' \<Longrightarrow> astep mem cap s Internal s'"
| wake: "worker_wake cap s = Some s' \<Longrightarrow> astep mem cap s Internal s'"
| poll: "handle_poll s = Some s' \<Longrightarrow> lu_pipe s > 0 \<Longrightarrow> astep mem cap s Internal s'"
| poll_timeout: "handle_poll s = Some s' \<Longrightarrow> astep mem cap s Application s'"
| grab: "handle_grab s = Some s' \<Longrightarrow> astep mem cap s Internal s'"
| call: "handle_call s = Some (t, st, s') \<Longrightarrow> astep mem cap s (Called_back t st) s'"
| return: "handle_return s = Ret s' \<Longrightarrow> astep mem cap s Internal s'"

text \<open>What has happened since the context was made.\<close>

inductive areach :: "(nat \<Rightarrow> bool) \<Rightarrow> nat \<Rightarrow> lu_handles \<Rightarrow> lu_event list \<Rightarrow> libusb_context \<Rightarrow> bool" for mem cap hs where
  new: "areach mem cap hs [] (context_new hs)"
| step: "areach mem cap hs tr s \<Longrightarrow> astep mem cap s e s' \<Longrightarrow> areach mem cap hs (tr @ [e]) s'"

fun submits :: "lu_event list \<Rightarrow> nat list" where
  "submits [] = []"
| "submits (Submitted t # es) = t # submits es"
| "submits (e # es) = submits es"

fun callbacks :: "lu_event list \<Rightarrow> nat list" where
  "callbacks [] = []"
| "callbacks (Called_back t st # es) = t # callbacks es"
| "callbacks (e # es) = callbacks es"

end
