(* ===== verification/Libusb_Async_Props.thy ===== *)
theory Libusb_Async_Props
  imports Libusb_Async
begin

text \<open>Every transfer submitted is called back once, in order, and none waits for ever.\<close>

inductive_simps areach_Nil [simp]: "areach mem cap hs [] s"

lemma submits_append [simp]: "submits (es @ fs) = submits es @ submits fs"
  by (induction es rule: submits.induct) simp_all

lemma callbacks_append [simp]: "callbacks (es @ fs) = callbacks es @ callbacks fs"
  by (induction es rule: callbacks.induct) simp_all

section \<open>What the operations do to the queues\<close>

lemmas queue_defs = outstanding_def delivering_def in_flight_def after_list_def

lemma submit_outstanding:
  assumes "libusb_submit_transfer t s = Ret (0, s')" "lu_worker s = W_Off \<longleftrightarrow> \<not> lu_worker_started s"
  shows "outstanding s' = outstanding s @ [t] \<and> t \<notin> set (outstanding s)"
  using assms by (auto simp: libusb_submit_transfer_def outstanding_def in_flight_def split: option.splits if_splits)

lemma take_outstanding: "worker_take s = Some s' \<Longrightarrow> outstanding s' = outstanding s"
  by (auto simp: worker_take_def queue_defs split: if_splits list.splits option.splits)

lemma run_outstanding: "worker_run mem s = Some s' \<Longrightarrow> outstanding s' = outstanding s"
  by (auto simp: worker_run_def queue_defs split: worker_pc.splits option.splits cresult.splits)

lemma wake_outstanding: "worker_wake cap s = Some s' \<Longrightarrow> outstanding s' = outstanding s"
  by (auto simp: worker_wake_def queue_defs split: if_splits)

lemma poll_outstanding: "handle_poll s = Some s' \<Longrightarrow> outstanding s' = outstanding s"
  by (auto simp: handle_poll_def queue_defs split: if_splits)

lemma grab_outstanding: "handle_grab s = Some s' \<Longrightarrow> outstanding s' = outstanding s"
  by (auto simp: handle_grab_def queue_defs split: if_splits)

lemma call_outstanding: "handle_call s = Some (t, st, s') \<Longrightarrow> outstanding s = t # outstanding s'"
  by (auto simp: handle_call_def queue_defs split: handler_pc.splits list.splits option.splits)

lemma return_outstanding: "handle_return s = Ret s' \<Longrightarrow> outstanding s' = outstanding s"
  by (auto simp: handle_return_def queue_defs libusb_free_transfer_def split: handler_pc.splits option.splits if_splits)

lemma cancel_outstanding: "libusb_cancel_transfer t s = Ret (rc, s') \<Longrightarrow> outstanding s' = outstanding s"
  by (auto simp: libusb_cancel_transfer_def queue_defs split: option.splits if_splits)

lemma free_outstanding: "libusb_free_transfer t s = Ret s' \<Longrightarrow> outstanding s' = outstanding s"
  by (auto simp: libusb_free_transfer_def queue_defs split: if_splits)

lemma update_outstanding [simp]: "outstanding (s\<lparr>lu_tr := f\<rparr>) = outstanding s" "outstanding (s\<lparr>lu_shutting := b\<rparr>) = outstanding s"
  by (simp_all add: queue_defs)

section \<open>The invariant\<close>

text \<open>
  The threads: the worker runs once something has been submitted, it only ends with nothing to do, and no completion
  waits without a wakeup: the handler is past the pipe, or a byte is in it or about to be written.
\<close>

definition threads_inv :: "libusb_context \<Rightarrow> bool" where
  "threads_inv s \<longleftrightarrow> (lu_worker s = W_Off \<longleftrightarrow> \<not> lu_worker_started s) \<and> (lu_subq s \<noteq> [] \<longrightarrow> lu_worker_started s)
     \<and> (lu_worker s = W_Exit \<longrightarrow> lu_subq s = [] \<and> lu_shutting s)
     \<and> lu_handler s \<noteq> H_List [] \<and> (lu_doneq s \<noteq> [] \<longrightarrow> lu_handler s = H_Drained \<or> lu_worker s = W_Wake \<or> lu_pipe s > 0)"

text \<open>The transfers: what is outstanding or in its callback is allocated.\<close>

definition transfers_inv :: "libusb_context \<Rightarrow> bool" where
  "transfers_inv s \<longleftrightarrow> (\<forall>t\<in>set (outstanding s). lu_tr s t \<noteq> None)
     \<and> (case lu_handler s of H_Called t ts \<Rightarrow> (case lu_tr s t of Some it \<Rightarrow> frees_itself it \<longrightarrow> t \<notin> set (outstanding s) | None \<Rightarrow> False) | _ \<Rightarrow> True)"

lemma threads_new: "threads_inv (context_new hs)"
  by (simp add: threads_inv_def context_new_def)

lemma transfers_new: "transfers_inv (context_new hs)"
  by (simp add: transfers_inv_def context_new_def queue_defs)

lemma threads_step:
  assumes "astep mem cap s e s'" "threads_inv s" "0 < cap"
  shows "threads_inv s'"
  using assms(1)
proof cases
  case (submit t it)
  then show ?thesis using assms(2) by (auto simp: threads_inv_def libusb_submit_transfer_def split: option.splits if_splits)
next
  case (cancel t rc)
  then show ?thesis using assms(2) by (auto simp: threads_inv_def libusb_cancel_transfer_def split: option.splits if_splits)
next
  case (free t)
  then show ?thesis using assms(2) by (auto simp: threads_inv_def libusb_free_transfer_def split: if_splits)
next
  case take
  then show ?thesis using assms(2) by (auto simp: threads_inv_def worker_take_def split: if_splits list.splits option.splits)
next
  case run
  then show ?thesis using assms(2) by (auto simp: threads_inv_def worker_run_def split: worker_pc.splits option.splits cresult.splits)
next
  case wake
  then show ?thesis using assms(2,3) by (auto simp: threads_inv_def worker_wake_def split: if_splits)
next
  case poll
  then show ?thesis using assms(2) by (auto simp: threads_inv_def handle_poll_def split: if_splits)
next
  case poll_timeout
  then show ?thesis using assms(2) by (auto simp: threads_inv_def handle_poll_def split: if_splits)
next
  case grab
  then show ?thesis using assms(2) by (auto simp: threads_inv_def handle_grab_def after_list_def split: if_splits)
next
  case (call t st)
  then show ?thesis using assms(2) by (auto simp: threads_inv_def handle_call_def split: handler_pc.splits list.splits option.splits)
next
  case return
  then show ?thesis using assms(2)
    by (auto simp: threads_inv_def handle_return_def after_list_def libusb_free_transfer_def split: handler_pc.splits option.splits if_splits)
qed (use assms(2) in \<open>simp_all add: threads_inv_def\<close>)

lemma step_outstanding:
  assumes "astep mem cap s e s'" "threads_inv s"
  shows "case e of Submitted t \<Rightarrow> outstanding s' = outstanding s @ [t] \<and> t \<notin> set (outstanding s)
     | Called_back t st \<Rightarrow> outstanding s = t # outstanding s' | _ \<Rightarrow> outstanding s' = outstanding s"
  using assms(1)
proof cases
  case (submit t it)
  then show ?thesis using submit_outstanding [OF submit(5)] assms(2) by (simp add: threads_inv_def)
qed (simp_all add: take_outstanding run_outstanding wake_outstanding poll_outstanding grab_outstanding
    call_outstanding return_outstanding cancel_outstanding free_outstanding)

lemma areach_threads: "areach mem cap hs tr s \<Longrightarrow> 0 < cap \<Longrightarrow> threads_inv s"
  by (induction rule: areach.induct) (auto intro: threads_new threads_step)

lemma submits_callbacks:
  assumes "areach mem cap hs tr s" and "0 < cap"
  shows "submits tr = callbacks tr @ outstanding s \<and> distinct (outstanding s)"
  using assms
proof induction
  case new
  then show ?case by (simp add: queue_defs context_new_def)
next
  case (step tr s e s')
  then show ?case using step_outstanding [OF step.hyps(2) areach_threads [OF step.hyps(1)]] by (cases e) auto
qed

text \<open>C32: Every transfer submitted is called back once and in the order of submission: at any time what has been
  submitted is what has been called back followed by what is outstanding, and no transfer is outstanding twice.\<close>

theorem transfers_complete_once_in_order:
  assumes "areach mem cap hs tr s" and "0 < cap"
  shows "submits tr = callbacks tr @ outstanding s \<and> distinct (outstanding s)"
  using assms by (rule submits_callbacks)

section \<open>Progress\<close>

text \<open>A transfer keeps its flags.\<close>

definition same_transfer :: "nat \<Rightarrow> libusb_context \<Rightarrow> libusb_context \<Rightarrow> bool" where
  "same_transfer t s s' \<longleftrightarrow> (case lu_tr s t of None \<Rightarrow> True
     | Some it \<Rightarrow> (case lu_tr s' t of None \<Rightarrow> False | Some it' \<Rightarrow> lx_flags (it_pub it') = lx_flags (it_pub it)))"

lemma transfers_inv_mono:
  assumes "transfers_inv s" "set (outstanding s') \<subseteq> set (outstanding s)"
    and "\<And>t. t \<in> set (outstanding s) \<or> in_callback t s \<Longrightarrow> same_transfer t s s'"
    and "lu_handler s' = lu_handler s \<or> (\<nexists>t ts. lu_handler s' = H_Called t ts)"
  shows "transfers_inv s'"
proof -
  have "lu_tr s' t \<noteq> None" if "t \<in> set (outstanding s')" for t
  proof -
    have t: "t \<in> set (outstanding s)" using that assms(2) by blast
    then have "lu_tr s t \<noteq> None" using assms(1) by (simp add: transfers_inv_def)
    then show ?thesis using assms(3) [of t] t by (auto simp: same_transfer_def split: option.splits)
  qed
  moreover have "case lu_handler s' of H_Called t ts \<Rightarrow> (case lu_tr s' t of Some it \<Rightarrow> frees_itself it \<longrightarrow> t \<notin> set (outstanding s') | None \<Rightarrow> False) | _ \<Rightarrow> True"
  proof (cases "lu_handler s'")
    case (H_Called t ts)
    then have h: "lu_handler s = H_Called t ts" using assms(4) by auto
    then have "same_transfer t s s'" using assms(3) [of t] by (simp add: in_callback_def)
    then show ?thesis using assms(1,2) h H_Called
      by (auto simp: transfers_inv_def same_transfer_def frees_itself_def split: option.splits)
  qed simp_all
  ultimately show ?thesis by (simp add: transfers_inv_def)
qed

lemma run_transfer_flags: "run_transfer mem x hs = Ret (x', hs') \<Longrightarrow> lx_flags x' = lx_flags x"
  by (auto simp: run_transfer_def run_control_def run_data_def run_iso_def bindc_def Let_def
    split: option.splits if_splits prod.splits cresult.splits)

lemma transfers_step:
  assumes "astep mem cap s e s'" "transfers_inv s" "threads_inv s" "distinct (outstanding s)"
  shows "transfers_inv s'"
  using assms(1)
proof cases
  case (alloc t n)
  then show ?thesis by (intro transfers_inv_mono [OF assms(2)]) (auto simp: same_transfer_def in_callback_def split: option.splits)
next
  case (fill t it x)
  then show ?thesis by (intro transfers_inv_mono [OF assms(2)]) (auto simp: same_transfer_def in_callback_def split: option.splits)
next
  case (submit t it)
  have "outstanding s' = outstanding s @ [t]" using submit_outstanding [OF submit(5)] assms(3) by (simp add: threads_inv_def)
  then show ?thesis using assms(2) submit
    by (auto simp: transfers_inv_def in_callback_def libusb_submit_transfer_def frees_itself_def split: handler_pc.splits option.splits if_splits)
next
  case (cancel t rc)
  then show ?thesis using cancel_outstanding [OF cancel(2)]
    by (intro transfers_inv_mono [OF assms(2)]) (auto simp: same_transfer_def libusb_cancel_transfer_def split: option.splits if_splits)
next
  case (free t)
  then show ?thesis using free_outstanding [OF free(3)]
    by (intro transfers_inv_mono [OF assms(2)]) (auto simp: same_transfer_def libusb_free_transfer_def split: option.splits if_splits)
next
  case exit
  then show ?thesis by (intro transfers_inv_mono [OF assms(2)]) (auto simp: same_transfer_def split: option.splits)
next
  case take
  then show ?thesis using take_outstanding [OF take(2)]
    by (intro transfers_inv_mono [OF assms(2)]) (auto simp: same_transfer_def worker_take_def split: option.splits if_splits list.splits)
next
  case run
  then show ?thesis using run_outstanding [OF run(2)]
    by (intro transfers_inv_mono [OF assms(2)])
      (auto simp: same_transfer_def worker_run_def run_transfer_flags split: worker_pc.splits option.splits cresult.splits if_splits)
next
  case wake
  then show ?thesis using wake_outstanding [OF wake(2)]
    by (intro transfers_inv_mono [OF assms(2)]) (auto simp: same_transfer_def worker_wake_def split: option.splits if_splits)
next
  case poll
  then show ?thesis using poll_outstanding [OF poll(2)]
    by (intro transfers_inv_mono [OF assms(2)]) (auto simp: same_transfer_def handle_poll_def split: option.splits if_splits)
next
  case poll_timeout
  then show ?thesis using poll_outstanding [OF poll_timeout(2)]
    by (intro transfers_inv_mono [OF assms(2)]) (auto simp: same_transfer_def handle_poll_def split: option.splits if_splits)
next
  case grab
  then show ?thesis using grab_outstanding [OF grab(2)]
    by (intro transfers_inv_mono [OF assms(2)]) (auto simp: same_transfer_def handle_grab_def after_list_def split: option.splits if_splits)
next
  case (call t st)
  note o = call_outstanding [OF call(2)]
  obtain ts it where "lu_tr s t = Some it" "s' = s\<lparr>lu_tr := (lu_tr s)(t \<mapsto> it\<lparr>it_state := ST_DONE\<rparr>), lu_handler := H_Called t ts\<rparr>"
    using call by (auto simp: handle_call_def split: handler_pc.splits list.splits option.splits)
  then show ?thesis using assms(2,4) o by (simp add: transfers_inv_def)
next
  case return
  note o = return_outstanding [OF return(2)]
  obtain t ts it where h: "lu_handler s = H_Called t ts" "lu_tr s t = Some it"
    using return(2) by (auto simp: handle_return_def split: handler_pc.splits option.splits)
  have "lu_handler s' = after_list ts" and tr: "\<And>u. u \<noteq> t \<Longrightarrow> lu_tr s' u = lu_tr s u"
    "\<not> frees_itself it \<Longrightarrow> lu_tr s' t = lu_tr s t"
    using return(2) h by (auto simp: handle_return_def libusb_free_transfer_def frees_itself_def split: if_splits)
  moreover have "t \<notin> set (outstanding s)" if "frees_itself it" using that assms(2) h by (simp add: transfers_inv_def)
  ultimately have "lu_tr s' u = lu_tr s u" if "u \<in> set (outstanding s)" for u using that by (cases "u = t") auto
  then show ?thesis using assms(2) o \<open>lu_handler s' = after_list ts\<close> by (simp add: transfers_inv_def after_list_def)
qed

lemma areach_transfers: "areach mem cap hs tr s \<Longrightarrow> 0 < cap \<Longrightarrow> transfers_inv s"
  by (induction rule: areach.induct) (auto intro: transfers_new transfers_step dest: areach_threads submits_callbacks)

text \<open>A transfer that runs whatever the server answers: not isochronous, and a control buffer as long as its SETUP packet says.\<close>

definition runnable :: "libusb_transfer \<Rightarrow> bool" where
  "runnable x \<longleftrightarrow> lx_type x \<noteq> 1 \<and> (lx_type x = 0 \<longrightarrow> 8 \<le> length (lx_buffer x) \<and> 8 + unat (usb_get_le16 (lx_buffer x) 6) \<le> length (lx_buffer x))"

definition all_runnable :: "libusb_context \<Rightarrow> bool" where
  "all_runnable s \<longleftrightarrow> list_all (\<lambda>t. case lu_tr s t of Some it \<Rightarrow> runnable (it_pub it) | None \<Rightarrow> False) (in_flight (lu_worker s) @ lu_subq s)"

lemma runnable_runs: "runnable x \<Longrightarrow> \<exists>x' hs'. run_transfer mem x hs = Ret (x', hs')"
  by (auto simp: run_transfer_def runnable_def run_control_def Let_def split: option.splits prod.splits)

fun handler_weight :: "handler_pc \<Rightarrow> nat" where
  "handler_weight H_Idle = 1"
| "handler_weight H_Drained = 0"
| "handler_weight (H_List ts) = 3 * length ts"
| "handler_weight (H_Called t ts) = 2 + 3 * length ts"

fun worker_weight :: "worker_pc \<Rightarrow> nat" where
  "worker_weight (W_Run t c) = 6"
| "worker_weight W_Wake = 1"
| "worker_weight _ = 0"

definition weight :: "libusb_context \<Rightarrow> nat" where
  "weight s = handler_weight (lu_handler s) + worker_weight (lu_worker s) + 4 * length (lu_doneq s) + 7 * length (lu_subq s)"

text \<open>A step of the library's own threads, the callbacks among them.\<close>

fun own_turn :: "lu_event \<Rightarrow> bool" where
  "own_turn Internal = True"
| "own_turn (Called_back t st) = True"
| "own_turn e = False"

lemma all_runnable_same:
  assumes "all_runnable s" "in_flight (lu_worker s') @ lu_subq s' = in_flight (lu_worker s) @ lu_subq s"
    and "\<And>t. t \<in> set (in_flight (lu_worker s) @ lu_subq s) \<Longrightarrow> map_option it_pub (lu_tr s' t) = map_option it_pub (lu_tr s t)"
  shows "all_runnable s'"
proof -
  have "(case lu_tr s' t of Some it \<Rightarrow> runnable (it_pub it) | None \<Rightarrow> False)"
    if t: "t \<in> set (in_flight (lu_worker s) @ lu_subq s)" for t
  proof -
    have "case lu_tr s t of Some it \<Rightarrow> runnable (it_pub it) | None \<Rightarrow> False"
      using assms(1) t by (simp only: all_runnable_def list_all_iff)
    then show ?thesis using assms(3) [OF t] by (auto split: option.splits)
  qed
  then show ?thesis unfolding all_runnable_def list_all_iff assms(2) by blast
qed

lemma handler_progress:
  assumes "transfers_inv s" "threads_inv s" "all_runnable s" "lu_handler s \<noteq> H_Idle" "lu_handler s = H_Drained \<longrightarrow> lu_doneq s \<noteq> []"
  shows "\<exists>e s'. astep mem cap s e s' \<and> own_turn e \<and> weight s' < weight s \<and> all_runnable s'"
proof (cases "lu_handler s")
  case H_Idle
  then show ?thesis using assms(4) by simp
next
  case H_Drained
  let ?s = "s\<lparr>lu_doneq := [], lu_handler := after_list (lu_doneq s)\<rparr>"
  have "astep mem cap s Internal ?s" using H_Drained by (intro astep.grab) (simp add: handle_grab_def)
  moreover have "weight ?s < weight s" using H_Drained assms(5) by (simp add: weight_def after_list_def)
  moreover have "all_runnable ?s" using assms(3) by (simp add: all_runnable_def)
  ultimately show ?thesis by (intro exI [of _ Internal] exI [of _ ?s]) simp
next
  case (H_List l)
  then obtain t ts where l: "l = t # ts" using assms(2) by (cases l) (auto simp: threads_inv_def)
  then have "t \<in> set (outstanding s)" using H_List by (simp add: outstanding_def delivering_def)
  then obtain it where it: "lu_tr s t = Some it" using assms(1) by (auto simp: transfers_inv_def)
  let ?s = "s\<lparr>lu_tr := (lu_tr s)(t \<mapsto> it\<lparr>it_state := ST_DONE\<rparr>), lu_handler := H_Called t ts\<rparr>"
  have "astep mem cap s (Called_back t (lx_status (it_pub it))) ?s"
    using H_List l it by (intro astep.call) (simp add: handle_call_def)
  moreover have "weight ?s < weight s" using H_List l by (simp add: weight_def)
  moreover have "all_runnable ?s" using it by (intro all_runnable_same [OF assms(3)]) auto
  ultimately show ?thesis by (intro exI [of _ "Called_back t (lx_status (it_pub it))"] exI [of _ ?s]) simp
next
  case (H_Called t ts)
  then obtain it where it: "lu_tr s t = Some it" "frees_itself it \<longrightarrow> t \<notin> set (outstanding s)"
    using assms(1) by (auto simp: transfers_inv_def split: option.splits)
  define s0 where "s0 = (if frees_itself it then s\<lparr>lu_tr := (lu_tr s)(t := None)\<rparr> else s)"
  let ?s = "s0\<lparr>lu_handler := after_list ts\<rparr>"
  have "handle_return s = Ret ?s"
    using H_Called it by (auto simp: handle_return_def libusb_free_transfer_def frees_itself_def s0_def)
  then have "astep mem cap s Internal ?s" by (rule astep.return)
  moreover have "weight ?s < weight s" using H_Called by (simp add: weight_def after_list_def s0_def)
  moreover have "all_runnable ?s" using it
    by (intro all_runnable_same [OF assms(3)]) (auto simp: s0_def outstanding_def)
  ultimately show ?thesis by (intro exI [of _ Internal] exI [of _ ?s]) simp
qed

lemma worker_progress:
  assumes "threads_inv s" "all_runnable s" "lu_worker s = W_Wake \<or> in_flight (lu_worker s) @ lu_subq s \<noteq> []"
    "distinct (outstanding s)"
  shows "\<exists>e s'. astep mem cap s e s' \<and> own_turn e \<and> weight s' < weight s \<and> all_runnable s'"
proof (cases "lu_worker s")
  case W_Off
  then show ?thesis using assms(1,3) by (auto simp: threads_inv_def in_flight_def)
next
  case W_Exit
  then show ?thesis using assms(1,3) by (auto simp: threads_inv_def in_flight_def)
next
  case W_Wait
  then obtain t q where q: "lu_subq s = t # q" using assms(3) by (cases "lu_subq s") (auto simp: in_flight_def)
  then obtain it where it: "lu_tr s t = Some it" "runnable (it_pub it)"
    using assms(2) by (auto simp: all_runnable_def split: option.splits)
  let ?s = "s\<lparr>lu_subq := q, lu_tr := (lu_tr s)(t \<mapsto> it\<lparr>it_state := ST_INFLIGHT\<rparr>), lu_worker := W_Run t (it_cancelled it)\<rparr>"
  have "astep mem cap s Internal ?s" using W_Wait q it by (intro astep.take) (simp add: worker_take_def)
  moreover have "weight ?s < weight s" using W_Wait q by (simp add: weight_def)
  moreover have "all_runnable ?s" using it W_Wait q by (intro all_runnable_same [OF assms(2)]) (auto simp: in_flight_def)
  ultimately show ?thesis by (intro exI [of _ Internal] exI [of _ ?s]) simp
next
  case (W_Run t c)
  then obtain it where it: "lu_tr s t = Some it" "runnable (it_pub it)"
    using assms(2) by (auto simp: all_runnable_def in_flight_def split: option.splits)
  obtain x hs where r: "(if c then Ret ((it_pub it)\<lparr>lx_status := LIBUSB_TRANSFER_CANCELLED, lx_actual_length := 0\<rparr>, lu_handles s)
      else run_transfer mem (it_pub it) (lu_handles s)) = Ret (x, hs)"
    using runnable_runs [OF it(2)] by fastforce
  let ?s = "s\<lparr>lu_tr := (lu_tr s)(t \<mapsto> it\<lparr>it_pub := x\<rparr>), lu_handles := hs, lu_doneq := lu_doneq s @ [t], lu_worker := W_Wake\<rparr>"
  have "worker_run mem s = Some ?s" using W_Run it(1) r by (cases c) (auto simp: worker_run_def)
  then have "astep mem cap s Internal ?s" by (rule astep.run)
  moreover have "weight ?s < weight s" using W_Run by (simp add: weight_def)
  moreover have "all_runnable ?s"
  proof -
    have "t \<notin> set (lu_subq s)" using assms(4) W_Run by (simp add: outstanding_def in_flight_def)
    then have "\<forall>u\<in>set (lu_subq s). lu_tr ?s u = lu_tr s u" by auto
    then show ?thesis using assms(2) W_Run by (auto simp: all_runnable_def in_flight_def list_all_iff)
  qed
  ultimately show ?thesis by (intro exI [of _ Internal] exI [of _ ?s]) simp
next
  case W_Wake
  let ?s = "s\<lparr>lu_pipe := (if lu_pipe s < cap then lu_pipe s + 1 else lu_pipe s), lu_worker := W_Wait\<rparr>"
  have "astep mem cap s Internal ?s" using W_Wake by (intro astep.wake) (simp add: worker_wake_def)
  moreover have "weight ?s < weight s" using W_Wake by (simp add: weight_def)
  moreover have "all_runnable ?s" using assms(2) W_Wake by (simp add: all_runnable_def in_flight_def)
  ultimately show ?thesis by (intro exI [of _ Internal] exI [of _ ?s]) simp
qed

lemma progress:
  assumes "transfers_inv s" "threads_inv s" "all_runnable s" "outstanding s \<noteq> []" "distinct (outstanding s)"
  shows "\<exists>e s'. astep mem cap s e s' \<and> own_turn e \<and> weight s' < weight s \<and> all_runnable s'"
proof (cases "lu_worker s = W_Wake \<or> in_flight (lu_worker s) @ lu_subq s \<noteq> []")
  case True
  then show ?thesis using worker_progress [OF assms(2,3) _ assms(5)] by blast
next
  case False
  show ?thesis
  proof (cases "lu_handler s = H_Idle")
    case True
    then have "lu_doneq s \<noteq> []" using assms(4) False by (auto simp: outstanding_def delivering_def)
    then have p: "lu_pipe s > 0" using assms(2) False True by (simp add: threads_inv_def)
    let ?s = "s\<lparr>lu_pipe := 0, lu_handler := H_Drained\<rparr>"
    have "astep mem cap s Internal ?s" using p True by (intro astep.poll) (simp_all add: handle_poll_def)
    moreover have "weight ?s < weight s" "all_runnable ?s" using True assms(3) by (simp_all add: weight_def all_runnable_def)
    ultimately show ?thesis by (intro exI [of _ Internal] exI [of _ ?s]) simp
  next
    case h: False
    have "lu_doneq s \<noteq> []" if "lu_handler s = H_Drained" using that assms(4) False by (auto simp: outstanding_def delivering_def)
    then show ?thesis using handler_progress assms h by blast
  qed
qed

lemma all_complete:
  assumes "areach mem cap hs tr s" "0 < cap" "all_runnable s"
  shows "\<exists>es s'. areach mem cap hs (tr @ es) s' \<and> list_all own_turn es \<and> outstanding s' = []"
  using assms
proof (induction "weight s" arbitrary: tr s rule: less_induct)
  case less
  show ?case
  proof (cases "outstanding s = []")
    case True
    then show ?thesis using less.prems(1) by (intro exI [of _ "[]"]) auto
  next
    case False
    have "distinct (outstanding s)" using submits_callbacks less.prems by blast
    then obtain e s' where e: "astep mem cap s e s'" "own_turn e" "weight s' < weight s" "all_runnable s'"
      using progress [OF areach_transfers areach_threads, OF less.prems(1,2,1,2,3) False] by blast
    obtain es s'' where "areach mem cap hs ((tr @ [e]) @ es) s''" "list_all own_turn es" "outstanding s'' = []"
      using less.hyps [OF e(3) areach.step [OF less.prems(1) e(1)] less.prems(2) e(4)] by blast
    then show ?thesis using e(2) by (intro exI [of _ "e # es"] exI [of _ s'']) simp
  qed
qed

text \<open>C33: No transfer waits for ever: from every state the program can be in, with any number of transfers waiting,
  running and completed, the worker and the handler alone, without a timeout of the handler, get to a state where every
  transfer submitted has been called back in order. (The pipe holds at least a byte; transfers are not isochronous, whose
  replies are not checked, and control buffers are as long as their SETUP packets say.)\<close>

theorem transfers_are_called_back:
  assumes "areach mem cap hs tr s" and "0 < cap" and "all_runnable s"
  shows "\<exists>es s'. areach mem cap hs (tr @ es) s' \<and> list_all own_turn es \<and> callbacks (tr @ es) = submits tr"
proof -
  obtain es s' where "areach mem cap hs (tr @ es) s'" "list_all own_turn es" "outstanding s' = []"
    using all_complete [OF assms] by blast
  moreover from this(2) have "submits es = []" by (induction es rule: submits.induct) simp_all
  ultimately show ?thesis using submits_callbacks [of mem cap hs "tr @ es" s'] assms(2) by auto
qed

text \<open>The callback may not free its transfer, as the flags are read after it.\<close>

lemma free_in_callback_is_undefined:
  assumes "lu_handler s = H_Called t ts" "libusb_free_transfer t s = Ret s'"
  shows "handle_return s' = Undefined"
  using assms by (auto simp: libusb_free_transfer_def handle_return_def split: if_splits)

text \<open>A transfer whose result is already waiting for its callback can still be cancelled, it seems, with no effect.\<close>

lemma cancel_after_completion:
  assumes "lu_tr s t = Some it" "it_ctx it" "it_state it = ST_INFLIGHT" "t \<in> set (lu_doneq s)"
  shows "\<exists>s'. libusb_cancel_transfer t s = Ret (0, s') \<and> (\<exists>it'. lu_tr s' t = Some it' \<and> it_pub it' = it_pub it)"
  using assms by (simp add: libusb_cancel_transfer_def)

section \<open>Two transfers\<close>

definition demo_lu_handles :: lu_handles where
  "demo_lu_handles = (\<lambda>_. \<lparr>lh_dev = 0, lh_devid = 1, lh_seq = 0, lh_sock = \<lparr>segs = [], sent = [], caps = []\<rparr>\<rparr>)"

definition demo_xfer :: libusb_transfer where
  "demo_xfer = libusb_fill_bulk_transfer 0 0x02 [1, 2, 3] 3 (libusb_alloc_transfer 0)"

definition demo_it :: itransfer where
  "demo_it = \<lparr>it_ctx = False, it_state = ST_IDLE, it_cancelled = False, it_pub = demo_xfer\<rparr>"

definition queued_it :: itransfer where
  "queued_it = \<lparr>it_ctx = True, it_state = ST_QUEUED, it_cancelled = False, it_pub = demo_xfer\<rparr>"

definition demo_lu :: libusb_context where
  "demo_lu = \<lparr>lu_subq = [1, 0], lu_doneq = [], lu_worker_started = True, lu_shutting = False, lu_pipe = 0,
     lu_tr = [0 \<mapsto> queued_it, 1 \<mapsto> queued_it], lu_handles = demo_lu_handles, lu_worker = W_Wait, lu_handler = H_Idle\<rparr>"

definition demo_trace :: "lu_event list" where
  "demo_trace = [Application, Application, Application, Application, Submitted 1, Submitted 0]"

text \<open>A context in which nothing has been submitted.\<close>

definition demo_start :: "(nat \<Rightarrow> itransfer option) \<Rightarrow> libusb_context" where
  "demo_start f = (context_new demo_lu_handles)\<lparr>lu_tr := f\<rparr>"

lemma demo_start_simps [simp]: "outstanding (demo_start f) = []" "\<not> in_callback t (demo_start f)" "lu_tr (demo_start f) = f"
  "(demo_start f)\<lparr>lu_tr := g\<rparr> = demo_start g" "\<not> lu_shutting (demo_start f)"
  by (simp_all add: demo_start_def context_new_def queue_defs in_callback_def)

lemma demo_alloc:
  assumes "areach mem cap demo_lu_handles tr (demo_start f)" "f t = None"
  shows "areach mem cap demo_lu_handles (tr @ [Application])
    (demo_start (f(t \<mapsto> \<lparr>it_ctx = False, it_state = ST_IDLE, it_cancelled = False, it_pub = libusb_alloc_transfer n\<rparr>)))"
  using areach.step [OF assms(1) astep.alloc [of "demo_start f" t mem cap n]] assms(2) by simp

lemma demo_fill:
  assumes "areach mem cap demo_lu_handles tr (demo_start f)" "f t = Some it"
  shows "areach mem cap demo_lu_handles (tr @ [Application]) (demo_start (f(t \<mapsto> it\<lparr>it_pub := x\<rparr>)))"
  using areach.step [OF assms(1) astep.fill [of "demo_start f" t it mem cap x]] assms(2) by simp

lemma demo_reach: "areach (\<lambda>_. True) 65536 demo_lu_handles demo_trace demo_lu"
proof -
  let ?A = "areach (\<lambda>_. True) 65536 demo_lu_handles"
  have "?A [] (demo_start (\<lambda>_. None))" by (simp add: demo_start_def context_new_def)
  from demo_alloc [OF this, of 0 0] have "?A [Application] (demo_start [0 \<mapsto> demo_it\<lparr>it_pub := libusb_alloc_transfer 0\<rparr>])"
    by (simp add: demo_it_def)
  from demo_alloc [OF this, of 1 0]
  have "?A [Application, Application] (demo_start [0 \<mapsto> demo_it\<lparr>it_pub := libusb_alloc_transfer 0\<rparr>, 1 \<mapsto> demo_it\<lparr>it_pub := libusb_alloc_transfer 0\<rparr>])"
    by (simp add: demo_it_def)
  from demo_fill [OF this, of 1 _ demo_xfer]
  have "?A [Application, Application, Application] (demo_start [0 \<mapsto> demo_it\<lparr>it_pub := libusb_alloc_transfer 0\<rparr>, 1 \<mapsto> demo_it])"
    by (simp add: demo_it_def)
  from demo_fill [OF this, of 0 _ demo_xfer]
  have 4: "?A [Application, Application, Application, Application] (demo_start [0 \<mapsto> demo_it, 1 \<mapsto> demo_it])"
    by (simp add: demo_it_def fun_upd_twist)
  let ?s = "demo_lu\<lparr>lu_subq := [1], lu_tr := [0 \<mapsto> demo_it, 1 \<mapsto> queued_it]\<rparr>"
  have "libusb_submit_transfer 1 (demo_start [0 \<mapsto> demo_it, 1 \<mapsto> demo_it]) = Ret (0, ?s)"
    by (simp add: libusb_submit_transfer_def demo_it_def queued_it_def demo_xfer_def libusb_fill_bulk_transfer_def libusb_alloc_transfer_def
        demo_lu_def demo_start_def context_new_def queue_defs)
  then have "astep (\<lambda>_. True) 65536 (demo_start [0 \<mapsto> demo_it, 1 \<mapsto> demo_it]) (Submitted 1) ?s" by (intro astep.submit) simp_all
  from areach.step [OF 4 this] have 5: "?A [Application, Application, Application, Application, Submitted 1] ?s" by simp
  have "libusb_submit_transfer 0 ?s = Ret (0, demo_lu)"
    by (simp add: libusb_submit_transfer_def demo_it_def queued_it_def demo_xfer_def libusb_fill_bulk_transfer_def libusb_alloc_transfer_def
        demo_lu_def queue_defs fun_upd_twist)
  then have "astep (\<lambda>_. True) 65536 ?s (Submitted 0) demo_lu"
    by (intro astep.submit) (simp_all add: demo_lu_def in_callback_def)
  from areach.step [OF 5 this] show ?thesis by (simp add: demo_trace_def)
qed

theorem transfers_complete_once_in_order_witness:
  "submits demo_trace = callbacks demo_trace @ outstanding demo_lu \<and> distinct (outstanding demo_lu) \<and> submits demo_trace = [1, 0]"
  using transfers_complete_once_in_order [OF demo_reach] by (simp add: demo_trace_def)

theorem transfers_are_called_back_witness:
  "\<exists>es s'. areach (\<lambda>_. True) 65536 demo_lu_handles (demo_trace @ es) s' \<and> callbacks (demo_trace @ es) = [1, 0]"
proof -
  have "all_runnable demo_lu"
    by (simp add: all_runnable_def demo_lu_def in_flight_def queued_it_def demo_xfer_def libusb_fill_bulk_transfer_def runnable_def)
  then show ?thesis using transfers_are_called_back [OF demo_reach] by (auto simp: demo_trace_def)
qed

end
