(* ===== verification/Pcap.thy ===== *)
theory Pcap
  imports Client
begin

text \<open>
  The traffic capture of \<open>src/pcap.c\<close> and the hooks of \<open>src/usbip.c\<close> that feed it: PCAPNG blocks with
  their options, the session that is opened once (by a call or by \<open>USBIP_PCAPNG\<close>), one usbmon record per
  event, and the client's table of endpoint types learned from configuration descriptors. The files
  written are a map from names to contents; the environment, the process and the host's names are the arguments of the
  operations (\<open>pcap_env\<close>). Writes to an open file succeed. \<open>mem n\<close> says whether \<open>malloc(n)\<close> succeeds, and
  \<open>fresh n\<close> is what the allocated bytes hold before they are written.
\<close>

section \<open>Strings\<close>

definition chars :: "string \<Rightarrow> bytes" where
  "chars s = map of_char s"

definition lower :: "u8 \<Rightarrow> u8" where
  "lower c = (if 0x41 \<le> c \<and> c \<le> 0x5A then c + 0x20 else c)"

definition same_nocase :: "bytes \<Rightarrow> bytes \<Rightarrow> bool" where
  "same_nocase s t \<longleftrightarrow> map lower s = map lower t"

text \<open>\<open>strstr(path, "%p")\<close>: what is before the first occurrence and what follows it.\<close>

fun split_percent_p :: "bytes \<Rightarrow> (bytes \<times> bytes) option" where
  "split_percent_p (c # d # cs) =
     (if c = 0x25 \<and> d = 0x70 then Some ([], cs)
      else map_option (\<lambda>(pre, post). (c # pre, post)) (split_percent_p (d # cs)))"
| "split_percent_p cs = None"

section \<open>The session\<close>

record pcap_env =
  pe_variable :: "bytes option"
  pe_progname :: "bytes option"
  pe_pid :: bytes
  pe_sysname :: bytes
  pe_release :: bytes
  pe_machine :: bytes
  pe_version :: bytes
  pe_fopen :: "bytes \<Rightarrow> bool"

text \<open>\<open>g_fp\<close> is the name of the open file; \<open>g_lock\<close> makes each operation one step.\<close>

record pcap =
  g_fp :: "bytes option"
  g_checked :: bool
  g_files :: "bytes \<Rightarrow> bytes option"

definition fwrite :: "bytes \<Rightarrow> pcap \<Rightarrow> pcap" where
  "fwrite bs st = (case g_fp st of
       None \<Rightarrow> st
     | Some name \<Rightarrow> st\<lparr>g_files := (g_files st)(name \<mapsto> (case g_files st name of None \<Rightarrow> [] | Some old \<Rightarrow> old) @ bs)\<rparr>)"

section \<open>Blocks and options\<close>

definition write_block :: "u32 \<Rightarrow> bytes \<Rightarrow> pcap \<Rightarrow> pcap" where
  "write_block btype body st =
     (let total = of_nat (length body) + 12;
          hdr = usb_put_le32 4 total (usb_put_le32 0 btype (replicate 8 0));
          trailer = usb_put_le32 0 total (replicate 4 0)
      in fwrite trailer (fwrite body (fwrite hdr st)))"

definition pad4 :: "nat \<Rightarrow> nat" where
  "pad4 len = nat (- int len AND 3)"

text \<open>One option at \<open>off\<close> of a buffer, and the offset after it.\<close>

definition put_opt :: "u16 \<Rightarrow> bytes \<Rightarrow> bytes \<times> nat \<Rightarrow> bytes \<times> nat" where
  "put_opt code val s =
     (let (buf, off) = s; len = length val; pad = pad4 len;
          buf = usb_put_le16 (off + 2) (of_nat len) (usb_put_le16 off code buf);
          buf = put_at (off + 4) val buf;
          buf = put_at (off + 4 + len) (replicate pad 0) buf
      in (buf, off + 4 + len + pad))"

definition put_stropt :: "u16 \<Rightarrow> bytes \<Rightarrow> bytes \<times> nat \<Rightarrow> bytes \<times> nat" where
  "put_stropt code str s = put_opt code str s"

definition end_of_opts :: "bytes \<times> nat \<Rightarrow> bytes \<times> nat" where
  "end_of_opts s = (case s of (buf, off) \<Rightarrow> (usb_put_le16 (off + 2) 0 (usb_put_le16 off 0 buf), off + 4))"

definition shb_body :: "pcap_env \<Rightarrow> bytes \<times> nat" where
  "shb_body env =
     (let body = replicate 512 0;
          body = usb_put_le32 0 0x1A2B3C4D body;
          body = usb_put_le16 6 0 (usb_put_le16 4 1 body);
          body = usb_put_le32 12 0xFFFFFFFF (usb_put_le32 8 0xFFFFFFFF body);
          osbuf = snprintf_s 256 (pe_sysname env @ chars '' '' @ pe_release env);
          app = snprintf_s 256 (chars ''USBIP '' @ pe_version env @ chars '' (github.com/jabezwinston/usbip-c)'');
          s = put_stropt 2 (pe_machine env) (body, 16);
          s = put_stropt 3 osbuf s;
          s = put_stropt 4 app s
      in end_of_opts s)"

definition write_shb :: "pcap_env \<Rightarrow> pcap \<Rightarrow> pcap" where
  "write_shb env st = (case shb_body env of (body, off) \<Rightarrow> write_block 0x0A0D0D0A (take off body) st)"

definition LINKTYPE_USB_LINUX_MMAPPED :: u16 where
  "LINKTYPE_USB_LINUX_MMAPPED = 220"

definition idb_body :: "bytes \<times> nat" where
  "idb_body =
     (let body = usb_put_le16 0 LINKTYPE_USB_LINUX_MMAPPED (replicate 256 0);
          body = usb_put_le32 4 0 (usb_put_le16 2 0 body);
          s = put_stropt 2 (chars ''usbmon'') (body, 8);
          s = put_stropt 3 (chars ''Virtual USB (USB/IP)'') s;
          s = put_opt 9 [6] s
      in end_of_opts s)"

definition write_idb :: "pcap \<Rightarrow> pcap" where
  "write_idb st = (case idb_body of (body, off) \<Rightarrow> write_block 1 (take off body) st)"

definition write_epb :: "(nat \<Rightarrow> bool) \<Rightarrow> bytes \<Rightarrow> u64 \<Rightarrow> pcap \<Rightarrow> pcap" where
  "write_epb mem data ts_usec st =
     (let caplen = length data; pad = pad4 caplen; body_len = 20 + caplen + pad
      in if \<not> mem body_len then st else
      let body = replicate body_len 0;
          body = usb_put_le32 0 0 body;
          body = usb_put_le32 4 (ucast (drop_bit 32 ts_usec)) body;
          body = usb_put_le32 8 (ucast ts_usec) body;
          body = usb_put_le32 12 (of_nat caplen) body;
          body = usb_put_le32 16 (of_nat caplen) body;
          body = put_at 20 data body;
          body = put_at (20 + caplen) (replicate pad 0) body
      in write_block 6 body st)"

section \<open>Opening and closing\<close>

definition is_flag :: "bytes option \<Rightarrow> bool" where
  "is_flag str = (case str of
       None \<Rightarrow> True
     | Some s \<Rightarrow> s = [] \<or> s = chars ''1'' \<or> same_nocase s (chars ''on'') \<or> same_nocase s (chars ''yes'')
         \<or> same_nocase s (chars ''true'') \<or> same_nocase s (chars ''auto''))"

definition default_name :: "pcap_env \<Rightarrow> bytes" where
  "default_name env =
     (let prog = (case pe_progname env of
          None \<Rightarrow> chars ''usb_traffic''
        | Some p \<Rightarrow> if p = [] then chars ''usb_traffic'' else p)
      in snprintf_s 512 (prog @ chars ''.pcapng''))"

definition capture_name :: "pcap_env \<Rightarrow> bytes option \<Rightarrow> bytes" where
  "capture_name env path =
     (if is_flag path then default_name env
      else (case split_percent_p (the path) of
          Some (pre, post) \<Rightarrow> snprintf_s 512 (pre @ pe_pid env @ post)
        | None \<Rightarrow> snprintf_s 512 (the path)))"

definition usbip_pcap_open :: "pcap_env \<Rightarrow> bytes option \<Rightarrow> pcap \<Rightarrow> pcap" where
  "usbip_pcap_open env path st =
     (let st = st\<lparr>g_checked := True\<rparr>
      in if g_fp st \<noteq> None then st else
      let name = capture_name env path
      in if \<not> pe_fopen env name then st else
      let st = st\<lparr>g_fp := Some name, g_files := (g_files st)(name \<mapsto> [])\<rparr>
      in write_idb (write_shb env st))"

definition usbip_pcap_close :: "pcap \<Rightarrow> pcap" where
  "usbip_pcap_close st = (if g_fp st \<noteq> None then st\<lparr>g_fp := None\<rparr> else st)"

definition ensure :: "pcap_env \<Rightarrow> pcap \<Rightarrow> pcap" where
  "ensure env st =
     (if g_checked st then st
      else (case pe_variable env of
          Some v \<Rightarrow> usbip_pcap_open env (Some v) st
        | None \<Rightarrow> st\<lparr>g_checked := True\<rparr>))"

definition usbip_pcap_enabled :: "pcap_env \<Rightarrow> pcap \<Rightarrow> bool \<times> pcap" where
  "usbip_pcap_enabled env st = (let st = ensure env st in (g_fp st \<noteq> None, st))"

section \<open>One usbmon event\<close>

text \<open>The arguments of \<open>usbip_pcap_packet\<close>, as the hooks below build them.\<close>

record pcap_event =
  pk_devid :: u32
  pk_seqnum :: u32
  pk_xfer :: int
  pk_event :: char
  pk_ep_addr :: int
  pk_status :: int
  pk_setup :: "bytes option"
  pk_data :: "bytes option"
  pk_data_len :: int
  pk_urb_len :: int

definition usbmon_header :: "u64 \<Rightarrow> u32 \<Rightarrow> pcap_event \<Rightarrow> bytes" where
  "usbmon_header sec usec ev =
     (let data_len = max 0 (pk_data_len ev);
          hdr = replicate 64 0;
          hdr = usb_put_le64 0 (ucast (pk_seqnum ev)) hdr;
          hdr = hdr[8 := of_char (pk_event ev), 9 := word_of_int (pk_xfer ev),
                    10 := word_of_int (pk_ep_addr ev), 11 := ucast (pk_devid ev AND 0xFF)];
          hdr = usb_put_le16 12 (ucast (drop_bit 16 (pk_devid ev) AND 0xFFFF)) hdr;
          hdr = hdr[14 := (if pk_setup ev \<noteq> None then 0 else 0x2D),
                    15 := (if data_len > 0 then 0 else 0x2D)];
          hdr = usb_put_le64 16 sec hdr;
          hdr = usb_put_le32 24 usec hdr;
          hdr = usb_put_le32 28 (u32_of_int (pk_status ev)) hdr;
          hdr = usb_put_le32 32 (u32_of_int (pk_urb_len ev)) hdr;
          hdr = usb_put_le32 36 (u32_of_int data_len) hdr
      in case pk_setup ev of Some b \<Rightarrow> put_at 40 (take 8 b) hdr | None \<Rightarrow> hdr)"

definition usbmon_record :: "(nat \<Rightarrow> bytes) \<Rightarrow> u64 \<Rightarrow> u32 \<Rightarrow> pcap_event \<Rightarrow> bytes" where
  "usbmon_record fresh sec usec ev =
     (let data_len = max 0 (pk_data_len ev);
          rec = put_at 0 (usbmon_header sec usec ev) (fresh (64 + nat data_len))
      in if data_len > 0 then
           (case pk_data ev of Some d \<Rightarrow> put_at 64 (take (nat data_len) d) rec | None \<Rightarrow> rec)
         else rec)"

text \<open>The clock is read as \<open>sec\<close> and \<open>nsec\<close>.\<close>

definition usbip_pcap_packet ::
  "pcap_env \<Rightarrow> (nat \<Rightarrow> bool) \<Rightarrow> (nat \<Rightarrow> bytes) \<Rightarrow> u64 \<times> nat \<Rightarrow> pcap_event \<Rightarrow> pcap \<Rightarrow> pcap" where
  "usbip_pcap_packet env mem fresh clock ev st =
     (let st = ensure env st
      in if g_fp st = None then st else
      let (sec, nsec) = clock; usec = of_nat (nsec div 1000);
          caplen = 64 + nat (max 0 (pk_data_len ev))
      in if \<not> mem caplen then st else
      let ts_usec = sec * 1000000 + scast usec
      in write_epb mem (usbmon_record fresh sec usec ev) ts_usec st)"

section \<open>Transfer types and the hooks of the device side\<close>

abbreviation (input) USBMON_XFER_ISO :: int where "USBMON_XFER_ISO \<equiv> 0"
abbreviation (input) USBMON_XFER_INTR :: int where "USBMON_XFER_INTR \<equiv> 1"
abbreviation (input) USBMON_XFER_CTRL :: int where "USBMON_XFER_CTRL \<equiv> 2"
abbreviation (input) USBMON_XFER_BULK :: int where "USBMON_XFER_BULK \<equiv> 3"
abbreviation (input) USBMON_EVENT_SUBMIT :: char where "USBMON_EVENT_SUBMIT \<equiv> CHR ''S''"
abbreviation (input) USBMON_EVENT_COMPLETE :: char where "USBMON_EVENT_COMPLETE \<equiv> CHR ''C''"
abbreviation (input) USBMON_STATUS_PENDING :: int where "USBMON_STATUS_PENDING \<equiv> - 115"

definition bmattr_to_usbmon :: "int \<Rightarrow> u32 \<Rightarrow> int" where
  "bmattr_to_usbmon bmattr ep =
     (if ep = 0 then USBMON_XFER_CTRL
      else [USBMON_XFER_CTRL, USBMON_XFER_ISO, USBMON_XFER_BULK, USBMON_XFER_INTR] ! nat (bmattr AND 3))"

fun xfer_type_code :: "usb_xfer_type \<Rightarrow> int" where
  "xfer_type_code USB_CONTROL = 0"
| "xfer_type_code USB_ISO = 1"
| "xfer_type_code USB_BULK = 2"
| "xfer_type_code USB_INTR = 3"

definition pcap_xfer_dev :: "usbip_device \<Rightarrow> u32 \<Rightarrow> u32 \<Rightarrow> int cresult" where
  "pcap_xfer_dev dev ep direction =
     (if ep = 0 then Ret USBMON_XFER_CTRL
      else (case ep_map_at dev ep direction of
          Ret (Some i) \<Rightarrow> Ret (bmattr_to_usbmon (xfer_type_code (e_type (eps dev ! i))) ep)
        | Ret None \<Rightarrow> Ret USBMON_XFER_BULK
        | Err e \<Rightarrow> Err e
        | Undefined \<Rightarrow> Undefined))"


definition EP_ADDR :: "u32 \<Rightarrow> u32 \<Rightarrow> int" where
  "EP_ADDR ep dir = sint ep OR (if dir = DIR_IN then 0x80 else 0)"

text \<open>\<open>usbip_send_ret_submit\<close>, \<open>usbip_send_ret_iso\<close> and the receive loop, each with its arguments in the order of the call.\<close>

definition ret_submit_event :: "usbip_device \<Rightarrow> u32 \<Rightarrow> u32 \<Rightarrow> u32 \<Rightarrow> u32 \<Rightarrow> int \<Rightarrow> int \<Rightarrow> bytes \<Rightarrow> pcap_event cresult" where
  "ret_submit_event dev seqnum devid direction ep status actual data =
     (case pcap_xfer_dev dev ep direction of
        Ret xt \<Rightarrow> Ret \<lparr>pk_devid = devid, pk_seqnum = seqnum, pk_xfer = xt, pk_event = USBMON_EVENT_COMPLETE,
          pk_ep_addr = EP_ADDR ep direction, pk_status = status, pk_setup = None,
          pk_data = (if direction = DIR_IN \<and> actual > 0 then Some data else None),
          pk_data_len = (if direction = DIR_IN then actual else 0), pk_urb_len = actual\<rparr>
      | Err e \<Rightarrow> Err e | Undefined \<Rightarrow> Undefined)"

definition ret_iso_event :: "urb \<Rightarrow> bytes \<Rightarrow> pcap_event" where
  "ret_iso_event u data =
     (let total = fold (\<lambda>p t. t + ip_actual p) (u_iso u) (0 :: u32);
          isin = (u_direction u = DIR_IN)
      in \<lparr>pk_devid = u_devid u, pk_seqnum = u_seqnum u, pk_xfer = USBMON_XFER_ISO,
          pk_event = USBMON_EVENT_COMPLETE, pk_ep_addr = EP_ADDR (u_ep u) (u_direction u), pk_status = 0,
          pk_setup = None, pk_data = (if isin \<and> total > 0 then Some data else None),
          pk_data_len = (if isin then i32 total else 0), pk_urb_len = i32 total\<rparr>)"

definition cmd_submit_event :: "usbip_device \<Rightarrow> urb \<Rightarrow> pcap_event cresult" where
  "cmd_submit_event dev u =
     (let isout = (u_direction u = DIR_OUT)
      in case pcap_xfer_dev dev (u_ep u) (u_direction u) of
        Ret xt \<Rightarrow> Ret \<lparr>pk_devid = u_devid u, pk_seqnum = u_seqnum u, pk_xfer = xt,
          pk_event = USBMON_EVENT_SUBMIT, pk_ep_addr = EP_ADDR (u_ep u) (u_direction u),
          pk_status = USBMON_STATUS_PENDING, pk_setup = (if u_ep u = 0 then Some (u_setup u) else None),
          pk_data = (if isout then Some (u_data u) else None),
          pk_data_len = (if isout then int (length (u_data u)) else 0), pk_urb_len = u_length u\<rparr>
      | Err e \<Rightarrow> Err e | Undefined \<Rightarrow> Undefined)"

section \<open>What the importer learns of the endpoints\<close>

abbreviation (input) USB_DT_CONFIG :: u8 where "USB_DT_CONFIG \<equiv> 2"
abbreviation (input) USB_DT_ENDPOINT :: u8 where "USB_DT_ENDPOINT \<equiv> 5"
abbreviation (input) USB_REQ_GET_DESCRIPTOR :: u8 where "USB_REQ_GET_DESCRIPTOR \<equiv> 6"
abbreviation (input) USB_REQ_DIR_IN :: u8 where "USB_REQ_DIR_IN \<equiv> 0x80"

text \<open>The slots in use of \<open>pcap_epmap\<close>, at most \<open>PCAP_EPMAP_DEVS\<close>.\<close>

record pcap_epmap =
  pm_devid :: u32
  pm_type :: "nat \<Rightarrow> usb_dir \<Rightarrow> u8"

definition PCAP_EPMAP_DEVS :: nat where
  "PCAP_EPMAP_DEVS = 8"

fun find_devid :: "u32 \<Rightarrow> pcap_epmap list \<Rightarrow> nat option" where
  "find_devid devid [] = None"
| "find_devid devid (m # ms) = (if pm_devid m = devid then Some 0 else map_option Suc (find_devid devid ms))"

definition pcap_epmap_find :: "u32 \<Rightarrow> bool \<Rightarrow> pcap_epmap list \<Rightarrow> nat option \<times> pcap_epmap list" where
  "pcap_epmap_find devid create maps =
     (case find_devid devid maps of
        Some i \<Rightarrow> (Some i, maps)
      | None \<Rightarrow>
         if \<not> create then (None, maps)
         else (let slot = \<lparr>pm_devid = devid, pm_type = (\<lambda>ep dir. 0)\<rparr>
               in if length maps < PCAP_EPMAP_DEVS then (Some (length maps), maps @ [slot])
                  else (Some 0, maps[0 := slot])))"

text \<open>One endpoint descriptor at \<open>i\<close>; \<open>at\<close> is the slot found for the device, once one was needed.\<close>

definition learn_endpoint ::
  "u32 \<Rightarrow> bytes \<Rightarrow> nat \<Rightarrow> nat option \<times> pcap_epmap list \<Rightarrow> nat option \<times> pcap_epmap list" where
  "learn_endpoint devid cfg i s =
     (let (at, maps) = (case s of (None, maps) \<Rightarrow> pcap_epmap_find devid True maps | (Some k, maps) \<Rightarrow> (Some k, maps))
      in case at of
           None \<Rightarrow> (None, maps)
         | Some k \<Rightarrow>
            (let ep = unat (cfg ! (i + 2) AND 0x0f);
                 dir = (if cfg ! (i + 2) AND 0x80 \<noteq> 0 then USB_IN else USB_OUT);
                 t = (cfg ! (i + 3) AND 3) + 1;
                 m = maps ! k
             in (Some k, maps[k := m\<lparr>pm_type := (pm_type m)(ep := (pm_type m ep)(dir := t))\<rparr>])))"

function learn_from ::
  "u32 \<Rightarrow> bytes \<Rightarrow> nat \<Rightarrow> nat \<Rightarrow> nat option \<times> pcap_epmap list \<Rightarrow> nat option \<times> pcap_epmap list" where
  "learn_from devid cfg len i s =
     (if i + 2 \<le> len then
        (let blen = unat (cfg ! i); type = cfg ! (i + 1)
         in if blen = 0 then s
            else learn_from devid cfg len (i + blen)
                   (if type = USB_DT_ENDPOINT \<and> blen \<ge> 7 \<and> i + 7 \<le> len then learn_endpoint devid cfg i s else s))
      else s)"
  by pat_completeness auto
termination
  by (relation "measure (\<lambda>(devid, cfg, len, i, s). len - i)") auto

declare learn_from.simps [simp del]

definition pcap_epmap_learn :: "u32 \<Rightarrow> bytes \<Rightarrow> nat \<Rightarrow> pcap_epmap list \<Rightarrow> pcap_epmap list" where
  "pcap_epmap_learn devid cfg len maps = snd (learn_from devid cfg len 0 (None, maps))"

definition pcap_xfer_client :: "pcap_epmap list \<Rightarrow> u32 \<Rightarrow> u32 \<Rightarrow> usb_dir \<Rightarrow> int \<Rightarrow> int" where
  "pcap_xfer_client maps devid ep dir interval =
     (if ep = 0 then USBMON_XFER_CTRL
      else let type = (case fst (pcap_epmap_find devid False maps) of
                 Some k \<Rightarrow> if unat ep < 16 then pm_type (maps ! k) (unat ep) dir else 0
               | None \<Rightarrow> 0)
           in if type \<noteq> 0 then bmattr_to_usbmon (uint type - 1) ep
              else if interval > 0 then USBMON_XFER_INTR else USBMON_XFER_BULK)"

definition is_config_descriptor_reply :: "u32 \<Rightarrow> usb_dir \<Rightarrow> int \<Rightarrow> int \<Rightarrow> bytes option \<Rightarrow> bool" where
  "is_config_descriptor_reply ep dir status act stp =
     (if ep \<noteq> 0 \<or> dir \<noteq> USB_IN \<or> status \<noteq> 0 \<or> act \<le> 0 \<or> stp = None then False
      else the stp ! 0 = USB_REQ_DIR_IN \<and> the stp ! 1 = USB_REQ_GET_DESCRIPTOR \<and> the stp ! 3 = USB_DT_CONFIG)"

section \<open>The hooks of the importer\<close>

definition client_submit_event ::
  "u32 \<Rightarrow> u32 \<Rightarrow> int \<Rightarrow> usb_dir \<Rightarrow> u32 \<Rightarrow> bytes option \<Rightarrow> bytes \<Rightarrow> int \<Rightarrow> pcap_event" where
  "client_submit_event devid seq xt dir ep stp buf len =
     \<lparr>pk_devid = devid, pk_seqnum = seq, pk_xfer = xt, pk_event = USBMON_EVENT_SUBMIT,
      pk_ep_addr = EP_ADDR ep (usb_dir_code dir), pk_status = USBMON_STATUS_PENDING,
      pk_setup = (if ep = 0 then stp else None), pk_data = (if dir = USB_OUT then Some buf else None),
      pk_data_len = (if dir = USB_OUT then len else 0), pk_urb_len = len\<rparr>"

definition client_complete_event :: "u32 \<Rightarrow> u32 \<Rightarrow> int \<Rightarrow> usb_dir \<Rightarrow> u32 \<Rightarrow> int \<Rightarrow> bytes \<Rightarrow> int \<Rightarrow> pcap_event" where
  "client_complete_event devid seq xt dir ep status buf act =
     \<lparr>pk_devid = devid, pk_seqnum = seq, pk_xfer = xt, pk_event = USBMON_EVENT_COMPLETE,
      pk_ep_addr = EP_ADDR ep (usb_dir_code dir), pk_status = status, pk_setup = None,
      pk_data = (if dir = USB_IN \<and> act > 0 then Some buf else None),
      pk_data_len = (if dir = USB_IN then act else 0), pk_urb_len = act\<rparr>"

text \<open>
  What a transfer that got its reply leaves behind: the submission before the command is sent, and after the reply
  the learned types and the completion.
\<close>

record capture =
  ca_pcap :: pcap
  ca_maps :: "pcap_epmap list"

definition capture_submission ::
  "pcap_env \<Rightarrow> (nat \<Rightarrow> bool) \<Rightarrow> (nat \<Rightarrow> bytes) \<Rightarrow> u64 \<times> nat \<Rightarrow> u32 \<Rightarrow> u32 \<Rightarrow> usb_dir \<Rightarrow> u32 \<Rightarrow> bytes option \<Rightarrow> int
   \<Rightarrow> bytes \<Rightarrow> int \<Rightarrow> capture \<Rightarrow> (bool \<times> int) \<times> capture" where
  "capture_submission env mem fresh clock devid seq dir ep stp interval buf len c =
     (let (cap, st) = usbip_pcap_enabled env (ca_pcap c);
          xt = (if cap then pcap_xfer_client (ca_maps c) devid ep dir interval else USBMON_XFER_BULK)
      in ((cap, xt), c\<lparr>ca_pcap := (if cap
            then usbip_pcap_packet env mem fresh clock (client_submit_event devid seq xt dir ep stp buf len) st
            else st)\<rparr>))"

definition capture_completion ::
  "pcap_env \<Rightarrow> (nat \<Rightarrow> bool) \<Rightarrow> (nat \<Rightarrow> bytes) \<Rightarrow> u64 \<times> nat \<Rightarrow> bool \<times> int \<Rightarrow> u32 \<Rightarrow> u32 \<Rightarrow> usb_dir \<Rightarrow> u32
   \<Rightarrow> bytes option \<Rightarrow> int \<Rightarrow> bytes \<Rightarrow> int \<Rightarrow> capture \<Rightarrow> capture" where
  "capture_completion env mem fresh clock cx devid seq dir ep stp status buf act c =
     (let (cap, xt) = cx;
          c = (if cap \<and> is_config_descriptor_reply ep dir status act stp
               then c\<lparr>ca_maps := pcap_epmap_learn devid buf (nat act) (ca_maps c)\<rparr> else c)
      in if cap
         then c\<lparr>ca_pcap := usbip_pcap_packet env mem fresh clock
                  (client_complete_event devid seq xt dir ep status buf act) (ca_pcap c)\<rparr>
         else c)"

definition client_iso_submit_event :: "u32 \<Rightarrow> u32 \<Rightarrow> usb_dir \<Rightarrow> u32 \<Rightarrow> bytes \<Rightarrow> iso_pkt list \<Rightarrow> pcap_event" where
  "client_iso_submit_event devid seq dir ep buf pkts =
     (let total_len = fold (\<lambda>p t. t + ip_length p) pkts (0 :: u32)
      in \<lparr>pk_devid = devid, pk_seqnum = seq, pk_xfer = USBMON_XFER_ISO, pk_event = USBMON_EVENT_SUBMIT,
          pk_ep_addr = EP_ADDR ep (usb_dir_code dir), pk_status = USBMON_STATUS_PENDING, pk_setup = None,
          pk_data = (if dir = USB_OUT then Some buf else None),
          pk_data_len = (if dir = USB_OUT then i32 total_len else 0), pk_urb_len = i32 total_len\<rparr>)"

definition client_iso_complete_event :: "u32 \<Rightarrow> u32 \<Rightarrow> usb_dir \<Rightarrow> u32 \<Rightarrow> int \<Rightarrow> bytes \<Rightarrow> u32 \<Rightarrow> pcap_event" where
  "client_iso_complete_event devid seq dir ep status buf actual =
     \<lparr>pk_devid = devid, pk_seqnum = seq, pk_xfer = USBMON_XFER_ISO, pk_event = USBMON_EVENT_COMPLETE,
      pk_ep_addr = EP_ADDR ep (usb_dir_code dir), pk_status = status, pk_setup = None,
      pk_data = (if dir = USB_IN \<and> actual > 0 then Some buf else None),
      pk_data_len = (if dir = USB_IN then i32 actual else 0), pk_urb_len = i32 actual\<rparr>"

end
