(* ===== verification/Pcap_Props.thy ===== *)
theory Pcap_Props
  imports Pcap
begin

text \<open>
  What the capture file says: a reader of PCAPNG blocks, options and usbmon records that shares no code with the
  writer, and the session read back by it. What the importer's table of endpoint types holds after a
  configuration descriptor, against the declarations of the descriptor.
\<close>

section \<open>Buffers filled from the front\<close>

definition filled :: "bytes \<Rightarrow> nat \<Rightarrow> bytes" where
  "filled pre n = pre @ replicate n 0"

lemma filled_start: "replicate n 0 = filled [] n"
  by (simp add: filled_def)

lemma put_at_filled [buf_simps]:
  "length pre = off \<Longrightarrow> length bs \<le> n \<Longrightarrow> put_at off bs (filled pre n) = filled (pre @ bs) (n - length bs)"
  by (auto simp: put_at_def filled_def)

lemma update_filled [buf_simps]:
  "length pre = off \<Longrightarrow> 0 < n \<Longrightarrow> (filled pre n)[off := b] = filled (pre @ [b]) (n - 1)"
  by (cases n) (auto simp: filled_def list_update_append)

lemma take_filled [buf_simps]: "length pre = off \<Longrightarrow> take off (filled pre n) = pre"
  by (simp add: filled_def)

lemma pad4_eq: "pad4 n = (4 - n mod 4) mod 4"
proof -
  have m: "(mask 2 :: int) = 3" and q: "(2 :: int) ^ 2 = 4" by (simp_all add: mask_eq_exp_minus_1)
  have "- int n AND 3 = - int n mod 4"
    using take_bit_eq_mask [of 2 "- int n"] unfolding m take_bit_eq_mod q by (rule sym)
  then have "pad4 n = nat (- int n mod 4)" unfolding pad4_def by (rule arg_cong)
  moreover have "- int n mod 4 = (if n mod 4 = 0 then 0 else 4 - int (n mod 4))"
    unfolding zmod_zminus1_eq_if using zmod_int [of n 4] by simp
  moreover have "n mod 4 = 0 \<or> n mod 4 = 1 \<or> n mod 4 = 2 \<or> n mod 4 = 3" by arith
  ultimately show ?thesis by auto
qed

lemma pad4_aligns: "(n + pad4 n) mod 4 = 0" "pad4 n < 4"
proof -
  have "n mod 4 = 0 \<or> n mod 4 = 1 \<or> n mod 4 = 2 \<or> n mod 4 = 3" by arith
  then show "(n + pad4 n) mod 4 = 0" by (auto simp: pad4_eq mod_add_left_eq [of n 4 "x" for x, symmetric])
qed (simp add: pad4_eq)

section \<open>What the blocks and options are\<close>

definition block_bytes :: "u32 \<Rightarrow> bytes \<Rightarrow> bytes" where
  "block_bytes btype body = le_bytes 4 btype @ le_bytes 4 (of_nat (length body) + 12 :: u32) @ body
     @ le_bytes 4 (of_nat (length body) + 12 :: u32)"

definition opt_bytes :: "u16 \<Rightarrow> bytes \<Rightarrow> bytes" where
  "opt_bytes code val = le_bytes 2 code @ le_bytes 2 (of_nat (length val) :: u16) @ val
     @ replicate (pad4 (length val)) 0"

lemma length_opt_bytes: "length (opt_bytes code val) = 4 + length val + pad4 (length val)"
  by (simp add: opt_bytes_def)

lemma put_opt_filled [buf_simps]:
  assumes "length pre = off" "length (opt_bytes code val) \<le> n"
  shows "put_opt code val (filled pre n, off)
     = (filled (pre @ opt_bytes code val) (n - length (opt_bytes code val)), off + length (opt_bytes code val))"
  using assms by (auto simp: put_opt_def Let_def wire_defs buf_simps length_opt_bytes) (simp add: opt_bytes_def)

lemma end_of_opts_filled [buf_simps]:
  "length pre = off \<Longrightarrow> 4 \<le> n \<Longrightarrow> end_of_opts (filled pre n, off) = (filled (pre @ replicate 4 0) (n - 4), off + 4)"
  by (auto simp: end_of_opts_def wire_defs buf_simps le_bytes_numeral numeral_eq_Suc)

definition open_file :: "bytes \<Rightarrow> bytes \<Rightarrow> pcap \<Rightarrow> bool" where
  "open_file name bs st \<longleftrightarrow> g_fp st = Some name \<and> g_checked st \<and> g_files st name = Some bs"

definition same_others :: "bytes \<Rightarrow> pcap \<Rightarrow> pcap \<Rightarrow> bool" where
  "same_others name st st' \<longleftrightarrow> (\<forall>n. n = name \<or> g_files st' n = g_files st n)"

lemma fwrite_open: "open_file name bs st \<Longrightarrow> open_file name (bs @ cs) (fwrite cs st)"
  by (simp add: open_file_def fwrite_def)

lemma fwrite_others: "open_file name bs st \<Longrightarrow> same_others name st (fwrite cs st)"
  by (simp add: open_file_def fwrite_def same_others_def)

lemma same_others_trans: "same_others name a b \<Longrightarrow> same_others name b c \<Longrightarrow> same_others name a c"
  by (metis same_others_def)

lemma write_block_open:
  assumes "open_file name bs st"
  shows "open_file name (bs @ block_bytes btype body) (write_block btype body st)"
    and "same_others name st (write_block btype body st)"
proof -
  note steps = fwrite_open fwrite_others
  show "open_file name (bs @ block_bytes btype body) (write_block btype body st)"
    using assms by (auto simp: write_block_def Let_def open_file_def fwrite_def block_bytes_def wire_defs
        put_at_def numeral_eq_Suc)
  show "same_others name st (write_block btype body st)"
    using assms by (auto simp: write_block_def Let_def open_file_def fwrite_def same_others_def)
qed

section \<open>A reader of PCAPNG\<close>

function read_blocks :: "bytes \<Rightarrow> (u32 \<times> bytes) list option" where
  "read_blocks bs =
     (if bs = [] then Some []
      else if length bs < 12 then None
      else let n = unat (usb_get_le32 bs 4)
           in if n < 12 \<or> n mod 4 \<noteq> 0 \<or> length bs < n \<or> usb_get_le32 bs (n - 4) \<noteq> usb_get_le32 bs 4 then None
              else map_option (Cons (usb_get_le32 bs 0, bytes_at 8 (n - 12) bs)) (read_blocks (drop n bs)))"
  by pat_completeness auto
termination
  by (relation "measure length") auto

declare read_blocks.simps [simp del]

function read_opts :: "bytes \<Rightarrow> (u16 \<times> bytes) list option" where
  "read_opts bs =
     (if length bs < 4 then None
      else let code = usb_get_le16 bs 0; n = unat (usb_get_le16 bs 2); m = n + (4 - n mod 4) mod 4
           in if code = 0 then (if bs = [0, 0, 0, 0] then Some [] else None)
              else if length bs < 4 + m then None
              else map_option (Cons (code, bytes_at 4 n bs)) (read_opts (drop (4 + m) bs)))"
  by pat_completeness auto
termination
  by (relation "measure length") auto

declare read_opts.simps [simp del]

lemma read_block_bytes:
  assumes "length body mod 4 = 0" "length body + 12 < 2 ^ 32"
  shows "read_blocks (block_bytes btype body @ rest) = map_option (Cons (btype, body)) (read_blocks rest)"
proof -
  let ?t = "of_nat (length body) + 12 :: u32"
  have n: "unat ?t = length body + 12"
  proof -
    have "?t = of_nat (length body + 12)" by simp
    then have "unat ?t = (length body + 12) mod 2 ^ LENGTH(32)" by (simp only: unat_of_nat)
    then show ?thesis using assms(2) by (simp only: len_num1 len_bit0 mod_less) simp
  qed
  have 4: "usb_get_le32 (block_bytes btype body @ rest) 4 = ?t"
    and e: "usb_get_le32 (block_bytes btype body @ rest) (8 + length body) = ?t"
    and 0: "usb_get_le32 (block_bytes btype body @ rest) 0 = btype"
    and b: "bytes_at 8 (length body) (block_bytes btype body @ rest) = body"
    and d: "drop (length body + 12) (block_bytes btype body @ rest) = rest"
    and l: "length (block_bytes btype body) = length body + 12"
    by (simp_all add: wire_defs bytes_at_def block_bytes_def)
  have ne: "block_bytes btype body \<noteq> []" using l by auto
  show ?thesis
    using assms by (subst read_blocks.simps) (simp add: 4 n 0 b d l e ne Let_def mod_add_eq [symmetric] del: mod_add_eq)
qed

lemma read_opt_bytes:
  assumes "code \<noteq> 0" "length val < 2 ^ 16"
  shows "read_opts (opt_bytes code val @ rest) = map_option (Cons (code, val)) (read_opts rest)"
proof -
  have n: "unat (of_nat (length val) :: u16) = length val"
    using assms(2) by (simp add: unat_of_nat)
  have "usb_get_le16 (opt_bytes code val @ rest) 2 = of_nat (length val)"
    "usb_get_le16 (opt_bytes code val @ rest) 0 = code"
    "bytes_at 4 (length val) (opt_bytes code val @ rest) = val"
    "drop (4 + (length val + pad4 (length val))) (opt_bytes code val @ rest) = rest"
    by (simp_all add: wire_defs bytes_at_def opt_bytes_def)
  then show ?thesis
    by (subst read_opts.simps) (use assms in \<open>auto simp: n Let_def length_opt_bytes pad4_eq [symmetric]\<close>)
qed


section \<open>The header blocks\<close>

definition shb_opts :: "pcap_env \<Rightarrow> (u16 \<times> bytes) list" where
  "shb_opts env = [(2, pe_machine env), (3, pe_sysname env @ chars '' '' @ pe_release env),
     (4, chars ''USBIP '' @ pe_version env @ chars '' (github.com/jabezwinston/usbip-c)'')]"

definition idb_opts :: "(u16 \<times> bytes) list" where
  "idb_opts = [(2, chars ''usbmon''), (3, chars ''Virtual USB (USB/IP)''), (9, [6])]"

text \<open>The fields of \<open>struct utsname\<close> are arrays of 65 characters, the terminator included.\<close>

definition names_fit :: "pcap_env \<Rightarrow> bool" where
  "names_fit env \<longleftrightarrow> length (pe_machine env) < 65 \<and> length (pe_sysname env) < 65
     \<and> length (pe_release env) < 65 \<and> length (pe_version env) < 32"

definition opts_bytes :: "(u16 \<times> bytes) list \<Rightarrow> bytes" where
  "opts_bytes os = concat (map (\<lambda>(code, val). opt_bytes code val) os) @ replicate 4 0"

lemma read_opts_end: "read_opts (replicate 4 0) = Some []"
proof -
  have "replicate 4 0 = [0, 0, 0, 0 :: u8]" by (simp add: numeral_eq_Suc)
  then show ?thesis
    by (subst read_opts.simps) (simp add: wire_defs bytes_at_def Let_def)
qed

lemma read_opts_bytes:
  "list_all (\<lambda>(code, val). code \<noteq> 0 \<and> length val < 2 ^ 16) os \<Longrightarrow> read_opts (opts_bytes os) = Some os"
proof (induction os)
  case Nil
  then show ?case by (simp add: opts_bytes_def read_opts_end)
next
  case (Cons o1 os)
  obtain code val where "o1 = (code, val)" by fastforce
  with Cons show ?case by (simp add: opts_bytes_def read_opt_bytes)
qed

lemma pad4_le: "pad4 n \<le> 3"
  using pad4_aligns(2) [of n] by simp

lemma length_chars [simp]: "length (chars s) = length s"
  by (simp add: chars_def)

definition shb_fixed :: bytes where
  "shb_fixed = le_bytes 4 (0x1A2B3C4D :: u32) @ le_bytes 2 (1 :: u16) @ le_bytes 2 (0 :: u16)
     @ le_bytes 4 (0xFFFFFFFF :: u32) @ le_bytes 4 (0xFFFFFFFF :: u32)"

definition idb_fixed :: bytes where
  "idb_fixed = le_bytes 2 (220 :: u16) @ le_bytes 2 (0 :: u16) @ le_bytes 4 (0 :: u32)"

lemma opts_room:
  assumes "length val \<le> n"
  shows "length (opt_bytes code val) \<le> n + 7"
  using assms pad4_le [of "length val"] by (simp add: length_opt_bytes)

lemma shb_body_is:
  assumes "names_fit env"
  shows "\<exists>n off. shb_body env = (filled (shb_fixed @ opts_bytes (shb_opts env)) n, off)
     \<and> off = length (shb_fixed @ opts_bytes (shb_opts env)) \<and> off + n = 512"
proof -
  have f: "length (pe_machine env) < 65" "length (pe_sysname env) < 65" "length (pe_release env) < 65"
    "length (pe_version env) < 32" using assms by (simp_all add: names_fit_def)
  let ?os = "pe_sysname env @ chars '' '' @ pe_release env"
  let ?app = "chars ''USBIP '' @ pe_version env @ chars '' (github.com/jabezwinston/usbip-c)''"
  have s: "snprintf_s 256 ?os = ?os" "snprintf_s 256 ?app = ?app" using f by (simp_all add: snprintf_s_def)
  have l: "length (opt_bytes 2 (pe_machine env)) \<le> 71" "length (opt_bytes 3 ?os) \<le> 136"
    "length (opt_bytes 4 ?app) \<le> 81"
    by (rule order.trans [OF opts_room [OF order.refl]]; use f in simp)+
  have w: "length shb_fixed = 16" by (simp add: shb_fixed_def)
  have b: "usb_put_le32 12 0xFFFFFFFF (usb_put_le32 8 0xFFFFFFFF (usb_put_le16 6 0 (usb_put_le16 4 1
      (usb_put_le32 0 0x1A2B3C4D (replicate 512 0))))) = filled shb_fixed 496"
    by (simp add: wire_defs filled_start buf_simps shb_fixed_def)
  show ?thesis
    unfolding shb_body_def Let_def s b put_stropt_def using l w
    by (simp add: buf_simps opts_bytes_def shb_opts_def) (intro exI conjI, rule refl, simp)
qed

lemma idb_body_is:
  "\<exists>n off. idb_body = (filled (idb_fixed @ opts_bytes idb_opts) n, off) \<and> off = length (idb_fixed @ opts_bytes idb_opts)"
proof -
  have w: "length idb_fixed = 8" by (simp add: idb_fixed_def)
  have b: "usb_put_le32 4 0 (usb_put_le16 2 0 (usb_put_le16 0 LINKTYPE_USB_LINUX_MMAPPED (replicate 256 0)))
     = filled idb_fixed 248"
    by (simp add: wire_defs filled_start buf_simps idb_fixed_def LINKTYPE_USB_LINUX_MMAPPED_def)
  have l: "length (opt_bytes 2 (chars ''usbmon'')) \<le> 13" "length (opt_bytes 3 (chars ''Virtual USB (USB/IP)'')) \<le> 27"
    "length (opt_bytes 9 [6]) \<le> 8"
    by (rule order.trans [OF opts_room [OF order.refl]]; simp)+
  show ?thesis
    unfolding idb_body_def Let_def b put_stropt_def using l w by (simp add: buf_simps opts_bytes_def idb_opts_def) (intro exI, rule refl)
qed

section \<open>A usbmon record\<close>

record seen =
  se_ts :: u64
  se_id :: u64
  se_event :: u8
  se_xfer :: u8
  se_ep :: u8
  se_device :: u8
  se_bus :: u16
  se_sec :: u64
  se_usec :: u32
  se_status :: int
  se_urb_len :: int
  se_setup :: "bytes option"
  se_payload :: bytes

text \<open>The body of an enhanced packet block: interface 0, the whole packet captured, the lengths of its data right.\<close>

definition read_event :: "bytes \<Rightarrow> seen option" where
  "read_event body =
     (let caplen = unat (usb_get_le32 body 12); r = bytes_at 20 caplen body; n = nat (i32 (usb_get_le32 r 36))
      in if usb_get_le32 body 0 \<noteq> 0 \<or> usb_get_le32 body 16 \<noteq> usb_get_le32 body 12 \<or> length r \<noteq> 64 + n
           \<or> (r ! 15 = 0 \<longleftrightarrow> n = 0) then None
         else Some \<lparr>
           se_ts = push_bit 32 (ucast (usb_get_le32 body 4)) OR ucast (usb_get_le32 body 8),
           se_id = usb_get_le64 r 0, se_event = r ! 8, se_xfer = r ! 9, se_ep = r ! 10, se_device = r ! 11,
           se_bus = usb_get_le16 r 12, se_sec = usb_get_le64 r 16, se_usec = usb_get_le32 r 24,
           se_status = i32 (usb_get_le32 r 28), se_urb_len = i32 (usb_get_le32 r 32),
           se_setup = (if r ! 14 = 0 then Some (bytes_at 40 8 r) else None), se_payload = drop 64 r\<rparr>)"

text \<open>What a reader is to see of an event logged at \<open>clock\<close>.\<close>

definition seen_of :: "(u64 \<times> nat) \<times> pcap_event \<Rightarrow> seen" where
  "seen_of te = (case te of ((sec, nsec), ev) \<Rightarrow> \<lparr>
     se_ts = sec * 1000000 + of_nat (nsec div 1000), se_id = ucast (pk_seqnum ev),
     se_event = of_char (pk_event ev), se_xfer = word_of_int (pk_xfer ev), se_ep = word_of_int (pk_ep_addr ev),
     se_device = ucast (pk_devid ev AND 0xFF), se_bus = ucast (drop_bit 16 (pk_devid ev) AND 0xFFFF),
     se_sec = sec, se_usec = of_nat (nsec div 1000), se_status = pk_status ev, se_urb_len = pk_urb_len ev,
     se_setup = pk_setup ev,
     se_payload = (if 0 < pk_data_len ev then take (nat (pk_data_len ev)) (the (pk_data ev)) else [])\<rparr>)"

text \<open>A call the C code may make: a nanosecond count of the clock, \<open>int32_t\<close> values, a SETUP of 8 bytes, as much
  data as announced, and a record whose length is an \<open>int\<close>.\<close>

definition call_ok :: "(u64 \<times> nat) \<times> pcap_event \<Rightarrow> bool" where
  "call_ok te \<longleftrightarrow> (case te of ((sec, nsec), ev) \<Rightarrow>
     nsec < 1000000000 \<and> (- (2 ^ 31) \<le> pk_status ev \<and> pk_status ev < 2 ^ 31)
     \<and> (- (2 ^ 31) \<le> pk_urb_len ev \<and> pk_urb_len ev < 2 ^ 31)
     \<and> (case pk_setup ev of Some b \<Rightarrow> length b = 8 | None \<Rightarrow> True)
     \<and> (0 < pk_data_len ev \<longrightarrow> pk_data_len ev < 2 ^ 31 - 128
          \<and> (case pk_data ev of Some d \<Rightarrow> pk_data_len ev \<le> int (length d) | None \<Rightarrow> False)))"

definition setup_field :: "bytes option \<Rightarrow> bytes" where
  "setup_field stp = (case stp of Some b \<Rightarrow> take 8 b | None \<Rightarrow> replicate 8 0)"

lemma usbmon_header_is:
  assumes "case pk_setup ev of Some b \<Rightarrow> length b = 8 | None \<Rightarrow> True"
  shows "usbmon_header sec usec ev =
    le_bytes 8 (ucast (pk_seqnum ev) :: u64)
    @ [of_char (pk_event ev), word_of_int (pk_xfer ev), word_of_int (pk_ep_addr ev), ucast (pk_devid ev AND 0xFF)]
    @ le_bytes 2 (ucast (drop_bit 16 (pk_devid ev) AND 0xFFFF) :: u16)
    @ [if pk_setup ev \<noteq> None then 0 else 0x2D, if max 0 (pk_data_len ev) > 0 then 0 else 0x2D]
    @ le_bytes 8 sec @ le_bytes 4 usec @ le_bytes 4 (u32_of_int (pk_status ev))
    @ le_bytes 4 (u32_of_int (pk_urb_len ev)) @ le_bytes 4 (u32_of_int (max 0 (pk_data_len ev)))
    @ setup_field (pk_setup ev) @ replicate 16 0"
proof -
  have z: "filled (pre :: bytes) 24 = pre @ replicate 8 0 @ replicate 16 0" for pre
    by (simp add: filled_def replicate_add [symmetric])
  have y: "filled (pre :: bytes) 16 = pre @ replicate 16 0" for pre
    by (simp add: filled_def)
  show ?thesis
    unfolding usbmon_header_def Let_def filled_start [of 64] using assms
    by (cases "pk_setup ev") (simp_all add: wire_defs buf_simps setup_field_def y, simp_all add: z)
qed

lemma length_usbmon_header [simp]:
  "(case pk_setup ev of Some b \<Rightarrow> length b = 8 | None \<Rightarrow> True) \<Longrightarrow> length (usbmon_header sec usec ev) = 64"
  by (cases "pk_setup ev") (simp_all add: usbmon_header_is setup_field_def)

definition payload :: "pcap_event \<Rightarrow> bytes" where
  "payload ev = (if 0 < pk_data_len ev then take (nat (pk_data_len ev)) (the (pk_data ev)) else [])"

lemma payload_length:
  "call_ok (clock, ev) \<Longrightarrow> length (payload ev) = nat (max 0 (pk_data_len ev))"
  by (auto simp: payload_def call_ok_def split_def split: option.splits)

lemma usbmon_record_is:
  assumes ok: "call_ok ((sec, nsec), ev)" and fresh: "\<And>n. length (fresh n) = n"
  shows "usbmon_record fresh sec usec ev = usbmon_header sec usec ev @ payload ev"
proof (cases "0 < pk_data_len ev")
  case False
  then show ?thesis using ok fresh
    by (simp add: usbmon_record_def payload_def Let_def put_at_def call_ok_def max_def)
next
  case True
  with ok obtain d where "pk_data ev = Some d" "pk_data_len ev \<le> int (length d)"
    by (auto simp: call_ok_def split: option.splits)
  with True ok fresh show ?thesis
    by (simp add: usbmon_record_def payload_def Let_def put_at_def call_ok_def max_def)
qed

definition epb_body :: "u64 \<Rightarrow> bytes \<Rightarrow> bytes" where
  "epb_body ts data = le_bytes 4 (0 :: u32) @ le_bytes 4 (ucast (drop_bit 32 ts) :: u32) @ le_bytes 4 (ucast ts :: u32)
     @ le_bytes 4 (of_nat (length data) :: u32) @ le_bytes 4 (of_nat (length data) :: u32) @ data
     @ replicate (pad4 (length data)) 0"

lemma length_epb_body: "length (epb_body ts data) = 20 + length data + pad4 (length data)"
  by (simp add: epb_body_def)

lemma write_epb_is:
  "write_epb mem data ts st =
     (if mem (20 + length data + pad4 (length data)) then write_block 6 (epb_body ts data) st else st)"
  unfolding write_epb_def Let_def filled_start
  by (simp add: wire_defs buf_simps) (simp add: filled_def epb_body_def put_at_def)

lemma scast_usec: "nsec < 1000000000 \<Longrightarrow> (scast (of_nat (nsec div 1000) :: u32) :: u64) = of_nat (nsec div 1000)"
proof -
  assume "nsec < 1000000000"
  then have "nsec div 1000 < 2 ^ 31" by simp
  then have "i32 (u32_of_int (int (nsec div 1000))) = int (nsec div 1000)" by (intro i32_u32_of_int) auto
  moreover have "(of_nat (nsec div 1000) :: u32) = u32_of_int (int (nsec div 1000))"
    unfolding u32_of_int_def by (rule of_int_of_nat_eq [symmetric])
  moreover have "(scast w :: u64) = word_of_int (i32 w)" for w :: u32 by (rule scast_eq)
  ultimately show ?thesis by (simp only: of_int_of_nat_eq)
qed

lemma read_event_epb:
  assumes ok: "call_ok ((sec, nsec), ev)"
  shows "read_event (epb_body (sec * 1000000 + of_nat (nsec div 1000)) (usbmon_header sec (of_nat (nsec div 1000)) ev @ payload ev))
     = Some (seen_of ((sec, nsec), ev))"
proof -
  let ?ts = "sec * 1000000 + of_nat (nsec div 1000) :: u64"
  let ?u = "of_nat (nsec div 1000) :: u32"
  let ?r = "usbmon_header sec ?u ev @ payload ev"
  let ?b = "epb_body ?ts ?r"
  let ?m = "max 0 (pk_data_len ev)"
  have c: "case pk_setup ev of Some b \<Rightarrow> length b = 8 | None \<Rightarrow> True"
    "- (2 ^ 31) \<le> pk_status ev" "pk_status ev < 2 ^ 31" "- (2 ^ 31) \<le> pk_urb_len ev" "pk_urb_len ev < 2 ^ 31"
    "?m < 2 ^ 31 - 128"
    using ok by (auto simp: call_ok_def)
  have p: "length (payload ev) = nat ?m" using ok by (rule payload_length)
  have lr: "length ?r = 64 + nat ?m" using c(1) p by simp
  then have small: "length ?r < 2 ^ LENGTH(32)" using c(6) by simp
  have cap: "unat (usb_get_le32 ?b 12) = length ?r"
  proof -
    have "usb_get_le32 ?b 12 = of_nat (length ?r)" by (simp add: wire_defs bytes_at_def epb_body_def)
    then show ?thesis using small by (simp only: unat_of_nat mod_less)
  qed
  have b: "usb_get_le32 ?b 0 = 0" "usb_get_le32 ?b 16 = usb_get_le32 ?b 12"
    "usb_get_le32 ?b 4 = ucast (drop_bit 32 ?ts)" "usb_get_le32 ?b 8 = ucast ?ts" "bytes_at 20 (length ?r) ?b = ?r"
    by (simp_all add: wire_defs bytes_at_def epb_body_def)
  have ts: "push_bit 32 (ucast (ucast (drop_bit 32 ?ts) :: u32)) OR ucast (ucast ?ts :: u32) = ?ts"
    by (rule bit_word_eqI) (auto simp: bit_simps)
  have r: "usb_get_le64 ?r 0 = ucast (pk_seqnum ev)" "?r ! 8 = of_char (pk_event ev)"
    "?r ! 9 = word_of_int (pk_xfer ev)" "?r ! 10 = word_of_int (pk_ep_addr ev)"
    "?r ! 11 = ucast (pk_devid ev AND 0xFF)" "usb_get_le16 ?r 12 = ucast (drop_bit 16 (pk_devid ev) AND 0xFFFF)"
    "?r ! 14 = (if pk_setup ev \<noteq> None then 0 else 0x2D)" "?r ! 15 = (if ?m > 0 then 0 else 0x2D)"
    "usb_get_le64 ?r 16 = sec" "usb_get_le32 ?r 24 = ?u" "usb_get_le32 ?r 28 = u32_of_int (pk_status ev)"
    "usb_get_le32 ?r 32 = u32_of_int (pk_urb_len ev)" "usb_get_le32 ?r 36 = u32_of_int ?m"
    "bytes_at 40 8 ?r = setup_field (pk_setup ev)" "drop 64 ?r = payload ev"
    using c(1) by (simp_all add: usbmon_header_is wire_defs bytes_at_def nth_append setup_field_def split: option.splits)
  have i: "i32 (u32_of_int ?m) = ?m" "i32 (u32_of_int (pk_status ev)) = pk_status ev"
    "i32 (u32_of_int (pk_urb_len ev)) = pk_urb_len ev"
    using c(2-6) by (auto intro!: i32_u32_of_int)
  show ?thesis
    unfolding read_event_def Let_def cap b unfolding r ts i lr
    using c(1) p by (cases "pk_setup ev") (auto simp: seen_of_def payload_def setup_field_def c)
qed

section \<open>A session, read back\<close>

text \<open>Both allocations of a packet succeed: the record, and the block around it.\<close>

definition kept :: "(nat \<Rightarrow> bool) \<Rightarrow> (u64 \<times> nat) \<times> pcap_event \<Rightarrow> bool" where
  "kept mem te = (let n = 64 + nat (max 0 (pk_data_len (snd te))) in mem n \<and> mem (20 + n + pad4 n))"

definition packet_block :: "(u64 \<times> nat) \<times> pcap_event \<Rightarrow> bytes" where
  "packet_block te = (case te of ((sec, nsec), ev) \<Rightarrow>
     block_bytes 6 (epb_body (sec * 1000000 + of_nat (nsec div 1000))
       (usbmon_header sec (of_nat (nsec div 1000)) ev @ payload ev)))"

definition log_all ::
  "pcap_env \<Rightarrow> (nat \<Rightarrow> bool) \<Rightarrow> (nat \<Rightarrow> bytes) \<Rightarrow> ((u64 \<times> nat) \<times> pcap_event) list \<Rightarrow> pcap \<Rightarrow> pcap" where
  "log_all env mem fresh tes st = fold (\<lambda>(clock, ev). usbip_pcap_packet env mem fresh clock ev) tes st"

lemma packet_is:
  assumes "open_file name bs st" and ok: "call_ok te" and fresh: "\<And>n. length (fresh n) = n"
  shows "usbip_pcap_packet env mem fresh (fst te) (snd te) st =
    (if kept mem te then write_block 6 (epb_body (fst (fst te) * 1000000 + of_nat (snd (fst te) div 1000))
       (usbmon_header (fst (fst te)) (of_nat (snd (fst te) div 1000)) (snd te) @ payload (snd te))) st else st)"
proof -
  obtain sec nsec ev where te: "te = ((sec, nsec), ev)" by (metis prod.exhaust)
  have c: "nsec < 1000000000" "case pk_setup ev of Some b \<Rightarrow> length b = 8 | None \<Rightarrow> True"
    using ok by (simp_all add: te call_ok_def)
  have l: "length (payload ev) = nat (max 0 (pk_data_len ev))" using ok unfolding te by (rule payload_length)
  show ?thesis
    using assms(1) by (simp add: te usbip_pcap_packet_def ensure_def open_file_def Let_def kept_def
        usbmon_record_is [OF ok [unfolded te] fresh] write_epb_is scast_usec [OF c(1)] c(2) l)
qed

lemma packet_open:
  assumes "open_file name bs st" "call_ok te" "\<And>n. length (fresh n) = n"
  shows "open_file name (bs @ (if kept mem te then packet_block te else []))
           (usbip_pcap_packet env mem fresh (fst te) (snd te) st)"
    and "same_others name st (usbip_pcap_packet env mem fresh (fst te) (snd te) st)"
  using write_block_open [OF assms(1)] assms(1)
  by (simp_all add: packet_is [OF assms] packet_block_def split_def same_others_def)

lemma log_open:
  assumes "open_file name bs st" "list_all call_ok tes" "\<And>n. length (fresh n) = n"
  shows "open_file name (bs @ concat (map packet_block (filter (kept mem) tes))) (log_all env mem fresh tes st)
    \<and> same_others name st (log_all env mem fresh tes st)"
  using assms(1,2)
proof (induction tes arbitrary: bs st)
  case Nil
  then show ?case by (simp add: log_all_def same_others_def)
next
  case (Cons te tes)
  note p = packet_open [OF Cons.prems(1) _ assms(3), where te = te and env = env and mem = mem]
  have "call_ok te" "list_all call_ok tes" using Cons.prems(2) by simp_all
  with p Cons.IH [OF p(1)] show ?case
    by (auto simp: log_all_def split_def intro: same_others_trans)
qed

lemma packet_aligned: "length (epb_body ts data) mod 4 = 0"
proof -
  have "length (epb_body ts data) = 4 * 5 + (length data + pad4 (length data))" by (simp add: length_epb_body)
  then show ?thesis by (simp only: mod_mult_self4 pad4_aligns)
qed

lemma read_packet_blocks:
  assumes "list_all call_ok tes"
  shows "\<exists>bs. read_blocks (concat (map packet_block tes)) = Some bs \<and> list_all (\<lambda>(t, b). t = 6) bs
    \<and> map (\<lambda>(t, b). read_event b) bs = map (\<lambda>te. Some (seen_of te)) tes"
  using assms
proof (induction tes)
  case Nil
  then show ?case by (subst read_blocks.simps) simp
next
  case (Cons te tes)
  obtain sec nsec ev where te: "te = ((sec, nsec), ev)" by (metis prod.exhaust)
  have ok: "call_ok ((sec, nsec), ev)" and oks: "list_all call_ok tes" using Cons.prems te by simp_all
  let ?b = "epb_body (sec * 1000000 + of_nat (nsec div 1000)) (usbmon_header sec (of_nat (nsec div 1000)) ev @ payload ev)"
  have c: "case pk_setup ev of Some b \<Rightarrow> length b = 8 | None \<Rightarrow> True" "max 0 (pk_data_len ev) < 2 ^ 31 - 128"
    using ok by (auto simp: call_ok_def)
  have "length ?b \<le> 20 + (64 + nat (max 0 (pk_data_len ev))) + 3"
    using c(1) pad4_le by (simp add: length_epb_body payload_length [OF ok])
  then have "length ?b + 12 < 2 ^ 32" using c(2) by simp
  then have "read_blocks (packet_block te @ rest) = map_option (Cons (6, ?b)) (read_blocks rest)" for rest
    unfolding te packet_block_def prod.case by (intro read_block_bytes packet_aligned)
  with Cons.IH [OF oks] show ?case using read_event_epb [OF ok] by (auto simp: te)
qed

text \<open>
  What a reader takes from a file: the options of the section and of the interface, and the packets. A
  section header, one interface of link type 220, and nothing but packets.
\<close>

definition read_capture :: "bytes \<Rightarrow> ((u16 \<times> bytes) list \<times> (u16 \<times> bytes) list \<times> seen list) option" where
  "read_capture f =
     (case read_blocks f of
        Some ((t0, shb) # (t1, idb) # bs) \<Rightarrow>
          if t0 = 0x0A0D0D0A \<and> usb_get_le32 shb 0 = 0x1A2B3C4D \<and> usb_get_le16 shb 4 = 1 \<and> t1 = 1
             \<and> usb_get_le16 idb 0 = LINKTYPE_USB_LINUX_MMAPPED \<and> list_all (\<lambda>(t, b). t = 6) bs
          then (case read_opts (drop 16 shb) of None \<Rightarrow> None | Some so \<Rightarrow>
                 case read_opts (drop 8 idb) of None \<Rightarrow> None | Some io \<Rightarrow>
                 map_option (\<lambda>es. (so, io, es)) (those (map (\<lambda>(t, b). read_event b) bs)))
          else None
      | _ \<Rightarrow> None)"

lemma those_Somes: "those (map (\<lambda>x. Some (f x)) xs) = Some (map f xs)"
  by (induction xs) auto

definition file_header :: "pcap_env \<Rightarrow> bytes" where
  "file_header env = block_bytes 0x0A0D0D0A (shb_fixed @ opts_bytes (shb_opts env))
     @ block_bytes 1 (idb_fixed @ opts_bytes idb_opts)"

lemma opts_bytes_aligned: "length (opts_bytes os) mod 4 = 0"
proof (induction os)
  case Nil
  then show ?case by (simp add: opts_bytes_def)
next
  case (Cons o1 os)
  obtain code val where "o1 = (code, val)" by fastforce
  then have "length (opts_bytes (o1 # os)) = 4 * 1 + ((length val + pad4 (length val)) + length (opts_bytes os))"
    by (simp add: opts_bytes_def length_opt_bytes)
  also have "\<dots> mod 4 = ((length val + pad4 (length val)) mod 4 + length (opts_bytes os) mod 4) mod 4"
    by (simp only: mod_mult_self4 mod_add_eq)
  finally show ?case by (simp only: pad4_aligns Cons.IH add_0 mod_0)
qed

lemma open_writes_header:
  assumes "g_fp st = None" "pe_fopen env (capture_name env path)" "names_fit env"
  shows "open_file (capture_name env path) (file_header env) (usbip_pcap_open env path st)
    \<and> same_others (capture_name env path) st (usbip_pcap_open env path st)"
proof -
  let ?name = "capture_name env path"
  let ?st = "st\<lparr>g_checked := True, g_fp := Some ?name, g_files := (g_files st)(?name \<mapsto> [])\<rparr>"
  have 0: "open_file ?name [] ?st" "same_others ?name st ?st" by (simp_all add: open_file_def same_others_def)
  have w: "write_shb env s = write_block 0x0A0D0D0A (shb_fixed @ opts_bytes (shb_opts env)) s" for s
    using shb_body_is [OF assms(3)] by (auto simp: write_shb_def buf_simps)
  have v: "write_idb s = write_block 1 (idb_fixed @ opts_bytes idb_opts) s" for s
  proof -
    obtain n where b: "idb_body = (filled (idb_fixed @ opts_bytes idb_opts) n, length (idb_fixed @ opts_bytes idb_opts))"
      using idb_body_is by auto
    show ?thesis by (simp only: write_idb_def b prod.case take_filled)
  qed
  have u: "usbip_pcap_open env path st = write_idb (write_shb env ?st)"
    using assms by (simp add: usbip_pcap_open_def Let_def)
  note 1 = write_block_open [OF 0(1), of "0x0A0D0D0A" "shb_fixed @ opts_bytes (shb_opts env)"]
  note 2 = write_block_open [OF 1(1), of 1 "idb_fixed @ opts_bytes idb_opts"]
  show ?thesis unfolding u w v file_header_def
    using 2 same_others_trans [OF same_others_trans [OF 0(2) 1(2)] 2(2)] by simp
qed

lemma read_header:
  assumes fit: "names_fit env" and bs: "read_blocks rest = Some bs"
    and six: "list_all (\<lambda>(t, b). t = 6) bs" and evs: "map (\<lambda>(t, b). read_event b) bs = map (\<lambda>te. Some (seen_of te)) tes"
  shows "read_capture (file_header env @ rest) = Some (shb_opts env, idb_opts, map seen_of tes)"
proof -
  have f: "length (pe_machine env) < 65" "length (pe_sysname env) < 65" "length (pe_release env) < 65"
    "length (pe_version env) < 32" using fit by (simp_all add: names_fit_def)
  have w: "length shb_fixed = 16" "length idb_fixed = 8" by (simp_all add: shb_fixed_def idb_fixed_def)
  obtain n where "length (shb_fixed @ opts_bytes (shb_opts env)) + n = 512" using shb_body_is [OF fit] by auto
  then have s: "length (shb_fixed @ opts_bytes (shb_opts env)) + 12 < 2 ^ 32" by simp
  have "length (opts_bytes idb_opts) \<le> 100" by (simp add: opts_bytes_def idb_opts_def length_opt_bytes pad4_eq)
  then have i: "length (idb_fixed @ opts_bytes idb_opts) + 12 < 2 ^ 32" using w by simp
  have a: "length (shb_fixed @ opts_bytes (shb_opts env)) mod 4 = 0" "length (idb_fixed @ opts_bytes idb_opts) mod 4 = 0"
    using opts_bytes_aligned [of "shb_opts env"] opts_bytes_aligned [of idb_opts] w by (simp_all add: mod_add_eq [symmetric] del: mod_add_eq)
  have so: "read_opts (opts_bytes (shb_opts env)) = Some (shb_opts env)"
    by (rule read_opts_bytes) (use f in \<open>simp add: shb_opts_def\<close>)
  have io: "read_opts (opts_bytes idb_opts) = Some idb_opts"
    by (rule read_opts_bytes) (simp add: idb_opts_def)
  have m: "usb_get_le32 (shb_fixed @ os) 0 = 0x1A2B3C4D" "usb_get_le16 (shb_fixed @ os) 4 = 1"
    "usb_get_le16 (idb_fixed @ os) 0 = LINKTYPE_USB_LINUX_MMAPPED" for os
    by (simp_all add: wire_defs bytes_at_def shb_fixed_def idb_fixed_def LINKTYPE_USB_LINUX_MMAPPED_def)
  show ?thesis
    using six evs unfolding read_capture_def file_header_def append_assoc
      read_block_bytes [OF a(1) s] read_block_bytes [OF a(2) i] bs
    by (simp add: m w so io those_Somes)
qed

lemma session_read:
  assumes "g_fp st = None" "pe_fopen env (capture_name env path)" "names_fit env"
    and "list_all call_ok tes" "\<And>n. length (fresh n) = n"
  shows "\<exists>f. g_files (usbip_pcap_close (log_all env mem fresh tes (usbip_pcap_open env path st))) (capture_name env path) = Some f
      \<and> read_capture f = Some (shb_opts env, idb_opts, map seen_of (filter (kept mem) tes))"
    and "same_others (capture_name env path) st (usbip_pcap_close (log_all env mem fresh tes (usbip_pcap_open env path st)))"
proof -
  note h = open_writes_header [OF assms(1-3)]
  note l = log_open [OF conjunct1 [OF h] assms(4,5), where env = env and mem = mem]
  have c: "g_files (usbip_pcap_close s) = g_files s" for s by (simp add: usbip_pcap_close_def)
  have "list_all call_ok (filter (kept mem) tes)" using assms(4) by (auto simp: list_all_iff)
  from read_packet_blocks [OF this] obtain bs where
    bs: "read_blocks (concat (map packet_block (filter (kept mem) tes))) = Some bs"
      "list_all (\<lambda>(t, b). t = 6) bs" "map (\<lambda>(t, b). read_event b) bs = map (\<lambda>te. Some (seen_of te)) (filter (kept mem) tes)"
    by auto
  from read_header [OF assms(3) bs] l
  show "\<exists>f. g_files (usbip_pcap_close (log_all env mem fresh tes (usbip_pcap_open env path st))) (capture_name env path) = Some f
      \<and> read_capture f = Some (shb_opts env, idb_opts, map seen_of (filter (kept mem) tes))"
    unfolding c by (simp add: open_file_def)
  from same_others_trans [OF conjunct2 [OF h] conjunct2 [OF l]]
  show "same_others (capture_name env path) st (usbip_pcap_close (log_all env mem fresh tes (usbip_pcap_open env path st)))"
    by (simp add: same_others_def c)
qed

section \<open>The endpoint types of a device\<close>

text \<open>One descriptor with its own length in front.\<close>

definition well_framed :: "bytes \<Rightarrow> bool" where
  "well_framed d \<longleftrightarrow> 2 \<le> length d \<and> length d = unat (d ! 0)"

text \<open>The endpoint, direction and transfer type a descriptor declares; the last declaration counts.\<close>

definition declares :: "bytes \<Rightarrow> (nat \<times> usb_dir \<times> u8) option" where
  "declares d = (if d ! 1 = USB_DT_ENDPOINT \<and> 7 \<le> length d
     then Some (unat (d ! 2 AND 0x0f), (if d ! 2 AND 0x80 \<noteq> 0 then USB_IN else USB_OUT), d ! 3 AND 3) else None)"

definition take_decl :: "nat \<Rightarrow> usb_dir \<Rightarrow> bytes \<Rightarrow> u8 option \<Rightarrow> u8 option" where
  "take_decl ep dir d acc = (case declares d of
     Some (e, r, t) \<Rightarrow> if e = ep \<and> r = dir then Some t else acc | None \<Rightarrow> acc)"

definition declared :: "bytes list \<Rightarrow> nat \<Rightarrow> usb_dir \<Rightarrow> u8 option" where
  "declared ds ep dir = fold (take_decl ep dir) ds None"

definition known_type :: "pcap_epmap list \<Rightarrow> u32 \<Rightarrow> nat \<Rightarrow> usb_dir \<Rightarrow> u8" where
  "known_type maps devid ep dir = (case find_devid devid maps of None \<Rightarrow> 0 | Some k \<Rightarrow> pm_type (maps ! k) ep dir)"

lemma find_devid_Some: "find_devid devid maps = Some k \<Longrightarrow> k < length maps \<and> pm_devid (maps ! k) = devid"
  by (induction maps arbitrary: k) (auto split: if_splits)

lemma find_devid_append:
  "find_devid devid (maps @ [m]) = (case find_devid devid maps of Some k \<Rightarrow> Some k
     | None \<Rightarrow> if pm_devid m = devid then Some (length maps) else None)"
  by (induction maps) (auto split: option.splits)

lemma find_devid_update:
  "k < length maps \<Longrightarrow> pm_devid m = pm_devid (maps ! k) \<Longrightarrow> find_devid devid (maps[k := m]) = find_devid devid maps"
  by (induction maps arbitrary: k) (auto split: nat.splits)

text \<open>A slot for the device is found or made, and changes nothing of what is known of it; of the others only
  when the table is full.\<close>

lemma slot_made:
  assumes "pcap_epmap_find devid True maps = (at, maps')"
  shows "\<exists>k. at = Some k \<and> find_devid devid maps' = Some k"
    and "known_type maps' devid ep dir = known_type maps devid ep dir"
    and "devid' \<noteq> devid \<Longrightarrow> length maps < PCAP_EPMAP_DEVS \<or> find_devid devid maps \<noteq> None
      \<Longrightarrow> known_type maps' devid' ep dir = known_type maps devid' ep dir"
proof -
  have 8: "\<not> length maps < PCAP_EPMAP_DEVS \<Longrightarrow> \<exists>m ms. maps = m # ms" by (cases maps) (auto simp: PCAP_EPMAP_DEVS_def)
  show "\<exists>k. at = Some k \<and> find_devid devid maps' = Some k"
    "known_type maps' devid ep dir = known_type maps devid ep dir"
    using assms 8 by (fastforce simp: pcap_epmap_find_def known_type_def find_devid_append nth_append Let_def
        split: option.splits if_splits)+
  show "known_type maps' devid' ep dir = known_type maps devid' ep dir"
    if "devid' \<noteq> devid" "length maps < PCAP_EPMAP_DEVS \<or> find_devid devid maps \<noteq> None"
    using assms that by (auto simp: pcap_epmap_find_def known_type_def find_devid_append nth_append Let_def
        dest: find_devid_Some split: option.splits if_splits)
qed

text \<open>The slot remembered in a walk is the one the table has for the device.\<close>

definition at_slot :: "u32 \<Rightarrow> nat option \<times> pcap_epmap list \<Rightarrow> bool" where
  "at_slot devid s \<longleftrightarrow> fst s = None \<or> fst s = find_devid devid (snd s)"

lemma slot_typed:
  assumes "find_devid devid maps = Some k"
  shows "find_devid d (maps[k := (maps ! k)\<lparr>pm_type := f\<rparr>]) = find_devid d maps"
    and "known_type (maps[k := (maps ! k)\<lparr>pm_type := f\<rparr>]) devid ep dir = f ep dir"
    and "devid' \<noteq> devid \<Longrightarrow> known_type (maps[k := (maps ! k)\<lparr>pm_type := f\<rparr>]) devid' ep dir = known_type maps devid' ep dir"
proof -
  have k: "k < length maps" "pm_devid (maps ! k) = devid" using find_devid_Some [OF assms] by auto
  show u: "find_devid d (maps[k := (maps ! k)\<lparr>pm_type := f\<rparr>]) = find_devid d maps" for d
    using k by (simp add: find_devid_update)
  show "known_type (maps[k := (maps ! k)\<lparr>pm_type := f\<rparr>]) devid ep dir = f ep dir"
    using k assms by (simp add: known_type_def u)
  show "known_type (maps[k := (maps ! k)\<lparr>pm_type := f\<rparr>]) devid' ep dir = known_type maps devid' ep dir" if "devid' \<noteq> devid"
    using k that by (auto simp: known_type_def u nth_list_update dest: find_devid_Some split: option.splits)
qed

definition learn_desc :: "u32 \<Rightarrow> bytes \<Rightarrow> nat option \<times> pcap_epmap list \<Rightarrow> nat option \<times> pcap_epmap list" where
  "learn_desc devid d s = (if declares d \<noteq> None then learn_endpoint devid d 0 s else s)"

lemma learn_desc_typed:
  assumes "at_slot devid s"
  shows "at_slot devid (learn_desc devid d s)"
    and "known_type (snd (learn_desc devid d s)) devid ep dir =
       (case take_decl ep dir d None of Some t \<Rightarrow> t + 1 | None \<Rightarrow> known_type (snd s) devid ep dir)"
    and "devid' \<noteq> devid \<Longrightarrow> length (snd s) < PCAP_EPMAP_DEVS \<or> find_devid devid (snd s) \<noteq> None \<Longrightarrow>
       known_type (snd (learn_desc devid d s)) devid' ep dir = known_type (snd s) devid' ep dir
       \<and> (length (snd (learn_desc devid d s)) < PCAP_EPMAP_DEVS \<or> find_devid devid (snd (learn_desc devid d s)) \<noteq> None)"
proof -
  let ?q = "case s of (None, maps) \<Rightarrow> pcap_epmap_find devid True maps | (Some k, maps) \<Rightarrow> (Some k, maps)"
  obtain k where k: "fst ?q = Some k" "find_devid devid (snd ?q) = Some k"
    using assms slot_made(1) [of devid "snd s" "fst ?q" "snd ?q"]
    by (cases s; cases "fst s") (auto simp: at_slot_def)
  have keep: "known_type (snd ?q) devid ep dir = known_type (snd s) devid ep dir"
    "devid' \<noteq> devid \<Longrightarrow> length (snd s) < PCAP_EPMAP_DEVS \<or> find_devid devid (snd s) \<noteq> None
       \<Longrightarrow> known_type (snd ?q) devid' ep dir = known_type (snd s) devid' ep dir" for devid' ep dir
    using slot_made(2,3) [of devid "snd s" "fst ?q" "snd ?q"] by (cases s; cases "fst s"; simp)+
  have l: "learn_endpoint devid d 0 s = (Some k, (snd ?q)[k := (snd ?q ! k)\<lparr>pm_type := (pm_type (snd ?q ! k))
       (unat (d ! 2 AND 0x0f) := (pm_type (snd ?q ! k) (unat (d ! 2 AND 0x0f)))
          ((if d ! 2 AND 0x80 \<noteq> 0 then USB_IN else USB_OUT) := (d ! 3 AND 3) + 1))\<rparr>])"
    using k by (simp add: learn_endpoint_def Let_def split_def numeral_2_eq_2 numeral_3_eq_3)
  have o: "pm_type (snd ?q ! k) e r = known_type (snd ?q) devid e r" for e r
    using k by (simp add: known_type_def)
  note t = slot_typed [OF k(2)]
  show "at_slot devid (learn_desc devid d s)"
    using assms k by (simp add: learn_desc_def l at_slot_def t(1))
  show "known_type (snd (learn_desc devid d s)) devid ep dir =
       (case take_decl ep dir d None of Some t \<Rightarrow> t + 1 | None \<Rightarrow> known_type (snd s) devid ep dir)"
    by (auto simp: learn_desc_def l t(2) take_decl_def declares_def o keep)
  show "known_type (snd (learn_desc devid d s)) devid' ep dir = known_type (snd s) devid' ep dir
       \<and> (length (snd (learn_desc devid d s)) < PCAP_EPMAP_DEVS \<or> find_devid devid (snd (learn_desc devid d s)) \<noteq> None)"
    if "devid' \<noteq> devid" "length (snd s) < PCAP_EPMAP_DEVS \<or> find_devid devid (snd s) \<noteq> None"
    using that keep(2) [OF that] k by (auto simp: learn_desc_def l t(1) t(3) [OF that(1)])
qed

lemma take_decl_acc: "take_decl ep dir d acc = (case take_decl ep dir d None of Some t \<Rightarrow> Some t | None \<Rightarrow> acc)"
  by (auto simp: take_decl_def split: option.splits)

lemma fold_take_decl:
  "fold (take_decl ep dir) ds acc = (case fold (take_decl ep dir) ds None of Some t \<Rightarrow> Some t | None \<Rightarrow> acc)"
proof (induction ds arbitrary: acc)
  case Nil
  then show ?case by simp
next
  case (Cons d ds)
  show ?case
    using Cons.IH [of "take_decl ep dir d acc"] Cons.IH [of "take_decl ep dir d None"] take_decl_acc [of ep dir d acc]
    by (simp split: option.splits)
qed

lemma learn_all_typed:
  assumes "at_slot devid s"
  shows "known_type (snd (fold (learn_desc devid) ds s)) devid ep dir =
       (case declared ds ep dir of Some t \<Rightarrow> t + 1 | None \<Rightarrow> known_type (snd s) devid ep dir)"
    and "devid' \<noteq> devid \<Longrightarrow> length (snd s) < PCAP_EPMAP_DEVS \<or> find_devid devid (snd s) \<noteq> None \<Longrightarrow>
       known_type (snd (fold (learn_desc devid) ds s)) devid' ep dir = known_type (snd s) devid' ep dir"
  using assms
proof (induction ds arbitrary: s)
  case Nil
  {
    case 1
    show ?case by (simp add: declared_def)
  next
    case 2
    show ?case by simp
  }
next
  case (Cons d ds)
  {
    case 1
    note l = learn_desc_typed [OF 1]
    show ?case
      using Cons.IH(1) [OF l(1)] l(2) [of d ep dir] fold_take_decl [of ep dir ds "take_decl ep dir d None"]
      by (simp add: declared_def split: option.splits)
  next
    case 2
    note l = learn_desc_typed [OF 2(3)]
    show ?case
      using Cons.IH(2) [OF 2(1) _ l(1)] l(3) [OF 2(1,2), of d ep dir] by simp
  }
qed

lemma learn_endpoint_mid:
  assumes "4 \<le> length d"
  shows "learn_endpoint devid (pre @ d @ post) (length pre) s = learn_endpoint devid d 0 s"
proof -
  have n: "(pre @ d @ post) ! (length pre + 2) = d ! 2" "(pre @ d @ post) ! (length pre + 3) = d ! 3"
    using assms by (simp_all add: nth_append)
  show ?thesis unfolding learn_endpoint_def n add_0 by (rule refl)
qed

lemma learn_concat:
  "list_all well_framed ds \<Longrightarrow>
   learn_from devid (pre @ concat ds @ rest) (length pre + length (concat ds)) (length pre) s = fold (learn_desc devid) ds s"
proof (induction ds arbitrary: pre s)
  case Nil
  then show ?case by (simp add: learn_from.simps)
next
  case (Cons d ds)
  let ?cfg = "pre @ concat (d # ds) @ rest"
  have f: "2 \<le> length d" "unat (d ! 0) = length d" using Cons.prems by (simp_all add: well_framed_def)
  then have h: "?cfg ! length pre = d ! 0" "?cfg ! (length pre + 1) = d ! 1" "unat (d ! 0) \<noteq> 0"
    by (auto simp: nth_append)
  have e: "(if d ! 1 = USB_DT_ENDPOINT \<and> unat (d ! 0) \<ge> 7 \<and> length pre + 7 \<le> length pre + length (concat (d # ds))
       then learn_endpoint devid ?cfg (length pre) s else s) = learn_desc devid d s"
    using f learn_endpoint_mid [of d devid pre "concat ds @ rest" s] by (auto simp: learn_desc_def declares_def)
  have "learn_from devid ?cfg (length pre + length (concat (d # ds))) (length pre) s
     = learn_from devid ?cfg (length pre + length (concat (d # ds))) (length pre + unat (d ! 0)) (learn_desc devid d s)"
    by (subst learn_from.simps) (use f(1) h(3) in \<open>simp only: h Let_def e if_False, simp\<close>)
  also have "\<dots> = fold (learn_desc devid) ds (learn_desc devid d s)"
    using Cons.IH [of "pre @ d" "learn_desc devid d s"] Cons.prems f by (simp add: add.assoc)
  finally show ?case by simp
qed

lemma xfer_client_known:
  assumes "ep \<noteq> 0" "unat ep < 16"
  shows "pcap_xfer_client maps devid ep dir interval =
    (if known_type maps devid (unat ep) dir \<noteq> 0 then bmattr_to_usbmon (uint (known_type maps devid (unat ep) dir) - 1) ep
     else if interval > 0 then USBMON_XFER_INTR else USBMON_XFER_BULK)"
  using assms by (simp add: pcap_xfer_client_def known_type_def pcap_epmap_find_def Let_def split: option.splits)

text \<open>The usbmon number of a transfer type of \<open>bmAttributes\<close>: control 2, isochronous 0, bulk 3, interrupt 1.\<close>

definition usbmon_of :: "u8 \<Rightarrow> int" where
  "usbmon_of t = (if t = 0 then 2 else if t = 1 then 0 else if t = 2 then 3 else 1)"

lemma declared_type: "declared ds ep dir = Some t \<Longrightarrow> t = 0 \<or> t = 1 \<or> t = 2 \<or> t = 3"
proof -
  have v: "w AND 3 = 0 \<or> w AND 3 = 1 \<or> w AND 3 = 2 \<or> w AND 3 = 3" for w :: u8
  proof -
    have "unat (w AND 3) = 0 \<or> unat (w AND 3) = 1 \<or> unat (w AND 3) = 2 \<or> unat (w AND 3) = 3"
      using word_and_le1 [of w 3] by (auto simp: word_le_nat_alt)
    moreover have "w AND 3 = of_nat (unat (w AND 3))" by simp
    ultimately show ?thesis by (elim disjE) simp_all
  qed
  have step: "(\<forall>t. acc = Some t \<longrightarrow> t = 0 \<or> t = 1 \<or> t = 2 \<or> t = 3) \<Longrightarrow> fold (take_decl ep dir) ds acc = Some t
     \<Longrightarrow> t = 0 \<or> t = 1 \<or> t = 2 \<or> t = 3" for acc
  proof (induction ds arbitrary: acc)
    case (Cons d ds)
    show ?case
      by (rule Cons.IH [of "take_decl ep dir d acc"])
        (use Cons.prems v in \<open>auto simp: take_decl_def declares_def split: option.splits if_splits\<close>)
  qed auto
  show "declared ds ep dir = Some t \<Longrightarrow> t = 0 \<or> t = 1 \<or> t = 2 \<or> t = 3"
    using step [of None] by (simp add: declared_def)
qed

lemma learned_is:
  assumes "list_all well_framed ds"
  shows "pcap_epmap_learn devid (concat ds @ rest) (length (concat ds)) maps = snd (fold (learn_desc devid) ds (None, maps))"
  using learn_concat [OF assms, of devid "[]" rest "(None, maps)"] by (simp add: pcap_epmap_learn_def)

lemma learned_type:
  assumes "list_all well_framed ds" "ep \<noteq> 0" "unat ep < 16"
  shows "pcap_xfer_client (pcap_epmap_learn devid (concat ds @ rest) (length (concat ds)) maps) devid ep dir interval =
    (case declared ds (unat ep) dir of Some t \<Rightarrow> usbmon_of t | None \<Rightarrow> pcap_xfer_client maps devid ep dir interval)"
proof -
  have "at_slot devid (None, maps)" by (simp add: at_slot_def)
  note l = learn_all_typed(1) [OF this, of ds "unat ep" dir]
  have "t + 1 \<noteq> 0 \<and> bmattr_to_usbmon (uint (t + 1) - 1) ep = usbmon_of t" if "declared ds (unat ep) dir = Some t" for t
    using declared_type [OF that] assms(2) by (elim disjE) (simp_all add: bmattr_to_usbmon_def usbmon_of_def)
  then show ?thesis
    unfolding xfer_client_known [OF assms(2,3)] learned_is [OF assms(1)] l by (simp split: option.splits)
qed

lemma learned_others:
  assumes "list_all well_framed ds" "ep \<noteq> 0" "unat ep < 16" "devid' \<noteq> devid"
    "length maps < PCAP_EPMAP_DEVS \<or> find_devid devid maps \<noteq> None"
  shows "pcap_xfer_client (pcap_epmap_learn devid (concat ds @ rest) (length (concat ds)) maps) devid' ep dir interval =
    pcap_xfer_client maps devid' ep dir interval"
proof -
  have "at_slot devid (None, maps)" by (simp add: at_slot_def)
  from learn_all_typed(2) [OF this assms(4), of ds "unat ep" dir] assms(5)
  show ?thesis unfolding xfer_client_known [OF assms(2,3)] learned_is [OF assms(1)] by simp
qed

section \<open>The properties of the capture\<close>

text \<open>C34: a capture file reads back as what was logged. A session that is opened, fed any packets and closed leaves
  a PCAPNG file from which an independent reader gets the options that name the machine, the system, the program and the
  interface, and the packets in order (those whose two allocations succeeded), each with its identifier, endpoint,
  type, times, status, lengths, SETUP and payload; no other file is touched.\<close>

theorem capture_is_read_back:
  fixes mem :: "nat \<Rightarrow> bool"
  assumes "g_fp st = None" "pe_fopen env (capture_name env path)" "names_fit env"
    and "list_all call_ok tes" "\<And>n. length (fresh n) = n"
  defines "st' \<equiv> usbip_pcap_close (log_all env mem fresh tes (usbip_pcap_open env path st))"
  shows "(\<exists>f. g_files st' (capture_name env path) = Some f
      \<and> read_capture f = Some (shb_opts env, idb_opts, map seen_of (filter (kept mem) tes)))
    \<and> same_others (capture_name env path) st st'"
  unfolding st'_def using session_read [OF assms(1-5), where mem = mem] by (rule conjI)

definition demo_env :: pcap_env where
  "demo_env = \<lparr>pe_variable = None, pe_progname = Some (chars ''hid''), pe_pid = chars ''42'', pe_sysname = chars ''Linux'',
     pe_release = chars ''6.1'', pe_machine = chars ''x86_64'', pe_version = chars ''0.7.0'', pe_fopen = (\<lambda>name. True)\<rparr>"

definition demo_get :: pcap_event where
  "demo_get = \<lparr>pk_devid = 0x10002, pk_seqnum = 7, pk_xfer = 2, pk_event = USBMON_EVENT_SUBMIT, pk_ep_addr = 0x80,
     pk_status = USBMON_STATUS_PENDING, pk_setup = Some [0x80, 6, 0, 2, 0, 0, 3, 0], pk_data = None, pk_data_len = 0,
     pk_urb_len = 3\<rparr>"

definition demo_got :: pcap_event where
  "demo_got = demo_get\<lparr>pk_event := USBMON_EVENT_COMPLETE, pk_status := 0, pk_setup := None,
     pk_data := Some [9, 2, 34, 0], pk_data_len := 3\<rparr>"

theorem capture_is_read_back_witness:
  "let st' = usbip_pcap_close (log_all demo_env (\<lambda>n. True) (\<lambda>n. replicate n 0xA5)
       [((5, 1000), demo_get), ((5, 999999999), demo_got)]
       (usbip_pcap_open demo_env (Some (chars ''ON'')) \<lparr>g_fp = None, g_checked = False, g_files = (\<lambda>name. None)\<rparr>))
   in (\<exists>f. g_files st' (chars ''hid.pcapng'') = Some f
        \<and> read_capture f = Some (shb_opts demo_env, idb_opts,
            [seen_of ((5, 1000), demo_get), seen_of ((5, 999999999), demo_got)]))
      \<and> se_payload (seen_of ((5, 999999999), demo_got)) = [9, 2, 34]"
proof -
  have n: "capture_name demo_env (Some (chars ''ON'')) = chars ''hid.pcapng''"
    by (simp add: capture_name_def is_flag_def default_name_def demo_env_def chars_def same_nocase_def lower_def snprintf_s_def)
  have "list_all call_ok [((5, 1000), demo_get), ((5, 999999999), demo_got)]"
    by (simp add: call_ok_def demo_get_def demo_got_def)
  moreover have "names_fit demo_env" "\<And>name. pe_fopen demo_env name" by (simp_all add: names_fit_def demo_env_def)
  moreover have "se_payload (seen_of ((5, 999999999), demo_got)) = [9, 2, 34]" by (simp add: seen_of_def demo_got_def)
  ultimately show ?thesis
    using capture_is_read_back [of "\<lparr>g_fp = None, g_checked = False, g_files = (\<lambda>name. None)\<rparr>" demo_env "Some (chars ''ON'')"
      "[((5, 1000), demo_get), ((5, 999999999), demo_got)]" "\<lambda>n. replicate n 0xA5" "\<lambda>n. True"]
    by (simp add: n Let_def kept_def)
qed

text \<open>The importer labels an endpoint with what the device declared. After the reply to
  GET_DESCRIPTOR(CONFIGURATION), whatever descriptors it holds and whatever was known before, the usbmon type of
  every endpoint is that of its last declaration, an endpoint not declared keeps the type it had, and unless a slot had to be
  recycled the other devices keep theirs.\<close>

theorem declared_types_are_learned:
  fixes devid :: u32 and rest :: bytes and maps :: "pcap_epmap list"
  assumes "list_all well_framed ds" "ep \<noteq> 0" "unat ep < 16"
  defines "maps' \<equiv> pcap_epmap_learn devid (concat ds @ rest) (length (concat ds)) maps"
  shows "pcap_xfer_client maps' devid ep dir interval =
      (case declared ds (unat ep) dir of Some t \<Rightarrow> usbmon_of t | None \<Rightarrow> pcap_xfer_client maps devid ep dir interval)
    \<and> (devid' \<noteq> devid \<and> (length maps < PCAP_EPMAP_DEVS \<or> find_devid devid maps \<noteq> None)
       \<longrightarrow> pcap_xfer_client maps' devid' ep dir interval = pcap_xfer_client maps devid' ep dir interval)"
  unfolding maps'_def using learned_type [OF assms(1-3)] learned_others [OF assms(1-3)] by blast

theorem declared_types_are_learned_witness:
  "let ds = [[9, 2, 32, 0, 1, 1, 0, 0x80, 50], [7, 5, 0x81, 1, 64, 0, 1]]
   in pcap_xfer_client (pcap_epmap_learn 5 (concat ds @ [0xFF]) (length (concat ds)) []) 5 1 USB_IN 4 = USBMON_XFER_ISO
    \<and> pcap_xfer_client [] 5 1 USB_IN 4 = USBMON_XFER_INTR"
proof -
  let ?ds = "[[9, 2, 32, 0, 1, 1, 0, 0x80, 50], [7, 5, 0x81, 1, 64, 0, 1]] :: bytes list"
  have f: "list_all well_framed ?ds" by (simp add: well_framed_def)
  have d: "declared ?ds (unat (1 :: u32)) USB_IN = Some 1" by (simp add: declared_def take_decl_def declares_def)
  have "pcap_xfer_client (pcap_epmap_learn 5 (concat ?ds @ [0xFF]) (length (concat ?ds)) []) 5 1 USB_IN 4 = usbmon_of 1"
    using conjunct1 [OF declared_types_are_learned [OF f, of 1 5 "[0xFF]" "[]" USB_IN 4 6]] unfolding d by simp
  moreover have "pcap_xfer_client [] 5 1 USB_IN 4 = USBMON_XFER_INTR"
    by (simp add: pcap_xfer_client_def pcap_epmap_find_def)
  ultimately show ?thesis unfolding Let_def by (simp only: usbmon_of_def) simp
qed

text \<open>A full table gives its first slot away: the device that had it falls back to bulk for its isochronous endpoint.\<close>

lemma recycled_slot_is_forgotten:
  "let maps = pcap_epmap_learn 0 [7, 5, 0x81, 1, 64, 0, 1] 7
       (map (\<lambda>d. \<lparr>pm_devid = of_nat d, pm_type = (\<lambda>ep dir. 0)\<rparr>) [0 ..< 8])
   in pcap_xfer_client maps 0 1 USB_IN 0 = USBMON_XFER_ISO
    \<and> pcap_xfer_client (pcap_epmap_learn 9 [7, 5, 0x81, 1, 64, 0, 1] 7 maps) 0 1 USB_IN 0 = USBMON_XFER_BULK"
  by code_simp

end
