(* ===== verification/Libusbk.thy ===== *)
theory Libusbk
  imports Server Pcap
begin

text \<open>
  The libusbK library over USB/IP (\<open>wrapper/libusbK/libusbk.c\<close>): an opened device, its requests and pipe
  transfers, the walkers over the cached configuration descriptor, the pipe policies, the packets of an
  isochronous context and the operations handed to the worker of a handle. The device lists are
  \<open>Libusbk_List\<close>, the streams \<open>Libusbk_Stream\<close>. A call returns \<open>Inr\<close> its result, or \<open>Inl\<close> the code it gives to
  \<open>SetLastError\<close>. Handles and result pointers are not \<open>NULL\<close>, and allocations succeed. A read outside the cached
  descriptor has no defined result (\<open>Undefined\<close>).
\<close>

section \<open>Handles\<close>

datatype win_error = ERROR_INVALID_PARAMETER | ERROR_GEN_FAILURE | ERROR_NO_MORE_ITEMS | ERROR_NOT_SUPPORTED
  | ERROR_INSUFFICIENT_BUFFER | ERROR_FILE_NOT_FOUND | ERROR_IO_PENDING | ERROR_IO_INCOMPLETE | ERROR_SEM_TIMEOUT
  | ERROR_INVALID_HANDLE

type_synonym 'a kcall = "win_error + 'a"

record pipe_pol =
  pp_transfer_timeout :: u32
  pp_short_packet_terminate :: u8
  pp_auto_clear_stall :: u8
  pp_ignore_short_packets :: u8
  pp_allow_partial_reads :: u8
  pp_auto_flush :: u8
  pp_raw_io :: u8
  pp_reset_pipe_on_resume :: u8
  pp_max_transfer_size :: u32

definition no_policy :: pipe_pol where
  "no_policy = \<lparr>pp_transfer_timeout = 0, pp_short_packet_terminate = 0, pp_auto_clear_stall = 0,
     pp_ignore_short_packets = 0, pp_allow_partial_reads = 0, pp_auto_flush = 0, pp_raw_io = 0,
     pp_reset_pipe_on_resume = 0, pp_max_transfer_size = 0\<rparr>"

text \<open>The context of an isochronous transfer has a slot for each packet; its \<open>NumberOfPackets\<close> is the length of the list.\<close>

record kiso_packet =
  kp_offset :: u32
  kp_length :: u16
  kp_status :: u16

record kiso_context =
  ki_flags :: u32
  ki_start_frame :: u32
  ki_error_count :: u16
  ki_urb_status :: u32
  ki_packets :: "kiso_packet list"

text \<open>An operation waiting for the worker, and the \<open>OVERLAPPED\<close> its result lands in, named by a number. An isochronous
  one (\<open>is_iso\<close>) has its packets and the number of the context that gets their results, if any.\<close>

record aop =
  ao_dir :: usb_dir
  ao_ep :: u32
  ao_interval :: int
  ao_setup :: "bytes option"
  ao_buf :: bytes
  ao_len :: int
  ao_iso :: "(iso_pkt list \<times> nat option) option"
  ao_ovl :: nat

record kusb =
  ku_busid :: bytes
  ku_sock :: sock
  ku_devid :: u32
  ku_seq :: u32
  ku_speed :: u32
  ku_cfg_raw :: "bytes option"
  ku_cur_config :: u8
  ku_cur_iface :: u8
  ku_cur_alt :: "u8 \<Rightarrow> u8"
  ku_pol :: "nat \<Rightarrow> pipe_pol"
  ku_auto_suspend :: u32
  ku_suspend_delay :: u32
  ku_queue :: "aop list"

definition lk_open_busid :: "sock option \<Rightarrow> bytes \<Rightarrow> kusb option" where
  "lk_open_busid c bid =
     (let bid = snprintf_s 32 bid in
      case c of
        None \<Rightarrow> None
      | Some s \<Rightarrow>
         (case usbip_client_import bid s of
            ((rc, Some info), s) \<Rightarrow>
              (if rc \<noteq> USB_SUCCESS then None
               else Some \<lparr>ku_busid = bid, ku_sock = s, ku_devid = push_bit 16 (di_busnum info) OR di_devnum info,
                 ku_seq = 0, ku_speed = di_speed info, ku_cfg_raw = None, ku_cur_config = 0, ku_cur_iface = 0,
                 ku_cur_alt = (\<lambda>i. 0), ku_pol = (\<lambda>i. no_policy), ku_auto_suspend = 0, ku_suspend_delay = 0,
                 ku_queue = []\<rparr>)
          | ((rc, None), s) \<Rightarrow> None))"

definition UsbK_Init :: "sock option \<Rightarrow> bytes \<Rightarrow> kusb kcall" where
  "UsbK_Init c path = (case lk_open_busid c path of None \<Rightarrow> Inl ERROR_FILE_NOT_FOUND | Some h \<Rightarrow> Inr h)"

definition UsbK_Clone :: "sock option \<Rightarrow> kusb \<Rightarrow> kusb kcall" where
  "UsbK_Clone c h = (case lk_open_busid c (ku_busid h) of
       None \<Rightarrow> Inl ERROR_FILE_NOT_FOUND
     | Some d \<Rightarrow> Inr (d\<lparr>ku_cur_iface := ku_cur_iface h\<rparr>))"

section \<open>Requests\<close>

definition lk_pol_index :: "u8 \<Rightarrow> nat" where
  "lk_pol_index pipe = unat (pipe AND 0x0f OR (if pipe AND 0x80 \<noteq> 0 then 0x10 else 0))"

definition lk_submit ::
  "kusb \<Rightarrow> usb_dir \<Rightarrow> u32 \<Rightarrow> bytes option \<Rightarrow> int \<Rightarrow> bytes \<Rightarrow> int \<Rightarrow> int \<times> int \<times> bytes \<times> kusb" where
  "lk_submit h dir ep stp interval buf len =
     (let r = usbip_client_submit (ku_devid h) (ku_seq h) dir ep stp interval buf len (ku_sock h)
      in (sr_rc r, case sr_actual r of None \<Rightarrow> 0 | Some n \<Rightarrow> n, sr_buf r, h\<lparr>ku_seq := sr_seq r, ku_sock := sr_sock r\<rparr>))"

definition lk_control :: "kusb \<Rightarrow> u8 \<Rightarrow> u8 \<Rightarrow> u16 \<Rightarrow> u16 \<Rightarrow> bytes \<Rightarrow> u16 \<Rightarrow> int \<times> int \<times> bytes \<times> kusb" where
  "lk_control h rt r v i data len =
     lk_submit h (if rt AND 0x80 \<noteq> 0 then USB_IN else USB_OUT) 0 (Some (USB_SETUP_BYTES rt r v i len)) 0 data (uint len)"

definition lk_auto_clear_stall :: "kusb \<Rightarrow> u8 \<Rightarrow> int \<Rightarrow> kusb" where
  "lk_auto_clear_stall h pipe rc =
     (if rc \<noteq> USB_ERROR_PIPE \<or> pp_auto_clear_stall (ku_pol h (lk_pol_index pipe)) = 0 then h
      else let (rc, act, buf, h) = lk_control h 0x02 0x01 0 (ucast pipe) [] 0 in h)"

text \<open>The configuration descriptor is read once; the result says whether there is one.\<close>

definition lk_fetch_config :: "kusb \<Rightarrow> bool \<times> kusb" where
  "lk_fetch_config h =
     (if ku_cfg_raw h \<noteq> None then (True, h) else
      let (rc, act, hdr, h) = lk_control h 0x80 0x06 0x0200 0 (replicate 9 0) 9
      in if rc < 0 \<or> act < 4 then (False, h) else
      let total = usb_get_le16 hdr 2; total = (if total < 9 then 9 else total);
          (rc, act, buf, h) = lk_control h 0x80 0x06 0x0200 0 (replicate (unat total) 0) total
      in if rc < 0 \<or> act < 9 then (False, h) else
      (True, h\<lparr>ku_cfg_raw := Some (take (nat act) buf), ku_cur_config := buf ! 5\<rparr>))"

section \<open>Walking the configuration\<close>

abbreviation (input) DT_INTERFACE :: u8 where "DT_INTERFACE \<equiv> 4"
abbreviation (input) DT_ENDPOINT :: u8 where "DT_ENDPOINT \<equiv> 5"

definition lk_desc_ok :: "bytes \<Rightarrow> nat \<Rightarrow> bool" where
  "lk_desc_ok cfg i \<longleftrightarrow> i + 2 \<le> length cfg \<and> \<not> (unat (cfg ! i) < 2 \<or> i + unat (cfg ! i) > length cfg)"

text \<open>A byte of the descriptor, and the value of \<open>cfg[i] == b && rest\<close>.\<close>

definition eq_and :: "bytes \<Rightarrow> nat \<Rightarrow> u8 \<Rightarrow> bool cresult \<Rightarrow> bool cresult" where
  "eq_and cfg i b rest = (if i < length cfg then (if cfg ! i = b then rest else Ret False) else Undefined)"

function lk_iface_off :: "bytes \<Rightarrow> u8 \<Rightarrow> u8 \<Rightarrow> nat \<Rightarrow> nat option cresult" where
  "lk_iface_off cfg ifnum alt i =
     (if lk_desc_ok cfg i then
        (case eq_and cfg (i + 1) DT_INTERFACE (eq_and cfg (i + 2) ifnum (eq_and cfg (i + 3) alt (Ret True))) of
           Ret True \<Rightarrow> Ret (Some i)
         | Ret False \<Rightarrow> lk_iface_off cfg ifnum alt (i + unat (cfg ! i))
         | Err e \<Rightarrow> Err e | Undefined \<Rightarrow> Undefined)
      else Ret None)"
  by pat_completeness auto
termination
  by (relation "measure (\<lambda>(cfg, ifnum, alt, i). length cfg - i)") (auto simp: lk_desc_ok_def)

declare lk_iface_off.simps [simp del]

function lk_ep_from :: "bytes \<Rightarrow> nat \<Rightarrow> nat \<Rightarrow> nat \<Rightarrow> nat option" where
  "lk_ep_from cfg ep_index n i =
     (if lk_desc_ok cfg i then
        (if cfg ! (i + 1) = DT_INTERFACE then None
         else if cfg ! (i + 1) = DT_ENDPOINT then
           (if n = ep_index then Some i else lk_ep_from cfg ep_index (n + 1) (i + unat (cfg ! i)))
         else lk_ep_from cfg ep_index n (i + unat (cfg ! i)))
      else None)"
  by pat_completeness auto
termination
  by (relation "measure (\<lambda>(cfg, ep_index, n, i). length cfg - i)") (auto simp: lk_desc_ok_def)

declare lk_ep_from.simps [simp del]

definition lk_ep_off :: "bytes \<Rightarrow> nat \<Rightarrow> nat \<Rightarrow> nat option" where
  "lk_ep_off cfg iface_off ep_index = lk_ep_from cfg ep_index 0 (iface_off + unat (cfg ! iface_off))"

text \<open>The number of the interface at an index: default settings in the order of the descriptor, one entry for a
  run with the same number. \<open>prev\<close> is -1 before the first.\<close>

function lk_iface_number_from :: "bytes \<Rightarrow> int \<Rightarrow> int \<Rightarrow> int \<Rightarrow> nat \<Rightarrow> int cresult" where
  "lk_iface_number_from cfg index n prev i =
     (if lk_desc_ok cfg i then
        (if cfg ! (i + 1) = DT_INTERFACE then
           (if i + 3 < length cfg then
              (if cfg ! (i + 3) = 0 \<and> uint (cfg ! (i + 2)) \<noteq> prev then
                 (if n = index then Ret (uint (cfg ! (i + 2)))
                  else lk_iface_number_from cfg index (n + 1) (uint (cfg ! (i + 2))) (i + unat (cfg ! i)))
               else lk_iface_number_from cfg index n prev (i + unat (cfg ! i)))
            else Undefined)
         else lk_iface_number_from cfg index n prev (i + unat (cfg ! i)))
      else Ret index)"
  by pat_completeness auto
termination
  by (relation "measure (\<lambda>(cfg, index, n, prev, i). length cfg - i)") (auto simp: lk_desc_ok_def)

declare lk_iface_number_from.simps [simp del]

definition lk_cfg :: "kusb \<Rightarrow> bytes" where
  "lk_cfg h = (case ku_cfg_raw h of None \<Rightarrow> [] | Some c \<Rightarrow> c)"

definition lk_iface_number_by_index :: "kusb \<Rightarrow> u8 \<Rightarrow> u8 cresult" where
  "lk_iface_number_by_index h index =
     (case lk_iface_number_from (lk_cfg h) (uint index) 0 (- 1) 0 of
        Ret n \<Rightarrow> Ret (word_of_int n) | Err e \<Rightarrow> Err e | Undefined \<Rightarrow> Undefined)"

function lk_interval_from :: "bytes \<Rightarrow> u8 \<Rightarrow> nat \<Rightarrow> int cresult" where
  "lk_interval_from cfg pipe i =
     (if lk_desc_ok cfg i then
        (case eq_and cfg (i + 1) DT_ENDPOINT (eq_and cfg (i + 2) pipe (Ret True)) of
           Ret True \<Rightarrow> (if i + 3 < length cfg then Ret (if cfg ! (i + 3) AND 0x03 = 0x03 then 1 else 0) else Undefined)
         | Ret False \<Rightarrow> lk_interval_from cfg pipe (i + unat (cfg ! i))
         | Err e \<Rightarrow> Err e | Undefined \<Rightarrow> Undefined)
      else Ret 0)"
  by pat_completeness auto
termination
  by (relation "measure (\<lambda>(cfg, pipe, i). length cfg - i)") (auto simp: lk_desc_ok_def)

declare lk_interval_from.simps [simp del]

definition lk_pipe_interval :: "kusb \<Rightarrow> u8 \<Rightarrow> int cresult" where
  "lk_pipe_interval h pipe = (case ku_cfg_raw h of None \<Rightarrow> Ret 0 | Some cfg \<Rightarrow> lk_interval_from cfg pipe 0)"


section \<open>Configurations and interfaces\<close>

text \<open>What a call that reads the descriptor does: a value of the model that is not defined makes the call undefined.\<close>

definition lift_kc :: "'a cresult \<Rightarrow> ('a \<Rightarrow> 'b cresult) \<Rightarrow> 'b cresult" where
  "lift_kc r f = (case r of Ret x \<Rightarrow> f x | Err e \<Rightarrow> Err e | Undefined \<Rightarrow> Undefined)"

definition interface_number :: "kusb \<Rightarrow> u8 \<Rightarrow> bool \<Rightarrow> u8 cresult" where
  "interface_number h number_or_index is_index =
     (if is_index then lk_iface_number_by_index h number_or_index else Ret number_or_index)"

definition UsbK_ClaimInterface :: "kusb \<Rightarrow> u8 \<Rightarrow> bool \<Rightarrow> kusb cresult" where
  "UsbK_ClaimInterface h number_or_index is_index =
     (let (ok, h) = lk_fetch_config h
      in lift_kc (interface_number h number_or_index is_index) (\<lambda>n. Ret (h\<lparr>ku_cur_iface := n\<rparr>)))"

definition UsbK_SelectInterface :: "kusb \<Rightarrow> u8 \<Rightarrow> bool \<Rightarrow> kusb cresult" where
  "UsbK_SelectInterface h number_or_index is_index = UsbK_ClaimInterface h number_or_index is_index"

definition UsbK_SetConfiguration :: "kusb \<Rightarrow> u8 \<Rightarrow> unit kcall \<times> kusb" where
  "UsbK_SetConfiguration h n =
     (let (rc, act, buf, h) = lk_control h 0x00 0x09 (ucast n) 0 [] 0
      in if rc < 0 then (Inl ERROR_GEN_FAILURE, h) else (Inr (), h\<lparr>ku_cur_config := n\<rparr>))"

definition UsbK_GetConfiguration :: "kusb \<Rightarrow> u8 \<times> kusb" where
  "UsbK_GetConfiguration h =
     (let cfg_byte = (if ku_cur_config h \<noteq> 0 then ku_cur_config h else 1);
          (rc, act, buf, h) = lk_control h 0x80 0x08 0 0 [cfg_byte] 1
      in (buf ! 0, if rc \<ge> 0 \<and> act \<ge> 1 then h\<lparr>ku_cur_config := buf ! 0\<rparr> else h))"

definition UsbK_SetCurrentAlternateSetting :: "kusb \<Rightarrow> u8 \<Rightarrow> unit kcall \<times> kusb" where
  "UsbK_SetCurrentAlternateSetting h alt =
     (let (rc, act, buf, h) = lk_control h 0x01 0x0B (ucast alt) (ucast (ku_cur_iface h)) [] 0
      in if rc < 0 then (Inl ERROR_GEN_FAILURE, h)
         else (Inr (), h\<lparr>ku_cur_alt := (ku_cur_alt h)(ku_cur_iface h := alt)\<rparr>))"

definition UsbK_GetCurrentAlternateSetting :: "kusb \<Rightarrow> u8" where
  "UsbK_GetCurrentAlternateSetting h = ku_cur_alt h (ku_cur_iface h)"

definition UsbK_SetAltInterface :: "kusb \<Rightarrow> u8 \<Rightarrow> bool \<Rightarrow> u8 \<Rightarrow> (unit kcall \<times> kusb) cresult" where
  "UsbK_SetAltInterface h number_or_index is_index alt =
     (let (ok, h) = lk_fetch_config h
      in lift_kc (interface_number h number_or_index is_index) (\<lambda>n.
           let (rc, act, buf, h) = lk_control h 0x01 0x0B (ucast alt) (ucast n) [] 0
           in Ret (if rc < 0 then (Inl ERROR_GEN_FAILURE, h) else (Inr (), h\<lparr>ku_cur_alt := (ku_cur_alt h)(n := alt)\<rparr>))))"

definition UsbK_GetAltInterface :: "kusb \<Rightarrow> u8 \<Rightarrow> bool \<Rightarrow> (u8 \<times> kusb) cresult" where
  "UsbK_GetAltInterface h number_or_index is_index =
     (let h = (if ku_cfg_raw h = None then snd (lk_fetch_config h) else h)
      in lift_kc (interface_number h number_or_index is_index) (\<lambda>n. Ret (ku_cur_alt h n, h)))"

definition UsbK_GetDescriptor :: "kusb \<Rightarrow> u8 \<Rightarrow> u8 \<Rightarrow> u16 \<Rightarrow> bytes \<Rightarrow> u32 \<Rightarrow> (u32 kcall \<times> bytes) \<times> kusb" where
  "UsbK_GetDescriptor h t i lang buf len =
     (let (rc, act, buf, h) = lk_control h 0x80 0x06 (push_bit 8 (ucast t) OR ucast i) lang buf (ucast len)
      in ((if rc < 0 then Inl ERROR_GEN_FAILURE else Inr (word_of_int act), buf), h))"

section \<open>Interface settings and pipes\<close>

definition UsbK_QueryInterfaceSettings :: "kusb \<Rightarrow> u8 \<Rightarrow> (bytes kcall \<times> kusb) cresult" where
  "UsbK_QueryInterfaceSettings h alt =
     (let (ok, h) = lk_fetch_config h
      in if \<not> ok then Ret (Inl ERROR_GEN_FAILURE, h)
         else lift_kc (lk_iface_off (lk_cfg h) (ku_cur_iface h) alt 0) (\<lambda>off.
           case off of
             None \<Rightarrow> Ret (Inl ERROR_NO_MORE_ITEMS, h)
           | Some o1 \<Rightarrow> if o1 + 9 \<le> length (lk_cfg h) then Ret (Inr (bytes_at o1 9 (lk_cfg h)), h) else Undefined))"

record pipe_information =
  pi_type :: u8
  pi_id :: u8
  pi_mps :: u16
  pi_interval :: u8
  pi_bytes_per_interval :: u32

definition pipe_at :: "bytes \<Rightarrow> nat \<Rightarrow> pipe_information" where
  "pipe_at cfg i =
     (let mps = usb_get_le16 cfg (i + 4)
      in \<lparr>pi_type = cfg ! (i + 3) AND 0x03, pi_id = cfg ! (i + 2), pi_mps = mps, pi_interval = cfg ! (i + 6),
          pi_bytes_per_interval = ucast (mps AND 0x7ff) * ((drop_bit 11 (ucast mps) AND 0x3) + 1)\<rparr>)"

definition lk_query_pipe :: "kusb \<Rightarrow> u8 \<Rightarrow> u8 \<Rightarrow> (pipe_information kcall \<times> kusb) cresult" where
  "lk_query_pipe h alt pipe_index =
     (let (ok, h) = lk_fetch_config h; cfg = lk_cfg h
      in if \<not> ok then Ret (Inl ERROR_GEN_FAILURE, h)
         else lift_kc (lk_iface_off cfg (ku_cur_iface h) alt 0) (\<lambda>off.
           case off of
             None \<Rightarrow> Ret (Inl ERROR_NO_MORE_ITEMS, h)
           | Some ifoff \<Rightarrow>
              (case lk_ep_off cfg ifoff (unat pipe_index) of
                 None \<Rightarrow> Ret (Inl ERROR_NO_MORE_ITEMS, h)
               | Some epoff \<Rightarrow> if epoff + 7 \<le> length cfg then Ret (Inr (pipe_at cfg epoff), h) else Undefined)))"

text \<open>\<open>UsbK_QueryPipe\<close> gives all but the bytes per interval, \<open>UsbK_QueryPipeEx\<close> all of it.\<close>

definition UsbK_QueryPipeEx :: "kusb \<Rightarrow> u8 \<Rightarrow> u8 \<Rightarrow> (pipe_information kcall \<times> kusb) cresult" where
  "UsbK_QueryPipeEx h alt pipe_index = lk_query_pipe h alt pipe_index"

text \<open>The speed of the device, when there is room for a byte; the size the call leaves in \<open>BufferLength\<close>.\<close>

definition UsbK_QueryDeviceInformation :: "kusb \<Rightarrow> u32 \<Rightarrow> u32 \<Rightarrow> u8 kcall \<times> u32" where
  "UsbK_QueryDeviceInformation h information_type len =
     (if information_type = 0x01 then
        (if len < 1 then (Inl ERROR_INSUFFICIENT_BUFFER, 1)
         else (Inr (if ku_speed h \<ge> 3 then 0x03 else 0x02), 1))
      else (Inl ERROR_NOT_SUPPORTED, len))"

section \<open>Policies\<close>

text \<open>\<open>Value\<close> points to \<open>ValueLength\<close> bytes: a byte, or the first four as a number.\<close>

definition set_policy :: "u32 \<Rightarrow> u8 \<Rightarrow> u32 \<Rightarrow> pipe_pol \<Rightarrow> pipe_pol option" where
  "set_policy policy v1 v4 pol =
     (if policy = 0x01 then Some (pol\<lparr>pp_short_packet_terminate := v1\<rparr>)
      else if policy = 0x02 then Some (pol\<lparr>pp_auto_clear_stall := v1\<rparr>)
      else if policy = 0x03 then Some (pol\<lparr>pp_transfer_timeout := v4\<rparr>)
      else if policy = 0x04 then Some (pol\<lparr>pp_ignore_short_packets := v1\<rparr>)
      else if policy = 0x05 then Some (pol\<lparr>pp_allow_partial_reads := v1\<rparr>)
      else if policy = 0x06 then Some (pol\<lparr>pp_auto_flush := v1\<rparr>)
      else if policy = 0x07 then Some (pol\<lparr>pp_raw_io := v1\<rparr>)
      else if policy = 0x09 then Some (pol\<lparr>pp_reset_pipe_on_resume := v1\<rparr>)
      else if policy = 0x08 then Some (pol\<lparr>pp_max_transfer_size := v4\<rparr>)
      else None)"

definition value_word :: "bytes \<Rightarrow> u32" where
  "value_word v = (if length v \<ge> 4 then usb_get_le32 v 0 else ucast (v ! 0))"

definition UsbK_SetPipePolicy :: "kusb \<Rightarrow> u8 \<Rightarrow> u32 \<Rightarrow> bytes \<Rightarrow> unit kcall \<times> kusb" where
  "UsbK_SetPipePolicy h pipe policy v =
     (if length v < 1 then (Inl ERROR_INVALID_PARAMETER, h)
      else case set_policy policy (v ! 0) (value_word v) (ku_pol h (lk_pol_index pipe)) of
             None \<Rightarrow> (Inl ERROR_NOT_SUPPORTED, h)
           | Some pol \<Rightarrow> (Inr (), h\<lparr>ku_pol := (ku_pol h)(lk_pol_index pipe := pol)\<rparr>))"

text \<open>A policy is a word or a byte.\<close>

definition policy_value :: "u32 \<Rightarrow> pipe_pol \<Rightarrow> (u32 + u8) option" where
  "policy_value policy pol =
     (if policy = 0x01 then Some (Inr (pp_short_packet_terminate pol))
      else if policy = 0x02 then Some (Inr (pp_auto_clear_stall pol))
      else if policy = 0x03 then Some (Inl (pp_transfer_timeout pol))
      else if policy = 0x04 then Some (Inr (pp_ignore_short_packets pol))
      else if policy = 0x05 then Some (Inr (pp_allow_partial_reads pol))
      else if policy = 0x06 then Some (Inr (pp_auto_flush pol))
      else if policy = 0x07 then Some (Inr (pp_raw_io pol))
      else if policy = 0x09 then Some (Inr (pp_reset_pipe_on_resume pol))
      else if policy = 0x08 then Some (Inl (pp_max_transfer_size pol))
      else None)"

text \<open>The bytes written to \<open>Value\<close>, and what is left in \<open>ValueLength\<close>.\<close>

definition give_value :: "u32 \<Rightarrow> bytes \<Rightarrow> bytes kcall \<times> u32" where
  "give_value room v = (if unat room < length v then (Inl ERROR_INSUFFICIENT_BUFFER, of_nat (length v))
     else (Inr v, of_nat (length v)))"

definition UsbK_GetPipePolicy :: "kusb \<Rightarrow> u8 \<Rightarrow> u32 \<Rightarrow> u32 \<Rightarrow> bytes kcall \<times> u32" where
  "UsbK_GetPipePolicy h pipe policy room =
     (case policy_value policy (ku_pol h (lk_pol_index pipe)) of
        None \<Rightarrow> (Inl ERROR_NOT_SUPPORTED, room)
      | Some (Inl w) \<Rightarrow> give_value room (le_bytes 4 w)
      | Some (Inr b) \<Rightarrow> give_value room [b])"

definition UsbK_SetPowerPolicy :: "kusb \<Rightarrow> u32 \<Rightarrow> bytes \<Rightarrow> unit kcall \<times> kusb" where
  "UsbK_SetPowerPolicy h policy v =
     (if length v < 1 then (Inl ERROR_INVALID_PARAMETER, h)
      else if policy = 0x81 then (Inr (), h\<lparr>ku_auto_suspend := value_word v\<rparr>)
      else if policy = 0x83 then (Inr (), h\<lparr>ku_suspend_delay := value_word v\<rparr>)
      else (Inl ERROR_NOT_SUPPORTED, h))"

definition UsbK_GetPowerPolicy :: "kusb \<Rightarrow> u32 \<Rightarrow> u32 \<Rightarrow> bytes kcall \<times> u32" where
  "UsbK_GetPowerPolicy h policy room =
     (if policy = 0x81 then give_value room (le_bytes 4 (ku_auto_suspend h))
      else if policy = 0x83 then give_value room (le_bytes 4 (ku_suspend_delay h))
      else (Inl ERROR_NOT_SUPPORTED, room))"

section \<open>Transfers\<close>

text \<open>The state of an \<open>OVERLAPPED\<close>: \<open>Internal\<close> and \<open>InternalHigh\<close>, and whether its event is set.\<close>

datatype ovl_status = Ovl_pending | Ovl_ok | Ovl_failed

record overlapped =
  ov_internal :: ovl_status
  ov_transferred :: u32
  ov_signalled :: bool

type_synonym overlappeds = "nat \<Rightarrow> overlapped"

definition kusb_queue :: "kusb \<Rightarrow> aop \<Rightarrow> overlappeds \<Rightarrow> win_error \<times> kusb \<times> overlappeds" where
  "kusb_queue h op os =
     (ERROR_IO_PENDING, h\<lparr>ku_queue := ku_queue h @ [op]\<rparr>,
      os(ao_ovl op := \<lparr>ov_internal = Ovl_pending, ov_transferred = 0, ov_signalled = False\<rparr>))"

definition setup_dir :: "u8 \<Rightarrow> usb_dir" where
  "setup_dir rt = (if rt AND 0x80 \<noteq> 0 then USB_IN else USB_OUT)"

definition UsbK_ControlTransfer :: "kusb \<Rightarrow> usb_setup \<Rightarrow> bytes \<Rightarrow> u32 \<Rightarrow> (u32 kcall \<times> bytes) \<times> kusb" where
  "UsbK_ControlTransfer h stp buf len =
     (let dir = setup_dir (bmRequestType stp);
          bytes = USB_SETUP_BYTES (bmRequestType stp) (bRequest stp) (wValue stp) (wIndex stp) (wLength stp);
          (rc, act, buf, h) = lk_submit h dir 0 (Some bytes) 0 buf (i32 len)
      in ((if rc < 0 then Inl ERROR_GEN_FAILURE else Inr (if dir = USB_IN then word_of_int act else len), buf), h))"

definition UsbK_ControlTransfer_overlapped ::
  "kusb \<Rightarrow> usb_setup \<Rightarrow> bytes \<Rightarrow> u32 \<Rightarrow> nat \<Rightarrow> overlappeds \<Rightarrow> win_error \<times> kusb \<times> overlappeds" where
  "UsbK_ControlTransfer_overlapped h stp buf len ovl os =
     kusb_queue h \<lparr>ao_dir = setup_dir (bmRequestType stp), ao_ep = 0, ao_interval = 0,
       ao_setup = Some (USB_SETUP_BYTES (bmRequestType stp) (bRequest stp) (wValue stp) (wIndex stp) (wLength stp)),
       ao_buf = buf, ao_len = i32 len, ao_iso = None, ao_ovl = ovl\<rparr> os"

definition lk_pipe_io :: "kusb \<Rightarrow> u8 \<Rightarrow> bytes \<Rightarrow> u32 \<Rightarrow> ((u32 kcall \<times> bytes) \<times> kusb) cresult" where
  "lk_pipe_io h pipe buf len =
     lift_kc (lk_pipe_interval h pipe) (\<lambda>interval.
       let (rc, act, buf, h) = lk_submit h (setup_dir pipe) (ucast (pipe AND 0x0f)) None interval buf (i32 len)
       in if rc < 0 then Ret ((Inl ERROR_GEN_FAILURE, buf), lk_auto_clear_stall h pipe rc)
          else Ret ((Inr (word_of_int act), buf), h))"

definition lk_pipe_io_overlapped ::
  "kusb \<Rightarrow> u8 \<Rightarrow> bytes \<Rightarrow> u32 \<Rightarrow> nat \<Rightarrow> overlappeds \<Rightarrow> (win_error \<times> kusb \<times> overlappeds) cresult" where
  "lk_pipe_io_overlapped h pipe buf len ovl os =
     lift_kc (lk_pipe_interval h pipe) (\<lambda>interval.
       Ret (kusb_queue h \<lparr>ao_dir = setup_dir pipe, ao_ep = ucast (pipe AND 0x0f), ao_interval = interval,
         ao_setup = None, ao_buf = buf, ao_len = i32 len, ao_iso = None, ao_ovl = ovl\<rparr> os))"

definition UsbK_ResetPipe :: "kusb \<Rightarrow> u8 \<Rightarrow> unit kcall \<times> kusb" where
  "UsbK_ResetPipe h pipe =
     (let (rc, act, buf, h) = lk_control h 0x02 0x01 0 (ucast pipe) [] 0
      in (if rc < 0 then Inl ERROR_GEN_FAILURE else Inr (), h))"

section \<open>The worker\<close>

text \<open>The results of the packets, copied to the slots of the context.\<close>

definition iso_results :: "iso_pkt list \<Rightarrow> kiso_context \<Rightarrow> kiso_context" where
  "iso_results pkts c = c\<lparr>ki_packets :=
     map2 (\<lambda>p q. p\<lparr>kp_length := ucast (ip_actual q), kp_status := ucast (ip_status q)\<rparr>) (ki_packets c) pkts
       @ drop (length pkts) (ki_packets c)\<rparr>"

text \<open>The state the worker sees: its handle, the \<open>OVERLAPPED\<close> structures and the isochronous contexts.\<close>

type_synonym worker_state = "kusb \<times> overlappeds \<times> (nat \<Rightarrow> kiso_context)"

text \<open>The end of an operation: the stall of its pipe is cleared when the policy says so, then the result and the event.\<close>

definition kusb_complete :: "aop \<Rightarrow> int \<Rightarrow> int \<Rightarrow> worker_state \<Rightarrow> worker_state" where
  "kusb_complete op rc actual s =
     (let (h, os, cs) = s;
          h = (if rc < 0 \<and> ao_setup op = None
               then lk_auto_clear_stall h (ucast (ao_ep op) OR (if ao_dir op = USB_IN then 0x80 else 0)) rc else h)
      in (h, os(ao_ovl op := \<lparr>ov_internal = (if rc < 0 then Ovl_failed else Ovl_ok),
            ov_transferred = (if rc < 0 then 0 else word_of_int actual), ov_signalled = True\<rparr>), cs))"

text \<open>One operation; the new buffer is part of the result.\<close>

definition kusb_work :: "(nat \<Rightarrow> bool) \<Rightarrow> aop \<Rightarrow> worker_state \<Rightarrow> (bytes \<times> worker_state) cresult" where
  "kusb_work mem op s =
     (let (h, os, cs) = s
      in case ao_iso op of
           None \<Rightarrow>
             (let (rc, actual, buf, h) = lk_submit h (ao_dir op) (ao_ep op) (ao_setup op) (ao_interval op) (ao_buf op) (ao_len op)
              in Ret (buf, kusb_complete op rc actual (h, os, cs)))
         | Some (pkts, ctx) \<Rightarrow>
             lift_kc (usbip_client_submit_iso mem (ku_devid h) (ku_seq h) (ao_dir op) (ao_ep op) 0 (ao_buf op) pkts (ku_sock h)) (\<lambda>r.
               let cs = (case ctx of None \<Rightarrow> cs | Some c \<Rightarrow> cs(c := iso_results (ir_pkts r) (cs c)))
               in Ret (ir_buf r, kusb_complete op (ir_rc r) (case ir_total r of None \<Rightarrow> 0 | Some n \<Rightarrow> n)
                    (h\<lparr>ku_seq := ir_seq r, ku_sock := ir_sock r\<rparr>, os, cs))))"

definition kusb_worker :: "(nat \<Rightarrow> bool) \<Rightarrow> worker_state \<Rightarrow> ((aop \<times> bytes) option \<times> worker_state) cresult" where
  "kusb_worker mem s =
     (case ku_queue (fst s) of
        [] \<Rightarrow> Ret (None, s)
      | op # ops \<Rightarrow> lift_kc (kusb_work mem op ((fst s)\<lparr>ku_queue := ops\<rparr>, snd s)) (\<lambda>(buf, s). Ret (Some (op, buf), s)))"

lemma lift_kc_Ret [simp]: "lift_kc (Ret x) f = f x"
  by (simp add: lift_kc_def)

lemma lift_kc_eq_Ret: "lift_kc r f = Ret y \<longleftrightarrow> (\<exists>x. r = Ret x \<and> f x = Ret y)"
  by (cases r) (simp_all add: lift_kc_def)

lemma queue_of_control [simp]:
  "ku_queue (snd (snd (snd (lk_submit h dir ep stp interval buf len)))) = ku_queue h"
  "ku_queue (lk_auto_clear_stall h pipe rc) = ku_queue h"
  by (simp_all add: lk_submit_def lk_auto_clear_stall_def lk_control_def Let_def split_def)

lemma queue_of_complete [simp]: "ku_queue (fst (kusb_complete op rc actual s)) = ku_queue (fst s)"
  by (simp add: kusb_complete_def Let_def split_def)

lemma queue_of_submit: "lk_submit h dir ep stp interval buf len = (rc, act, buf', h') \<Longrightarrow> ku_queue h' = ku_queue h"
  using queue_of_control(1) [of h dir ep stp interval buf len] by simp

lemma queue_of_work: "kusb_work mem op s = Ret (buf, s') \<Longrightarrow> ku_queue (fst s') = ku_queue (fst s)"
  by (auto simp: kusb_work_def Let_def lift_kc_eq_Ret dest: queue_of_submit split: prod.splits option.splits)

lemma worker_shrinks: "kusb_worker mem s = Ret (Some r, s') \<Longrightarrow> ku_queue (fst s) = fst r # ku_queue (fst s')"
  by (auto simp: kusb_worker_def lift_kc_eq_Ret dest!: queue_of_work split: list.splits)

text \<open>\<open>UsbK_Free\<close> joins the worker, which leaves only when its queue is empty. What it completed, in order.\<close>

function kusb_drain :: "(nat \<Rightarrow> bool) \<Rightarrow> worker_state \<Rightarrow> ((aop \<times> bytes) list \<times> worker_state) cresult" where
  "kusb_drain mem s =
     (case kusb_worker mem s of
        Ret (None, s') \<Rightarrow> Ret ([], s')
      | Ret (Some r, s') \<Rightarrow>
          (case kusb_drain mem s' of
             Ret (rs, s'') \<Rightarrow> Ret (r # rs, s'')
           | Err e \<Rightarrow> Err e | Undefined \<Rightarrow> Undefined)
      | Err e \<Rightarrow> Err e | Undefined \<Rightarrow> Undefined)"
  by pat_completeness auto
termination
  by (relation "measure (\<lambda>(mem, s). length (ku_queue (fst s)))") (auto dest!: worker_shrinks)

declare kusb_drain.simps [simp del]

text \<open>Every operation queued is completed, in the order of the queue: when the worker has left, none is pending.\<close>

definition completed :: "overlappeds \<Rightarrow> nat \<Rightarrow> bool" where
  "completed os i \<longleftrightarrow> ov_internal (os i) \<noteq> Ovl_pending \<and> ov_signalled (os i)"

lemma complete_completes:
  "completed (fst (snd (kusb_complete op rc actual s))) (ao_ovl op)"
  "completed (fst (snd s)) i \<Longrightarrow> completed (fst (snd (kusb_complete op rc actual s))) i"
  by (auto simp: kusb_complete_def completed_def Let_def split: prod.splits)

lemma work_completes:
  assumes "kusb_work mem op s = Ret (buf, s')"
  shows "completed (fst (snd s')) (ao_ovl op)" "completed (fst (snd s)) i \<Longrightarrow> completed (fst (snd s')) i"
proof -
  obtain h cs rc actual where "s' = kusb_complete op rc actual (h, fst (snd s), cs)"
    using assms by (cases s) (auto simp: kusb_work_def Let_def lift_kc_eq_Ret split: prod.splits option.splits)
  then show "completed (fst (snd s')) (ao_ovl op)" "completed (fst (snd s)) i \<Longrightarrow> completed (fst (snd s')) i"
    using complete_completes by (simp_all add: complete_completes(2))
qed

lemma drain_completes:
  "kusb_drain mem s = Ret (rs, s') \<Longrightarrow> map fst rs = ku_queue (fst s) \<and> ku_queue (fst s') = []
    \<and> (\<forall>i. (\<exists>op \<in> set (ku_queue (fst s)). i = ao_ovl op) \<or> completed (fst (snd s)) i \<longrightarrow> completed (fst (snd s')) i)"
proof (induction mem s arbitrary: rs rule: kusb_drain.induct)
  case (1 mem s)
  show ?case
  proof (cases "ku_queue (fst s)")
    case Nil
    then have "kusb_worker mem s = Ret (None, s)" by (simp add: kusb_worker_def)
    with 1(2) Nil show ?thesis by (simp add: kusb_drain.simps)
  next
    case (Cons op ops)
    then obtain buf s1 where w: "kusb_work mem op ((fst s)\<lparr>ku_queue := ops\<rparr>, snd s) = Ret (buf, s1)"
      "kusb_worker mem s = Ret (Some (op, buf), s1)" using 1(2)
      by (cases "kusb_work mem op ((fst s)\<lparr>ku_queue := ops\<rparr>, snd s)") (auto simp: kusb_drain.simps kusb_worker_def lift_kc_def)
    with 1(2) obtain rs' where r: "kusb_drain mem s1 = Ret (rs', s')" "rs = (op, buf) # rs'"
      by (auto simp: kusb_drain.simps [of mem s] split: cresult.splits)
    have q: "ku_queue (fst s1) = ops" using queue_of_work [OF w(1)] by simp
    note c = work_completes [OF w(1)]
    show ?thesis using 1(1) [OF w(2) refl refl r(1)] r(2) q Cons c by auto
  qed
qed

definition UsbK_GetOverlappedResult :: "nat \<Rightarrow> overlappeds \<Rightarrow> u32 kcall" where
  "UsbK_GetOverlappedResult ovl os =
     (let o1 = os ovl
      in if ov_internal o1 = Ovl_pending then Inl ERROR_IO_INCOMPLETE
         else if ov_internal o1 = Ovl_failed then Inl ERROR_GEN_FAILURE else Inr (ov_transferred o1))"

section \<open>Isochronous contexts\<close>

text \<open>\<open>NumberOfPackets\<close> is kept in a \<open>SHORT\<close>: \<open>Undefined\<close> when the number does not fit, since the loops
  then go by a count that is not that of the array.\<close>

definition IsoK_Init :: "int \<Rightarrow> int \<Rightarrow> kiso_context kcall cresult" where
  "IsoK_Init n start_frame =
     (if n < 0 then Ret (Inl ERROR_INVALID_PARAMETER)
      else if 32767 < n then Undefined
      else Ret (Inr \<lparr>ki_flags = (if start_frame \<noteq> 0 then 1 else 0), ki_start_frame = word_of_int start_frame,
        ki_error_count = 0, ki_urb_status = 0,
        ki_packets = replicate (nat n) \<lparr>kp_offset = 0, kp_length = 0, kp_status = 0\<rparr>\<rparr>))"

fun packets_of_size :: "u32 \<Rightarrow> u32 \<Rightarrow> nat \<Rightarrow> kiso_packet list" where
  "packets_of_size psize off 0 = []"
| "packets_of_size psize off (Suc n) =
     \<lparr>kp_offset = off, kp_length = ucast psize, kp_status = 0\<rparr> # packets_of_size psize (off + psize) n"

definition IsoK_SetPackets :: "kiso_context \<Rightarrow> int \<Rightarrow> kiso_context kcall" where
  "IsoK_SetPackets c psize =
     (if psize \<le> 0 then Inl ERROR_INVALID_PARAMETER
      else Inr (c\<lparr>ki_packets := packets_of_size (word_of_int psize) 0 (length (ki_packets c))\<rparr>))"

definition IsoK_SetPacket :: "kiso_context \<Rightarrow> int \<Rightarrow> kiso_packet \<Rightarrow> kiso_context kcall" where
  "IsoK_SetPacket c i p =
     (if i < 0 \<or> i \<ge> int (length (ki_packets c)) then Inl ERROR_INVALID_PARAMETER
      else Inr (c\<lparr>ki_packets := (ki_packets c)[nat i := p]\<rparr>))"

definition IsoK_GetPacket :: "kiso_context \<Rightarrow> int \<Rightarrow> kiso_packet kcall" where
  "IsoK_GetPacket c i =
     (if i < 0 \<or> i \<ge> int (length (ki_packets c)) then Inl ERROR_INVALID_PARAMETER else Inr (ki_packets c ! nat i))"

definition IsoK_ReUse :: "kiso_context \<Rightarrow> kiso_context" where
  "IsoK_ReUse c = c\<lparr>ki_error_count := 0, ki_urb_status := 0,
     ki_packets := replicate (length (ki_packets c)) \<lparr>kp_offset = 0, kp_length = 0, kp_status = 0\<rparr>\<rparr>"

text \<open>An isochronous transfer: the slots of the context go out, the lengths and statuses come back, here or when the
  worker has done it.\<close>

definition slots_of :: "kiso_context \<Rightarrow> iso_pkt list" where
  "slots_of c = map (\<lambda>p. \<lparr>ip_offset = kp_offset p, ip_length = ucast (kp_length p), ip_actual = 0, ip_status = 0\<rparr>) (ki_packets c)"

definition lk_iso_pipe :: "(nat \<Rightarrow> bool) \<Rightarrow> kusb \<Rightarrow> u8 \<Rightarrow> bytes \<Rightarrow> kiso_context
    \<Rightarrow> ((unit kcall \<times> bytes) \<times> kiso_context \<times> kusb) cresult" where
  "lk_iso_pipe mem h pipe buf c =
     lift_kc (usbip_client_submit_iso mem (ku_devid h) (ku_seq h) (setup_dir pipe) (ucast (pipe AND 0x0f)) 0 buf (slots_of c) (ku_sock h))
     (\<lambda>r. Ret ((if ir_rc r < 0 then Inl ERROR_GEN_FAILURE else Inr (), ir_buf r), iso_results (ir_pkts r) c,
        h\<lparr>ku_seq := ir_seq r, ku_sock := ir_sock r\<rparr>))"

definition lk_iso_pipe_overlapped ::
  "kusb \<Rightarrow> u8 \<Rightarrow> bytes \<Rightarrow> u32 \<Rightarrow> (nat \<Rightarrow> kiso_context) \<Rightarrow> nat \<Rightarrow> nat \<Rightarrow> overlappeds \<Rightarrow> win_error \<times> kusb \<times> overlappeds" where
  "lk_iso_pipe_overlapped h pipe buf len cs c ovl os =
     kusb_queue h \<lparr>ao_dir = setup_dir pipe, ao_ep = ucast (pipe AND 0x0f), ao_interval = 0, ao_setup = None, ao_buf = buf,
       ao_len = i32 len, ao_iso = Some (slots_of (cs c), Some c), ao_ovl = ovl\<rparr> os"

section \<open>The other isochronous interface\<close>

text \<open>The three arrays of \<open>max_packets\<close> entries, of which the first \<open>num_packets\<close> are in use.\<close>

record kisoch =
  kc_pipe_id :: u8
  kc_buffer_size :: u32
  kc_max_packets :: u32
  kc_num_packets :: u32
  kc_offset :: "u32 list"
  kc_length :: "u32 list"
  kc_status :: "u32 list"

definition IsochK_Init :: "u8 \<Rightarrow> u32 \<Rightarrow> u32 \<Rightarrow> kisoch" where
  "IsochK_Init pipe n buffer_size = \<lparr>kc_pipe_id = pipe, kc_buffer_size = buffer_size, kc_max_packets = n, kc_num_packets = n,
     kc_offset = replicate (unat n) 0, kc_length = replicate (unat n) 0, kc_status = replicate (unat n) 0\<rparr>"

definition IsochK_SetPacketOffsets :: "kisoch \<Rightarrow> u32 \<Rightarrow> kisoch kcall" where
  "IsochK_SetPacketOffsets k psize =
     (if psize = 0 then Inl ERROR_INVALID_PARAMETER
      else let n = unat (kc_num_packets k)
           in Inr (k\<lparr>kc_offset := map (\<lambda>i. of_nat i * psize) [0..<n] @ drop n (kc_offset k),
                kc_length := replicate n psize @ drop n (kc_length k)\<rparr>))"

definition IsochK_SetPacket :: "kisoch \<Rightarrow> u32 \<Rightarrow> u32 \<Rightarrow> u32 \<Rightarrow> u32 \<Rightarrow> kisoch kcall" where
  "IsochK_SetPacket k i off len status =
     (if i \<ge> kc_num_packets k then Inl ERROR_INVALID_PARAMETER
      else Inr (k\<lparr>kc_offset := (kc_offset k)[unat i := off], kc_length := (kc_length k)[unat i := len],
        kc_status := (kc_status k)[unat i := status]\<rparr>))"

definition IsochK_GetPacket :: "kisoch \<Rightarrow> u32 \<Rightarrow> (u32 \<times> u32 \<times> u32) kcall" where
  "IsochK_GetPacket k i =
     (if i \<ge> kc_num_packets k then Inl ERROR_INVALID_PARAMETER
      else Inr (kc_offset k ! unat i, kc_length k ! unat i, kc_status k ! unat i))"

definition IsochK_SetNumberOfPackets :: "kisoch \<Rightarrow> u32 \<Rightarrow> kisoch kcall" where
  "IsochK_SetNumberOfPackets k n = (if n > kc_max_packets k then Inl ERROR_INVALID_PARAMETER else Inr (k\<lparr>kc_num_packets := n\<rparr>))"

text \<open>The packets per frame, the polling period and the bytes per millisecond; a shift by 32 or more is undefined.\<close>

definition IsochK_CalcPacketInformation :: "bool \<Rightarrow> pipe_information \<Rightarrow> (u32 \<times> u32 \<times> u32) cresult" where
  "IsochK_CalcPacketInformation high_speed p =
     (let mps = (if pi_bytes_per_interval p \<noteq> 0 then pi_bytes_per_interval p else ucast (pi_mps p));
          interval = (if pi_interval p \<noteq> 0 then unat (pi_interval p) else 1);
          frames_per_ms = (if high_speed then 8 else 1 :: u32)
      in if interval - 1 \<ge> 32 then Undefined
         else let period = push_bit (interval - 1) (1 :: u32)
              in Ret (frames_per_ms, (period * 1000) div frames_per_ms, mps * frames_per_ms))"

text \<open>The packets of a transfer: as many as asked for, all for zero, and at most those in use.\<close>

definition isoch_count :: "kisoch \<Rightarrow> u32 \<Rightarrow> nat" where
  "isoch_count k n = unat (min (if n \<noteq> 0 then n else kc_num_packets k) (kc_num_packets k))"

definition isoch_slots :: "kisoch \<Rightarrow> nat \<Rightarrow> iso_pkt list" where
  "isoch_slots k n = map2 (\<lambda>off len. \<lparr>ip_offset = off, ip_length = len, ip_actual = 0, ip_status = 0\<rparr>)
     (take n (kc_offset k)) (take n (kc_length k))"

definition lk_isoch_xfer :: "(nat \<Rightarrow> bool) \<Rightarrow> kusb \<Rightarrow> kisoch \<Rightarrow> bytes \<Rightarrow> u32 \<Rightarrow> ((unit kcall \<times> bytes) \<times> kisoch \<times> kusb) cresult" where
  "lk_isoch_xfer mem h k buf number =
     (let n = isoch_count k number
      in lift_kc (usbip_client_submit_iso mem (ku_devid h) (ku_seq h) (setup_dir (kc_pipe_id k)) (ucast (kc_pipe_id k AND 0x0f)) 0 buf
           (isoch_slots k n) (ku_sock h))
         (\<lambda>r. Ret ((if ir_rc r < 0 then Inl ERROR_GEN_FAILURE else Inr (), ir_buf r),
            k\<lparr>kc_length := map ip_actual (ir_pkts r) @ drop n (kc_length k),
              kc_status := map ip_status (ir_pkts r) @ drop n (kc_status k)\<rparr>,
            h\<lparr>ku_seq := ir_seq r, ku_sock := ir_sock r\<rparr>)))"

definition lk_isoch_xfer_overlapped :: "kusb \<Rightarrow> kisoch \<Rightarrow> bytes \<Rightarrow> u32 \<Rightarrow> nat \<Rightarrow> overlappeds \<Rightarrow> win_error \<times> kusb \<times> overlappeds" where
  "lk_isoch_xfer_overlapped h k buf number ovl os =
     kusb_queue h \<lparr>ao_dir = setup_dir (kc_pipe_id k), ao_ep = ucast (kc_pipe_id k AND 0x0f), ao_interval = 0, ao_setup = None,
       ao_buf = buf, ao_len = i32 (kc_buffer_size k), ao_iso = Some (isoch_slots k (isoch_count k number), None), ao_ovl = ovl\<rparr> os"

section \<open>The pool of overlapped structures\<close>

record kovl_pool =
  kv_all :: "nat list"
  kv_free :: "nat list"

definition OvlK_Init :: "int \<Rightarrow> nat list \<Rightarrow> kovl_pool kcall" where
  "OvlK_Init n fresh =
     (if n \<le> 0 then Inl ERROR_INVALID_PARAMETER
      else Inr \<lparr>kv_all = rev (take (nat n) fresh), kv_free = rev (take (nat n) fresh)\<rparr>)"

definition OvlK_Acquire :: "kovl_pool \<Rightarrow> overlappeds \<Rightarrow> nat kcall \<times> kovl_pool \<times> overlappeds" where
  "OvlK_Acquire pool os =
     (case kv_free pool of
        [] \<Rightarrow> (Inl ERROR_NO_MORE_ITEMS, pool, os)
      | o1 # f \<Rightarrow> (Inr o1, pool\<lparr>kv_free := f\<rparr>,
          os(o1 := \<lparr>ov_internal = Ovl_ok, ov_transferred = 0, ov_signalled = False\<rparr>)))"

definition OvlK_Release :: "nat \<Rightarrow> kovl_pool \<Rightarrow> kovl_pool" where
  "OvlK_Release o1 pool = pool\<lparr>kv_free := o1 # kv_free pool\<rparr>"

definition OvlK_ReUse :: "nat \<Rightarrow> overlappeds \<Rightarrow> overlappeds" where
  "OvlK_ReUse o1 os = os(o1 := \<lparr>ov_internal = Ovl_ok, ov_transferred = 0, ov_signalled = False\<rparr>)"

definition OvlK_IsComplete :: "nat \<Rightarrow> overlappeds \<Rightarrow> bool" where
  "OvlK_IsComplete o1 os \<longleftrightarrow> ov_internal (os o1) \<noteq> Ovl_pending"

text \<open>A wait that ends because the event is set, or else by its time limit; \<open>flags\<close> are those of \<open>KOVL_WAIT_FLAG\<close>.\<close>

definition lk_ovl_wait :: "nat \<Rightarrow> u32 \<Rightarrow> kovl_pool \<Rightarrow> overlappeds \<Rightarrow> u32 kcall \<times> kovl_pool" where
  "lk_ovl_wait o1 flags pool os =
     (let ov = os o1
      in if ov_signalled ov then
           (let ok = (ov_internal ov = Ovl_ok); release_flag = (if ok then 0x0001 else 0x0002)
            in (if ok then Inr (ov_transferred ov) else Inl ERROR_GEN_FAILURE,
                if flags AND release_flag \<noteq> 0 then OvlK_Release o1 pool else pool))
         else (Inl ERROR_SEM_TIMEOUT, if flags AND 0x000C \<noteq> 0 then OvlK_Release o1 pool else pool))"

definition OvlK_WaitOrCancel :: "nat \<Rightarrow> kovl_pool \<Rightarrow> overlappeds \<Rightarrow> u32 kcall \<times> kovl_pool" where
  "OvlK_WaitOrCancel o1 pool os = lk_ovl_wait o1 0x0004 pool os"

definition OvlK_WaitAndRelease :: "nat \<Rightarrow> kovl_pool \<Rightarrow> overlappeds \<Rightarrow> u32 kcall \<times> kovl_pool" where
  "OvlK_WaitAndRelease o1 pool os = lk_ovl_wait o1 0x000F pool os"

text \<open>The bits of \<open>RELEASE_ON_TIMEOUT\<close> include that of \<open>CANCEL_ON_TIMEOUT\<close>: an operation that is still pending when
  \<open>OvlK_WaitOrCancel\<close> gives up stays queued, while its \<open>OVERLAPPED\<close> goes back to the pool for the next one.\<close>

lemma wait_or_cancel_frees_a_pending_one:
  "\<not> ov_signalled (os o1) \<Longrightarrow> kv_free (snd (OvlK_WaitOrCancel o1 pool os)) = o1 # kv_free pool"
  by (simp add: OvlK_WaitOrCancel_def lk_ovl_wait_def OvlK_Release_def Let_def)

end
