(* ===== verification/Libusbk_List.thy ===== *)
theory Libusbk_List
  imports Libusbk
begin

text \<open>
  The device lists of \<open>libusbk.c\<close> (\<open>LstK\<close>): elements that keep their addresses while they move between lists,
  their owners, the cursor of a list, the wildcard match and the synchronisation of two lists. An element or a list is a
  number; a freed one is \<open>None\<close>, and a call with it has no defined result. The chain of a list is the order of its
  \<open>next\<close> pointers from \<open>head\<close>, and \<open>tail\<close> is its last element. User contexts and cleanup callbacks are left out.
\<close>

section \<open>Device infos and patterns\<close>

datatype sync_flag = SYNC_UNCHANGED | SYNC_ADDED | SYNC_REMOVED | SYNC_CONNECT_CHANGE

record klst_devinfo =
  kd_vid :: int
  kd_pid :: int
  kd_mi :: int
  kd_instance_id :: bytes
  kd_device_id :: bytes
  kd_device_path :: bytes
  kd_connected :: bool
  kd_sync_flags :: sync_flag
  kd_bus_number :: int
  kd_device_address :: int

definition upper_hex_digit :: "u16 \<Rightarrow> u8" where
  "upper_hex_digit d = (if d < 10 then 0x30 + ucast d else 0x41 + ucast (d - 10))"

definition hex4 :: "u16 \<Rightarrow> bytes" where
  "hex4 v = map (\<lambda>k. upper_hex_digit (drop_bit k v AND 0xF)) [12, 8, 4, 0]"

definition lk_fill_devinfo :: "usbip_devinfo \<Rightarrow> klst_devinfo" where
  "lk_fill_devinfo i = \<lparr>kd_vid = uint (di_vid i), kd_pid = uint (di_pid i), kd_mi = - 1,
     kd_instance_id = snprintf_s 256 (di_busid i),
     kd_device_id = snprintf_s 256 (chars (''USB'' @ [CHR 0x5C] @ ''VID_'') @ hex4 (di_vid i) @ chars ''&PID_'' @ hex4 (di_pid i)
       @ [0x5C] @ di_busid i),
     kd_device_path = snprintf_s 256 (di_busid i), kd_connected = True, kd_sync_flags = SYNC_UNCHANGED,
     kd_bus_number = i32 (di_busnum i), kd_device_address = i32 (di_devnum i)\<rparr>"

definition upper :: "u8 \<Rightarrow> u8" where
  "upper c = (if 0x61 \<le> c \<and> c \<le> 0x7A then c - 32 else c)"

text \<open>The loop of \<open>lk_wild\<close> over a pattern that is not empty at the start; a star tries every rest of the string.\<close>

function wild_loop :: "bytes \<Rightarrow> bytes \<Rightarrow> bool" where
  "wild_loop [] s = (s = [])"
| "wild_loop (p # ps) s =
     (if p = 0x2A then
        (if ps = [] then True
         else wild_loop ps s \<or> (case s of [] \<Rightarrow> False | c # cs \<Rightarrow> wild_loop (p # ps) cs))
      else (case s of
          [] \<Rightarrow> False
        | c # cs \<Rightarrow> (p = 0x3F \<or> upper p = upper c) \<and> wild_loop ps cs))"
  by pat_completeness auto
termination
  by (relation "measure (\<lambda>(ps, s). length ps + length s)") auto

declare wild_loop.simps [simp del]

definition lk_wild :: "bytes \<Rightarrow> bytes \<Rightarrow> bool" where
  "lk_wild pat str = (if pat = [] then True else wild_loop pat str)"

section \<open>Lists and elements\<close>

record klst_el =
  el_pub :: klst_devinfo
  el_owner :: "nat option"

record klst =
  kl_chain :: "nat list"
  kl_cursor :: "nat option"
  kl_started :: bool
  kl_count :: int

record klists =
  st_els :: "nat \<Rightarrow> klst_el option"
  st_lists :: "nat \<Rightarrow> klst option"
  st_next :: nat

definition the_list :: "nat \<Rightarrow> klists \<Rightarrow> klst cresult" where
  "the_list l st = (case st_lists st l of Some k \<Rightarrow> Ret k | None \<Rightarrow> Undefined)"

definition the_el :: "nat \<Rightarrow> klists \<Rightarrow> klst_el cresult" where
  "the_el e st = (case st_els st e of Some x \<Rightarrow> Ret x | None \<Rightarrow> Undefined)"

definition put_list :: "nat \<Rightarrow> klst \<Rightarrow> klists \<Rightarrow> klists" where
  "put_list l k st = st\<lparr>st_lists := (st_lists st)(l := Some k)\<rparr>"

definition put_el :: "nat \<Rightarrow> klst_el \<Rightarrow> klists \<Rightarrow> klists" where
  "put_el e x st = st\<lparr>st_els := (st_els st)(e := Some x)\<rparr>"

text \<open>\<open>calloc\<close> of a standalone element and of an empty list.\<close>

definition new_el :: "klst_devinfo \<Rightarrow> klists \<Rightarrow> nat \<times> klists" where
  "new_el pub st = (st_next st, (put_el (st_next st) \<lparr>el_pub = pub, el_owner = None\<rparr> st)\<lparr>st_next := st_next st + 1\<rparr>)"

definition new_list :: "klists \<Rightarrow> nat \<times> klists" where
  "new_list st = (st_next st, (put_list (st_next st) \<lparr>kl_chain = [], kl_cursor = None, kl_started = False, kl_count = 0\<rparr> st)
     \<lparr>st_next := st_next st + 1\<rparr>)"

definition lk_list_append :: "nat \<Rightarrow> nat \<Rightarrow> klists \<Rightarrow> klists cresult" where
  "lk_list_append l e st =
     lift_kc (the_list l st) (\<lambda>k. lift_kc (the_el e st) (\<lambda>x.
       Ret (put_el e (x\<lparr>el_owner := Some l\<rparr>)
         (put_list l (k\<lparr>kl_chain := kl_chain k @ [e], kl_count := kl_count k + 1\<rparr>) st))))"

fun before :: "nat \<Rightarrow> nat option \<Rightarrow> nat list \<Rightarrow> nat option" where
  "before e prev [] = prev"
| "before e prev (x # xs) = (if x = e then prev else before e (Some x) xs)"

definition lk_list_unlink :: "nat \<Rightarrow> nat \<Rightarrow> klists \<Rightarrow> (bool \<times> klists) cresult" where
  "lk_list_unlink l e st =
     lift_kc (the_list l st) (\<lambda>k.
       if e \<notin> set (kl_chain k) then Ret (False, st)
       else lift_kc (the_el e st) (\<lambda>x.
         Ret (True, put_el e (x\<lparr>el_owner := None\<rparr>)
           (put_list l (k\<lparr>kl_chain := remove1 e (kl_chain k),
              kl_cursor := (if kl_cursor k = Some e then before e None (kl_chain k) else kl_cursor k),
              kl_count := kl_count k - 1\<rparr>) st))))"

fun append_new :: "nat \<Rightarrow> klst_devinfo list \<Rightarrow> klists \<Rightarrow> klists cresult" where
  "append_new l [] st = Ret st"
| "append_new l (d # ds) st =
     (let (e, st) = new_el d st in lift_kc (lk_list_append l e st) (append_new l ds))"

definition LstK_InitEx :: "usbip_devinfo list option \<Rightarrow> bytes \<Rightarrow> klists \<Rightarrow> nat kcall \<times> klists" where
  "LstK_InitEx infos pattern st =
     (case infos of
        None \<Rightarrow> (Inl ERROR_FILE_NOT_FOUND, st)
      | Some is \<Rightarrow>
         (let (l, st) = new_list st
          in case append_new l (filter (\<lambda>d. pattern = [] \<or> lk_wild pattern (kd_device_id d)) (map lk_fill_devinfo is)) st of
               Ret st \<Rightarrow> (Inr l, st)
             | _ \<Rightarrow> (Inl ERROR_FILE_NOT_FOUND, st)))"

definition LstK_Free :: "nat \<Rightarrow> klists \<Rightarrow> klists cresult" where
  "LstK_Free l st = lift_kc (the_list l st) (\<lambda>k.
     Ret (st\<lparr>st_els := (\<lambda>e. if e \<in> set (kl_chain k) then None else st_els st e), st_lists := (st_lists st)(l := None)\<rparr>))"

definition LstK_Count :: "nat \<Rightarrow> klists \<Rightarrow> int cresult" where
  "LstK_Count l st = lift_kc (the_list l st) (\<lambda>k. Ret (kl_count k))"

definition LstK_MoveReset :: "nat \<Rightarrow> klists \<Rightarrow> klists cresult" where
  "LstK_MoveReset l st = lift_kc (the_list l st) (\<lambda>k. Ret (put_list l (k\<lparr>kl_cursor := None, kl_started := False\<rparr>) st))"

fun after :: "nat \<Rightarrow> nat list \<Rightarrow> nat option" where
  "after e [] = None"
| "after e (x # xs) = (if x = e then (case xs of [] \<Rightarrow> None | y # ys \<Rightarrow> Some y) else after e xs)"

definition LstK_MoveNext :: "nat \<Rightarrow> klists \<Rightarrow> (nat option \<times> klists) cresult" where
  "LstK_MoveNext l st = lift_kc (the_list l st) (\<lambda>k.
     let nx = (if kl_started k then (case kl_cursor k of Some e \<Rightarrow> after e (kl_chain k) | None \<Rightarrow> None)
               else (case kl_chain k of [] \<Rightarrow> None | e # es \<Rightarrow> Some e))
     in Ret (nx, put_list l (k\<lparr>kl_cursor := nx, kl_started := True\<rparr>) st))"

definition LstK_Current :: "nat \<Rightarrow> klists \<Rightarrow> nat kcall cresult" where
  "LstK_Current l st = lift_kc (the_list l st) (\<lambda>k.
     Ret (case kl_cursor k of Some e \<Rightarrow> if kl_started k then Inr e else Inl ERROR_NO_MORE_ITEMS | None \<Rightarrow> Inl ERROR_NO_MORE_ITEMS))"

definition pub_of :: "klists \<Rightarrow> nat \<Rightarrow> klst_devinfo option" where
  "pub_of st e = map_option el_pub (st_els st e)"

definition LstK_FindByVidPid :: "nat \<Rightarrow> int \<Rightarrow> int \<Rightarrow> klists \<Rightarrow> (nat kcall \<times> klists) cresult" where
  "LstK_FindByVidPid l v p st = lift_kc (the_list l st) (\<lambda>k.
     case find (\<lambda>e. case pub_of st e of Some d \<Rightarrow> kd_vid d = v \<and> kd_pid d = p | None \<Rightarrow> False) (kl_chain k) of
       Some e \<Rightarrow> Ret (Inr e, put_list l (k\<lparr>kl_cursor := Some e, kl_started := True\<rparr>) st)
     | None \<Rightarrow> Ret (Inl ERROR_NO_MORE_ITEMS, st))"

definition LstK_CloneInfo :: "nat \<Rightarrow> klists \<Rightarrow> (nat \<times> klists) cresult" where
  "LstK_CloneInfo e st = lift_kc (the_el e st) (\<lambda>x. Ret (new_el (el_pub x) st))"

definition LstK_FreeInfo :: "nat \<Rightarrow> klists \<Rightarrow> (unit kcall \<times> klists) cresult" where
  "LstK_FreeInfo e st = lift_kc (the_el e st) (\<lambda>x.
     Ret (if el_owner x \<noteq> None then (Inl ERROR_INVALID_HANDLE, st)
          else (Inr (), st\<lparr>st_els := (st_els st)(e := None)\<rparr>)))"

definition LstK_AttachInfo :: "nat \<Rightarrow> nat \<Rightarrow> klists \<Rightarrow> (unit kcall \<times> klists) cresult" where
  "LstK_AttachInfo l e st = lift_kc (the_el e st) (\<lambda>x.
     if el_owner x \<noteq> None then Ret (Inl ERROR_INVALID_HANDLE, st)
     else lift_kc (lk_list_append l e st) (\<lambda>st. Ret (Inr (), st)))"

definition LstK_DetachInfo :: "nat \<Rightarrow> nat \<Rightarrow> klists \<Rightarrow> (unit kcall \<times> klists) cresult" where
  "LstK_DetachInfo l e st = lift_kc (the_el e st) (\<lambda>x.
     if el_owner x \<noteq> Some l then Ret (Inl ERROR_INVALID_HANDLE, st)
     else lift_kc (lk_list_unlink l e st) (\<lambda>(ok, st). Ret (if ok then Inr () else Inl ERROR_INVALID_HANDLE, st)))"

text \<open>The public parts of a chain; every element of a chain is alive, or the walk is undefined.\<close>

fun pubs_of :: "klists \<Rightarrow> nat list \<Rightarrow> klst_devinfo list cresult" where
  "pubs_of st [] = Ret []"
| "pubs_of st (e # es) = lift_kc (the_el e st) (\<lambda>x. lift_kc (pubs_of st es) (\<lambda>ds. Ret (el_pub x # ds)))"

definition LstK_Clone :: "nat \<Rightarrow> klists \<Rightarrow> (nat \<times> klists) cresult" where
  "LstK_Clone l st = lift_kc (the_list l st) (\<lambda>k. lift_kc (pubs_of st (kl_chain k)) (\<lambda>ds.
     let (m, st) = new_list st in lift_kc (append_new m ds st) (\<lambda>st. Ret (m, st))))"

section \<open>Synchronising two lists\<close>

definition lk_list_find_id :: "klists \<Rightarrow> nat list \<Rightarrow> bytes \<Rightarrow> nat option" where
  "lk_list_find_id st chain device_id =
     find (\<lambda>e. case pub_of st e of Some d \<Rightarrow> kd_device_id d = device_id | None \<Rightarrow> False) chain"

text \<open>What an element of the master becomes, from its match in the slave.\<close>

definition marked :: "klst_devinfo option \<Rightarrow> klst_devinfo \<Rightarrow> klst_devinfo" where
  "marked found d =
     (case found of
        None \<Rightarrow> d\<lparr>kd_sync_flags := SYNC_REMOVED, kd_connected := False\<rparr>
      | Some m \<Rightarrow>
          (if kd_connected m \<noteq> kd_connected d
           then d\<lparr>kd_sync_flags := SYNC_CONNECT_CHANGE, kd_connected := kd_connected m\<rparr>
           else d\<lparr>kd_sync_flags := SYNC_UNCHANGED\<rparr>))"

definition sync_mark :: "nat \<Rightarrow> nat \<Rightarrow> klists \<Rightarrow> klists cresult" where
  "sync_mark slave e st = lift_kc (the_list slave st) (\<lambda>k. lift_kc (the_el e st) (\<lambda>x.
     let found = (case lk_list_find_id st (kl_chain k) (kd_device_id (el_pub x)) of Some m \<Rightarrow> pub_of st m | None \<Rightarrow> None)
     in Ret (put_el e (x\<lparr>el_pub := marked found (el_pub x)\<rparr>) st)))"

definition sync_add :: "nat \<Rightarrow> nat \<Rightarrow> klists \<Rightarrow> klists cresult" where
  "sync_add master e st = lift_kc (the_list master st) (\<lambda>k. lift_kc (the_el e st) (\<lambda>x.
     if lk_list_find_id st (kl_chain k) (kd_device_id (el_pub x)) \<noteq> None then Ret st
     else let (c, st) = new_el ((el_pub x)\<lparr>kd_sync_flags := SYNC_ADDED\<rparr>) st in lk_list_append master c st))"

definition sync_drop :: "nat \<Rightarrow> nat \<Rightarrow> klists \<Rightarrow> klists cresult" where
  "sync_drop master e st = lift_kc (the_el e st) (\<lambda>x.
     if kd_sync_flags (el_pub x) = SYNC_REMOVED
     then lift_kc (lk_list_unlink master e st) (\<lambda>(ok, st). Ret (if ok then st\<lparr>st_els := (st_els st)(e := None)\<rparr> else st))
     else Ret st)"

fun each :: "(nat \<Rightarrow> klists \<Rightarrow> klists cresult) \<Rightarrow> nat list \<Rightarrow> klists \<Rightarrow> klists cresult" where
  "each f [] st = Ret st"
| "each f (e # es) st = lift_kc (f e st) (each f es)"

text \<open>The chain of a list as it is now.\<close>

definition over_chain :: "nat \<Rightarrow> (nat \<Rightarrow> klists \<Rightarrow> klists cresult) \<Rightarrow> klists \<Rightarrow> klists cresult" where
  "over_chain l f st = lift_kc (the_list l st) (\<lambda>k. each f (kl_chain k) st)"

definition sync_lists :: "nat \<Rightarrow> nat \<Rightarrow> bool \<Rightarrow> klists \<Rightarrow> klists cresult" where
  "sync_lists master slave drop_removed st =
     lift_kc (over_chain master (sync_mark slave) st) (\<lambda>st.
     lift_kc (over_chain slave (sync_add master) st) (\<lambda>st.
       if drop_removed then over_chain master (sync_drop master) st else Ret st))"

text \<open>Without a slave, a fresh snapshot of the server's devices that match the pattern is taken, and freed afterwards.\<close>

definition LstK_Sync ::
  "nat \<Rightarrow> nat option \<Rightarrow> bool \<Rightarrow> bytes \<Rightarrow> usbip_devinfo list option \<Rightarrow> klists \<Rightarrow> (unit kcall \<times> klists) cresult" where
  "LstK_Sync master slave drop_removed pattern infos st =
     (case slave of
        Some s \<Rightarrow> lift_kc (sync_lists master s drop_removed st) (\<lambda>st. lift_kc (LstK_MoveReset master st) (\<lambda>st. Ret (Inr (), st)))
      | None \<Rightarrow>
         (case LstK_InitEx infos pattern st of
            (Inl e, st) \<Rightarrow> Ret (Inl e, st)
          | (Inr temp, st) \<Rightarrow>
              lift_kc (sync_lists master temp drop_removed st) (\<lambda>st.
              lift_kc (LstK_Free temp st) (\<lambda>st.
              lift_kc (LstK_MoveReset master st) (\<lambda>st. Ret (Inr (), st))))))"

end
