(* ===== verification/Libusbk_List_Props.thy ===== *)
theory Libusbk_List_Props
  imports Libusbk_List
begin

text \<open>
  What the device lists keep: every live element is in at most one list, the one its owner names, chains hold live
  elements once, counts are lengths and cursors stay inside; whatever calls are made with live handles. And what a
  synchronisation does: the master lists the devices of the slave.
\<close>

section \<open>The invariant\<close>

definition list_ok :: "klists \<Rightarrow> nat \<Rightarrow> klst \<Rightarrow> bool" where
  "list_ok st l k \<longleftrightarrow> distinct (kl_chain k) \<and> kl_count k = int (length (kl_chain k))
     \<and> (\<forall>e \<in> set (kl_chain k). \<exists>x. st_els st e = Some x \<and> el_owner x = Some l)
     \<and> (case kl_cursor k of Some e \<Rightarrow> e \<in> set (kl_chain k) | None \<Rightarrow> True)"

definition lists_ok :: "klists \<Rightarrow> bool" where
  "lists_ok st \<longleftrightarrow> (\<forall>l k. st_lists st l = Some k \<longrightarrow> list_ok st l k)
     \<and> (\<forall>e x l. st_els st e = Some x \<longrightarrow> el_owner x = Some l \<longrightarrow> (\<exists>k. st_lists st l = Some k \<and> e \<in> set (kl_chain k)))
     \<and> (\<forall>n \<ge> st_next st. st_els st n = None \<and> st_lists st n = None)"

lemma the_Ret [simp]: "the_list l st = Ret k \<longleftrightarrow> st_lists st l = Some k" "the_el e st = Ret x \<longleftrightarrow> st_els st e = Some x"
  by (simp_all add: the_list_def the_el_def split: option.splits)

lemma ok_list: "lists_ok st \<Longrightarrow> st_lists st l = Some k \<Longrightarrow> list_ok st l k"
  by (simp add: lists_ok_def)

lemma ok_owner: "lists_ok st \<Longrightarrow> st_els st e = Some x \<Longrightarrow> el_owner x = Some l
    \<Longrightarrow> \<exists>k. st_lists st l = Some k \<and> e \<in> set (kl_chain k)"
  by (simp add: lists_ok_def)

lemma ok_next: "lists_ok st \<Longrightarrow> st_next st \<le> n \<Longrightarrow> st_els st n = None \<and> st_lists st n = None"
  by (simp add: lists_ok_def)

lemma lists_okI:
  assumes "\<And>l k. st_lists st l = Some k \<Longrightarrow> list_ok st l k"
    and "\<And>e x l. st_els st e = Some x \<Longrightarrow> el_owner x = Some l \<Longrightarrow> \<exists>k. st_lists st l = Some k \<and> e \<in> set (kl_chain k)"
    and "\<And>n. st_next st \<le> n \<Longrightarrow> st_els st n = None \<and> st_lists st n = None"
  shows "lists_ok st"
  using assms unfolding lists_ok_def by blast

lemma list_ok_cong:
  "list_ok st l k \<Longrightarrow> (\<And>e. e \<in> set (kl_chain k) \<Longrightarrow> map_option el_owner (st_els st' e) = map_option el_owner (st_els st e)) \<Longrightarrow> list_ok st' l k"
  unfolding list_ok_def by (metis (no_types, lifting) map_option_eq_Some)

lemma put_list_sel [simp]: "st_els (put_list l k st) = st_els st" "st_lists (put_list l k st) = (st_lists st)(l := Some k)"
  "st_next (put_list l k st) = st_next st"
  by (simp_all add: put_list_def)

lemma put_el_sel [simp]: "st_els (put_el e x st) = (st_els st)(e := Some x)" "st_lists (put_el e x st) = st_lists st"
  "st_next (put_el e x st) = st_next st"
  by (simp_all add: put_el_def)

text \<open>Moving the cursor, and changing what an element shows.\<close>

lemma cursor_keeps_ok:
  assumes ok: "lists_ok st" and k: "st_lists st l = Some k" and c: "case c of Some e \<Rightarrow> e \<in> set (kl_chain k) | None \<Rightarrow> True"
  shows "lists_ok (put_list l (k\<lparr>kl_cursor := c, kl_started := b\<rparr>) st)"
proof (rule lists_okI)
  fix l' k' assume "st_lists (put_list l (k\<lparr>kl_cursor := c, kl_started := b\<rparr>) st) l' = Some k'"
  then show "list_ok (put_list l (k\<lparr>kl_cursor := c, kl_started := b\<rparr>) st) l' k'"
    using ok_list [OF ok] ok_list [OF ok k] c by (cases "l' = l") (auto simp: list_ok_def split: option.splits)
qed (use ok_owner [OF ok] ok_next [OF ok] k in \<open>fastforce split: if_splits\<close>)+

lemma pub_keeps_ok:
  assumes ok: "lists_ok st" and e: "st_els st e = Some x"
  shows "lists_ok (put_el e (x\<lparr>el_pub := d\<rparr>) st)"
proof (rule lists_okI)
  fix l k assume "st_lists (put_el e (x\<lparr>el_pub := d\<rparr>) st) l = Some k"
  then have "list_ok st l k" using ok_list [OF ok, of l k] by simp
  then show "list_ok (put_el e (x\<lparr>el_pub := d\<rparr>) st) l k" by (rule list_ok_cong) (simp add: e)
next
  fix e' x' l assume "st_els (put_el e (x\<lparr>el_pub := d\<rparr>) st) e' = Some x'" "el_owner x' = Some l"
  then have "\<exists>y. st_els st e' = Some y \<and> el_owner y = Some l" using e by (auto split: if_splits)
  then show "\<exists>k. st_lists (put_el e (x\<lparr>el_pub := d\<rparr>) st) l = Some k \<and> e' \<in> set (kl_chain k)"
    using ok_owner [OF ok] by auto
next
  fix n assume "st_next (put_el e (x\<lparr>el_pub := d\<rparr>) st) \<le> n"
  with ok_next [OF ok] e show "st_els (put_el e (x\<lparr>el_pub := d\<rparr>) st) n = None \<and> st_lists (put_el e (x\<lparr>el_pub := d\<rparr>) st) n = None"
    by auto
qed

lemma new_el_ok:
  assumes ok: "lists_ok st" and n: "new_el d st = (e, st')"
  shows "lists_ok st' \<and> st_els st e = None \<and> st_els st' = (st_els st)(e \<mapsto> \<lparr>el_pub = d, el_owner = None\<rparr>) \<and> st_lists st' = st_lists st
   \<and> st_next st' = st_next st + 1 \<and> e = st_next st"
proof -
  have e: "e = st_next st" "st_els st' = (st_els st)(e \<mapsto> \<lparr>el_pub = d, el_owner = None\<rparr>)" "st_lists st' = st_lists st"
    "st_next st' = st_next st + 1" using n by (auto simp: new_el_def)
  have fresh: "st_els st e = None" using ok_next [OF ok] e(1) by simp
  have "lists_ok st'"
  proof (rule lists_okI)
    fix l k assume "st_lists st' l = Some k"
    then have lk: "list_ok st l k" using ok_list [OF ok] e(3) by simp
    show "list_ok st' l k"
      by (rule list_ok_cong [OF lk]) (use lk fresh e(2) in \<open>auto simp: list_ok_def\<close>)
  qed (use ok_owner [OF ok] ok_next [OF ok] e in \<open>auto split: if_splits\<close>)
  then show ?thesis using e fresh by simp
qed

lemma new_list_ok:
  assumes ok: "lists_ok st" and n: "new_list st = (l, st')"
  shows "lists_ok st' \<and> st_lists st l = None \<and> st_els st' = st_els st
   \<and> st_lists st' = (st_lists st)(l \<mapsto> \<lparr>kl_chain = [], kl_cursor = None, kl_started = False, kl_count = 0\<rparr>)"
proof -
  have e: "l = st_next st" "st_lists st' = (st_lists st)(l \<mapsto> \<lparr>kl_chain = [], kl_cursor = None, kl_started = False, kl_count = 0\<rparr>)"
    "st_els st' = st_els st" "st_next st' = st_next st + 1" using n by (auto simp: new_list_def)
  have fresh: "st_lists st l = None" using ok_next [OF ok] e(1) by simp
  have "lists_ok st'"
  proof (rule lists_okI)
    fix l' k assume "st_lists st' l' = Some k"
    then show "list_ok st' l' k"
      using ok_list [OF ok, of l' k] e(2,3) by (auto simp: list_ok_def split: if_splits)
  next
    fix e' x l' assume "st_els st' e' = Some x" "el_owner x = Some l'"
    then show "\<exists>k. st_lists st' l' = Some k \<and> e' \<in> set (kl_chain k)"
      using ok_owner [OF ok, of e' x l'] e fresh by (cases "l' = l") auto
  qed (use ok_next [OF ok] e in auto)
  then show ?thesis using e fresh by simp
qed

lemma append_ok:
  assumes ok: "lists_ok st" and k: "st_lists st l = Some k" and x: "st_els st e = Some x" "el_owner x = None"
  shows "\<exists>st'. lk_list_append l e st = Ret st' \<and> lists_ok st'
    \<and> st_els st' = (st_els st)(e \<mapsto> x\<lparr>el_owner := Some l\<rparr>)
    \<and> st_lists st' = (st_lists st)(l \<mapsto> k\<lparr>kl_chain := kl_chain k @ [e], kl_count := kl_count k + 1\<rparr>)
    \<and> st_next st' = st_next st"
proof -
  have f: "e \<notin> set (kl_chain k')" if "st_lists st l' = Some k'" for l' k'
    using ok_list [OF ok that] x by (auto simp: list_ok_def)
  have "lists_ok (put_el e (x\<lparr>el_owner := Some l\<rparr>)
      (put_list l (k\<lparr>kl_chain := kl_chain k @ [e], kl_count := kl_count k + 1\<rparr>) st))"
    using ok k x f unfolding lists_ok_def list_ok_def
    by (auto split: option.splits; metis option.inject option.distinct(1))
  then show ?thesis using k x(1) by (simp add: lk_list_append_def the_list_def the_el_def)
qed

lemma before_in: "before e prev xs = Some y \<Longrightarrow> e \<in> set xs \<Longrightarrow> prev = Some y \<or> y \<in> set xs"
  by (induction xs arbitrary: prev) (auto split: if_splits)

lemma before_not: "before e prev xs = Some e \<Longrightarrow> e \<in> set xs \<Longrightarrow> prev = Some e"
  by (induction xs arbitrary: prev) (auto split: if_splits)

lemma unlink_ok:
  assumes ok: "lists_ok st" and k: "st_lists st l = Some k" and e: "e \<in> set (kl_chain k)"
  shows "\<exists>x k' st'. st_els st e = Some x \<and> lk_list_unlink l e st = Ret (True, st') \<and> lists_ok st'
    \<and> st_els st' = (st_els st)(e \<mapsto> x\<lparr>el_owner := None\<rparr>) \<and> st_lists st' = (st_lists st)(l \<mapsto> k')
    \<and> kl_chain k' = remove1 e (kl_chain k) \<and> st_next st' = st_next st"
proof -
  obtain x where x: "st_els st e = Some x" "el_owner x = Some l"
    using ok_list [OF ok k] e by (auto simp: list_ok_def)
  have lk: "list_ok st l k" by (rule ok_list [OF ok k])
  let ?c = "if kl_cursor k = Some e then before e None (kl_chain k) else kl_cursor k"
  let ?k = "k\<lparr>kl_chain := remove1 e (kl_chain k), kl_cursor := ?c, kl_count := kl_count k - 1\<rparr>"
  have c: "case ?c of Some y \<Rightarrow> y \<in> set (kl_chain k) \<and> y \<noteq> e | None \<Rightarrow> True"
    using lk e before_in [of e None "kl_chain k"] before_not [of e None "kl_chain k"]
    by (auto simp: list_ok_def split: option.splits if_splits)
  have other: "e \<notin> set (kl_chain k')" if "st_lists st l' = Some k'" "l' \<noteq> l" for l' k'
    using ok_list [OF ok that(1)] x that(2) by (auto simp: list_ok_def)
  have len: "int (length (remove1 e (kl_chain k))) = kl_count k - 1"
    using lk e length_pos_if_in_set [OF e] by (simp add: list_ok_def length_remove1 of_nat_diff Suc_le_eq)
  have d: "distinct (kl_chain k)" using lk by (simp add: list_ok_def)
  have "lists_ok (put_el e (x\<lparr>el_owner := None\<rparr>) (put_list l ?k st))"
    unfolding lists_ok_def
  proof (intro conjI allI impI)
    fix l' k' assume "st_lists (put_el e (x\<lparr>el_owner := None\<rparr>) (put_list l ?k st)) l' = Some k'"
    then have k': "if l' = l then k' = ?k else st_lists st l' = Some k'" by (auto split: if_splits)
    show "list_ok (put_el e (x\<lparr>el_owner := None\<rparr>) (put_list l ?k st)) l' k'"
    proof (cases "l' = l")
      case True
      have "\<forall>e' \<in> set (kl_chain k) - {e}. \<exists>y. st_els st e' = Some y \<and> el_owner y = Some l"
        using lk by (simp add: list_ok_def)
      with True k' c len d show ?thesis by (auto simp: list_ok_def split: option.splits)
    next
      case False
      then have k1: "st_lists st l' = Some k'" using k' by simp
      show ?thesis
        by (rule list_ok_cong [OF ok_list [OF ok k1]]) (use other [OF k1 False] in auto)
    qed
  next
    fix e' x' l'
    assume "st_els (put_el e (x\<lparr>el_owner := None\<rparr>) (put_list l ?k st)) e' = Some x'" "el_owner x' = Some l'"
    then show "\<exists>k'. st_lists (put_el e (x\<lparr>el_owner := None\<rparr>) (put_list l ?k st)) l' = Some k' \<and> e' \<in> set (kl_chain k')"
      using ok k d unfolding lists_ok_def by (auto split: if_splits) (metis option.inject)
  next
    fix n assume "st_next (put_el e (x\<lparr>el_owner := None\<rparr>) (put_list l ?k st)) \<le> n"
    then show "st_els (put_el e (x\<lparr>el_owner := None\<rparr>) (put_list l ?k st)) n = None"
      "st_lists (put_el e (x\<lparr>el_owner := None\<rparr>) (put_list l ?k st)) n = None"
      using ok k x unfolding lists_ok_def by (auto split: if_splits)
  qed
  then show ?thesis using k e x(1) by (auto simp: lk_list_unlink_def the_list_def the_el_def)
qed

section \<open>The passes of a synchronisation\<close>

definition idof :: "klists \<Rightarrow> nat \<Rightarrow> bytes option" where
  "idof st e = map_option kd_device_id (pub_of st e)"

definition removed :: "klists \<Rightarrow> nat \<Rightarrow> bool" where
  "removed st e \<longleftrightarrow> (\<exists>d. pub_of st e = Some d \<and> kd_sync_flags d = SYNC_REMOVED)"

lemma live_id: "idof st e = None \<longleftrightarrow> st_els st e = None"
  by (simp add: idof_def pub_of_def)

lemma find_id: "lk_list_find_id st chain d \<noteq> None \<longleftrightarrow> Some d \<in> idof st ` set chain"
  "lk_list_find_id st chain d = Some m \<Longrightarrow> m \<in> set chain \<and> idof st m = Some d"
proof -
  have h: "(case pub_of st e of Some x \<Rightarrow> kd_device_id x = d | None \<Rightarrow> False) \<longleftrightarrow> idof st e = Some d" for e
    by (auto simp: idof_def split: option.splits)
  show "lk_list_find_id st chain d \<noteq> None \<longleftrightarrow> Some d \<in> idof st ` set chain"
    unfolding lk_list_find_id_def h by (auto simp: find_None_iff image_iff) (metis)+
  show "lk_list_find_id st chain d = Some m \<Longrightarrow> m \<in> set chain \<and> idof st m = Some d"
    unfolding lk_list_find_id_def h by (auto simp: find_Some_iff)
qed

lemma marked_id [simp]: "kd_device_id (marked f d) = kd_device_id d"
  by (simp add: marked_def split: option.splits)

lemma marked_removed: "kd_sync_flags (marked f d) = SYNC_REMOVED \<longleftrightarrow> f = None"
  by (simp add: marked_def split: option.splits)

lemma each_mark:
  assumes "lists_ok st" "st_lists st slave = Some ks" "\<forall>e \<in> set es. st_els st e \<noteq> None" "distinct es"
  shows "\<exists>st'. each (sync_mark slave) es st = Ret st' \<and> lists_ok st' \<and> st_lists st' = st_lists st \<and> st_next st' = st_next st
    \<and> idof st' = idof st \<and> (\<forall>e. e \<notin> set es \<longrightarrow> st_els st' e = st_els st e)
    \<and> (\<forall>e \<in> set es. removed st' e \<longleftrightarrow> idof st e \<notin> idof st ` set (kl_chain ks))"
  using assms
proof (induction es arbitrary: st)
  case Nil
  then show ?case by simp
next
  case (Cons e es)
  obtain x where x: "st_els st e = Some x" using Cons.prems(3) by auto
  let ?find = "lk_list_find_id st (kl_chain ks) (kd_device_id (el_pub x))"
  let ?found = "case ?find of Some m \<Rightarrow> pub_of st m | None \<Rightarrow> None"
  let ?st = "put_el e (x\<lparr>el_pub := marked ?found (el_pub x)\<rparr>) st"
  have step: "sync_mark slave e st = Ret ?st"
    using Cons.prems(2) x by (simp add: sync_mark_def the_list_def the_el_def Let_def)
  have ok: "lists_ok ?st" using Cons.prems(1) x by (rule pub_keeps_ok)
  have ids: "idof ?st = idof st" by (auto simp: idof_def pub_of_def x fun_eq_iff)
  have "?found = None \<longleftrightarrow> ?find = None"
    using find_id(2) [of st "kl_chain ks" "kd_device_id (el_pub x)"] by (auto simp: idof_def split: option.splits)
  then have r: "removed ?st e \<longleftrightarrow> idof st e \<notin> idof st ` set (kl_chain ks)"
    using find_id(1) [of st "kl_chain ks" "kd_device_id (el_pub x)"]
    by (auto simp: removed_def pub_of_def marked_removed idof_def x)
  have "\<exists>st'. each (sync_mark slave) es ?st = Ret st' \<and> lists_ok st' \<and> st_lists st' = st_lists ?st \<and> st_next st' = st_next ?st
    \<and> idof st' = idof ?st \<and> (\<forall>e. e \<notin> set es \<longrightarrow> st_els st' e = st_els ?st e)
    \<and> (\<forall>e \<in> set es. removed st' e \<longleftrightarrow> idof ?st e \<notin> idof ?st ` set (kl_chain ks))"
    by (rule Cons.IH [OF ok]) (use Cons.prems in auto)
  then obtain st' where st': "each (sync_mark slave) es ?st = Ret st'" "lists_ok st'" "st_lists st' = st_lists st"
    "st_next st' = st_next st" "idof st' = idof st" "\<And>e. e \<notin> set es \<Longrightarrow> st_els st' e = st_els ?st e"
    "\<And>e. e \<in> set es \<Longrightarrow> removed st' e \<longleftrightarrow> idof st e \<notin> idof st ` set (kl_chain ks)"
    unfolding ids by auto
  have "removed st' e \<longleftrightarrow> removed ?st e" using st'(6) [of e] Cons.prems(4) by (simp add: removed_def pub_of_def)
  with r st' step show ?case by (intro exI [of _ st']) (auto split: if_splits)
qed

lemma each_add:
  assumes "lists_ok st" "st_lists st master = Some km" "\<forall>e \<in> set es. st_els st e \<noteq> None"
  shows "\<exists>st' km' news. each (sync_add master) es st = Ret st' \<and> lists_ok st' \<and> st_lists st' = (st_lists st)(master \<mapsto> km')
    \<and> kl_chain km' = kl_chain km @ news \<and> (\<forall>e. st_els st e \<noteq> None \<longrightarrow> st_els st' e = st_els st e)
    \<and> (\<forall>e \<in> set news. st_els st e = None \<and> \<not> removed st' e \<and> idof st' e \<in> idof st ` set es)
    \<and> idof st' ` set (kl_chain km') = idof st ` set (kl_chain km) \<union> idof st ` set es
    \<and> distinct (map (idof st') news) \<and> idof st' ` set news \<inter> idof st ` set (kl_chain km) = {}"
  using assms
proof (induction es arbitrary: st km)
  case Nil
  then show ?case by (intro exI [of _ st] exI [of _ km] exI [of _ "[]"]) auto
next
  case (Cons e es)
  obtain x where x: "st_els st e = Some x" using Cons.prems(3) by auto
  have ie: "idof st e = Some (kd_device_id (el_pub x))" by (simp add: idof_def pub_of_def x)
  have lk: "list_ok st master km" by (rule ok_list [OF Cons.prems(1,2)])
  show ?case
  proof (cases "idof st e \<in> idof st ` set (kl_chain km)")
    case True
    then have "lk_list_find_id st (kl_chain km) (kd_device_id (el_pub x)) \<noteq> None" by (simp only: find_id(1) ie)
    then have step: "sync_add master e st = Ret st" using Cons.prems(2) x by (simp add: sync_add_def the_list_def the_el_def)
    obtain st' km' news where r: "each (sync_add master) es st = Ret st'" "lists_ok st'" "st_lists st' = (st_lists st)(master \<mapsto> km')"
      "kl_chain km' = kl_chain km @ news" "\<forall>e. st_els st e \<noteq> None \<longrightarrow> st_els st' e = st_els st e"
      "\<forall>e \<in> set news. st_els st e = None \<and> \<not> removed st' e \<and> idof st' e \<in> idof st ` set es"
      "idof st' ` set (kl_chain km') = idof st ` set (kl_chain km) \<union> idof st ` set es"
      "distinct (map (idof st') news)" "idof st' ` set news \<inter> idof st ` set (kl_chain km) = {}"
      using Cons.IH [OF Cons.prems(1,2)] Cons.prems(3) by (auto simp del: fun_upd_apply)
    show ?thesis using r True by (intro exI [of _ st'] exI [of _ km'] exI [of _ news]) (auto simp: step)
  next
    case False
    then have nf: "lk_list_find_id st (kl_chain km) (kd_device_id (el_pub x)) = None" using find_id(1) ie by metis
    obtain c st1 where n: "new_el ((el_pub x)\<lparr>kd_sync_flags := SYNC_ADDED\<rparr>) st = (c, st1)" by (metis surj_pair)
    have n1: "lists_ok st1" "st_els st c = None" "st_els st1 = (st_els st)(c \<mapsto> \<lparr>el_pub = (el_pub x)\<lparr>kd_sync_flags := SYNC_ADDED\<rparr>, el_owner = None\<rparr>)"
      "st_lists st1 = st_lists st" using new_el_ok [OF Cons.prems(1) n] by auto
    obtain st2 where a: "lk_list_append master c st1 = Ret st2" "lists_ok st2"
      "st_els st2 = (st_els st1)(c \<mapsto> \<lparr>el_pub = (el_pub x)\<lparr>kd_sync_flags := SYNC_ADDED\<rparr>, el_owner = Some master\<rparr>)"
      "st_lists st2 = (st_lists st1)(master \<mapsto> km\<lparr>kl_chain := kl_chain km @ [c], kl_count := kl_count km + 1\<rparr>)"
      using append_ok [OF n1(1), of master km c] n1 Cons.prems(2) by auto
    have step: "sync_add master e st = Ret st2"
      using Cons.prems(2) x nf a(1) by (simp add: sync_add_def the_list_def the_el_def n)
    let ?km = "km\<lparr>kl_chain := kl_chain km @ [c], kl_count := kl_count km + 1\<rparr>"
    have old: "st_els st2 e' = st_els st e'" if "st_els st e' \<noteq> None" for e' using that n1 a(3) by auto
    have live: "\<forall>e' \<in> set es. st_els st2 e' \<noteq> None" using Cons.prems(3) old by auto
    have k2: "st_lists st2 master = Some ?km" using a(4) by simp
    obtain st' km' news where r: "each (sync_add master) es st2 = Ret st'" "lists_ok st'" "st_lists st' = (st_lists st2)(master \<mapsto> km')"
      "kl_chain km' = kl_chain ?km @ news" "\<forall>e. st_els st2 e \<noteq> None \<longrightarrow> st_els st' e = st_els st2 e"
      "\<forall>e \<in> set news. st_els st2 e = None \<and> \<not> removed st' e \<and> idof st' e \<in> idof st2 ` set es"
      "idof st' ` set (kl_chain km') = idof st2 ` set (kl_chain ?km) \<union> idof st2 ` set es"
      "distinct (map (idof st') news)" "idof st' ` set news \<inter> idof st2 ` set (kl_chain ?km) = {}"
      using Cons.IH [OF a(2) k2 live] by (auto simp del: fun_upd_apply)
    have ids: "idof st2 e' = idof st e'" if "st_els st e' \<noteq> None" for e' using old [OF that] by (simp add: idof_def pub_of_def)
    have c2: "idof st2 c = idof st e" "\<not> removed st' c" "idof st' c = idof st e"
      using r(5) a(3) n1(3) by (auto simp: idof_def pub_of_def removed_def x)
    have i1: "idof st2 ` set (kl_chain km) = idof st ` set (kl_chain km)"
      by (rule image_cong) (use ids lk in \<open>auto simp: list_ok_def\<close>)
    have i2: "idof st2 ` set es = idof st ` set es"
      by (rule image_cong) (use ids Cons.prems(3) in auto)
    have "idof st' ` set (kl_chain km') = idof st ` set (kl_chain km) \<union> idof st ` set (e # es)"
      using r(7) i1 i2 c2(1) by auto
    moreover have "\<forall>e' \<in> set (c # news). st_els st e' = None \<and> \<not> removed st' e' \<and> idof st' e' \<in> idof st ` set (e # es)"
    proof
      fix e' assume "e' \<in> set (c # news)"
      then consider "e' = c" | "e' \<in> set news" by auto
      then show "st_els st e' = None \<and> \<not> removed st' e' \<and> idof st' e' \<in> idof st ` set (e # es)"
      proof cases
        case 1
        then show ?thesis using n1(2) c2 by simp
      next
        case 2
        then have "st_els st2 e' = None" "\<not> removed st' e'" "idof st' e' \<in> idof st ` set es" using r(6) i2 by auto
        then show ?thesis using old [of e'] by (cases "st_els st e'") auto
      qed
    qed
    moreover have "\<forall>e'. st_els st e' \<noteq> None \<longrightarrow> st_els st' e' = st_els st e'" using r(5) old by auto
    moreover have "distinct (map (idof st') (c # news))" "idof st' ` set (c # news) \<inter> idof st ` set (kl_chain km) = {}"
      using r(8,9) False c2(1,3) i1 by auto
    ultimately show ?thesis
      using r(1-4) a(4) n1(4) by (intro exI [of _ st'] exI [of _ km'] exI [of _ "c # news"]) (simp add: step)
  qed
qed

lemma free_el_ok:
  assumes ok: "lists_ok st" and e: "st_els st e = Some x" "el_owner x = None"
  shows "lists_ok (st\<lparr>st_els := (st_els st)(e := None)\<rparr>)"
proof (rule lists_okI)
  fix l k assume "st_lists (st\<lparr>st_els := (st_els st)(e := None)\<rparr>) l = Some k"
  then have lk: "list_ok st l k" using ok_list [OF ok, of l k] by simp
  then have "e \<notin> set (kl_chain k)" using e by (auto simp: list_ok_def)
  then show "list_ok (st\<lparr>st_els := (st_els st)(e := None)\<rparr>) l k" by (intro list_ok_cong [OF lk]) auto
qed (use ok_owner [OF ok] ok_next [OF ok] in \<open>auto split: if_splits\<close>)

lemma each_drop:
  assumes "lists_ok st" "st_lists st master = Some km" "set es \<subseteq> set (kl_chain km)" "distinct es"
  shows "\<exists>st' km'. each (sync_drop master) es st = Ret st' \<and> lists_ok st' \<and> st_lists st' = (st_lists st)(master \<mapsto> km')
    \<and> kl_chain km' = filter (\<lambda>e. e \<notin> set es \<or> \<not> removed st e) (kl_chain km)
    \<and> (\<forall>e \<in> set (kl_chain km'). st_els st' e = st_els st e)"
  using assms
proof (induction es arbitrary: st km)
  case Nil
  then show ?case by (intro exI [of _ st] exI [of _ km]) auto
next
  case (Cons e es)
  have lk: "list_ok st master km" by (rule ok_list [OF Cons.prems(1,2)])
  obtain x where x: "st_els st e = Some x" "el_owner x = Some master" using lk Cons.prems(3) by (auto simp: list_ok_def)
  have r: "removed st e \<longleftrightarrow> kd_sync_flags (el_pub x) = SYNC_REMOVED" by (simp add: removed_def pub_of_def x)
  show ?case
  proof (cases "removed st e")
    case False
    then have step: "sync_drop master e st = Ret st" using r x by (simp add: sync_drop_def the_el_def)
    obtain st' km' where i: "each (sync_drop master) es st = Ret st'" "lists_ok st'" "st_lists st' = (st_lists st)(master \<mapsto> km')"
      "kl_chain km' = filter (\<lambda>e. e \<notin> set es \<or> \<not> removed st e) (kl_chain km)" "\<forall>e \<in> set (kl_chain km'). st_els st' e = st_els st e"
      using Cons.IH [OF Cons.prems(1,2)] Cons.prems(3,4) by (auto simp del: fun_upd_apply)
    have "filter (\<lambda>e'. e' \<notin> set es \<or> \<not> removed st e') (kl_chain km) = filter (\<lambda>e'. e' \<notin> set (e # es) \<or> \<not> removed st e') (kl_chain km)"
      by (rule filter_cong) (use False in auto)
    with i show ?thesis by (intro exI [of _ st'] exI [of _ km']) (auto simp: step)
  next
    case True
    have ein: "e \<in> set (kl_chain km)" using Cons.prems(3) by simp
    obtain k1 st1 where u: "lk_list_unlink master e st = Ret (True, st1)" "lists_ok st1"
      "st_els st1 = (st_els st)(e \<mapsto> x\<lparr>el_owner := None\<rparr>)" "st_lists st1 = (st_lists st)(master \<mapsto> k1)"
      "kl_chain k1 = remove1 e (kl_chain km)"
      using unlink_ok [OF Cons.prems(1,2) ein] x by (auto simp del: fun_upd_apply)
    let ?st2 = "st1\<lparr>st_els := (st_els st1)(e := None)\<rparr>"
    have step: "sync_drop master e st = Ret ?st2" using True r x u(1) by (simp add: sync_drop_def the_el_def)
    have ok2: "lists_ok ?st2" by (rule free_el_ok [OF u(2), of e "x\<lparr>el_owner := None\<rparr>"]) (simp_all add: u(3))
    have k2: "st_lists ?st2 master = Some k1" using u(4) by simp
    have d: "distinct (kl_chain km)" using lk by (simp add: list_ok_def)
    have sub: "set es \<subseteq> set (kl_chain k1)" using Cons.prems(3,4) u(5) d by auto
    obtain st' km' where i: "each (sync_drop master) es ?st2 = Ret st'" "lists_ok st'" "st_lists st' = (st_lists ?st2)(master \<mapsto> km')"
      "kl_chain km' = filter (\<lambda>e. e \<notin> set es \<or> \<not> removed ?st2 e) (kl_chain k1)" "\<forall>e \<in> set (kl_chain km'). st_els st' e = st_els ?st2 e"
      using Cons.IH [OF ok2 k2 sub] Cons.prems(4) by (auto simp del: fun_upd_apply)
    have same: "removed ?st2 e' \<longleftrightarrow> removed st e'" "st_els ?st2 e' = st_els st e'" if "e' \<noteq> e" for e'
      using that u(3) by (auto simp: removed_def pub_of_def)
    have c: "kl_chain k1 = filter (\<lambda>e'. e' \<noteq> e) (kl_chain km)" using u(5) d by (simp add: distinct_remove1_removeAll removeAll_filter_not_eq eq_commute)
    have "kl_chain km' = filter (\<lambda>e'. e' \<notin> set (e # es) \<or> \<not> removed st e') (kl_chain km)"
      unfolding i(4) c filter_filter
    proof (rule filter_cong)
      fix e' assume "e' \<in> set (kl_chain km)"
      show "(e' \<noteq> e \<and> (e' \<notin> set es \<or> \<not> removed ?st2 e')) = (e' \<notin> set (e # es) \<or> \<not> removed st e')"
        using True same(1) [of e'] by (cases "e' = e") auto
    qed simp
    moreover have "\<forall>e' \<in> set (kl_chain km'). st_els st' e' = st_els st e'"
      using i(5) same(2) i(4) c by auto
    ultimately show ?thesis using i(1-3) u(4) by (intro exI [of _ st'] exI [of _ km']) (simp add: step)
  qed
qed

section \<open>What a synchronisation does\<close>

lemma sync_lists_is:
  assumes ok: "lists_ok st" and m: "st_lists st master = Some km" and s: "st_lists st slave = Some ks"
  defines "S \<equiv> idof st ` set (kl_chain ks)"
  shows "\<exists>st' km' news. sync_lists master slave drop_removed st = Ret st' \<and> lists_ok st'
    \<and> st_lists st' = (st_lists st)(master \<mapsto> km')
    \<and> kl_chain km' = filter (\<lambda>e. drop_removed \<longrightarrow> idof st e \<in> S) (kl_chain km) @ news
    \<and> (\<forall>e \<in> set news. st_els st e = None)
    \<and> idof st' ` set (kl_chain km') = (if drop_removed then {} else idof st ` set (kl_chain km)) \<union> S
    \<and> (\<forall>e \<in> set (kl_chain km'). removed st' e \<longleftrightarrow> idof st' e \<notin> S)
    \<and> distinct (map (idof st') news) \<and> idof st' ` set news = S - idof st ` set (kl_chain km)
    \<and> (\<forall>e \<in> set (kl_chain km) \<inter> set (kl_chain km'). idof st' e = idof st e)"
proof -
  have lm: "list_ok st master km" and ls: "list_ok st slave ks" using ok_list [OF ok] m s by auto
  have "\<forall>e \<in> set (kl_chain km). st_els st e \<noteq> None" "distinct (kl_chain km)" using lm by (auto simp: list_ok_def)
  from each_mark [OF ok s this] obtain st1 where
    st1: "each (sync_mark slave) (kl_chain km) st = Ret st1" "lists_ok st1" "st_lists st1 = st_lists st" "idof st1 = idof st"
      "\<forall>e \<in> set (kl_chain km). removed st1 e \<longleftrightarrow> idof st e \<notin> S" unfolding S_def by auto
  have m1: "st_lists st1 master = Some km" and s1: "st_lists st1 slave = Some ks" using st1(3) m s by simp_all
  have "\<forall>e \<in> set (kl_chain ks). st_els st1 e \<noteq> None"
    using ok_list [OF st1(2) s1] by (auto simp: list_ok_def)
  from each_add [OF st1(2) m1 this] obtain st2 k2 news where
    st2: "each (sync_add master) (kl_chain ks) st1 = Ret st2" "lists_ok st2" "st_lists st2 = (st_lists st1)(master \<mapsto> k2)"
      "kl_chain k2 = kl_chain km @ news" "\<forall>e. st_els st1 e \<noteq> None \<longrightarrow> st_els st2 e = st_els st1 e"
      "\<forall>e \<in> set news. st_els st1 e = None \<and> \<not> removed st2 e \<and> idof st2 e \<in> idof st1 ` set (kl_chain ks)"
      "idof st2 ` set (kl_chain k2) = idof st1 ` set (kl_chain km) \<union> idof st1 ` set (kl_chain ks)"
      "distinct (map (idof st2) news)" "idof st2 ` set news \<inter> idof st1 ` set (kl_chain km) = {}" by (elim exE conjE) (rule that; assumption)
  have news: "\<forall>e \<in> set news. st_els st e = None \<and> \<not> removed st2 e \<and> idof st2 e \<in> S"
  proof -
    have "st_els st1 e = None \<longleftrightarrow> st_els st e = None" for e using live_id [of st e] live_id [of st1 e] st1(4) by simp
    then show ?thesis using st2(6) unfolding S_def st1(4) by simp
  qed
  have old: "idof st2 e = idof st e \<and> (removed st2 e \<longleftrightarrow> idof st e \<notin> S)" if "e \<in> set (kl_chain km)" for e
  proof -
    have "st_els st1 e \<noteq> None" using ok_list [OF st1(2) m1] that by (auto simp: list_ok_def)
    then have "st_els st2 e = st_els st1 e" using st2(5) by blast
    then have "idof st2 e = idof st1 e" "removed st2 e = removed st1 e" by (simp_all add: idof_def removed_def pub_of_def)
    then show ?thesis using st1(4,5) that by simp
  qed
  have fresh: "idof st2 ` set news = S - idof st ` set (kl_chain km)"
  proof -
    have "idof st2 ` set (kl_chain km) = idof st ` set (kl_chain km)" by (rule image_cong) (use old in auto)
    then have "idof st ` set (kl_chain km) \<union> idof st2 ` set news = idof st ` set (kl_chain km) \<union> S"
      using st2(7) unfolding st2(4) S_def st1(4) by (simp add: image_Un)
    then show ?thesis using st2(9) unfolding st1(4) by blast
  qed
  have flag: "removed st2 e \<longleftrightarrow> idof st2 e \<notin> S" if "e \<in> set (kl_chain k2)" for e
    using that st2(4) old news by auto
  have passes: "over_chain master (sync_mark slave) st = Ret st1" "over_chain slave (sync_add master) st1 = Ret st2"
    using st1(1) st2(1) m s1 by (simp_all add: over_chain_def the_list_def)
  have m2: "st_lists st2 master = Some k2" using st2(3) by simp
  show ?thesis
  proof (cases drop_removed)
    case False
    then show ?thesis using passes st2 st1(3,4) news flag fresh old
      by (intro exI [of _ st2] exI [of _ k2] exI [of _ news]) (simp add: sync_lists_def S_def)
  next
    case True
    have d: "distinct (kl_chain k2)" using ok_list [OF st2(2) m2] by (simp add: list_ok_def)
    from each_drop [OF st2(2) m2 subset_refl d] obtain st3 k3 where
      st3: "each (sync_drop master) (kl_chain k2) st2 = Ret st3" "lists_ok st3" "st_lists st3 = (st_lists st2)(master \<mapsto> k3)"
        "kl_chain k3 = filter (\<lambda>e. e \<notin> set (kl_chain k2) \<or> \<not> removed st2 e) (kl_chain k2)"
        "\<forall>e \<in> set (kl_chain k3). st_els st3 e = st_els st2 e" by (elim exE conjE) (rule that; assumption)
    have c: "kl_chain k3 = filter (\<lambda>e. idof st2 e \<in> S) (kl_chain k2)"
      unfolding st3(4) by (rule filter_cong) (use flag in auto)
    have "kl_chain k3 = filter (\<lambda>e. idof st e \<in> S) (kl_chain km) @ news"
    proof -
      have "filter (\<lambda>e. idof st2 e \<in> S) (kl_chain km) = filter (\<lambda>e. idof st e \<in> S) (kl_chain km)"
        by (rule filter_cong) (use old in auto)
      moreover have "filter (\<lambda>e. idof st2 e \<in> S) news = news" using news by simp
      ultimately show ?thesis unfolding c st2(4) by simp
    qed
    moreover have same: "idof st3 e = idof st2 e \<and> (removed st3 e \<longleftrightarrow> removed st2 e)" if "e \<in> set (kl_chain k3)" for e
      using st3(5) that by (simp add: idof_def removed_def pub_of_def)
    moreover have "idof st3 ` set (kl_chain k3) = S"
    proof -
      have "idof st3 ` set (kl_chain k3) = idof st2 ` set (kl_chain k3)" by (rule image_cong) (use same in auto)
      also have "\<dots> = idof st2 ` set (kl_chain k2) \<inter> S" unfolding c by auto
      also have "\<dots> = S" unfolding st2(7) st1(4) S_def by auto
      finally show ?thesis .
    qed
    moreover have "\<forall>e \<in> set (kl_chain k3). removed st3 e \<longleftrightarrow> idof st3 e \<notin> S" using same flag c by auto
    moreover have "distinct (map (idof st3) news)" "idof st3 ` set news = S - idof st ` set (kl_chain km)"
      "\<forall>e \<in> set (kl_chain km) \<inter> set (kl_chain k3). idof st3 e = idof st e"
    proof -
      have "e \<in> set (kl_chain k3)" if "e \<in> set news" for e using that news unfolding c st2(4) by simp
      then have n: "idof st3 e = idof st2 e" if "e \<in> set news" for e using same that by blast
      then have "map (idof st3) news = map (idof st2) news" by simp
      then show "distinct (map (idof st3) news)" "idof st3 ` set news = S - idof st ` set (kl_chain km)"
        using st2(8) fresh by (metis, metis image_set)
      show "\<forall>e \<in> set (kl_chain km) \<inter> set (kl_chain k3). idof st3 e = idof st e" using same old by simp
    qed
    moreover have "over_chain master (sync_drop master) st2 = Ret st3" using st3(1) m2 by (simp add: over_chain_def the_list_def)
    ultimately show ?thesis using passes st3(2,3) st2(3) st1(3) news True
      by (intro exI [of _ st3] exI [of _ k3] exI [of _ news]) (simp add: sync_lists_def)
  qed
qed

section \<open>Every call keeps the invariant\<close>

lemma append_new_ok:
  assumes "lists_ok st" "st_lists st l = Some k"
  shows "\<exists>st' k'. append_new l ds st = Ret st' \<and> lists_ok st' \<and> st_lists st' = (st_lists st)(l \<mapsto> k')
    \<and> (\<forall>e. st_els st e \<noteq> None \<longrightarrow> st_els st' e = st_els st e)"
  using assms
proof (induction ds arbitrary: st k)
  case Nil
  then show ?case by (intro exI [of _ st] exI [of _ k]) auto
next
  case (Cons d ds)
  obtain c st1 where n: "new_el d st = (c, st1)" by (metis surj_pair)
  have n1: "lists_ok st1" "st_els st c = None" "st_els st1 = (st_els st)(c \<mapsto> \<lparr>el_pub = d, el_owner = None\<rparr>)" "st_lists st1 = st_lists st"
    using new_el_ok [OF Cons.prems(1) n] by auto
  obtain st2 where a: "lk_list_append l c st1 = Ret st2" "lists_ok st2"
    "st_els st2 = (st_els st1)(c \<mapsto> \<lparr>el_pub = d, el_owner = Some l\<rparr>)"
    "st_lists st2 = (st_lists st1)(l \<mapsto> k\<lparr>kl_chain := kl_chain k @ [c], kl_count := kl_count k + 1\<rparr>)"
    using append_ok [OF n1(1), of l k c] n1 Cons.prems(2) by auto
  obtain st' k' where i: "append_new l ds st2 = Ret st'" "lists_ok st'" "st_lists st' = (st_lists st2)(l \<mapsto> k')"
    "\<forall>e. st_els st2 e \<noteq> None \<longrightarrow> st_els st' e = st_els st2 e"
    using Cons.IH [OF a(2)] a(4) by (metis fun_upd_same)
  have "\<forall>e. st_els st e \<noteq> None \<longrightarrow> st_els st' e = st_els st e" using i(4) a(3) n1(2,3) by auto
  then show ?case using i(1-3) a(4) n1(4) a(1) by (intro exI [of _ st'] exI [of _ k']) (simp add: n)
qed

lemma init_ok:
  assumes ok: "lists_ok st" and i: "LstK_InitEx infos pattern st = (r, st')"
  shows "lists_ok st'" "r = Inr l \<Longrightarrow> st_lists st l = None \<and> (\<exists>k. st_lists st' = (st_lists st)(l \<mapsto> k))
    \<and> (\<forall>e. st_els st e \<noteq> None \<longrightarrow> st_els st' e = st_els st e)"
proof -
  obtain m st1 where n: "new_list st = (m, st1)" by (metis surj_pair)
  have n1: "lists_ok st1" "st_lists st m = None" "st_els st1 = st_els st" "\<exists>k. st_lists st1 = (st_lists st)(m \<mapsto> k)"
    using new_list_ok [OF ok n] by auto
  then obtain k where k: "st_lists st1 = (st_lists st)(m \<mapsto> k)" by blast
  have "infos = None \<or> (\<exists>ds st2 k2. append_new m ds st1 = Ret st2 \<and> lists_ok st2 \<and> st_lists st2 = (st_lists st1)(m \<mapsto> k2)
      \<and> (\<forall>e. st_els st1 e \<noteq> None \<longrightarrow> st_els st2 e = st_els st1 e) \<and> r = Inr m \<and> st' = st2)"
  proof (cases infos)
    case (Some infs)
    let ?ds = "filter (\<lambda>d. pattern = [] \<or> lk_wild pattern (kd_device_id d)) (map lk_fill_devinfo infs)"
    have m1: "st_lists st1 m = Some k" by (simp add: k)
    obtain st2 k2 where "append_new m ?ds st1 = Ret st2" "lists_ok st2" "st_lists st2 = (st_lists st1)(m \<mapsto> k2)"
      "\<forall>e. st_els st1 e \<noteq> None \<longrightarrow> st_els st2 e = st_els st1 e"
      using append_new_ok [OF n1(1) m1, of ?ds] by (elim exE conjE) (rule that; assumption)
    moreover have "r = Inr m" "st' = st2" using i Some calculation(1) by (simp_all add: LstK_InitEx_def n)
    ultimately show ?thesis by blast
  qed simp
  then show "lists_ok st'" "r = Inr l \<Longrightarrow> st_lists st l = None \<and> (\<exists>k. st_lists st' = (st_lists st)(l \<mapsto> k))
    \<and> (\<forall>e. st_els st e \<noteq> None \<longrightarrow> st_els st' e = st_els st e)"
    using i ok n1 k by (auto simp: LstK_InitEx_def)
qed

lemma free_ok:
  assumes ok: "lists_ok st" and f: "LstK_Free l st = Ret st'"
  shows "lists_ok st'"
proof -
  obtain k where k: "st_lists st l = Some k"
    "st' = st\<lparr>st_els := (\<lambda>e. if e \<in> set (kl_chain k) then None else st_els st e), st_lists := (st_lists st)(l := None)\<rparr>"
    using f by (auto simp: LstK_Free_def lift_kc_eq_Ret)
  show ?thesis
  proof (rule lists_okI)
    fix l' k' assume "st_lists st' l' = Some k'"
    then have o: "st_lists st l' = Some k'" "l' \<noteq> l" by (auto simp: k split: if_splits)
    have "list_ok st l' k'" by (rule ok_list [OF ok o(1)])
    moreover have "e \<notin> set (kl_chain k)" if "e \<in> set (kl_chain k')" for e
      using ok_list [OF ok o(1)] ok_list [OF ok k(1)] that o(2) by (fastforce simp: list_ok_def)
    ultimately show "list_ok st' l' k'" by (elim list_ok_cong) (simp add: k)
  next
    fix e x l' assume a: "st_els st' e = Some x" "el_owner x = Some l'"
    then have "st_els st e = Some x" "e \<notin> set (kl_chain k)" by (auto simp: k split: if_splits)
    then show "\<exists>k'. st_lists st' l' = Some k' \<and> e \<in> set (kl_chain k')"
      using ok_owner [OF ok _ a(2)] k(1) by (cases "l' = l") (auto simp: k(2))
  qed (use ok_next [OF ok] in \<open>auto simp: k\<close>)
qed

lemma after_in: "after e xs = Some y \<Longrightarrow> y \<in> set xs"
  by (induction xs) (auto split: if_splits list.splits)

lemma find_in: "find P xs = Some x \<Longrightarrow> x \<in> set xs"
  by (induction xs) (auto split: if_splits)

lemma move_ok:
  assumes ok: "lists_ok st" and m: "LstK_MoveNext l st = Ret (r, st')"
  shows "lists_ok st'"
proof -
  obtain k where k: "st_lists st l = Some k" using m by (auto simp: LstK_MoveNext_def lift_kc_eq_Ret)
  let ?nx = "if kl_started k then (case kl_cursor k of Some e \<Rightarrow> after e (kl_chain k) | None \<Rightarrow> None)
     else (case kl_chain k of [] \<Rightarrow> None | e # es \<Rightarrow> Some e)"
  have r: "r = ?nx" "st' = put_list l (k\<lparr>kl_cursor := r, kl_started := True\<rparr>) st"
    using m k by (auto simp: LstK_MoveNext_def the_list_def Let_def)
  have "case r of Some e \<Rightarrow> e \<in> set (kl_chain k) | None \<Rightarrow> True"
  proof (cases r)
    case (Some y)
    then have "(kl_started k \<and> (\<exists>e. kl_cursor k = Some e \<and> after e (kl_chain k) = Some y)) \<or> (\<exists>es. kl_chain k = y # es)"
      using r(1) by (simp split: if_splits option.splits list.splits)
    then have "y \<in> set (kl_chain k)" using after_in by fastforce
    then show ?thesis by (simp add: Some)
  qed simp
  from cursor_keeps_ok [OF ok k this] show ?thesis unfolding r(2) .
qed

lemma reset_ok: "lists_ok st \<Longrightarrow> LstK_MoveReset l st = Ret st' \<Longrightarrow> lists_ok st'"
  using cursor_keeps_ok [where c = None] by (auto simp: LstK_MoveReset_def lift_kc_eq_Ret)

lemma find_ok:
  assumes ok: "lists_ok st" and f: "LstK_FindByVidPid l v p st = Ret (r, st')"
  shows "lists_ok st'"
proof -
  obtain k where k: "st_lists st l = Some k" using f by (auto simp: LstK_FindByVidPid_def lift_kc_eq_Ret)
  let ?f = "find (\<lambda>e. case pub_of st e of Some d \<Rightarrow> kd_vid d = v \<and> kd_pid d = p | None \<Rightarrow> False) (kl_chain k)"
  show ?thesis
  proof (cases ?f)
    case None
    with f k ok show ?thesis by (simp add: LstK_FindByVidPid_def the_list_def)
  next
    case (Some e)
    then have "st' = put_list l (k\<lparr>kl_cursor := Some e, kl_started := True\<rparr>) st"
      using f k by (simp add: LstK_FindByVidPid_def the_list_def)
    with cursor_keeps_ok [OF ok k, of "Some e" True] find_in [OF Some] show ?thesis by simp
  qed
qed

lemma clone_info_ok: "lists_ok st \<Longrightarrow> LstK_CloneInfo e st = Ret (c, st') \<Longrightarrow> lists_ok st'"
  by (auto simp: LstK_CloneInfo_def lift_kc_eq_Ret dest: new_el_ok)

lemma free_info_ok: "lists_ok st \<Longrightarrow> LstK_FreeInfo e st = Ret (r, st') \<Longrightarrow> lists_ok st'"
  by (auto simp: LstK_FreeInfo_def lift_kc_eq_Ret intro: free_el_ok split: if_splits)

lemma attach_ok:
  assumes "lists_ok st" "LstK_AttachInfo l e st = Ret (r, st')"
  shows "lists_ok st'"
proof -
  obtain x where x: "st_els st e = Some x" using assms(2) by (auto simp: LstK_AttachInfo_def lift_kc_eq_Ret)
  show ?thesis
  proof (cases "el_owner x = None")
    case True
    then have a: "lk_list_append l e st = Ret st'"
      using assms(2) x by (auto simp: LstK_AttachInfo_def lift_kc_eq_Ret)
    then obtain k where "st_lists st l = Some k" by (auto simp: lk_list_append_def lift_kc_eq_Ret)
    from append_ok [OF assms(1) this x True] a show ?thesis by auto
  qed (use assms x in \<open>auto simp: LstK_AttachInfo_def the_el_def\<close>)
qed

lemma detach_ok:
  assumes "lists_ok st" "LstK_DetachInfo l e st = Ret (r, st')"
  shows "lists_ok st'"
proof -
  obtain x where x: "st_els st e = Some x" using assms(2) by (auto simp: LstK_DetachInfo_def lift_kc_eq_Ret)
  show ?thesis
  proof (cases "el_owner x = Some l")
    case True
    then obtain k where k: "st_lists st l = Some k" "e \<in> set (kl_chain k)" using ok_owner [OF assms(1) x] by auto
    from unlink_ok [OF assms(1) k] obtain st2 where "lk_list_unlink l e st = Ret (True, st2)" "lists_ok st2" by auto
    then show ?thesis using assms(2) x True by (simp add: LstK_DetachInfo_def the_el_def)
  qed (use assms x in \<open>auto simp: LstK_DetachInfo_def the_el_def\<close>)
qed

lemma clone_ok:
  assumes ok: "lists_ok st" and c: "LstK_Clone l st = Ret (m, st')"
  shows "lists_ok st'"
proof -
  obtain m1 st1 where n: "new_list st = (m1, st1)" by (metis surj_pair)
  obtain ds where a: "append_new m1 ds st1 = Ret st'" using c by (auto simp: LstK_Clone_def lift_kc_eq_Ret n)
  have n1: "lists_ok st1" "st_lists st1 m1 \<noteq> None" using new_list_ok [OF ok n] by auto
  then obtain k where "st_lists st1 m1 = Some k" by blast
  from append_new_ok [OF n1(1) this, of ds] a show ?thesis by auto
qed

lemma each_mark_lists: "each (sync_mark slave) es st = Ret st' \<Longrightarrow> st_lists st' = st_lists st"
  by (induction es arbitrary: st) (auto simp: lift_kc_eq_Ret sync_mark_def Let_def)

lemma sync_lists_ok:
  assumes "lists_ok st" "sync_lists master slave d st = Ret st'"
  shows "lists_ok st'"
proof -
  obtain km where m: "st_lists st master = Some km" using assms(2) by (auto simp: sync_lists_def over_chain_def lift_kc_eq_Ret)
  show ?thesis
  proof (cases "st_lists st slave")
    case (Some ks)
    from sync_lists_is [OF assms(1) m Some, of d] assms(2) show ?thesis by auto
  next
    case None
    then have False
      using assms(2) by (auto simp: sync_lists_def over_chain_def lift_kc_eq_Ret dest: each_mark_lists)
    then show ?thesis ..
  qed
qed

lemma sync_ok:
  assumes ok: "lists_ok st" and s: "LstK_Sync master slave d pattern infos st = Ret (r, st')"
  shows "lists_ok st'"
proof (cases slave)
  case (Some l)
  then show ?thesis using s ok by (auto simp: LstK_Sync_def lift_kc_eq_Ret dest: sync_lists_ok reset_ok)
next
  case None
  obtain q st1 where i: "LstK_InitEx infos pattern st = (q, st1)" by (metis surj_pair)
  have "lists_ok st1" by (rule init_ok(1) [OF ok i])
  show ?thesis
  proof (cases q)
    case (Inl e)
    then show ?thesis using s None \<open>lists_ok st1\<close> by (simp add: LstK_Sync_def i)
  next
    case (Inr t)
    then obtain st2 st3 where "sync_lists master t d st1 = Ret st2" "LstK_Free t st2 = Ret st3" "LstK_MoveReset master st3 = Ret st'"
      using s None by (auto simp: LstK_Sync_def i lift_kc_eq_Ret)
    with \<open>lists_ok st1\<close> show ?thesis by (blast intro: sync_lists_ok free_ok reset_ok)
  qed
qed

section \<open>Whatever an application calls\<close>

definition no_lists :: klists where
  "no_lists = \<lparr>st_els = (\<lambda>e. None), st_lists = (\<lambda>l. None), st_next = 0\<rparr>"

text \<open>One call of the application that has a defined result; the calls that only read are left out.\<close>

inductive lcall :: "klists \<Rightarrow> klists \<Rightarrow> bool" where
  c_init: "LstK_InitEx infos pattern st = (r1, st') \<Longrightarrow> lcall st st'"
| c_free: "LstK_Free l st = Ret st' \<Longrightarrow> lcall st st'"
| c_reset: "LstK_MoveReset l st = Ret st' \<Longrightarrow> lcall st st'"
| c_next: "LstK_MoveNext l st = Ret (r2, st') \<Longrightarrow> lcall st st'"
| c_find: "LstK_FindByVidPid l v p st = Ret (r3, st') \<Longrightarrow> lcall st st'"
| c_clone_info: "LstK_CloneInfo e st = Ret (c, st') \<Longrightarrow> lcall st st'"
| c_free_info: "LstK_FreeInfo e st = Ret (r4, st') \<Longrightarrow> lcall st st'"
| c_attach: "LstK_AttachInfo l e st = Ret (r5, st') \<Longrightarrow> lcall st st'"
| c_detach: "LstK_DetachInfo l e st = Ret (r6, st') \<Longrightarrow> lcall st st'"
| c_clone: "LstK_Clone l st = Ret (m, st') \<Longrightarrow> lcall st st'"
| c_sync: "LstK_Sync master slave d pattern infos st = Ret (r7, st') \<Longrightarrow> lcall st st'"

lemma lcall_ok: "lcall st st' \<Longrightarrow> lists_ok st \<Longrightarrow> lists_ok st'"
  by (induction rule: lcall.induct)
    (blast intro: init_ok(1) free_ok reset_ok move_ok find_ok clone_info_ok free_info_ok attach_ok detach_ok clone_ok sync_ok)+

lemma lcalls_ok: "lcall\<^sup>*\<^sup>* no_lists st \<Longrightarrow> lists_ok st"
  by (induction rule: rtranclp_induct) (auto simp: no_lists_def lists_ok_def dest: lcall_ok)

lemma pubs_of_live: "\<forall>e \<in> set es. st_els st e \<noteq> None \<Longrightarrow> \<exists>ds. pubs_of st es = Ret ds"
  by (induction es) (auto simp: the_el_def)

lemma clone_defined:
  assumes "lists_ok st" "st_lists st l = Some k"
  shows "LstK_Clone l st \<noteq> Undefined"
proof -
  have "\<forall>e \<in> set (kl_chain k). st_els st e \<noteq> None" using ok_list [OF assms] by (auto simp: list_ok_def)
  from pubs_of_live [OF this] obtain ds where ds: "pubs_of st (kl_chain k) = Ret ds" by blast
  obtain m st1 where n: "new_list st = (m, st1)" by (metis surj_pair)
  have n1: "lists_ok st1" "st_lists st1 m \<noteq> None" using new_list_ok [OF assms(1) n] by auto
  then obtain k1 where "st_lists st1 m = Some k1" by blast
  from append_new_ok [OF n1(1) this, of ds] obtain st2 where "append_new m ds st1 = Ret st2" by blast
  then show ?thesis using assms(2) by (simp add: LstK_Clone_def the_list_def ds n)
qed

lemma detach_defined:
  assumes "lists_ok st" "st_els st e = Some x"
  shows "LstK_DetachInfo l e st \<noteq> Undefined"
proof (cases "el_owner x = Some l")
  case True
  then obtain k where k: "st_lists st l = Some k" "e \<in> set (kl_chain k)" using ok_owner [OF assms] by blast
  from unlink_ok [OF assms(1) k] obtain st2 where "lk_list_unlink l e st = Ret (True, st2)" by auto
  then show ?thesis using assms(2) by (simp add: LstK_DetachInfo_def the_el_def)
qed (use assms in \<open>simp add: LstK_DetachInfo_def the_el_def\<close>)

lemma sync_defined:
  assumes ok: "lists_ok st" and m: "st_lists st master = Some km" and s: "\<And>l. slave = Some l \<Longrightarrow> st_lists st l \<noteq> None"
  shows "LstK_Sync master slave d pattern infos st \<noteq> Undefined"
proof (cases slave)
  case (Some s)
  then obtain ks where "st_lists st s = Some ks" using assms(3) by auto
  from sync_lists_is [OF ok m this, of d] obtain st' km' where "sync_lists master s d st = Ret st'"
    "st_lists st' = (st_lists st)(master \<mapsto> km')" by (elim exE conjE) (rule that; assumption)
  then show ?thesis by (simp add: LstK_Sync_def Some LstK_MoveReset_def the_list_def)
next
  case None
  obtain q st1 where i: "LstK_InitEx infos pattern st = (q, st1)" by (metis surj_pair)
  show ?thesis
  proof (cases q)
    case (Inl e)
    then show ?thesis by (simp add: LstK_Sync_def None i)
  next
    case (Inr t)
    from init_ok(1) [OF ok i] init_ok(2) [OF ok i Inr] obtain k where t: "lists_ok st1" "st_lists st t = None" "st_lists st1 = (st_lists st)(t \<mapsto> k)"
      by blast
    have "t \<noteq> master" using t(2) m by auto
    then have "st_lists st1 master = Some km" "st_lists st1 t = Some k" using t(3) m by simp_all
    from sync_lists_is [OF t(1) this, of d] obtain st2 km' where "sync_lists master t d st1 = Ret st2"
      "st_lists st2 = (st_lists st1)(master \<mapsto> km')" by (elim exE conjE) (rule that; assumption)
    then show ?thesis using t(3) \<open>t \<noteq> master\<close> by (simp add: LstK_Sync_def None i Inr LstK_Free_def LstK_MoveReset_def the_list_def)
  qed
qed

section \<open>The properties of the device lists\<close>

text \<open>C36: the device lists stay sound. After any calls an application makes with live handles - snapshots, clones,
  elements detached, attached and freed, lists synchronised and freed - every element is in at most one list, the one
  that owns it, no chain has a freed element or one twice, counts are lengths and cursors stay inside their
  lists; and the next call with live handles never touches freed memory.\<close>

theorem device_lists_are_sound:
  assumes "lcall\<^sup>*\<^sup>* no_lists st"
  shows "(\<forall>l k. st_lists st l = Some k \<longrightarrow> distinct (kl_chain k) \<and> kl_count k = int (length (kl_chain k))
      \<and> (\<forall>e \<in> set (kl_chain k). \<exists>x. st_els st e = Some x \<and> el_owner x = Some l)
      \<and> (\<forall>e. kl_cursor k = Some e \<longrightarrow> e \<in> set (kl_chain k)))
    \<and> (\<forall>e x l. st_els st e = Some x \<longrightarrow> el_owner x = Some l \<longrightarrow> (\<exists>k. st_lists st l = Some k \<and> e \<in> set (kl_chain k)))
    \<and> (\<forall>l. st_lists st l \<noteq> None \<longrightarrow> LstK_Clone l st \<noteq> Undefined
      \<and> (\<forall>e. st_els st e \<noteq> None \<longrightarrow> LstK_DetachInfo l e st \<noteq> Undefined)
      \<and> (\<forall>slave d pattern infos. (\<forall>s. slave = Some s \<longrightarrow> st_lists st s \<noteq> None) \<longrightarrow> LstK_Sync l slave d pattern infos st \<noteq> Undefined))"
proof -
  note ok = lcalls_ok [OF assms]
  have "distinct (kl_chain k) \<and> kl_count k = int (length (kl_chain k))
      \<and> (\<forall>e \<in> set (kl_chain k). \<exists>x. st_els st e = Some x \<and> el_owner x = Some l)
      \<and> (\<forall>e. kl_cursor k = Some e \<longrightarrow> e \<in> set (kl_chain k))" if "st_lists st l = Some k" for l k
    using ok_list [OF ok that] unfolding list_ok_def by (cases "kl_cursor k") simp_all
  moreover have "LstK_Clone l st \<noteq> Undefined
      \<and> (\<forall>e. st_els st e \<noteq> None \<longrightarrow> LstK_DetachInfo l e st \<noteq> Undefined)
      \<and> (\<forall>slave d pattern infos. (\<forall>s. slave = Some s \<longrightarrow> st_lists st s \<noteq> None) \<longrightarrow> LstK_Sync l slave d pattern infos st \<noteq> Undefined)"
    if l: "st_lists st l \<noteq> None" for l
  proof (intro conjI allI impI)
    obtain k where k: "st_lists st l = Some k" using l by blast
    show "LstK_Clone l st \<noteq> Undefined" by (rule clone_defined [OF ok k])
    fix slave d pattern infos assume "\<forall>s. slave = Some s \<longrightarrow> st_lists st s \<noteq> None"
    then show "LstK_Sync l slave d pattern infos st \<noteq> Undefined" using sync_defined [OF ok k] by blast
  next
    fix e assume "st_els st e \<noteq> None"
    then show "LstK_DetachInfo l e st \<noteq> Undefined" using detach_defined [OF ok] by blast
  qed
  ultimately show ?thesis using ok_owner [OF ok] by blast
qed

definition demo_info :: "u16 \<Rightarrow> bytes \<Rightarrow> usbip_devinfo" where
  "demo_info p b = \<lparr>di_busid = b, di_busnum = 1, di_devnum = 2, di_speed = 3, di_vid = 0x1d6b, di_pid = p, di_bcdDevice = 0,
     di_dclass = 0, di_dsub = 0, di_dproto = 0, di_n_cfg = 1, di_n_ifaces = 1, di_ifaces = []\<rparr>"

definition demo_master :: klists where
  "demo_master = snd (LstK_InitEx (Some [demo_info 1 (chars ''1-1''), demo_info 2 (chars ''1-2'')]) [] no_lists)"

definition demo_both :: klists where
  "demo_both = snd (LstK_InitEx (Some [demo_info 2 (chars ''1-2''), demo_info 3 (chars ''1-3'')]) [] demo_master)"

lemma snapshot_is_a_call: "lcall st (snd (LstK_InitEx infos pattern st))"
  by (rule c_init [OF prod.collapse [symmetric]])

lemma demo_calls: "lcall\<^sup>*\<^sup>* no_lists demo_both"
proof -
  have "lcall no_lists demo_master" "lcall demo_master demo_both"
    unfolding demo_master_def demo_both_def by (rule snapshot_is_a_call)+
  then show ?thesis by (meson r_into_rtranclp rtranclp.rtrancl_into_rtrancl)
qed

lemmas demo_eval = demo_both_def demo_master_def LstK_InitEx_def new_list_def new_el_def lk_list_append_def no_lists_def
  put_list_def put_el_def the_list_def the_el_def Let_def

theorem device_lists_are_sound_witness:
  "(\<exists>k. st_lists demo_both 0 = Some k \<and> kl_chain k = [1, 2] \<and> distinct (kl_chain k) \<and> kl_count k = 2)
    \<and> LstK_Clone 0 demo_both \<noteq> Undefined"
proof -
  obtain k where k: "st_lists demo_both 0 = Some k" "kl_chain k = [1, 2]" by (simp add: demo_eval)
  with device_lists_are_sound [OF demo_calls] have "distinct (kl_chain k)" "kl_count k = int (length (kl_chain k))"
    "LstK_Clone 0 demo_both \<noteq> Undefined" by blast+
  then show ?thesis using k by simp
qed

text \<open>C37: a synchronisation reconciles two lists. The master keeps its elements, at their addresses and in their order -
  with the flag set, only those whose device is in the slave - and gets one new element for each device of the slave it did
  not list; an element is marked removed exactly when its device is not in the slave; no other list changes,
  and the master's cursor is back at the start.\<close>

theorem sync_reconciles:
  assumes "lcall\<^sup>*\<^sup>* no_lists st" "st_lists st master = Some km" "st_lists st slave = Some ks"
  shows "\<exists>st' km' news. LstK_Sync master (Some slave) drop_removed pattern infos st = Ret (Inr (), st')
    \<and> st_lists st' = (st_lists st)(master \<mapsto> km') \<and> kl_cursor km' = None \<and> \<not> kl_started km'
    \<and> kl_chain km' = filter (\<lambda>e. drop_removed \<longrightarrow> idof st e \<in> idof st ` set (kl_chain ks)) (kl_chain km) @ news
    \<and> (\<forall>e \<in> set (kl_chain km) \<inter> set (kl_chain km'). idof st' e = idof st e)
    \<and> (\<forall>e \<in> set news. st_els st e = None) \<and> distinct (map (idof st') news)
    \<and> idof st' ` set news = idof st ` set (kl_chain ks) - idof st ` set (kl_chain km)
    \<and> (\<forall>e \<in> set (kl_chain km'). removed st' e \<longleftrightarrow> idof st' e \<notin> idof st ` set (kl_chain ks))"
proof -
  obtain st' km' news where s: "sync_lists master slave drop_removed st = Ret st'" "lists_ok st'"
    "st_lists st' = (st_lists st)(master \<mapsto> km')"
    "kl_chain km' = filter (\<lambda>e. drop_removed \<longrightarrow> idof st e \<in> idof st ` set (kl_chain ks)) (kl_chain km) @ news"
    "\<forall>e \<in> set news. st_els st e = None"
    "idof st' ` set (kl_chain km') = (if drop_removed then {} else idof st ` set (kl_chain km)) \<union> idof st ` set (kl_chain ks)"
    "\<forall>e \<in> set (kl_chain km'). removed st' e \<longleftrightarrow> idof st' e \<notin> idof st ` set (kl_chain ks)"
    "distinct (map (idof st') news)" "idof st' ` set news = idof st ` set (kl_chain ks) - idof st ` set (kl_chain km)"
    "\<forall>e \<in> set (kl_chain km) \<inter> set (kl_chain km'). idof st' e = idof st e"
    using sync_lists_is [OF lcalls_ok [OF assms(1)] assms(2,3), of drop_removed] by (elim exE conjE) (rule that; assumption)
  let ?k = "km'\<lparr>kl_cursor := None, kl_started := False\<rparr>"
  have "LstK_Sync master (Some slave) drop_removed pattern infos st = Ret (Inr (), put_list master ?k st')"
    using s(1,3) by (simp add: LstK_Sync_def LstK_MoveReset_def the_list_def)
  moreover have "idof (put_list master ?k st') = idof st'" "removed (put_list master ?k st') = removed st'"
    by (simp_all add: idof_def removed_def pub_of_def fun_eq_iff)
  ultimately show ?thesis
    using s(3-5,7-10) by (intro exI [of _ "put_list master ?k st'"] exI [of _ ?k] exI [of _ news]) simp
qed

theorem sync_reconciles_witness:
  "\<exists>st' km' e. LstK_Sync 0 (Some 3) True [] None demo_both = Ret (Inr (), st') \<and> st_lists st' 0 = Some km'
    \<and> kl_chain km' = [2, e] \<and> idof st' e = Some (chars (''USB'' @ [CHR 0x5C] @ ''VID_1D6B&PID_0003'' @ [CHR 0x5C] @ ''1-3''))"
proof -
  obtain km ks where l: "st_lists demo_both 0 = Some km" "st_lists demo_both 3 = Some ks"
    and c: "kl_chain km = [1, 2]" "kl_chain ks = [4, 5]"
    by (simp add: demo_eval)
  have i: "idof demo_both 1 = Some (chars (''USB'' @ [CHR 0x5C] @ ''VID_1D6B&PID_0001'' @ [CHR 0x5C] @ ''1-1''))"
    "idof demo_both 2 = Some (chars (''USB'' @ [CHR 0x5C] @ ''VID_1D6B&PID_0002'' @ [CHR 0x5C] @ ''1-2''))"
    "idof demo_both 4 = Some (chars (''USB'' @ [CHR 0x5C] @ ''VID_1D6B&PID_0002'' @ [CHR 0x5C] @ ''1-2''))"
    "idof demo_both 5 = Some (chars (''USB'' @ [CHR 0x5C] @ ''VID_1D6B&PID_0003'' @ [CHR 0x5C] @ ''1-3''))"
    by (simp_all add: demo_eval idof_def pub_of_def lk_fill_devinfo_def demo_info_def hex4_def upper_hex_digit_def chars_def snprintf_s_def)
  have n: "idof demo_both 1 \<notin> {idof demo_both 4, idof demo_both 5}" "idof demo_both 5 \<notin> {idof demo_both 1, idof demo_both 2}"
    "idof demo_both 2 = idof demo_both 4" unfolding i by (simp_all add: chars_def)
  obtain st' km' news where r: "LstK_Sync 0 (Some 3) True [] None demo_both = Ret (Inr (), st')"
    "st_lists st' = (st_lists demo_both)(0 \<mapsto> km')"
    "kl_chain km' = filter (\<lambda>e. True \<longrightarrow> idof demo_both e \<in> idof demo_both ` set (kl_chain ks)) (kl_chain km) @ news"
    "distinct (map (idof st') news)" "idof st' ` set news = idof demo_both ` set (kl_chain ks) - idof demo_both ` set (kl_chain km)"
    using sync_reconciles [OF demo_calls l, of True "[]" None] by (elim exE conjE) (rule that; assumption)
  have "idof st' ` set news = {idof demo_both 5}" using r(5) n unfolding c by auto
  moreover then have "card (set (map (idof st') news)) = 1" by simp
  then have "length news = 1" unfolding distinct_card [OF r(4)] by simp
  then obtain e where "news = [e]" by (auto simp: length_Suc_conv)
  ultimately have "news = [e]" "idof st' e = idof demo_both 5" by simp_all
  moreover have "kl_chain km' = 2 # news" using r(3) n unfolding c by simp
  ultimately show ?thesis using r(1,2) i(4) by (intro exI [of _ st'] exI [of _ km'] exI [of _ e]) simp
qed

section \<open>The cursor of an element that is detached\<close>

text \<open>Detaching the element at the cursor goes back to the one before it, and the walk goes on after that one;
  but for the first element there is none, and the walk ends although the list still has elements.\<close>

lemma detaching_the_first_ends_the_walk:
  "bind_calls = lift_kc (LstK_MoveNext 0 demo_master) (\<lambda>(a, st). lift_kc (LstK_DetachInfo 0 1 st) (\<lambda>(b, st).
     lift_kc (LstK_MoveNext 0 st) (\<lambda>(c, st). Ret (a, c, map_option kl_chain (st_lists st 0)))))
   \<Longrightarrow> bind_calls = Ret (Some 1, None, Some [2])"
  by (simp add: demo_eval LstK_MoveNext_def LstK_DetachInfo_def lk_list_unlink_def)

section \<open>Patterns\<close>

text \<open>What a pattern stands for: a star for any characters, a question mark for one, a letter for itself in either case.\<close>

inductive glob :: "bytes \<Rightarrow> bytes \<Rightarrow> bool" where
  g_end: "glob [] []"
| g_star: "glob ps s \<Longrightarrow> glob (0x2A # ps) (w @ s)"
| g_any: "glob ps s \<Longrightarrow> glob (0x3F # ps) (c # s)"
| g_char: "p \<noteq> 0x2A \<Longrightarrow> upper p = upper c \<Longrightarrow> glob ps s \<Longrightarrow> glob (p # ps) (c # s)"

inductive_cases glob_cases: "glob [] s" "glob (p # ps) s"

lemma star_all: "glob [0x2A] s"
  using g_star [OF g_end, of s] by simp

lemma glob_star_cons:
  assumes "glob (0x2A # ps) cs" shows "glob (0x2A # ps) (c # cs)"
proof -
  obtain w s where "cs = w @ s" "glob ps s" using assms by (rule glob_cases(2)) simp_all
  then show ?thesis using g_star [of ps s "c # w"] by simp
qed

lemma wild_nil: "wild_loop [] s \<longleftrightarrow> s = []"
  by (rule wild_loop.simps(1))

lemma wild_last_star: "wild_loop [0x2A] s"
  by (subst wild_loop.simps(2)) simp

lemma wild_star_nil: "ps \<noteq> [] \<Longrightarrow> wild_loop (0x2A # ps) [] \<longleftrightarrow> wild_loop ps []"
  by (subst wild_loop.simps(2)) simp

lemma wild_star_cons:
  "ps \<noteq> [] \<Longrightarrow> wild_loop (0x2A # ps) (c # cs) \<longleftrightarrow> wild_loop ps (c # cs) \<or> wild_loop (0x2A # ps) cs"
  by (subst wild_loop.simps(2)) simp

lemma wild_letter_nil: "p \<noteq> 0x2A \<Longrightarrow> \<not> wild_loop (p # ps) []"
  by (subst wild_loop.simps(2)) simp

lemma wild_letter_cons:
  "p \<noteq> 0x2A \<Longrightarrow> wild_loop (p # ps) (c # cs) \<longleftrightarrow> (p = 0x3F \<or> upper p = upper c) \<and> wild_loop ps cs"
  by (subst wild_loop.simps(2)) simp

lemmas wild_steps = wild_nil wild_last_star wild_star_nil wild_star_cons wild_letter_nil wild_letter_cons

lemma wild_star_here: "wild_loop ps s \<Longrightarrow> ps \<noteq> [] \<Longrightarrow> wild_loop (0x2A # ps) s"
  by (cases s) (simp_all add: wild_steps)

lemma wild_star_append: "wild_loop ps s \<Longrightarrow> ps \<noteq> [] \<Longrightarrow> wild_loop (0x2A # ps) (w @ s)"
  by (induction w) (simp_all add: wild_steps wild_star_here)

lemma wild_then_glob: "wild_loop ps s \<Longrightarrow> glob ps s"
proof (induction ps arbitrary: s)
  case Nil
  then show ?case by (simp add: wild_nil g_end)
next
  case (Cons p ps)
  note IH = Cons.IH
  show ?case
  proof (cases "p = 0x2A")
    case True
    show ?thesis
    proof (cases "ps = []")
      case False
      from Cons.prems show ?thesis unfolding True
      proof (induction s)
        case Nil
        then show ?case using g_star [OF IH, of "[]" "[]"] False by (simp add: wild_star_nil)
      next
        case (Cons c cs)
        then consider "wild_loop ps (c # cs)" | "wild_loop (0x2A # ps) cs" using False wild_star_cons by blast
        then show ?case
        proof cases
          case 1
          then show ?thesis using g_star [OF IH, of "c # cs" "[]"] by simp
        next
          case 2
          then show ?thesis by (rule glob_star_cons [OF Cons.IH])
        qed
      qed
    qed (simp add: True star_all)
  next
    case False
    then obtain c cs where s: "s = c # cs" using Cons.prems wild_letter_nil by (cases s) auto
    then show ?thesis using Cons.prems False IH wild_letter_cons [OF False, of ps c cs] g_any g_char by blast
  qed
qed

lemma glob_then_wild: "glob ps s \<Longrightarrow> wild_loop ps s"
proof (induction rule: glob.induct)
  case (g_star ps s w)
  then show ?case by (cases "ps = []") (simp_all add: wild_star_append wild_last_star)
qed (simp_all add: wild_steps)

lemma lk_wild_is_glob: "lk_wild pat str \<longleftrightarrow> pat = [] \<or> glob pat str"
  using wild_then_glob glob_then_wild by (auto simp: lk_wild_def)

end
