(* ===== verification/Libusbk_Stream.thy ===== *)
theory Libusbk_Stream
  imports Libusbk
begin

text \<open>
  The pipe streams of \<open>libusbk.c\<close> (\<open>StmK\<close>): slots with a buffer each, two rings of slot numbers, the thread that runs
  the transfers and the application that reads or writes, as steps that may interleave in any way. A section
  between \<open>pthread_mutex_lock\<close> and \<open>unlock\<close> is one step. One application thread reads at a time; the
  callbacks only look at what they are given. Allocations succeed and threads start.
\<close>

section \<open>Rings\<close>

record ring =
  rg_slots :: "nat list"
  rg_head :: nat
  rg_count :: nat

definition kstm_push :: "nat \<Rightarrow> ring \<Rightarrow> ring" where
  "kstm_push v r = r\<lparr>rg_slots := (rg_slots r)[(rg_head r + rg_count r) mod length (rg_slots r) := v], rg_count := rg_count r + 1\<rparr>"

definition kstm_pop :: "ring \<Rightarrow> nat \<times> ring" where
  "kstm_pop r = (rg_slots r ! rg_head r,
     r\<lparr>rg_head := (rg_head r + 1) mod length (rg_slots r), rg_count := rg_count r - 1\<rparr>)"

text \<open>What a ring stands for, from the head on.\<close>

definition ring_items :: "ring \<Rightarrow> nat list" where
  "ring_items r = map (\<lambda>i. rg_slots r ! ((rg_head r + i) mod length (rg_slots r))) [0..<rg_count r]"

definition ring_ok :: "nat \<Rightarrow> ring \<Rightarrow> bool" where
  "ring_ok n r \<longleftrightarrow> 0 < n \<and> length (rg_slots r) = n \<and> rg_head r < n \<and> rg_count r \<le> n"

text \<open>A queue with room for \<open>n\<close> items: the promises of push and pop, and what their clients need.\<close>

locale bounded_queue =
  fixes n :: nat and push :: "'a \<Rightarrow> 'q \<Rightarrow> 'q" and pop :: "'q \<Rightarrow> 'a \<times> 'q" and items :: "'q \<Rightarrow> 'a list" and ok :: "'q \<Rightarrow> bool"
  assumes items_push: "ok q \<Longrightarrow> length (items q) < n \<Longrightarrow> items (push x q) = items q @ [x]"
    and ok_push: "ok q \<Longrightarrow> length (items q) < n \<Longrightarrow> ok (push x q)"
    and items_pop: "ok q \<Longrightarrow> items q \<noteq> [] \<Longrightarrow> items q = fst (pop q) # items (snd (pop q))"
    and ok_pop: "ok q \<Longrightarrow> items q \<noteq> [] \<Longrightarrow> ok (snd (pop q))"
begin

lemma popped:
  assumes "ok q" "items q \<noteq> []" "pop q = (x, q')"
  shows "ok q'" "items q = x # items q'"
  using ok_pop [OF assms(1,2)] items_pop [OF assms(1,2)] assms(3) by simp_all

text \<open>What is popped goes into the other queue: nothing is lost on the way, and there is room when both together hold at
  most \<open>n\<close>.\<close>

lemma passed_on:
  assumes "ok q" "ok r" "items q \<noteq> []" "pop q = (x, q')" "length (items q) + length (items r) \<le> n"
  shows "ok (push x r)" "items (push x r) = items r @ [x]" "items q = x # items q'" "ok q'"
proof -
  have i: "items q = x # items q'" by (rule popped(2) [OF assms(1,3,4)])
  then have "length (items r) < n" using assms(5) by simp
  then show "ok (push x r)" "items (push x r) = items r @ [x]" using items_push ok_push assms(2) by simp_all
  show "items q = x # items q'" "ok q'" using i popped(1) [OF assms(1,3,4)] .
qed

end

lemma ring_at: "i < rg_count r \<Longrightarrow> ring_items r ! i = rg_slots r ! ((rg_head r + i) mod length (rg_slots r))"
  by (simp add: ring_items_def)

lemma length_ring [simp]: "length (ring_items r) = rg_count r"
  by (simp add: ring_items_def)

lemma ring_empty: "ring_items r = [] \<longleftrightarrow> rg_count r = 0"
  by (simp add: ring_items_def)

lemma mod_other:
  fixes h :: nat
  assumes "i < c" "c < n"
  shows "(h + i) mod n \<noteq> (h + c) mod n"
proof
  assume "(h + i) mod n = (h + c) mod n"
  then have "n dvd c - i" using mod_eq_dvd_iff_nat [of "h + i" "h + c" n] assms(1) by simp
  then show False using assms nat_dvd_not_less [of "c - i" n] by simp
qed

lemma ring_push:
  assumes "ring_ok n r" "rg_count r < n"
  shows "ring_items (kstm_push v r) = ring_items r @ [v]" "ring_ok n (kstm_push v r)"
proof -
  have n: "length (rg_slots r) = n" "0 < n" using assms(1) by (simp_all add: ring_ok_def)
  have "ring_items (kstm_push v r) ! i = (ring_items r @ [v]) ! i" if "i < rg_count r + 1" for i
    using that assms(2) n mod_other [of i "rg_count r" n "rg_head r"]
    by (cases "i < rg_count r") (auto simp: nth_append ring_at kstm_push_def less_Suc_eq)
  then show "ring_items (kstm_push v r) = ring_items r @ [v]"
    by (intro nth_equalityI) (simp_all add: kstm_push_def)
  show "ring_ok n (kstm_push v r)" using assms by (simp add: ring_ok_def kstm_push_def)
qed

lemma ring_pop:
  assumes "ring_ok n r" "ring_items r \<noteq> []"
  shows "ring_items r = fst (kstm_pop r) # ring_items (snd (kstm_pop r))" "ring_ok n (snd (kstm_pop r))"
proof -
  have n: "length (rg_slots r) = n" "0 < n" "rg_head r < n" using assms(1) by (simp_all add: ring_ok_def)
  have c: "0 < rg_count r" using assms(2) ring_empty [of r] by simp
  have "ring_items r ! i = (fst (kstm_pop r) # ring_items (snd (kstm_pop r))) ! i" if "i < rg_count r" for i
    using that n by (cases i) (simp_all add: ring_at kstm_pop_def mod_simps ac_simps)
  then show "ring_items r = fst (kstm_pop r) # ring_items (snd (kstm_pop r))"
    using c by (intro nth_equalityI) (simp_all add: kstm_pop_def)
  show "ring_ok n (snd (kstm_pop r))" using assms(1) n by (auto simp: ring_ok_def kstm_pop_def)
qed

interpretation rq: bounded_queue n kstm_push kstm_pop ring_items "ring_ok n" for n
  by unfold_locales (use ring_push ring_pop in \<open>auto\<close>)

section \<open>Streams\<close>

record xfer_context =
  xc_buffer :: bytes
  xc_transfer_length :: int

text \<open>What the thread holds: nothing before it starts and after it has left, and else the slot it transfers, if any.\<close>

datatype stm_thread = Th_none | Th_waits | Th_has nat

record kstm =
  sm_pipe :: u8
  sm_max_xfer :: int
  sm_slots :: "xfer_context list"
  sm_free :: ring
  sm_ready :: ring
  sm_running :: bool
  sm_stop :: bool
  sm_thread :: stm_thread
  sm_interval :: int
  sm_reader :: "nat option"

text \<open>The outcome of a section that may wait for the condition variable.\<close>

datatype 'a locked = Waits | Gives_up | Goes 'a

definition sm_dir :: "kstm \<Rightarrow> usb_dir" where
  "sm_dir s = setup_dir (sm_pipe s)"

text \<open>The buffers come from \<open>malloc\<close>; \<open>fresh\<close> is what is in them.\<close>

definition StmK_Init :: "(nat \<Rightarrow> nat \<Rightarrow> u8) \<Rightarrow> u8 \<Rightarrow> int \<Rightarrow> int \<Rightarrow> kstm kcall" where
  "StmK_Init fresh pipe max_xfer n =
     (if max_xfer \<le> 0 \<or> n \<le> 0 then Inl ERROR_INVALID_PARAMETER
      else Inr \<lparr>sm_pipe = pipe, sm_max_xfer = max_xfer,
        sm_slots = map (\<lambda>i. \<lparr>xc_buffer = map (fresh i) [0..<nat max_xfer], xc_transfer_length = 0\<rparr>) [0..<nat n],
        sm_free = \<lparr>rg_slots = [0..<nat n], rg_head = 0, rg_count = nat n\<rparr>,
        sm_ready = \<lparr>rg_slots = replicate (nat n) 0, rg_head = 0, rg_count = 0\<rparr>,
        sm_running = False, sm_stop = False, sm_thread = Th_none, sm_interval = 0, sm_reader = None\<rparr>)"

definition StmK_Start :: "kusb \<Rightarrow> kstm \<Rightarrow> kstm cresult" where
  "StmK_Start h s =
     (if sm_running s then Ret s
      else lift_kc (lk_pipe_interval h (sm_pipe s)) (\<lambda>interval.
        Ret (s\<lparr>sm_stop := False, sm_running := True, sm_thread := Th_waits, sm_interval := interval\<rparr>)))"

text \<open>\<open>StmK_Stop\<close> sets the flag and then waits for the thread to leave.\<close>

definition StmK_Stop :: "kstm \<Rightarrow> kstm" where
  "StmK_Stop s = (if sm_running s then s\<lparr>sm_stop := True\<rparr> else s)"

definition StmK_Stop_joined :: "kstm \<Rightarrow> kstm locked" where
  "StmK_Stop_joined s = (if \<not> sm_running s then Goes s
     else if sm_thread s = Th_none then Goes (s\<lparr>sm_running := False\<rparr>) else Waits)"

section \<open>The thread\<close>

text \<open>It takes a free slot to read into, or a slot that was written.\<close>

definition kstm_take :: "kstm \<Rightarrow> (nat \<times> kstm) locked" where
  "kstm_take s =
     (if sm_stop s then Gives_up
      else if sm_dir s = USB_IN then
        (if rg_count (sm_free s) = 0 then Waits
         else let (slot, r) = kstm_pop (sm_free s) in Goes (slot, s\<lparr>sm_free := r, sm_thread := Th_has slot\<rparr>))
      else
        (if rg_count (sm_ready s) = 0 then Waits
         else let (slot, r) = kstm_pop (sm_ready s) in Goes (slot, s\<lparr>sm_ready := r, sm_thread := Th_has slot\<rparr>)))"

text \<open>The transfer of a slot, and the ring it goes to then; the result is that of the transfer.\<close>

definition kstm_transfer :: "nat \<Rightarrow> kusb \<times> kstm \<Rightarrow> int \<times> kusb \<times> kstm" where
  "kstm_transfer slot hs =
     (let (h, s) = hs; xc = sm_slots s ! slot;
          (rc, act, buf, h) = lk_submit h (sm_dir s) (ucast (sm_pipe s AND 0x0f)) None (sm_interval s) (xc_buffer xc)
             (if sm_dir s = USB_IN then sm_max_xfer s else xc_transfer_length xc);
          s = s\<lparr>sm_thread := Th_waits\<rparr>
      in if rc < 0 then
           (rc, h, s\<lparr>sm_slots := (sm_slots s)[slot := xc\<lparr>xc_buffer := buf\<rparr>], sm_free := kstm_push slot (sm_free s)\<rparr>)
         else
           (let s = s\<lparr>sm_slots := (sm_slots s)[slot := xc\<lparr>xc_buffer := buf, xc_transfer_length := act\<rparr>]\<rparr>
            in (rc, h, if sm_dir s = USB_IN then s\<lparr>sm_ready := kstm_push slot (sm_ready s)\<rparr>
                  else s\<lparr>sm_free := kstm_push slot (sm_free s)\<rparr>)))"

section \<open>The application\<close>

definition StmK_Read_take :: "kstm \<Rightarrow> (nat \<times> kstm) locked" where
  "StmK_Read_take s =
     (if rg_count (sm_ready s) = 0 then (if sm_stop s then Gives_up else Waits)
      else let (slot, r) = kstm_pop (sm_ready s) in Goes (slot, s\<lparr>sm_ready := r, sm_reader := Some slot\<rparr>))"

text \<open>The copy out of the slot: a length below zero makes \<open>memcpy\<close> undefined, as does one beyond the buffer.\<close>

definition StmK_Read_copy :: "nat \<Rightarrow> int \<Rightarrow> kstm \<Rightarrow> (bytes \<times> kstm) cresult" where
  "StmK_Read_copy slot len s =
     (let xc = sm_slots s ! slot; got = (if xc_transfer_length xc > len then len else xc_transfer_length xc)
      in if got < 0 \<or> nat got > length (xc_buffer xc) then Undefined
         else Ret (take (nat got) (xc_buffer xc), s\<lparr>sm_free := kstm_push slot (sm_free s), sm_reader := None\<rparr>))"

text \<open>A write copies into a free slot and hands it over, all in one section; \<open>data\<close> is what \<open>Buffer + Offset\<close> points to.\<close>

definition StmK_Write :: "bytes \<Rightarrow> int \<Rightarrow> kstm \<Rightarrow> (int \<times> kstm) cresult locked" where
  "StmK_Write data len s =
     (let len = (if len > sm_max_xfer s then sm_max_xfer s else len)
      in if rg_count (sm_free s) = 0 then (if sm_stop s then Gives_up else Waits)
         else if len < 0 \<or> nat len > length data then Goes Undefined
         else let (slot, r) = kstm_pop (sm_free s);
                  xc = sm_slots s ! slot
              in Goes (Ret (len, s\<lparr>sm_free := r,
                   sm_slots := (sm_slots s)[slot := \<lparr>xc_buffer = put_at 0 (take (nat len) data) (xc_buffer xc), xc_transfer_length = len\<rparr>],
                   sm_ready := kstm_push slot (sm_ready s)\<rparr>)))"

section \<open>Runs\<close>

text \<open>What is seen from outside: a transfer of the pipe with its data, whether it succeeded, what a read asked for and
  got, and what a write handed over.\<close>

datatype stm_event = Ev_transfer bool bytes | Ev_read int bytes | Ev_write bytes

text \<open>The bytes of a slot.\<close>

definition chunk_of :: "kstm \<Rightarrow> nat \<Rightarrow> bytes" where
  "chunk_of s slot = take (nat (xc_transfer_length (sm_slots s ! slot))) (xc_buffer (sm_slots s ! slot))"

inductive stm_step :: "kusb \<times> kstm \<Rightarrow> stm_event list \<Rightarrow> kusb \<times> kstm \<Rightarrow> bool" where
  s_start: "StmK_Start h s = Ret s' \<Longrightarrow> stm_step (h, s) [] (h, s')"
| s_stop: "stm_step (h, s) [] (h, StmK_Stop s)"
| s_joined: "StmK_Stop_joined s = Goes s' \<Longrightarrow> stm_step (h, s) [] (h, s')"
| t_take: "sm_thread s = Th_waits \<Longrightarrow> kstm_take s = Goes (slot, s') \<Longrightarrow> stm_step (h, s) [] (h, s')"
| t_leave: "sm_thread s = Th_waits \<Longrightarrow> kstm_take s = Gives_up \<Longrightarrow> stm_step (h, s) [] (h, s\<lparr>sm_thread := Th_none\<rparr>)"
| t_done: "sm_thread s = Th_has slot \<Longrightarrow> kstm_transfer slot (h, s) = (rc, h', s')
    \<Longrightarrow> stm_step (h, s) [Ev_transfer (rc \<ge> 0) (if sm_dir s = USB_IN then chunk_of s' slot else chunk_of s slot)] (h', s')"
| r_take: "sm_dir s = USB_IN \<Longrightarrow> sm_reader s = None \<Longrightarrow> StmK_Read_take s = Goes (slot, s') \<Longrightarrow> stm_step (h, s) [] (h, s')"
| r_copy: "sm_reader s = Some slot \<Longrightarrow> StmK_Read_copy slot len s = Ret (got, s') \<Longrightarrow> stm_step (h, s) [Ev_read len got] (h, s')"
| w_write: "sm_dir s = USB_OUT \<Longrightarrow> StmK_Write data len s = Goes (Ret (n, s'))
    \<Longrightarrow> stm_step (h, s) [Ev_write (take (nat n) data)] (h, s')"
| h_other: "stm_step (h, s) [] (h', s)"

inductive stm_run :: "kusb \<times> kstm \<Rightarrow> stm_event list \<Rightarrow> kusb \<times> kstm \<Rightarrow> bool" where
  run_none: "stm_run hs [] hs"
| run_step: "stm_run hs evs hs1 \<Longrightarrow> stm_step hs1 new hs2 \<Longrightarrow> stm_run hs (evs @ new) hs2"

end
