(* ===== verification/Libusbk_Stream_Props.thy ===== *)
theory Libusbk_Stream_Props
  imports Libusbk_Stream
begin

text \<open>
  What a stream promises, however its thread and the application interleave: every slot is in one place, the data
  passes through in order and whole, and the two sides never wait for each other.
\<close>

section \<open>Where the slots are\<close>

definition held_thread :: "kstm \<Rightarrow> nat list" where
  "held_thread s = (case sm_thread s of Th_has k \<Rightarrow> [k] | _ \<Rightarrow> [])"

definition held_reader :: "kstm \<Rightarrow> nat list" where
  "held_reader s = (case sm_reader s of Some k \<Rightarrow> [k] | None \<Rightarrow> [])"

definition places :: "kstm \<Rightarrow> nat list" where
  "places s = ring_items (sm_free s) @ ring_items (sm_ready s) @ held_thread s @ held_reader s"

definition slots_ok :: "kstm \<Rightarrow> bool" where
  "slots_ok s \<longleftrightarrow> (\<forall>x \<in> set (sm_slots s). length (xc_buffer x) = nat (sm_max_xfer s)
     \<and> (sm_dir s = USB_IN \<longrightarrow> nat (xc_transfer_length x) \<le> nat (sm_max_xfer s)))"

definition stm_ok :: "nat \<Rightarrow> kstm \<Rightarrow> bool" where
  "stm_ok n s \<longleftrightarrow> ring_ok n (sm_free s) \<and> ring_ok n (sm_ready s) \<and> length (sm_slots s) = n
     \<and> mset (places s) = mset [0..<n] \<and> (\<not> sm_running s \<longrightarrow> sm_thread s = Th_none)
     \<and> (sm_dir s = USB_OUT \<longrightarrow> sm_reader s = None) \<and> 0 < sm_max_xfer s \<and> slots_ok s"

lemmas held_defs = held_thread_def held_reader_def

lemma places_distinct: "stm_ok n s \<Longrightarrow> distinct (places s) \<and> set (places s) = {0..<n} \<and> length (places s) = n"
  by (metis stm_ok_def mset_eq_imp_distinct_iff distinct_upt mset_eq_setD set_upt size_mset length_upt diff_zero)

lemma room:
  assumes "stm_ok n s"
  shows "rg_count (sm_free s) + rg_count (sm_ready s) + length (held_thread s) + length (held_reader s) = n"
  using places_distinct [OF assms] by (simp add: places_def)

lemma dir_update [simp]: "sm_dir (sm_slots_update f s) = sm_dir s" "sm_dir (sm_free_update g s) = sm_dir s"
  "sm_dir (sm_ready_update g s) = sm_dir s" "sm_dir (sm_thread_update t s) = sm_dir s" "sm_dir (sm_reader_update r s) = sm_dir s"
  "sm_dir (sm_running_update b s) = sm_dir s" "sm_dir (sm_stop_update b s) = sm_dir s" "sm_dir (sm_interval_update i s) = sm_dir s"
  by (simp_all add: sm_dir_def)

lemma dir_cong: "sm_pipe s' = sm_pipe s \<Longrightarrow> sm_dir s' = sm_dir s"
  by (simp add: sm_dir_def)

lemma dir_other: "sm_dir s \<noteq> USB_IN \<longleftrightarrow> sm_dir s = USB_OUT"
  by (cases "sm_dir s") simp_all

text \<open>What the host library gives back for an IN transfer into a whole buffer.\<close>

lemma reply_bounds:
  assumes "dir = USB_OUT \<or> 0 \<le> len \<and> nat len \<le> length buf"
  shows "length (sr_buf (client_read_reply seq dir buf len s)) = length buf
    \<and> (dir = USB_IN \<longrightarrow> nat (case sr_actual (client_read_reply seq dir buf len s) of None \<Rightarrow> 0 | Some n \<Rightarrow> n) \<le> nat len)"
  using assms by (cases dir) (auto simp: client_read_reply_def io_error_def Let_def dest!: readn_SomeD split: option.splits)

lemma submit_bounds:
  assumes "lk_submit h dir ep stp interval buf len = (rc, act, buf', h')" "dir = USB_OUT \<or> 0 \<le> len \<and> nat len \<le> length buf"
  shows "length buf' = length buf" "dir = USB_IN \<Longrightarrow> nat act \<le> nat len"
  using assms(1) reply_bounds [OF assms(2)]
  by (auto simp: lk_submit_def usbip_client_submit_def io_error_def Let_def split: prod.splits if_splits)

lemma stream_init_ok:
  assumes "StmK_Init fresh pipe max_xfer n = Inr s"
  shows "stm_ok (nat n) s" "sm_reader s = None" "sm_thread s = Th_none" "ring_items (sm_ready s) = []" "sm_pipe s = pipe" "sm_max_xfer s = max_xfer"
proof -
  have n: "0 < n" "0 < max_xfer" and s: "s = \<lparr>sm_pipe = pipe, sm_max_xfer = max_xfer,
        sm_slots = map (\<lambda>i. \<lparr>xc_buffer = map (fresh i) [0..<nat max_xfer], xc_transfer_length = 0\<rparr>) [0..<nat n],
        sm_free = \<lparr>rg_slots = [0..<nat n], rg_head = 0, rg_count = nat n\<rparr>,
        sm_ready = \<lparr>rg_slots = replicate (nat n) 0, rg_head = 0, rg_count = 0\<rparr>,
        sm_running = False, sm_stop = False, sm_thread = Th_none, sm_interval = 0, sm_reader = None\<rparr>"
    using assms by (auto simp: StmK_Init_def split: if_splits)
  have "ring_items \<lparr>rg_slots = [0..<nat n], rg_head = 0, rg_count = nat n\<rparr> = [0..<nat n]"
    by (intro nth_equalityI) (simp_all add: ring_at)
  then show "stm_ok (nat n) s" "sm_reader s = None" "sm_thread s = Th_none" "ring_items (sm_ready s) = []" "sm_pipe s = pipe" "sm_max_xfer s = max_xfer"
    using n by (simp_all add: s stm_ok_def ring_ok_def places_def held_defs ring_empty slots_ok_def)
qed

section \<open>The steps keep the slots in place\<close>

text \<open>A slot popped from one ring into the hands of the thread or the reader.\<close>

lemma taken:
  assumes "ring_ok n r" "rg_count r \<noteq> 0" "kstm_pop r = (slot, r')"
  shows "ring_ok n r'" "ring_items r = slot # ring_items r'"
  using rq.popped [OF assms(1) _ assms(3)] assms(2) ring_empty [of r] by simp_all

lemma take_ok:
  assumes ok: "stm_ok n s" and w: "sm_thread s = Th_waits" and t: "kstm_take s = Goes (slot, s')"
  shows "stm_ok n s'" "sm_thread s' = Th_has slot" "sm_reader s' = sm_reader s" "sm_slots s' = sm_slots s" "sm_pipe s' = sm_pipe s"
    "sm_dir s = USB_IN \<Longrightarrow> sm_ready s' = sm_ready s"
    "sm_dir s = USB_OUT \<Longrightarrow> ring_items (sm_ready s) = slot # ring_items (sm_ready s')"
proof -
  have r: "ring_ok n (sm_free s)" "ring_ok n (sm_ready s)" using ok by (simp_all add: stm_ok_def)
  consider (i) r' where "sm_dir s = USB_IN" "rg_count (sm_free s) \<noteq> 0" "kstm_pop (sm_free s) = (slot, r')"
      "s' = s\<lparr>sm_free := r', sm_thread := Th_has slot\<rparr>"
    | (o) r' where "sm_dir s = USB_OUT" "rg_count (sm_ready s) \<noteq> 0" "kstm_pop (sm_ready s) = (slot, r')"
      "s' = s\<lparr>sm_ready := r', sm_thread := Th_has slot\<rparr>"
    using t dir_other [of s] by (auto simp: kstm_take_def split: if_splits prod.splits)
  note c = this
  show "stm_ok n s'" using c
  proof cases
    case i
    from taken [OF r(1) i(2,3)] have "ring_ok n r'" "ring_items (sm_free s) = slot # ring_items r'" .
    then show ?thesis using ok w i by (auto simp: stm_ok_def places_def held_defs slots_ok_def sm_dir_def)
  next
    case o
    from taken [OF r(2) o(2,3)] have "ring_ok n r'" "ring_items (sm_ready s) = slot # ring_items r'" .
    then show ?thesis using ok w o by (auto simp: stm_ok_def places_def held_defs slots_ok_def sm_dir_def)
  qed
  show "sm_thread s' = Th_has slot" "sm_reader s' = sm_reader s" "sm_slots s' = sm_slots s" "sm_pipe s' = sm_pipe s"
    "sm_dir s = USB_IN \<Longrightarrow> sm_ready s' = sm_ready s"
    using c by (cases; simp)+
  show "sm_dir s = USB_OUT \<Longrightarrow> ring_items (sm_ready s) = slot # ring_items (sm_ready s')"
    using c by cases (use taken(2) [OF r(2)] in \<open>auto\<close>)
qed

text \<open>A slot that goes back to a ring.\<close>

lemma free_pushed:
  assumes "stm_ok n s" "length (held_thread s) + length (held_reader s) \<noteq> 0"
  shows "ring_items (kstm_push slot (sm_free s)) = ring_items (sm_free s) @ [slot]" "ring_ok n (kstm_push slot (sm_free s))"
    "ring_items (kstm_push slot (sm_ready s)) = ring_items (sm_ready s) @ [slot]" "ring_ok n (kstm_push slot (sm_ready s))"
  using room [OF assms(1)] assms rq.items_push [of n _ slot] rq.ok_push [of n _ slot] by (auto simp: stm_ok_def)

lemma slots_update:
  assumes "slots_ok s" "sm_max_xfer s' = sm_max_xfer s" "sm_dir s' = sm_dir s" "sm_slots s' = (sm_slots s)[slot := x]"
    "length (xc_buffer x) = nat (sm_max_xfer s)" "sm_dir s = USB_IN \<Longrightarrow> nat (xc_transfer_length x) \<le> nat (sm_max_xfer s)"
  shows "slots_ok s'"
  using assms set_update_subset_insert [of "sm_slots s" slot x] by (auto simp: slots_ok_def)

lemma chunk_update: "k \<noteq> slot \<Longrightarrow> sm_slots s' = (sm_slots s)[slot := x] \<Longrightarrow> chunk_of s' k = chunk_of s k"
  by (simp add: chunk_of_def)

lemma slot_at: "stm_ok n s \<Longrightarrow> slot < n \<Longrightarrow> sm_slots s ! slot \<in> set (sm_slots s)"
  by (simp add: stm_ok_def)

lemma held_slot: "stm_ok n s \<Longrightarrow> sm_thread s = Th_has slot \<Longrightarrow> slot < n \<and> slot \<notin> set (held_reader s) \<and> slot \<notin> set (ring_items (sm_ready s))"
  using places_distinct [of n s] by (auto simp: places_def held_thread_def)

lemma transfer_ok:
  assumes ok: "stm_ok n s" and w: "sm_thread s = Th_has slot" and t: "kstm_transfer slot (h, s) = (rc, h', s')"
  shows "stm_ok n s'" "sm_thread s' = Th_waits" "sm_reader s' = sm_reader s" "sm_pipe s' = sm_pipe s"
    "k \<noteq> slot \<Longrightarrow> chunk_of s' k = chunk_of s k"
    "ring_items (sm_ready s') = ring_items (sm_ready s) @ (if rc \<ge> 0 \<and> sm_dir s = USB_IN then [slot] else [])"
proof -
  let ?xc = "sm_slots s ! slot"
  have s: "slot < n" using held_slot [OF ok w] by simp
  have sok: "slots_ok s" and m: "0 < sm_max_xfer s" using ok by (simp_all add: stm_ok_def)
  have xc: "length (xc_buffer ?xc) = nat (sm_max_xfer s)" "sm_dir s = USB_IN \<Longrightarrow> nat (xc_transfer_length ?xc) \<le> nat (sm_max_xfer s)"
    using sok slot_at [OF ok s] by (auto simp: slots_ok_def)
  obtain rc1 act buf h1 where l: "lk_submit h (sm_dir s) (ucast (sm_pipe s AND 0x0f)) None (sm_interval s) (xc_buffer ?xc)
      (if sm_dir s = USB_IN then sm_max_xfer s else xc_transfer_length ?xc) = (rc1, act, buf, h1)" by (metis prod_cases4)
  note push = free_pushed [OF ok, of slot, unfolded held_thread_def w, simplified]
  have b: "length buf = nat (sm_max_xfer s)" "sm_dir s = USB_IN \<Longrightarrow> nat act \<le> nat (sm_max_xfer s)"
    using submit_bounds [OF l] xc(1) m dir_other [of s] by auto
  let ?x1 = "?xc\<lparr>xc_buffer := buf\<rparr>" and ?x2 = "?xc\<lparr>xc_buffer := buf, xc_transfer_length := act\<rparr>"
  have so: "slots_ok s'" using t
    by (intro slots_update [OF sok, of s' slot "if rc < 0 then ?x1 else ?x2"])
      (use xc b in \<open>auto simp: kstm_transfer_def l Let_def split: if_splits\<close>)
  have "mset (places s) = mset [0..<n]" using ok by (simp add: stm_ok_def)
  then have "mset (places s') = mset [0..<n]" using t push w
    by (auto simp: kstm_transfer_def l Let_def places_def held_defs split: if_splits)
  then show "stm_ok n s'" using t push ok so w
    by (auto simp: kstm_transfer_def l Let_def stm_ok_def split: if_splits)
  show "sm_thread s' = Th_waits" "sm_reader s' = sm_reader s" "sm_pipe s' = sm_pipe s"
    "k \<noteq> slot \<Longrightarrow> chunk_of s' k = chunk_of s k"
    "ring_items (sm_ready s') = ring_items (sm_ready s) @ (if rc \<ge> 0 \<and> sm_dir s = USB_IN then [slot] else [])"
    using t push by (auto simp: kstm_transfer_def l Let_def chunk_of_def split: if_splits)
qed

lemma read_take_ok:
  assumes ok: "stm_ok n s" and d: "sm_dir s = USB_IN" "sm_reader s = None" and t: "StmK_Read_take s = Goes (slot, s')"
  shows "stm_ok n s'" "sm_reader s' = Some slot" "sm_thread s' = sm_thread s" "sm_slots s' = sm_slots s" "sm_pipe s' = sm_pipe s"
    "ring_items (sm_ready s) = slot # ring_items (sm_ready s')"
proof -
  obtain r' where r: "rg_count (sm_ready s) \<noteq> 0" "kstm_pop (sm_ready s) = (slot, r')" "s' = s\<lparr>sm_ready := r', sm_reader := Some slot\<rparr>"
    using t by (auto simp: StmK_Read_take_def split: if_splits prod.splits)
  have "ring_ok n (sm_ready s)" using ok by (simp add: stm_ok_def)
  from taken [OF this r(1,2)] have i: "ring_ok n r'" "ring_items (sm_ready s) = slot # ring_items r'" .
  then show "stm_ok n s'" using ok d r(3) by (auto simp: stm_ok_def places_def held_defs slots_ok_def)
  show "sm_reader s' = Some slot" "sm_thread s' = sm_thread s" "sm_slots s' = sm_slots s" "sm_pipe s' = sm_pipe s"
    "ring_items (sm_ready s) = slot # ring_items (sm_ready s')" using r(3) i(2) by simp_all
qed

lemma read_copy_ok:
  assumes ok: "stm_ok n s" and d: "sm_reader s = Some slot" and c: "StmK_Read_copy slot len s = Ret (got, s')"
  shows "stm_ok n s'" "sm_reader s' = None" "sm_thread s' = sm_thread s" "sm_slots s' = sm_slots s" "sm_pipe s' = sm_pipe s"
    "sm_ready s' = sm_ready s" "got = take (nat len) (chunk_of s slot)"
proof -
  let ?xc = "sm_slots s ! slot"
  have r: "s' = s\<lparr>sm_free := kstm_push slot (sm_free s), sm_reader := None\<rparr>"
    "got = take (nat (min len (xc_transfer_length ?xc))) (xc_buffer ?xc)"
    using c by (auto simp: StmK_Read_copy_def Let_def min_def split: if_splits)
  have "length (held_thread s) + length (held_reader s) \<noteq> 0" by (simp add: held_reader_def d)
  note push = free_pushed [OF ok this, of slot]
  show "stm_ok n s'" using ok d push by (auto simp: r(1) stm_ok_def places_def held_reader_def held_thread_def slots_ok_def)
  show "sm_reader s' = None" "sm_thread s' = sm_thread s" "sm_slots s' = sm_slots s" "sm_pipe s' = sm_pipe s" "sm_ready s' = sm_ready s"
    by (simp_all add: r(1))
  have "nat (min len (xc_transfer_length ?xc)) = min (nat len) (nat (xc_transfer_length ?xc))" by simp
  then show "got = take (nat len) (chunk_of s slot)" by (simp add: r(2) chunk_of_def min.commute)
qed

lemma write_ok:
  assumes ok: "stm_ok n s" and d: "sm_dir s = USB_OUT" and w: "StmK_Write data len s = Goes (Ret (m, s'))"
  obtains slot where "stm_ok n s'" "sm_reader s' = sm_reader s" "sm_thread s' = sm_thread s" "sm_pipe s' = sm_pipe s"
    "ring_items (sm_ready s') = ring_items (sm_ready s) @ [slot]" "chunk_of s' slot = take (nat m) data"
    "\<And>k. k \<noteq> slot \<Longrightarrow> chunk_of s' k = chunk_of s k" "slot \<in> set (ring_items (sm_free s))"
proof -
  define slot where "slot = fst (kstm_pop (sm_free s))"
  define r where "r = snd (kstm_pop (sm_free s))"
  let ?xc = "sm_slots s ! slot" and ?xc' = "\<lparr>xc_buffer = put_at 0 (take (nat m) data) (xc_buffer (sm_slots s ! slot)), xc_transfer_length = m\<rparr>"
  have p: "kstm_pop (sm_free s) = (slot, r)" by (simp add: slot_def r_def)
  have w': "rg_count (sm_free s) \<noteq> 0" "0 \<le> m" "nat m \<le> length data" "m \<le> sm_max_xfer s"
    "s' = s\<lparr>sm_free := r, sm_slots := (sm_slots s)[slot := ?xc'], sm_ready := kstm_push slot (sm_ready s)\<rparr>"
    using w by (auto simp: StmK_Write_def p Let_def split: if_splits)
  have rings: "ring_ok n (sm_free s)" "ring_ok n (sm_ready s)" using ok by (simp_all add: stm_ok_def)
  have ne: "ring_items (sm_free s) \<noteq> []" using w'(1) by (simp add: ring_empty)
  have "length (ring_items (sm_free s)) + length (ring_items (sm_ready s)) \<le> n" using room [OF ok] by simp
  note pass = rq.passed_on [OF rings ne p this]
  have slot: "slot < n" using places_distinct [OF ok] pass(3) by (auto simp: places_def)
  have sok: "slots_ok s" using ok by (simp add: stm_ok_def)
  have len: "length (xc_buffer ?xc) = nat (sm_max_xfer s)" using sok slot_at [OF ok slot] by (auto simp: slots_ok_def)
  then have fits: "length (xc_buffer ?xc') = nat (sm_max_xfer s)" using w'(3,4) by simp
  have "slots_ok s'" by (rule slots_update [OF sok, of s' slot ?xc']) (use fits w' d in simp_all)
  then have "stm_ok n s'" using ok pass w'(5) by (auto simp: stm_ok_def places_def held_defs)
  moreover have "chunk_of s' slot = take (nat m) data"
    using w'(3-5) slot ok len by (simp add: chunk_of_def stm_ok_def put_at_def)
  moreover have "chunk_of s' k = chunk_of s k" if "k \<noteq> slot" for k
    by (rule chunk_update [OF that]) (simp add: w'(5))
  ultimately show thesis using that [of slot] pass(2,3) w'(5) by simp
qed

lemma start_ok: "stm_ok n s \<Longrightarrow> StmK_Start h s = Ret s' \<Longrightarrow> stm_ok n s' \<and> sm_pipe s' = sm_pipe s \<and> sm_slots s' = sm_slots s
    \<and> sm_ready s' = sm_ready s \<and> sm_reader s' = sm_reader s \<and> held_thread s' = held_thread s"
  by (auto simp: StmK_Start_def lift_kc_def stm_ok_def places_def held_defs slots_ok_def split: if_splits cresult.splits)

lemma stop_ok: "stm_ok n s \<Longrightarrow> stm_ok n (StmK_Stop s) \<and> sm_pipe (StmK_Stop s) = sm_pipe s \<and> sm_slots (StmK_Stop s) = sm_slots s
    \<and> sm_ready (StmK_Stop s) = sm_ready s \<and> sm_reader (StmK_Stop s) = sm_reader s \<and> held_thread (StmK_Stop s) = held_thread s"
  by (auto simp: StmK_Stop_def stm_ok_def places_def held_defs slots_ok_def)

lemma joined_ok: "stm_ok n s \<Longrightarrow> StmK_Stop_joined s = Goes s' \<Longrightarrow> stm_ok n s' \<and> sm_pipe s' = sm_pipe s \<and> sm_slots s' = sm_slots s
    \<and> sm_ready s' = sm_ready s \<and> sm_reader s' = sm_reader s \<and> held_thread s' = held_thread s"
  by (auto simp: StmK_Stop_joined_def stm_ok_def places_def held_defs slots_ok_def split: if_splits)

lemma leave_ok: "stm_ok n s \<Longrightarrow> sm_thread s = Th_waits \<Longrightarrow> stm_ok n (s\<lparr>sm_thread := Th_none\<rparr>)"
  by (auto simp: stm_ok_def places_def held_defs slots_ok_def)

section \<open>What passes through\<close>

text \<open>The data of the transfers that succeeded, of all transfers, of the reads with the lengths asked for, and of the writes.\<close>

definition received :: "stm_event list \<Rightarrow> bytes list" where
  "received evs = concat (map (\<lambda>e. case e of Ev_transfer ok d \<Rightarrow> if ok then [d] else [] | _ \<Rightarrow> []) evs)"

definition transferred :: "stm_event list \<Rightarrow> bytes list" where
  "transferred evs = concat (map (\<lambda>e. case e of Ev_transfer ok d \<Rightarrow> [d] | _ \<Rightarrow> []) evs)"

definition reads :: "stm_event list \<Rightarrow> (int \<times> bytes) list" where
  "reads evs = concat (map (\<lambda>e. case e of Ev_read len d \<Rightarrow> [(len, d)] | _ \<Rightarrow> []) evs)"

definition writes :: "stm_event list \<Rightarrow> bytes list" where
  "writes evs = concat (map (\<lambda>e. case e of Ev_write d \<Rightarrow> [d] | _ \<Rightarrow> []) evs)"

lemmas trace_defs = received_def transferred_def reads_def writes_def

definition in_flow :: "kstm \<Rightarrow> stm_event list \<Rightarrow> bool" where
  "in_flow s evs \<longleftrightarrow> (\<exists>whole. received evs = whole @ map (chunk_of s) (held_reader s @ ring_items (sm_ready s))
     \<and> list_all2 (\<lambda>d (len, got). got = take (nat len) d) whole (reads evs))"

definition out_flow :: "kstm \<Rightarrow> stm_event list \<Rightarrow> bool" where
  "out_flow s evs \<longleftrightarrow> writes evs = transferred evs @ map (chunk_of s) (held_thread s @ ring_items (sm_ready s))"

definition flow :: "kstm \<Rightarrow> stm_event list \<Rightarrow> bool" where
  "flow s evs \<longleftrightarrow> (if sm_dir s = USB_IN then in_flow s evs else out_flow s evs)"

lemma nothing_passes:
  assumes "flow s evs" "sm_pipe s' = sm_pipe s" "sm_slots s' = sm_slots s"
    "sm_dir s = USB_IN \<Longrightarrow> held_reader s' @ ring_items (sm_ready s') = held_reader s @ ring_items (sm_ready s)"
    "sm_dir s = USB_OUT \<Longrightarrow> held_thread s' @ ring_items (sm_ready s') = held_thread s @ ring_items (sm_ready s)"
  shows "flow s' (evs @ [])"
proof -
  have "chunk_of s' = chunk_of s" by (simp add: chunk_of_def assms(3) fun_eq_iff)
  then show ?thesis using assms dir_cong [OF assms(2)] dir_other [of s]
    by (simp add: flow_def in_flow_def out_flow_def split: if_splits)
qed

lemma transfer_flow:
  assumes ok: "stm_ok n s" and f: "flow s evs" and w: "sm_thread s = Th_has slot" and t: "kstm_transfer slot (h, s) = (rc, h', s')"
  shows "flow s' (evs @ [Ev_transfer (rc \<ge> 0) (if sm_dir s = USB_IN then chunk_of s' slot else chunk_of s slot)])"
proof -
  note r = transfer_ok [OF ok w t]
  have k: "chunk_of s' k = chunk_of s k" if "k \<in> set (held_reader s @ ring_items (sm_ready s))" for k
  proof (rule r(5))
    show "k \<noteq> slot" using held_slot [OF ok w] that by auto
  qed
  have m: "map (chunk_of s') (held_reader s @ ring_items (sm_ready s)) = map (chunk_of s) (held_reader s @ ring_items (sm_ready s))"
    by (rule map_cong [OF refl k])
  have hr: "held_reader s' = held_reader s" by (simp add: held_reader_def r(3))
  show ?thesis
  proof (cases "sm_dir s = USB_IN")
    case True
    then obtain whole where f: "received evs = whole @ map (chunk_of s) (held_reader s @ ring_items (sm_ready s))"
      "list_all2 (\<lambda>d (len, got). got = take (nat len) d) whole (reads evs)" using f by (auto simp: flow_def in_flow_def)
    show ?thesis using True f m
      by (auto simp: flow_def in_flow_def dir_cong [OF r(4)] hr r(6) received_def reads_def intro!: exI [of _ whole])
  next
    case False
    then show ?thesis using f w r(2) m dir_other [of s]
      by (simp add: flow_def out_flow_def dir_cong [OF r(4)] r(6) writes_def transferred_def held_thread_def)
  qed
qed

lemma step_keeps:
  assumes "stm_step hs new hs'" "stm_ok n (snd hs)" "flow (snd hs) evs"
  shows "stm_ok n (snd hs') \<and> sm_pipe (snd hs') = sm_pipe (snd hs) \<and> flow (snd hs') (evs @ new)"
  using assms
proof (induction rule: stm_step.induct)
  case (s_start h s s')
  then have s: "stm_ok n s" "flow s evs" by simp_all
  note r = start_ok [OF s(1) s_start(1)]
  then show ?case using nothing_passes [OF s(2), of s'] by (simp add: held_reader_def)
next
  case (s_stop h s)
  then have s: "stm_ok n s" "flow s evs" by simp_all
  note r = stop_ok [OF s(1)]
  then show ?case using nothing_passes [OF s(2), of "StmK_Stop s"] by (simp add: held_reader_def)
next
  case (s_joined s s' h)
  then have s: "stm_ok n s" "flow s evs" by simp_all
  note r = joined_ok [OF s(1) s_joined(1)]
  then show ?case using nothing_passes [OF s(2), of s'] by (simp add: held_reader_def)
next
  case (t_take s slot s' h)
  then have s: "stm_ok n s" "flow s evs" by simp_all
  note r = take_ok [OF s(1) t_take(1,2)]
  have "flow s' (evs @ [])" using r t_take(1) dir_other [of s]
    by (intro nothing_passes [OF s(2)]) (auto simp: held_defs)
  then show ?case using r(1,5) by simp
next
  case (t_leave s h)
  then have s: "stm_ok n s" "flow s evs" by simp_all
  have "flow (s\<lparr>sm_thread := Th_none\<rparr>) (evs @ [])" using t_leave(1) by (intro nothing_passes [OF s(2)]) (auto simp: held_defs)
  then show ?case using leave_ok [OF s(1) t_leave(1)] by simp
next
  case (t_done s slot h rc h' s')
  then have s: "stm_ok n s" "flow s evs" by simp_all
  show ?case using transfer_ok(1,4) [OF s(1) t_done(1,2)] transfer_flow [OF s t_done(1,2)] by simp
next
  case (r_take s slot s' h)
  then have s: "stm_ok n s" "flow s evs" by simp_all
  note r = read_take_ok [OF s(1) r_take(1-3)]
  have "flow s' (evs @ [])" using r r_take(1,2) by (intro nothing_passes [OF s(2)]) (auto simp: held_defs)
  then show ?case using r(1,5) by simp
next
  case (r_copy s slot len got s' h)
  then have s: "stm_ok n s" "flow s evs" by simp_all
  note r = read_copy_ok [OF s(1) r_copy(1,2)]
  have i: "sm_dir s = USB_IN" using s(1) r_copy(1) dir_other [of s] by (auto simp: stm_ok_def)
  have c: "chunk_of s' = chunk_of s" by (simp add: chunk_of_def r(4) fun_eq_iff)
  obtain whole where f: "received evs = whole @ map (chunk_of s) (held_reader s @ ring_items (sm_ready s))"
    "list_all2 (\<lambda>d (len, got). got = take (nat len) d) whole (reads evs)" using s(2) i by (auto simp: flow_def in_flow_def)
  have "in_flow s' (evs @ [Ev_read len got])" unfolding in_flow_def
    by (rule exI [of _ "whole @ [chunk_of s slot]"])
      (use f r(2,6,7) r_copy(1) c in \<open>simp add: held_reader_def received_def reads_def list_all2_appendI\<close>)
  then show ?case using r(1,5) i by (simp add: flow_def dir_cong [OF r(5)])
next
  case (w_write s data len m s' h)
  then have s: "stm_ok n s" "flow s evs" by simp_all
  obtain slot where r: "stm_ok n s'" "sm_reader s' = sm_reader s" "sm_thread s' = sm_thread s" "sm_pipe s' = sm_pipe s"
    "ring_items (sm_ready s') = ring_items (sm_ready s) @ [slot]" "chunk_of s' slot = take (nat m) data"
    "\<And>k. k \<noteq> slot \<Longrightarrow> chunk_of s' k = chunk_of s k" "slot \<in> set (ring_items (sm_free s))"
    using write_ok [OF s(1) w_write(1,2)] by blast
  have "k \<noteq> slot" if "k \<in> set (held_thread s @ ring_items (sm_ready s))" for k
    using places_distinct [OF s(1)] r(8) that by (auto simp: places_def)
  then have "map (chunk_of s') (held_thread s @ ring_items (sm_ready s)) = map (chunk_of s) (held_thread s @ ring_items (sm_ready s))"
    using r(7) by (intro map_cong) auto
  then have "out_flow s' (evs @ [Ev_write (take (nat m) data)])"
    using s(2) w_write(1) r(3,5,6) by (simp add: flow_def out_flow_def held_thread_def writes_def transferred_def)
  then show ?case using r(1,4) w_write(1) by (simp add: flow_def dir_cong [OF r(4)])
next
  case (h_other h s h')
  then show ?case by simp
qed

lemma run_keeps:
  assumes "stm_run hs0 evs hs" "stm_ok n (snd hs0)" "flow (snd hs0) []"
  shows "stm_ok n (snd hs) \<and> sm_pipe (snd hs) = sm_pipe (snd hs0) \<and> flow (snd hs) evs"
  using assms by (induction rule: stm_run.induct) (use step_keeps in \<open>fastforce+\<close>)

section \<open>The properties of a stream\<close>

text \<open>When the thread has nothing to take, all slots are on the application's side.\<close>

lemma thread_starved:
  assumes "stm_ok n s" "0 < n" "sm_thread s = Th_waits" "kstm_take s = Waits"
  shows "sm_dir s = USB_IN \<Longrightarrow> StmK_Read_take s \<noteq> Waits \<or> sm_reader s \<noteq> None" "sm_dir s = USB_OUT \<Longrightarrow> StmK_Write data len s \<noteq> Waits"
  using assms room [OF assms(1)]
  by (auto simp: kstm_take_def StmK_Read_take_def StmK_Write_def held_defs Let_def stm_ok_def split: if_splits prod.splits option.splits)

lemma read_defined:
  assumes ok: "stm_ok n s" and r: "sm_reader s = Some slot" and "0 \<le> len" "0 \<le> xc_transfer_length (sm_slots s ! slot)"
  shows "StmK_Read_copy slot len s \<noteq> Undefined"
proof -
  have "slot < n" using places_distinct [OF ok] r by (auto simp: places_def held_reader_def)
  then have "sm_slots s ! slot \<in> set (sm_slots s)" using slot_at [OF ok] by simp
  moreover have "sm_dir s = USB_IN" using ok r dir_other [of s] by (auto simp: stm_ok_def)
  ultimately have "nat (xc_transfer_length (sm_slots s ! slot)) \<le> length (xc_buffer (sm_slots s ! slot))"
    using ok by (auto simp: stm_ok_def slots_ok_def)
  then show ?thesis using assms(3,4) by (auto simp: StmK_Read_copy_def Let_def)
qed


text \<open>A stream of two slots on an IN pipe whose device answers with three bytes.\<close>

definition demo_reply :: ret_submit where
  "demo_reply = \<lparr>r_conn = 0, r_seqnum = 5, r_devid = 2, r_direction = DIR_IN, r_ep = 1, r_status = 0, r_data = [1, 2, 3], r_actual = 3\<rparr>"

definition stream_handle :: kusb where
  "stream_handle = \<lparr>ku_busid = [], ku_sock = \<lparr>segs = [ret_submit_bytes demo_reply], sent = [], caps = []\<rparr>, ku_devid = 2, ku_seq = 4,
     ku_speed = 3, ku_cfg_raw = None, ku_cur_config = 0, ku_cur_iface = 0, ku_cur_alt = (\<lambda>i. 0), ku_pol = (\<lambda>i. no_policy),
     ku_auto_suspend = 0, ku_suspend_delay = 0, ku_queue = []\<rparr>"

definition demo_stream :: kstm where
  "demo_stream = \<lparr>sm_pipe = 0x81, sm_max_xfer = 4, sm_slots = replicate 2 \<lparr>xc_buffer = [0, 0, 0, 0], xc_transfer_length = 0\<rparr>,
     sm_free = \<lparr>rg_slots = [0, 1], rg_head = 0, rg_count = 2\<rparr>, sm_ready = \<lparr>rg_slots = [0, 0], rg_head = 0, rg_count = 0\<rparr>,
     sm_running = False, sm_stop = False, sm_thread = Th_none, sm_interval = 0, sm_reader = None\<rparr>"

lemma demo_dir: "setup_dir 0x81 = USB_IN"
  by (simp add: setup_dir_def)

lemma demo_submit: "\<exists>h'. lk_submit stream_handle USB_IN 1 None 0 [0, 0, 0, 0] 4 = (0, 3, [1, 2, 3, 0], h')"
  using submit_reads_reply [where s = "ku_sock stream_handle" and r = demo_reply and buf = "[0, 0, 0, 0]" and rest = "[]" and dir = USB_IN
      and devid = 2 and seqctr = 4 and ep = 1 and stp = None and interval = 0 and len = 4]
  by (simp add: lk_submit_def stream_handle_def demo_reply_def avail_def usb_dir_code_def)


end
